(* ===== verification/Prelude.thy ===== *)
theory Prelude
  imports Main "HOL-Library.Word" "HOL-Library.AList"
begin

text \<open>Shared vocabulary of the development.  Machine integers of the Go sources are
words of their width.  A Go map is an association list with distinct keys, so that
\<open>range\<close> loops over it are recursions over that list; theorems quantify over every
such list and therefore over every iteration order.  A Go panic is the value
\<open>None\<close> of an option, an \<open>error\<close> return is the left side of a sum or
the constructor \<open>Err\<close>.\<close>

unbundle bit_operations_syntax

named_theorems go_consts \<open>numeric and string constants of the sources\<close>
named_theorems alist_simps \<open>lookups in updated association lists\<close>

type_synonym u8 = "8 word"
type_synonym u16 = "16 word"
type_synonym u32 = "32 word"
type_synonym u64 = "64 word"
type_synonym ('k, 'v) gomap = "('k \<times> 'v) list"

datatype go_ret = Ok | Err int string

fun ret_ok :: "go_ret \<Rightarrow> bool" where
  "ret_ok Ok = True"
| "ret_ok (Err _ _) = False"

subsection \<open>Association lists as Go maps\<close>

abbreviation gm_get :: "('k, 'v) gomap \<Rightarrow> 'k \<Rightarrow> 'v option" where
  "gm_get \<equiv> map_of"

abbreviation gm_put :: "'k \<Rightarrow> 'v \<Rightarrow> ('k, 'v) gomap \<Rightarrow> ('k, 'v) gomap" where
  "gm_put \<equiv> AList.update"

abbreviation gm_del :: "'k \<Rightarrow> ('k, 'v) gomap \<Rightarrow> ('k, 'v) gomap" where
  "gm_del \<equiv> AList.delete"

definition gm_ok :: "('k, 'v) gomap \<Rightarrow> bool" where
  "gm_ok m = distinct (map fst m)"

lemma gm_get_put [simp, alist_simps]:
  "gm_get (gm_put k v m) k' = (if k' = k then Some v else gm_get m k')"
  by (simp add: update_conv')

lemma gm_get_del [simp, alist_simps]:
  "gm_get (gm_del k m) k' = (if k' = k then None else gm_get m k')"
  by (simp add: delete_conv')

lemma gm_ok_nil [simp]: "gm_ok []"
  by (simp add: gm_ok_def)

lemma gm_ok_put [simp]: "gm_ok m \<Longrightarrow> gm_ok (gm_put k v m)"
  by (simp add: gm_ok_def distinct_update)

lemma gm_ok_del [simp]: "gm_ok m \<Longrightarrow> gm_ok (gm_del k m)"
  by (simp add: gm_ok_def distinct_delete)

lemma gm_ok_in: "gm_ok m \<Longrightarrow> (k, v) \<in> set m \<longleftrightarrow> gm_get m k = Some v"
  by (simp add: gm_ok_def)

subsection \<open>Results and options\<close>

lemma ret_ok_iff [simp]: "ret_ok r \<longleftrightarrow> r = Ok"
  by (cases r) auto

subsection \<open>Words\<close>

lemma unat_of_nat_u64 [simp]: "n < 2 ^ 64 \<Longrightarrow> unat (of_nat n :: u64) = n"
  by (simp add: unat_of_nat take_bit_nat_eq_self)

lemma unat_ucast_u8_u32 [simp]: "unat (ucast (x :: u8) :: u32) = unat x"
proof -
  have "unat x < 2 ^ 8" using unsigned_less [of x, where ?'a = nat] by simp
  then have "unat x < 2 ^ 32" by simp
  then show ?thesis by (simp add: unsigned_ucast_eq take_bit_nat_eq_self)
qed

lemma less_Suc_u32: "x \<noteq> NOT 0 \<Longrightarrow> (x :: u32) < x + 1"
proof -
  assume "x \<noteq> NOT 0"
  then have "unat x \<noteq> unat (- 1 :: u32)" by (auto dest: unsigned_word_eqI)
  then have "unat x \<noteq> 2 ^ 32 - 1" by (simp add: unsigned_minus_1_eq_mask mask_eq_exp_minus_1)
  moreover have "unat x < 2 ^ 32" using unsigned_less [of x, where ?'a = nat] by simp
  ultimately show ?thesis by (simp add: word_less_nat_alt unat_word_ariths)
qed

end
