(* ===== verification/IdMarker.thy ===== *)
theory IdMarker
  imports Prelude
begin

text \<open>The identifier allocator \<open>Marker\<close> of \<open>pkg/utils/marker.go\<close>, which the
rule tables use to number load-balancer and firewall rules.  The free identifiers are a
singly linked list threaded through the slice \<open>markers\<close>: \<open>start\<close> is its
head, \<open>markers[i]\<close> the successor of \<open>i\<close> and all-ones the end marker.
The theory gives the three operations, the shape invariant of the threaded list, the
interface \<open>id_allocator\<close> the rule tables rely on, and its interpretation.\<close>

subsection \<open>Definitions\<close>

record Marker =
  mk_begin :: u64
  mk_end :: u64
  mk_start :: u64
  mk_len :: u64
  mk_cap :: u64
  mk_markers :: "u64 list"

definition NewMarker :: "u64 \<Rightarrow> u64 \<Rightarrow> Marker option" where
  "NewMarker b n = (if n = 0 then None
     else Some \<lparr> mk_begin = b, mk_end = n - 1, mk_start = 0, mk_len = n, mk_cap = n,
       mk_markers = (map (\<lambda>i. of_nat i + 1) [0..<unat n]) [unat (n - 1) := NOT 0] \<rparr>)"

definition GetMarker :: "Marker \<Rightarrow> ((string + u64) \<times> Marker) option" where
  "GetMarker M =
    (if mk_cap M \<le> 0 \<or> mk_start M = NOT 0 then Some (Inl ''Overflow'', M)
     else if unat (mk_start M) \<ge> length (mk_markers M) then None
     else let rid = mk_start M in
       Some (Inr (rid + mk_begin M),
         M \<lparr> mk_cap := mk_cap M - 1,
             mk_start := mk_markers M ! unat rid,
             mk_markers := (mk_markers M) [unat rid := NOT 0] \<rparr>))"

definition ReleaseMarker :: "u64 \<Rightarrow> Marker \<Rightarrow> ((string + unit) \<times> Marker) option" where
  "ReleaseMarker i M =
    (if i < mk_begin M \<or> i \<ge> mk_begin M + mk_len M then Some (Inl ''Range'', M)
     else let rid = i - mk_begin M in
       if unat rid \<ge> length (mk_markers M) then None
       else let st = rid in
         Some (Inr (),
           M \<lparr> mk_markers := (mk_markers M) [unat rid := mk_start M],
               mk_cap := mk_cap M + 1,
               mk_start := (if st = NOT 0 then mk_end M else st) \<rparr>))"

subsection \<open>The threaded free list\<close>

fun linked :: "u64 list \<Rightarrow> u64 \<Rightarrow> nat list \<Rightarrow> bool" where
  "linked ms s [] = (s = NOT 0)"
| "linked ms s (i # is) = (i < length ms \<and> s = of_nat i \<and> linked ms (ms ! i) is)"

fun walk :: "nat \<Rightarrow> u64 list \<Rightarrow> u64 \<Rightarrow> nat list" where
  "walk 0 ms s = []"
| "walk (Suc n) ms s = unat s # walk n ms (if unat s < length ms then ms ! unat s else NOT 0)"

definition free_list :: "Marker \<Rightarrow> nat list" where
  "free_list M = walk (unat (mk_cap M)) (mk_markers M) (mk_start M)"

definition marker_inv :: "Marker \<Rightarrow> bool" where
  "marker_inv M \<longleftrightarrow> linked (mk_markers M) (mk_start M) (free_list M) \<and> distinct (free_list M) \<and>
     length (mk_markers M) = unat (mk_len M) \<and> mk_end M = mk_len M - 1 \<and> 0 < mk_len M \<and>
     unat (mk_begin M) + unat (mk_len M) < 2 ^ 64"

definition free_ids :: "Marker \<Rightarrow> u64 set" where
  "free_ids M = (\<lambda>i. mk_begin M + of_nat i) ` set (free_list M)"

definition all_ids :: "Marker \<Rightarrow> u64 set" where
  "all_ids M = {i. mk_begin M \<le> i \<and> i < mk_begin M + mk_len M}"

lemma linked_walk:
  assumes "linked ms s fl" and "length ms < 2 ^ 64"
  shows "walk (length fl) ms s = fl"
  using assms by (induction fl arbitrary: s) auto

lemma length_walk [simp]: "length (walk n ms s) = n"
  by (induction n arbitrary: s) auto

lemma linked_bound: "linked ms s fl \<Longrightarrow> set fl \<subseteq> {..<length ms}"
  by (induction fl arbitrary: s) auto

lemma linked_upd:
  "i \<notin> set fl \<Longrightarrow> linked (ms [i := v]) s fl = linked ms s fl"
  by (induction fl arbitrary: s) auto

lemma free_list_cap: "length (free_list M) = unat (mk_cap M)"
  by (simp add: free_list_def)

lemma free_listI:
  assumes "linked (mk_markers M) (mk_start M) fl" "length (mk_markers M) < 2 ^ 64"
    "unat (mk_cap M) = length fl"
  shows "free_list M = fl"
  using linked_walk [OF assms(1,2)] assms(3) by (simp add: free_list_def)

lemma marker_len_bound: "marker_inv M \<Longrightarrow> length (mk_markers M) < 2 ^ 64"
  by (simp add: marker_inv_def)

lemma free_list_bound: "marker_inv M \<Longrightarrow> i \<in> set (free_list M) \<Longrightarrow> i < unat (mk_len M)"
  using linked_bound [of "mk_markers M" "mk_start M" "free_list M"] by (auto simp: marker_inv_def)

lemma marker_cap_le_len:
  assumes "marker_inv M"
  shows "unat (mk_cap M) \<le> unat (mk_len M)"
proof -
  have "card (set (free_list M)) \<le> card {..<unat (mk_len M)}"
    using free_list_bound [OF assms] by (intro card_mono) auto
  then show ?thesis
    using assms by (simp add: marker_inv_def distinct_card free_list_cap)
qed

lemma unat_id:
  assumes "marker_inv M" "i < unat (mk_len M)"
  shows "unat (mk_begin M + of_nat i) = unat (mk_begin M) + i"
  using assms by (simp add: marker_inv_def unat_word_ariths)

lemma id_inj:
  assumes "marker_inv M" "i < unat (mk_len M)" "j < unat (mk_len M)"
    "mk_begin M + of_nat i = mk_begin M + of_nat j"
  shows "i = j"
proof -
  have "unat (mk_begin M) + i = unat (mk_begin M) + j"
    by (metis unat_id [OF assms(1,2)] unat_id [OF assms(1,3)] assms(4))
  then show ?thesis by simp
qed

lemma unat_end_id: "marker_inv M \<Longrightarrow> unat (mk_begin M + mk_len M) = unat (mk_begin M) + unat (mk_len M)"
  by (simp add: marker_inv_def unat_word_ariths)

lemma idx_in_all_ids:
  assumes "marker_inv M" "i < unat (mk_len M)"
  shows "mk_begin M + of_nat i \<in> all_ids M"
  using unat_id [OF assms] unat_end_id [OF assms(1)] assms(2)
  by (simp add: all_ids_def word_le_nat_alt word_less_nat_alt)

lemma all_ids_idx:
  assumes "marker_inv M" "x \<in> all_ids M"
  shows "unat (x - mk_begin M) < unat (mk_len M)" "x = mk_begin M + of_nat (unat (x - mk_begin M))"
proof -
  have le: "mk_begin M \<le> x" and lt: "unat x < unat (mk_begin M) + unat (mk_len M)"
    using assms unat_end_id [OF assms(1)] by (auto simp: all_ids_def word_less_nat_alt)
  show "unat (x - mk_begin M) < unat (mk_len M)"
    using le lt by (simp add: unat_sub word_le_nat_alt)
  show "x = mk_begin M + of_nat (unat (x - mk_begin M))"
    by simp
qed

lemma free_ids_subset: "marker_inv M \<Longrightarrow> free_ids M \<subseteq> all_ids M"
  using idx_in_all_ids free_list_bound by (auto simp: free_ids_def)

lemma card_free_ids:
  assumes "marker_inv M"
  shows "card (free_ids M) = unat (mk_cap M)"
proof -
  have "inj_on (\<lambda>i. mk_begin M + of_nat i) (set (free_list M))"
    by (rule inj_onI) (use id_inj free_list_bound assms in blast)
  then show ?thesis
    using assms by (simp add: free_ids_def card_image marker_inv_def distinct_card free_list_cap)
qed

subsection \<open>Correctness of the operations\<close>

lemma linked_start: "linked ms s fl \<Longrightarrow> length ms < 2 ^ 64 \<Longrightarrow> s = NOT 0 \<longleftrightarrow> fl = []"
proof (cases fl)
  case (Cons i r)
  assume a: "linked ms s fl" "length ms < 2 ^ 64"
  then have "unat s = i" "i < length ms" using Cons by auto
  with a(2) Cons show ?thesis by (auto simp: unsigned_minus_1_eq_mask mask_eq_exp_minus_1)
qed simp

text \<open>A counting-up slice terminated by the end marker is the list of all indexes.\<close>

lemma linked_upto:
  assumes "k < n" "\<And>i. Suc i < n \<Longrightarrow> ms ! i = of_nat (Suc i)" "ms ! (n - 1) = NOT 0" "length ms = n"
  shows "linked ms (of_nat k) [k..<n]"
  using assms(1)
proof (induction "n - k" arbitrary: k)
  case 0
  then show ?case by simp
next
  case (Suc d)
  show ?case
  proof (cases "Suc k < n")
    case True
    then have "linked ms (of_nat (Suc k)) [Suc k..<n]"
      using Suc by (intro Suc.hyps(1)) auto
    with True show ?thesis
      using assms(2) [OF True] assms(4) by (subst upt_conv_Cons) simp_all
  next
    case False
    with Suc.prems have "n = Suc k" by simp
    then show ?thesis using assms(3,4) by simp
  qed
qed

lemma NewMarker_inv:
  assumes "0 < n" "unat b + unat n < 2 ^ 64" "NewMarker b n = Some M"
  shows "marker_inv M" "free_list M = [0..<unat n]"
proof -
  have n: "0 < unat n" using assms(1) by (simp add: word_less_nat_alt)
  have n1: "unat (n - 1) = unat n - 1" using assms(1) by (simp add: unat_minus_one)
  define ms where "ms = (map (\<lambda>i. of_nat i + 1) [0..<unat n]) [unat (n - 1) := NOT (0::u64)]"
  have M: "M = \<lparr> mk_begin = b, mk_end = n - 1, mk_start = of_nat 0, mk_len = n, mk_cap = n, mk_markers = ms \<rparr>"
    using assms(1,3) by (auto simp: NewMarker_def ms_def split: if_splits)
  have l: "length ms = unat n" by (simp add: ms_def)
  have nx: "ms ! i = of_nat (Suc i)" if "Suc i < unat n" for i
    using that n1 by (simp add: ms_def)
  have nl: "ms ! (unat n - 1) = NOT 0"
    using n n1 by (simp add: ms_def)
  have lk: "linked ms (of_nat 0) [0..<unat n]"
    by (rule linked_upto [OF n nx nl l])
  then show fl: "free_list M = [0..<unat n]"
    using assms(2) l by (intro free_listI) (simp_all add: M)
  show "marker_inv M"
    unfolding marker_inv_def fl using lk assms(1,2) l by (simp add: M)
qed

lemma GetMarker_full:
  assumes "marker_inv M" "free_ids M = {}"
  shows "GetMarker M = Some (Inl ''Overflow'', M)"
proof -
  have "free_list M = []" using assms(2) by (simp add: free_ids_def)
  then have "mk_cap M = 0" using free_list_cap [of M] by (simp add: unat_eq_zero)
  then show ?thesis by (simp add: GetMarker_def)
qed

lemma GetMarker_alloc:
  assumes inv: "marker_inv M" and ne: "free_ids M \<noteq> {}"
  shows "\<exists>i M'. GetMarker M = Some (Inr i, M') \<and> i \<in> free_ids M \<and>
    free_ids M' = free_ids M - {i} \<and> all_ids M' = all_ids M \<and> marker_inv M'"
proof -
  obtain r fl where fl: "free_list M = r # fl"
    using ne by (cases "free_list M") (auto simp: free_ids_def)
  have lk: "r < length (mk_markers M)" "mk_start M = of_nat r" "linked (mk_markers M) (mk_markers M ! r) fl"
    and d: "r \<notin> set fl" "distinct fl" and len: "length (mk_markers M) = unat (mk_len M)"
    using inv fl by (auto simp: marker_inv_def)
  have b64: "length (mk_markers M) < 2 ^ 64" using inv by (rule marker_len_bound)
  have ur: "unat (mk_start M) = r" using lk b64 by simp
  have st: "mk_start M \<noteq> NOT 0"
    using linked_start [of "mk_markers M" "mk_start M" "free_list M"] inv fl b64 by (simp add: marker_inv_def)
  have cap: "unat (mk_cap M) = Suc (length fl)" using free_list_cap [of M] fl by simp
  then have cap0: "mk_cap M \<noteq> 0" by auto
  define M' where "M' = M \<lparr> mk_cap := mk_cap M - 1, mk_start := mk_markers M ! r,
    mk_markers := (mk_markers M) [r := NOT 0] \<rparr>"
  have get: "GetMarker M = Some (Inr (mk_start M + mk_begin M), M')"
    using st cap0 lk(1) ur by (simp add: GetMarker_def Let_def M'_def)
  have lk': "linked (mk_markers M') (mk_start M') fl"
    using lk(3) d(1) by (simp add: M'_def linked_upd)
  have fl': "free_list M' = fl"
    by (rule free_listI [OF lk']) (use b64 cap cap0 in \<open>simp_all add: M'_def unat_minus_one\<close>)
  have inv': "marker_inv M'"
    using inv lk' d(2) by (simp add: marker_inv_def fl') (simp add: M'_def)
  have "free_ids M' = free_ids M - {mk_begin M + of_nat r}"
  proof -
    have "mk_begin M + of_nat r \<notin> (\<lambda>i. mk_begin M + of_nat i) ` set fl"
    proof
      assume "mk_begin M + of_nat r \<in> (\<lambda>i. mk_begin M + of_nat i) ` set fl"
      then obtain j where j: "j \<in> set fl" "mk_begin M + of_nat r = mk_begin M + of_nat j" by blast
      then have "j < unat (mk_len M)" using free_list_bound [OF inv, of j] fl by simp
      then have "r = j" using id_inj [OF inv _ _ j(2)] lk(1) len by simp
      then show False using j(1) d(1) by simp
    qed
    moreover have "mk_begin M' = mk_begin M" by (simp add: M'_def)
    ultimately show ?thesis by (auto simp: free_ids_def fl fl')
  qed
  moreover have "mk_start M + mk_begin M = mk_begin M + of_nat r" using lk(2) by simp
  moreover have "mk_begin M + of_nat r \<in> free_ids M" by (simp add: free_ids_def fl)
  moreover have "all_ids M' = all_ids M" by (simp add: all_ids_def M'_def)
  ultimately show ?thesis using get inv' by metis
qed

lemma ReleaseMarker_range:
  assumes "x \<notin> all_ids M"
  shows "ReleaseMarker x M = Some (Inl ''Range'', M)"
  using assms by (auto simp: ReleaseMarker_def all_ids_def not_less not_le)

lemma ReleaseMarker_back:
  assumes inv: "marker_inv M" and x: "x \<in> all_ids M" and nf: "x \<notin> free_ids M"
  shows "\<exists>M'. ReleaseMarker x M = Some (Inr (), M') \<and> free_ids M' = insert x (free_ids M) \<and>
    all_ids M' = all_ids M \<and> marker_inv M'"
proof -
  define r where "r = unat (x - mk_begin M)"
  have r: "r < unat (mk_len M)" "x = mk_begin M + of_nat r"
    using all_ids_idx [OF inv x] by (simp_all add: r_def)
  have rf: "r \<notin> set (free_list M)" using nf r(2) by (auto simp: free_ids_def)
  have len: "length (mk_markers M) = unat (mk_len M)" using inv by (simp add: marker_inv_def)
  have b64: "length (mk_markers M) < 2 ^ 64" using inv by (rule marker_len_bound)
  have ofr: "x - mk_begin M = of_nat r" by (simp add: r_def)
  have nn: "(of_nat r :: u64) \<noteq> NOT 0"
  proof
    assume "(of_nat r :: u64) = NOT 0"
    then have "unat (of_nat r :: u64) = 2 ^ 64 - 1"
      by (simp add: unsigned_minus_1_eq_mask mask_eq_exp_minus_1)
    then show False using r(1) len b64 by simp
  qed
  define M' where "M' = M \<lparr> mk_markers := (mk_markers M) [r := mk_start M],
    mk_cap := mk_cap M + 1, mk_start := of_nat r \<rparr>"
  have rel: "ReleaseMarker x M = Some (Inr (), M')"
    using x r(1) len b64 nn by (simp add: ReleaseMarker_def all_ids_def Let_def ofr M'_def not_le not_less)
  have "length (free_list M) < unat (mk_len M)"
  proof -
    have "card (insert r (set (free_list M))) \<le> card {..<unat (mk_len M)}"
      using free_list_bound [OF inv] r(1) by (intro card_mono) auto
    then show ?thesis using rf inv by (simp add: marker_inv_def distinct_card)
  qed
  then have cap: "unat (mk_cap M + 1) = Suc (length (free_list M))"
    using free_list_cap [of M] b64 len by (simp add: unat_word_ariths)
  have lk: "linked (mk_markers M') (mk_start M') (r # free_list M)"
    using inv r(1) rf len by (simp add: M'_def linked_upd marker_inv_def)
  have fl: "free_list M' = r # free_list M"
    by (rule free_listI [OF lk]) (use b64 cap in \<open>simp_all add: M'_def\<close>)
  have "marker_inv M'"
    unfolding marker_inv_def fl using lk rf inv by (simp add: M'_def marker_inv_def linked_upd)
  moreover have "free_ids M' = insert x (free_ids M)"
    by (simp add: free_ids_def fl r(2)) (simp add: M'_def)
  moreover have "all_ids M' = all_ids M"
    by (simp add: all_ids_def M'_def)
  ultimately show ?thesis using rel by blast
qed

subsection \<open>The allocator interface\<close>

text \<open>A client of an allocator acquires identifiers and gives back ones it holds.
\<open>Acquire\<close> keeps the identifier when one is available, \<open>GiveBack n\<close>
releases the \<open>n\<close>-th identifier held, if there is one.\<close>

datatype alloc_op = Acquire | GiveBack nat

fun alloc_run ::
  "('s \<Rightarrow> ((string + 'i) \<times> 's) option) \<Rightarrow> ('i \<Rightarrow> 's \<Rightarrow> ((string + unit) \<times> 's) option) \<Rightarrow>
   alloc_op list \<Rightarrow> 's \<times> 'i list \<Rightarrow> ('s \<times> 'i list) option" where
  "alloc_run get put [] sh = Some sh"
| "alloc_run get put (Acquire # ops) (s, held) =
     (case get s of None \<Rightarrow> None
      | Some (Inl e, s') \<Rightarrow> alloc_run get put ops (s', held)
      | Some (Inr i, s') \<Rightarrow> alloc_run get put ops (s', i # held))"
| "alloc_run get put (GiveBack n # ops) (s, held) =
     (if n < length held
      then (case put (held ! n) s of None \<Rightarrow> None
            | Some (_, s') \<Rightarrow> alloc_run get put ops (s', take n held @ drop (Suc n) held))
      else alloc_run get put ops (s, held))"

locale id_allocator =
  fixes inv :: "'s \<Rightarrow> bool" and free univ :: "'s \<Rightarrow> 'i set"
    and get :: "'s \<Rightarrow> ((string + 'i) \<times> 's) option"
    and put :: "'i \<Rightarrow> 's \<Rightarrow> ((string + unit) \<times> 's) option"
  assumes get_full: "\<lbrakk> inv s; free s = {} \<rbrakk> \<Longrightarrow> get s = Some (Inl ''Overflow'', s)"
    and get_alloc: "\<lbrakk> inv s; free s \<noteq> {} \<rbrakk> \<Longrightarrow> \<exists>i s'. get s = Some (Inr i, s') \<and> i \<in> free s \<and>
      free s' = free s - {i} \<and> univ s' = univ s \<and> inv s'"
    and put_back: "\<lbrakk> inv s; i \<in> univ s; i \<notin> free s \<rbrakk> \<Longrightarrow> \<exists>s'. put i s = Some (Inr (), s') \<and>
      free s' = insert i (free s) \<and> univ s' = univ s \<and> inv s'"
    and free_univ: "inv s \<Longrightarrow> free s \<subseteq> univ s"
begin

definition holds :: "'s \<Rightarrow> 'i list \<Rightarrow> bool" where
  "holds s held \<longleftrightarrow> inv s \<and> distinct held \<and> set held = univ s - free s"

lemma run_holds:
  assumes "holds s held"
  shows "\<exists>s' held'. alloc_run get put ops (s, held) = Some (s', held') \<and> holds s' held' \<and> univ s' = univ s"
  using assms
proof (induction ops arbitrary: s held)
  case Nil
  then show ?case by simp
next
  case (Cons op ops)
  note inv = Cons.prems [unfolded holds_def]
  show ?case
  proof (cases op)
    case Acquire
    show ?thesis
    proof (cases "free s = {}")
      case True
      then show ?thesis using Cons get_full [of s] inv Acquire by simp
    next
      case False
      then obtain i s' where g: "get s = Some (Inr i, s')" "i \<in> free s" "free s' = free s - {i}"
        "univ s' = univ s" "inv s'"
        using get_alloc inv by blast
      then have "holds s' (i # held)"
        using inv free_univ [of s] by (auto simp: holds_def)
      then show ?thesis using Cons.IH [of s' "i # held"] g Acquire by simp
    qed
  next
    case (GiveBack n)
    show ?thesis
    proof (cases "n < length held")
      case True
      then have h: "held ! n \<in> set held" by simp
      then obtain s' where p: "put (held ! n) s = Some (Inr (), s')" "free s' = insert (held ! n) (free s)"
        "univ s' = univ s" "inv s'"
        using put_back [of s "held ! n"] inv by auto
      have sp: "held = take n held @ held ! n # drop (Suc n) held"
        using True by (simp add: id_take_nth_drop [symmetric])
      have "distinct (take n held @ held ! n # drop (Suc n) held)" using inv sp by simp
      moreover have "set held = insert (held ! n) (set (take n held @ drop (Suc n) held))"
        by (subst sp) auto
      ultimately have "holds s' (take n held @ drop (Suc n) held)"
        using inv p unfolding holds_def by auto
      then show ?thesis using Cons.IH [of s' "take n held @ drop (Suc n) held"] p GiveBack True by simp
    next
      case False
      then show ?thesis using Cons GiveBack by simp
    qed
  qed
qed

end

interpretation marker: id_allocator marker_inv free_ids all_ids GetMarker ReleaseMarker
  by unfold_locales (simp_all add: GetMarker_full GetMarker_alloc ReleaseMarker_back free_ids_subset)

lemma card_all_ids:
  assumes "marker_inv M"
  shows "card (all_ids M) = unat (mk_len M)" "finite (all_ids M)"
proof -
  have all: "all_ids M = (\<lambda>i. mk_begin M + of_nat i) ` {..<unat (mk_len M)}"
    using idx_in_all_ids [OF assms] all_ids_idx [OF assms] by blast
  have "inj_on (\<lambda>i. mk_begin M + of_nat i) {..<unat (mk_len M)}"
    by (rule inj_onI) (use id_inj [OF assms] in blast)
  then show "card (all_ids M) = unat (mk_len M)" "finite (all_ids M)"
    by (simp_all add: all card_image)
qed

lemma NewMarker_holds:
  assumes "0 < n" "unat b + unat n < 2 ^ 64" "NewMarker b n = Some M"
  shows "marker.holds M []"
proof -
  note M = NewMarker_inv [OF assms]
  have "mk_len M = n" using assms(1,3) by (auto simp: NewMarker_def split: if_splits)
  then have "card (free_ids M) = card (all_ids M)"
    using card_free_ids [OF M(1)] card_all_ids [OF M(1)] free_list_cap [of M] M(2) by simp
  then have "free_ids M = all_ids M"
    using free_ids_subset [OF M(1)] card_all_ids(2) [OF M(1)] by (simp add: card_subset_eq)
  then show ?thesis using M(1) by (simp add: marker.holds_def)
qed

lemma marker_holds_count:
  assumes "marker.holds M held"
  shows "length held + unat (mk_cap M) = unat (mk_len M)"
proof -
  have inv: "marker_inv M" and d: "distinct held" "set held = all_ids M - free_ids M"
    using assms by (auto simp: marker.holds_def)
  have "length held = card (all_ids M) - card (free_ids M)"
    using d card_all_ids(2) [OF inv] free_ids_subset [OF inv]
    by (metis card_Diff_subset distinct_card finite_subset)
  then show ?thesis
    using card_free_ids [OF inv] card_all_ids [OF inv] marker_cap_le_len [OF inv] by simp
qed

lemma GetMarker_overflow_iff:
  assumes "marker_inv M"
  shows "GetMarker M = Some (Inl ''Overflow'', M) \<longleftrightarrow> unat (mk_cap M) = 0"
proof (cases "free_ids M = {}")
  case True
  then show ?thesis using GetMarker_full [OF assms] card_free_ids [OF assms] by simp
next
  case False
  then have "card (free_ids M) > 0" by (simp add: free_ids_def card_gt_0_iff)
  then show ?thesis using GetMarker_alloc [OF assms False] card_free_ids [OF assms] by auto
qed

text \<open>C7. Whatever sequence of acquisitions and releases the owner of a fresh
marker table of \<open>n\<close> identifiers performs (releasing only what it holds), no operation
panics, the identifiers held at any time are pairwise different and lie in
\<open>begin ..< begin + n\<close>, and acquisition is refused with the overflow error exactly when
all \<open>n\<close> are held.\<close>

theorem marker_unique_ids:
  assumes "0 < n" "unat b + unat n < 2 ^ 64" "NewMarker b n = Some M"
  shows "\<exists>M' held. alloc_run GetMarker ReleaseMarker ops (M, []) = Some (M', held) \<and>
    distinct held \<and> set held \<subseteq> {i. b \<le> i \<and> i < b + n} \<and>
    (GetMarker M' = Some (Inl ''Overflow'', M') \<longleftrightarrow> length held = unat n)"
proof -
  obtain M' held where r: "alloc_run GetMarker ReleaseMarker ops (M, []) = Some (M', held)"
    "marker.holds M' held" "all_ids M' = all_ids M"
    using marker.run_holds [OF NewMarker_holds [OF assms]] by blast
  have M: "all_ids M = {i. b \<le> i \<and> i < b + n}" "mk_len M = n"
    using assms(1,3) by (auto simp: NewMarker_def all_ids_def split: if_splits)
  have inv: "marker_inv M'" "distinct held" "set held = all_ids M' - free_ids M'"
    using r(2) by (auto simp: marker.holds_def)
  have "unat (mk_len M') = unat n"
    using card_all_ids(1) [OF inv(1)] card_all_ids(1) [OF NewMarker_inv(1) [OF assms]] r(3) M(2) by simp
  then have "GetMarker M' = Some (Inl ''Overflow'', M') \<longleftrightarrow> length held = unat n"
    using marker_holds_count [OF r(2)] GetMarker_overflow_iff [OF inv(1)] by linarith
  moreover have "set held \<subseteq> {i. b \<le> i \<and> i < b + n}"
    using inv(3) r(3) M(1) by blast
  ultimately show ?thesis using r(1) inv(2) by blast
qed

theorem marker_unique_ids_witness:
  "\<exists>M' held. alloc_run GetMarker ReleaseMarker [Acquire, Acquire, GiveBack 1, Acquire]
      (the (NewMarker 1 2), []) = Some (M', held) \<and> distinct held \<and> length held = 2"
proof -
  have M: "NewMarker 1 2 = Some (the (NewMarker 1 2))" by (simp add: NewMarker_def)
  have "\<exists>M' held. alloc_run GetMarker ReleaseMarker [Acquire, Acquire, GiveBack 1, Acquire]
      (the (NewMarker 1 2), []) = Some (M', held) \<and>
    distinct held \<and> set held \<subseteq> {i. 1 \<le> i \<and> i < 1 + 2} \<and>
    (GetMarker M' = Some (Inl ''Overflow'', M') \<longleftrightarrow> length held = unat (2::u64))"
    by (rule marker_unique_ids [OF _ _ M]) simp_all
  moreover have "map_option (length \<circ> snd)
      (alloc_run GetMarker ReleaseMarker [Acquire, Acquire, GiveBack 1, Acquire] (the (NewMarker 1 2), [])) = Some 2"
    by code_simp
  ultimately show ?thesis by auto
qed

end
