(* ===== verification/GoNet.thy ===== *)
theory GoNet
  imports Prelude
begin

text \<open>What the sources use of Go's \<open>net\<close>, \<open>strconv\<close> and \<open>fmt\<close>
packages: addresses as byte slices (\<open>[]\<close> is \<open>nil\<close>), networks, masks,
the textual forms of both and their parsers, and decimal rendering.\<close>

subsection \<open>Decimal and hexadecimal rendering\<close>

definition digit_char :: "nat \<Rightarrow> char" where
  "digit_char d = (if d < 10 then char_of (48 + d) else char_of (87 + d))"

fun dec :: "nat \<Rightarrow> string" where
  "dec n = (if n < 10 then [digit_char n] else dec (n div 10) @ [digit_char (n mod 10)])"

declare dec.simps [simp del]

definition dec_int :: "int \<Rightarrow> string" where
  "dec_int i = (if i < 0 then CHR ''-'' # dec (nat (- i)) else dec (nat i))"

fun hex :: "nat \<Rightarrow> string" where
  "hex n = (if n < 16 then [digit_char n] else hex (n div 16) @ [digit_char (n mod 16)])"

declare hex.simps [simp del]

definition char_digit :: "char \<Rightarrow> nat option" where
  "char_digit c = (let k = of_char c :: nat in if 48 \<le> k \<and> k \<le> 57 then Some (k - 48) else None)"

definition char_hex :: "char \<Rightarrow> nat option" where
  "char_hex c = (let k = of_char c :: nat in
     if 48 \<le> k \<and> k \<le> 57 then Some (k - 48)
     else if 97 \<le> k \<and> k \<le> 102 then Some (k - 87)
     else if 65 \<le> k \<and> k \<le> 70 then Some (k - 55) else None)"

fun undec_acc :: "nat \<Rightarrow> string \<Rightarrow> nat option" where
  "undec_acc a [] = Some a"
| "undec_acc a (c # cs) = (case char_digit c of None \<Rightarrow> None | Some d \<Rightarrow> undec_acc (10 * a + d) cs)"

definition undec :: "string \<Rightarrow> nat option" where
  "undec s = (if s = [] then None else undec_acc 0 s)"

fun split_on :: "char \<Rightarrow> string \<Rightarrow> string list" where
  "split_on c [] = [[]]"
| "split_on c (x # xs) = (if x = c then [] # split_on c xs
     else (case split_on c xs of [] \<Rightarrow> [[x]] | p # ps \<Rightarrow> (x # p) # ps))"

lemma char_digit_digit [simp]: "d < 10 \<Longrightarrow> char_digit (digit_char d) = Some d"
  by (simp add: char_digit_def digit_char_def)

lemma undec_acc_append:
  "undec_acc a (xs @ ys) = (case undec_acc a xs of None \<Rightarrow> None | Some b \<Rightarrow> undec_acc b ys)"
  by (induction xs arbitrary: a) (auto split: option.splits)

lemma undec_acc_dec: "undec_acc 0 (dec n) = Some n"
  by (induction n rule: dec.induct) (subst dec.simps, auto simp: undec_acc_append)

lemma dec_nonempty [simp]: "dec n \<noteq> []"
  by (subst dec.simps) simp

lemma undec_dec [simp]: "undec (dec n) = Some n"
  by (simp add: undec_def undec_acc_dec)

lemma dec_inj [simp]: "dec m = dec n \<longleftrightarrow> m = n"
  by (metis option.inject undec_dec)

lemma dec_digits: "c \<in> set (dec n) \<Longrightarrow> char_digit c \<noteq> None"
  by (induction n rule: dec.induct) (subst (asm) dec.simps, auto split: if_splits)

lemma char_digit_sep [simp]: "char_digit CHR ''.'' = None" "char_digit CHR ''/'' = None"
    "char_digit CHR '':'' = None" "char_digit CHR ''-'' = None" "char_digit CHR ''%'' = None"
  by (simp_all add: char_digit_def)

lemma dec_no_sep [simp]: "char_digit c = None \<Longrightarrow> c \<notin> set (dec n)"
  using dec_digits by blast

lemma split_last:
  assumes "xs @ c # ds = ys @ c # es" "c \<notin> set ds" "c \<notin> set es"
  shows "xs = ys \<and> ds = es"
  using assms by (auto simp: append_eq_append_conv2 append_eq_Cons_conv Cons_eq_append_conv)

lemma split_on_none [simp]: "c \<notin> set s \<Longrightarrow> split_on c s = [s]"
  by (induction s) auto

lemma split_on_append [simp]: "c \<notin> set s \<Longrightarrow> split_on c (s @ c # t) = s # split_on c t"
  by (induction s) auto

subsection \<open>Addresses\<close>

type_synonym IP = "u8 list"

definition v4InV6Prefix :: "u8 list" where
  "v4InV6Prefix = replicate 10 0 @ [0xff, 0xff]"

definition To4 :: "IP \<Rightarrow> IP" where
  "To4 ip = (if length ip = 4 then ip
     else if length ip = 16 \<and> take 12 ip = v4InV6Prefix then drop 12 ip else [])"

definition To16 :: "IP \<Rightarrow> IP" where
  "To16 ip = (if length ip = 4 then v4InV6Prefix @ ip else if length ip = 16 then ip else [])"

definition IP_Equal :: "IP \<Rightarrow> IP \<Rightarrow> bool" where
  "IP_Equal a b = (if length a = length b then a = b
     else if length a = 4 \<and> length b = 16 then take 12 b = v4InV6Prefix \<and> a = drop 12 b
     else if length a = 16 \<and> length b = 4 then take 12 a = v4InV6Prefix \<and> drop 12 a = b
     else False)"

definition IPv4 :: "u8 \<Rightarrow> u8 \<Rightarrow> u8 \<Rightarrow> u8 \<Rightarrow> IP" where
  "IPv4 a b c d = v4InV6Prefix @ [a, b, c, d]"

definition IsUnspecified :: "IP \<Rightarrow> bool" where
  "IsUnspecified ip = (IP_Equal ip (IPv4 0 0 0 0) \<or> IP_Equal ip (replicate 16 0))"

definition ip4_string :: "u8 list \<Rightarrow> string" where
  "ip4_string b = dec (unat (b ! 0)) @ ''.'' @ dec (unat (b ! 1)) @ ''.'' @
     dec (unat (b ! 2)) @ ''.'' @ dec (unat (b ! 3))"

fun ip6_groups :: "u8 list \<Rightarrow> nat list" where
  "ip6_groups (a # b # r) = (256 * unat a + unat b) # ip6_groups r"
| "ip6_groups _ = []"

text \<open>The longest run of at least two zero groups, the first one when there are several.\<close>

definition zero_run :: "nat list \<Rightarrow> nat" where
  "zero_run gs = length (takeWhile (\<lambda>g. g = 0) gs)"

fun best_run :: "nat list \<Rightarrow> nat \<Rightarrow> nat \<times> nat \<Rightarrow> nat \<times> nat" where
  "best_run [] i best = best"
| "best_run (g # gs) i (st, l) =
     (let z = zero_run (g # gs) in
      best_run gs (Suc i) (if 2 \<le> z \<and> l < z then (i, z) else (st, l)))"

fun join_groups :: "nat list \<Rightarrow> string" where
  "join_groups [] = []"
| "join_groups [g] = hex g"
| "join_groups (g # gs) = hex g @ '':'' @ join_groups gs"

definition ip6_string :: "u8 list \<Rightarrow> string" where
  "ip6_string b = (let gs = ip6_groups b; (st, l) = best_run gs 0 (8, 0) in
     if l = 0 then join_groups gs
     else join_groups (take st gs) @ ''::'' @ join_groups (drop (st + l) gs))"

fun hex2 :: "u8 list \<Rightarrow> string" where
  "hex2 [] = []"
| "hex2 (b # bs) = [digit_char (unat b div 16), digit_char (unat b mod 16)] @ hex2 bs"

definition IP_String :: "IP \<Rightarrow> string" where
  "IP_String ip = (if ip = [] then ''<nil>''
     else if length ip \<noteq> 4 \<and> length ip \<noteq> 16 then ''?'' @ hex2 ip
     else if To4 ip \<noteq> [] then ip4_string (To4 ip) else ip6_string ip)"

subsection \<open>Parsing addresses\<close>

definition parse_octet :: "string \<Rightarrow> u8 option" where
  "parse_octet s = (if s = [] \<or> (length s > 1 \<and> hd s = CHR ''0'') then None
     else (case undec s of None \<Rightarrow> None | Some n \<Rightarrow> if n \<le> 255 then Some (of_nat n) else None))"

definition parseIPv4 :: "string \<Rightarrow> u8 list option" where
  "parseIPv4 s = (case map parse_octet (split_on CHR ''.'' s) of
      [Some a, Some b, Some c, Some d] \<Rightarrow> Some [a, b, c, d] | _ \<Rightarrow> None)"

fun hex_field :: "string \<Rightarrow> nat \<Rightarrow> nat \<Rightarrow> nat \<times> nat \<times> string" where
  "hex_field [] acc off = (acc, off, [])"
| "hex_field (c # cs) acc off = (case char_hex c of
      None \<Rightarrow> (acc, off, c # cs) | Some d \<Rightarrow> hex_field cs (16 * acc + d) (Suc off))"

text \<open>One round of the field loop consumes a group; \<open>fuel\<close> bounds the eight rounds
an address has at most.  The result is the bytes read and the position of the ellipsis.\<close>

fun parse6_loop :: "nat \<Rightarrow> string \<Rightarrow> u8 list \<Rightarrow> nat option \<Rightarrow> (u8 list \<times> nat option) option" where
  "parse6_loop fuel s bs ell =
    (if length bs \<ge> 16 \<or> fuel = 0 then (if s = [] then Some (bs, ell) else None)
     else (case hex_field s 0 0 of (acc, off, r) \<Rightarrow>
       if off = 0 \<or> off > 4 then None
       else if r \<noteq> [] \<and> hd r = CHR ''.'' then
         (if (ell = None \<and> length bs \<noteq> 12) \<or> length bs + 4 > 16 then None
          else (case parseIPv4 s of None \<Rightarrow> None | Some q \<Rightarrow> Some (bs @ q, ell)))
       else
         (let bs' = bs @ [of_nat (acc div 256), of_nat (acc mod 256)] in
          if r = [] then Some (bs', ell)
          else if hd r \<noteq> CHR '':'' \<or> length r = 1 then None
          else (let t = tl r in
            if hd t = CHR '':'' then
              (if ell \<noteq> None then None
               else if tl t = [] then Some (bs', Some (length bs'))
               else parse6_loop (fuel - 1) (tl t) bs' (Some (length bs')))
            else parse6_loop (fuel - 1) t bs' ell))))"

declare parse6_loop.simps [simp del]

definition fill6 :: "u8 list \<times> nat option \<Rightarrow> u8 list option" where
  "fill6 p = (case p of
      (bs, None) \<Rightarrow> if length bs = 16 then Some bs else None
    | (bs, Some e) \<Rightarrow> if length bs < 16
        then Some (take e bs @ replicate (16 - length bs) 0 @ drop e bs) else None)"

definition parseIPv6 :: "string \<Rightarrow> u8 list option" where
  "parseIPv6 s = (if take 2 s = ''::'' then
      (if drop 2 s = [] then Some (replicate 16 0)
       else Option.bind (parse6_loop 8 (drop 2 s) [] (Some 0)) fill6)
     else Option.bind (parse6_loop 8 s [] None) fill6)"

fun addr_kind :: "string \<Rightarrow> char option" where
  "addr_kind [] = None"
| "addr_kind (c # cs) = (if c \<in> {CHR ''.'', CHR '':'', CHR ''%''} then Some c else addr_kind cs)"

definition ParseIP :: "string \<Rightarrow> IP" where
  "ParseIP s = (case addr_kind s of
      None \<Rightarrow> []
    | Some c \<Rightarrow> if c = CHR ''.'' then
         (case parseIPv4 s of None \<Rightarrow> [] | Some b \<Rightarrow> v4InV6Prefix @ b)
       else if c = CHR '':'' \<and> CHR ''%'' \<notin> set s then
         (case parseIPv6 s of None \<Rightarrow> [] | Some b \<Rightarrow> b)
       else [])"

subsection \<open>Networks\<close>

record IPNet =
  net_IP :: IP
  net_Mask :: "u8 list"

fun mask_bytes :: "nat \<Rightarrow> nat \<Rightarrow> u8 list" where
  "mask_bytes ones 0 = []"
| "mask_bytes ones (Suc k) = (if ones \<ge> 8 then 0xff # mask_bytes (ones - 8) k
     else NOT (drop_bit ones 0xff) # mask_bytes 0 k)"

definition CIDRMask :: "nat \<Rightarrow> nat \<Rightarrow> u8 list" where
  "CIDRMask ones bits = (if bits \<noteq> 32 \<and> bits \<noteq> 128 then []
     else if ones > bits then [] else mask_bytes ones (bits div 8))"

text \<open>\<open>simpleMaskLength\<close>: the number of leading ones, \<open>None\<close> for a mask with holes.\<close>

fun byte_ones :: "nat \<Rightarrow> u8 \<Rightarrow> nat" where
  "byte_ones 0 b = 0"
| "byte_ones (Suc k) b = (if bit b k then Suc (byte_ones k b) else 0)"

fun simpleMaskLength :: "u8 list \<Rightarrow> nat option" where
  "simpleMaskLength [] = Some 0"
| "simpleMaskLength (b # m) =
     (if b = 0xff then map_option (\<lambda>n. n + 8) (simpleMaskLength m)
      else (let k = byte_ones 8 b in
        if b = NOT (drop_bit k 0xff) \<and> list_all (\<lambda>x. x = 0) m then Some k else None))"

definition Mask_Size :: "u8 list \<Rightarrow> nat \<times> nat" where
  "Mask_Size m = (case simpleMaskLength m of None \<Rightarrow> (0, 0) | Some n \<Rightarrow> (n, 8 * length m))"

definition IP_Mask :: "IP \<Rightarrow> u8 list \<Rightarrow> IP" where
  "IP_Mask ip mk =
    (let mk' = (if length mk = 16 \<and> length ip = 4 \<and> list_all (\<lambda>x. x = 0xff) (take 12 mk)
                  then drop 12 mk else mk);
         ip' = (if length mk' = 4 \<and> length ip = 16 \<and> take 12 ip = v4InV6Prefix then drop 12 ip else ip)
     in if length ip' \<noteq> length mk' then [] else map2 (AND) ip' mk')"

definition networkNumberAndMask :: "IPNet \<Rightarrow> u8 list \<times> u8 list" where
  "networkNumberAndMask n =
    (let ip = (if To4 (net_IP n) \<noteq> [] then To4 (net_IP n) else net_IP n); m = net_Mask n in
     if length ip \<noteq> 4 \<and> length ip \<noteq> 16 then ([], [])
     else if length m = 4 then (if length ip \<noteq> 4 then ([], []) else (ip, m))
     else if length m = 16 then (if length ip = 4 then (ip, drop 12 m) else (ip, m))
     else ([], []))"

definition IPNet_Contains :: "IPNet \<Rightarrow> IP \<Rightarrow> bool" where
  "IPNet_Contains n ip =
    (let (nn, m) = networkNumberAndMask n; x = (if To4 ip \<noteq> [] then To4 ip else ip) in
     length x = length nn \<and> map2 (AND) nn m = map2 (AND) x m)"

definition IPNet_String :: "IPNet \<Rightarrow> string" where
  "IPNet_String n = (let (nn, m) = networkNumberAndMask n in
     if nn = [] \<or> m = [] then ''<nil>''
     else (case simpleMaskLength m of
         None \<Rightarrow> IP_String nn @ ''/'' @ hex2 m
       | Some l \<Rightarrow> IP_String nn @ ''/'' @ dec l))"

text \<open>\<open>ParseCIDR\<close> splits at the first slash; the prefix length is decimal and at most
the width of the address.\<close>

fun split_first :: "char \<Rightarrow> string \<Rightarrow> (string \<times> string) option" where
  "split_first c [] = None"
| "split_first c (x # xs) = (if x = c then Some ([], xs)
     else map_option (\<lambda>(a, b). (x # a, b)) (split_first c xs))"

definition ParseCIDR :: "string \<Rightarrow> (IP \<times> IPNet) option" where
  "ParseCIDR s = (case split_first CHR ''/'' s of
      None \<Rightarrow> None
    | Some (a, ms) \<Rightarrow>
       (let ip = ParseIP a; v4 = addr_kind a = Some CHR ''.''; w = (if v4 then 32 else 128) in
        if ip = [] then None
        else (case undec ms of
            None \<Rightarrow> None
          | Some n \<Rightarrow> if n > w then None
             else (let m = CIDRMask n w in
               Some (ip, \<lparr> net_IP = IP_Mask (if v4 then drop 12 ip else ip) m, net_Mask = m \<rparr>)))))"

subsection \<open>Facts about addresses\<close>

lemma length_v4InV6Prefix [simp]: "length v4InV6Prefix = 12"
  by (simp add: v4InV6Prefix_def)

lemma To4_mapped [simp]: "length b = 4 \<Longrightarrow> To4 (v4InV6Prefix @ b) = b"
  by (simp add: To4_def)

lemma To4_4 [simp]: "length b = 4 \<Longrightarrow> To4 b = b"
  by (simp add: To4_def)

lemma IPv4_inj [simp]: "IPv4 a b c d = IPv4 a' b' c' d' \<longleftrightarrow> a = a' \<and> b = b' \<and> c = c' \<and> d = d'"
  by (simp add: IPv4_def)

lemma IP_Equal_refl [simp]: "IP_Equal a a"
  by (simp add: IP_Equal_def)

lemma IP_Equal_sym: "IP_Equal a b \<Longrightarrow> IP_Equal b a"
  by (auto simp: IP_Equal_def split: if_splits)

lemma IP_Equal_trans: "IP_Equal a b \<Longrightarrow> IP_Equal b c \<Longrightarrow> IP_Equal a c"
  by (auto simp: IP_Equal_def split: if_splits) (metis append_take_drop_id)+

lemma dec_hd0: "1 < length (dec n) \<Longrightarrow> hd (dec n) \<noteq> CHR ''0''"
proof (induction n rule: dec.induct)
  case (1 n)
  have z: "digit_char d \<noteq> CHR ''0''" if "0 < d" "d < 10" for d
  proof -
    have "char_digit (digit_char d) \<noteq> char_digit CHR ''0''" using that by (simp add: char_digit_def [of "CHR ''0''"])
    then show ?thesis by metis
  qed
  show ?case
  proof (cases "n < 10")
    case True
    then show ?thesis using 1(2) by (simp add: dec.simps [of n])
  next
    case False
    then have d: "dec n = dec (n div 10) @ [digit_char (n mod 10)]" by (simp add: dec.simps [of n])
    show ?thesis
    proof (cases "n div 10 < 10")
      case True
      then have "dec (n div 10) = [digit_char (n div 10)]" by (simp add: dec.simps [of "n div 10"])
      then show ?thesis using d z [of "n div 10"] False True by simp
    next
      case F2: False
      then have "1 < length (dec (n div 10))" by (simp add: dec.simps [of "n div 10"])
      then show ?thesis using 1(1) [OF False] d by simp
    qed
  qed
qed

lemma parse_octet_dec [simp]: "parse_octet (dec (unat (b::u8))) = Some b"
proof -
  have "unat b < 256" using unsigned_less [of b] by simp
  then show ?thesis using dec_hd0 [of "unat b"] by (auto simp: parse_octet_def)
qed

lemma parseIPv4_string:
  assumes "length b = 4"
  shows "parseIPv4 (ip4_string b) = Some b"
proof -
  obtain w x y z where b: "b = [w, x, y, z]"
    using assms by (auto simp: length_Suc_conv numeral_eq_Suc)
  show ?thesis by (simp add: b parseIPv4_def ip4_string_def)
qed

lemma addr_kind_append:
  "\<forall>c \<in> set s. char_digit c \<noteq> None \<Longrightarrow> addr_kind (s @ t) = addr_kind t"
  by (induction s) auto

lemma ParseIP_ip4_string:
  assumes "length b = 4"
  shows "ParseIP (ip4_string b) = v4InV6Prefix @ b"
proof -
  have "addr_kind (ip4_string b) = Some CHR ''.''"
    unfolding ip4_string_def by (subst addr_kind_append) (use dec_digits in auto)
  then show ?thesis by (simp add: ParseIP_def parseIPv4_string [OF assms])
qed

lemma ip4_string_inj:
  "length a = 4 \<Longrightarrow> length b = 4 \<Longrightarrow> ip4_string a = ip4_string b \<longleftrightarrow> a = b"
  by (metis option.inject parseIPv4_string)

lemma IP_String_v4:
  "length b = 4 \<Longrightarrow> IP_String b = ip4_string b" "length b = 4 \<Longrightarrow> IP_String (v4InV6Prefix @ b) = ip4_string b"
  by (auto simp: IP_String_def)

subsection \<open>Big-endian integers\<close>

definition put_u32 :: "u32 \<Rightarrow> u8 list" where
  "put_u32 v = [ucast (drop_bit 24 v), ucast (drop_bit 16 v), ucast (drop_bit 8 v), ucast v]"

definition get_u32 :: "u8 list \<Rightarrow> u32" where
  "get_u32 b = push_bit 24 (ucast (b ! 0)) OR push_bit 16 (ucast (b ! 1)) OR
     push_bit 8 (ucast (b ! 2)) OR ucast (b ! 3)"

lemma get_put_u32 [simp]: "get_u32 (put_u32 v @ r) = v"
proof (rule bit_word_eqI)
  fix n
  assume "n < LENGTH(32)"
  consider "n < 8" | "8 \<le> n" "n < 16" | "16 \<le> n" "n < 24" | "24 \<le> n" by linarith
  then show "bit (get_u32 (put_u32 v @ r)) n = bit v n"
    by cases (use \<open>n < LENGTH(32)\<close> in \<open>auto simp: get_u32_def put_u32_def bit_simps\<close>)
qed

lemma length_put_u32 [simp]: "length (put_u32 v) = 4"
  by (simp add: put_u32_def)

lemma get_put_u32_nil [simp]: "get_u32 (put_u32 v) = v"
  using get_put_u32 [of v "[]"] by simp

end
