(* ===== verification/Bfd.thy ===== *)
theory Bfd
  imports GoNet "HOL-Library.Sublist"
begin

text \<open>The BFD liveness protocol of \<open>pkg/proto/bfd.go\<close>: session table, control
packet codec, session state machine, timeout, master election and the per-session notifier
goroutine.  Time is an integer number of nanoseconds supplied by the caller of
\<open>time.Now\<close>; the socket, the interface list and the library function
\<open>IPtonl\<close> are the parameter \<open>bfd_env\<close>.\<close>

subsection \<open>Constants and data\<close>

datatype SessionState = BFDAdminDown | BFDDown | BFDInit | BFDUp

primrec state_u8 :: "SessionState \<Rightarrow> u8" where
  "state_u8 BFDAdminDown = 0"
| "state_u8 BFDDown = 1"
| "state_u8 BFDInit = 2"
| "state_u8 BFDUp = 3"

definition u8_state :: "u8 \<Rightarrow> SessionState" where
  "u8_state b = (if b = 0 then BFDAdminDown else if b = 1 then BFDDown else if b = 2 then BFDInit else BFDUp)"

primrec BFDStateMap :: "SessionState \<Rightarrow> string" where
  "BFDStateMap BFDAdminDown = ''BFDAdminDown''"
| "BFDStateMap BFDDown = ''BFDDown''"
| "BFDStateMap BFDInit = ''BFDInit''"
| "BFDStateMap BFDUp = ''BFDUp''"

definition BFDMinSysTXIntervalUs :: u32 where [go_consts]: "BFDMinSysTXIntervalUs = 100000"
definition BFDMinSysRXIntervalUs :: u32 where [go_consts]: "BFDMinSysRXIntervalUs = 200000"
definition BFDIncrDiscVal :: u32 where [go_consts]: "BFDIncrDiscVal = 1"

definition CIMasterStateString :: string where [go_consts]: "CIMasterStateString = ''MASTER''"
definition CIBackupStateString :: string where [go_consts]: "CIBackupStateString = ''BACKUP''"
definition CIUnDefStateString :: string where [go_consts]: "CIUnDefStateString = ''NOT_DEFINED''"

record ConfigArgs =
  ca_RemoteIP :: string
  ca_SourceIP :: string
  ca_Port :: u16
  ca_Interval :: u32
  ca_Multi :: u8
  ca_Instance :: string

record WireRaw =
  w_Version :: u8
  w_Length :: u8
  w_State :: SessionState
  w_Multi :: u8
  w_Disc :: u32
  w_RDisc :: u32
  w_DesMinTxInt :: u32
  w_ReqMinRxInt :: u32
  w_ReqMinEchoInt :: u32

text \<open>The channel \<open>ntfSig\<close> has capacity one and carries no data: the flag says
whether it is full.  The tickers are their periods in microseconds.\<close>

record bfdSession =
  RemoteName :: string
  Instance :: string
  State :: SessionState
  CiState :: string
  MyMulti :: u8
  RemMulti :: u8
  MyIP :: IP
  MyDisc :: u32
  RemDisc :: u32
  DesMinTxInt :: u32
  RemDesMinTxInt :: u32
  ReqMinRxInt :: u32
  TimeOut :: u32
  ReqMinEchoInt :: u32
  LastRxTS :: int
  TxTicker :: u32
  RxTicker :: u32
  PktDat :: "u8 list"
  ntfPending :: string
  ntfSig :: bool

type_synonym BFDStruct = "(string, bfdSession) gomap"

record bfd_env =
  env_IPtonl :: "IP \<Rightarrow> u32"
  env_InterfaceAddrs :: "IPNet option list option"
  env_Dial :: "string \<Rightarrow> bool"

definition zero_session :: bfdSession where
  "zero_session = \<lparr> RemoteName = [], Instance = [], State = BFDAdminDown, CiState = [], MyMulti = 0,
     RemMulti = 0, MyIP = [], MyDisc = 0, RemDisc = 0, DesMinTxInt = 0, RemDesMinTxInt = 0,
     ReqMinRxInt = 0, TimeOut = 0, ReqMinEchoInt = 0, LastRxTS = 0, TxTicker = 0, RxTicker = 0,
     PktDat = replicate 24 0, ntfPending = [], ntfSig = False \<rparr>"

subsection \<open>Control packets\<close>

definition encodeCtrlPacket :: "bfdSession \<Rightarrow> bfdSession" where
  "encodeCtrlPacket b = b \<lparr> PktDat :=
     [push_bit 5 1 OR 0, push_bit 6 (state_u8 (State b)), MyMulti b, 24] @
     put_u32 (MyDisc b) @ put_u32 (RemDisc b) @ put_u32 (DesMinTxInt b) @
     put_u32 (ReqMinRxInt b) @ put_u32 (ReqMinEchoInt b) @ drop 24 (PktDat b) \<rparr>"

definition decodeCtrlPacket :: "u8 list \<Rightarrow> nat \<Rightarrow> WireRaw option" where
  "decodeCtrlPacket buf sz = (if sz < 24 then None else Some
     \<lparr> w_Version = drop_bit 5 (buf ! 0) AND 0x7,
       w_Length = buf ! 3,
       w_State = u8_state (drop_bit 6 (buf ! 1) AND 0x3),
       w_Multi = buf ! 2,
       w_Disc = get_u32 (drop 4 buf),
       w_RDisc = get_u32 (drop 8 buf),
       w_DesMinTxInt = get_u32 (drop 12 buf),
       w_ReqMinRxInt = get_u32 (drop 16 buf),
       w_ReqMinEchoInt = get_u32 (drop 20 buf) \<rparr>)"

subsection \<open>State machine and election\<close>

text \<open>The role an election decides on, if any: the condition chain of
\<open>electLocked\<close> before it stores the result.\<close>

definition elect :: "bfdSession \<Rightarrow> SessionState \<Rightarrow> SessionState \<Rightarrow> string option" where
  "elect b newState oldState =
    (if newState = oldState \<or> RemDisc b = 0 then None
     else if newState = BFDUp then
       Some (if MyDisc b > RemDisc b then CIMasterStateString else CIBackupStateString)
     else if newState = BFDDown \<and> oldState = BFDUp then Some CIMasterStateString
     else if RemDisc b = MyDisc b then Some CIUnDefStateString
     else None)"

definition electLocked :: "SessionState \<Rightarrow> SessionState \<Rightarrow> bfdSession \<Rightarrow> bfdSession" where
  "electLocked newState oldState b = (case elect b newState oldState of
      None \<Rightarrow> b
    | Some ci \<Rightarrow> b \<lparr> CiState := ci, ntfPending := ci, ntfSig := True \<rparr>)"

text \<open>The fields a received packet refreshes, and the session state it leads to with the
old state the election compares against.\<close>

definition rx_update :: "int \<Rightarrow> WireRaw \<Rightarrow> bfdSession \<Rightarrow> bfdSession" where
  "rx_update now raw b =
    b \<lparr> RemMulti := w_Multi raw, RemDisc := w_Disc raw, RemDesMinTxInt := w_DesMinTxInt raw,
        TimeOut := (if w_DesMinTxInt raw > ReqMinRxInt b
          then ucast (w_Multi raw) * w_DesMinTxInt raw
          else ucast (w_Multi raw) * ReqMinRxInt b),
        LastRxTS := now \<rparr>"

definition next_state :: "WireRaw \<Rightarrow> bfdSession \<Rightarrow> SessionState \<times> SessionState" where
  "next_state raw b = (case w_State raw of
      BFDDown \<Rightarrow> (if State b = BFDDown then BFDInit else State b, State b)
    | BFDInit \<Rightarrow> (BFDUp, State b)
    | BFDAdminDown \<Rightarrow> (BFDInit, State b)
    | BFDUp \<Rightarrow> (BFDUp, if CiState b = CIMasterStateString \<and> MyDisc b \<le> RemDisc b
                       then BFDDown else State b))"

definition RunSessionSM :: "int \<Rightarrow> WireRaw \<Rightarrow> bfdSession \<Rightarrow> bfdSession" where
  "RunSessionSM now raw b =
    (let b1 = rx_update now raw b; (new, old) = next_state raw b1 in
     electLocked new old (b1 \<lparr> State := new \<rparr>))"

definition micros :: "int \<Rightarrow> int" where
  "micros d = (if 0 \<le> d then d div 1000 else - ((- d) div 1000))"

definition checkSessTimeout :: "int \<Rightarrow> bfdSession \<Rightarrow> bfdSession" where
  "checkSessTimeout now b =
    (let b1 = (if State b = BFDUp \<and> micros (now - LastRxTS b) > uint (TimeOut b)
               then b \<lparr> State := BFDDown, MyDisc := RemDisc b + BFDIncrDiscVal \<rparr> else b)
     in electLocked (State b1) (State b) b1)"

subsection \<open>Session set-up and tear-down\<close>

fun pick_disc :: "IP \<Rightarrow> IPNet option list \<Rightarrow> IP \<Rightarrow> IP" where
  "pick_disc ip [] first = first"
| "pick_disc ip (None # as) first = pick_disc ip as first"
| "pick_disc ip (Some n # as) first =
     (if To4 (net_IP n) \<noteq> [] \<or> To16 (net_IP n) \<noteq> [] then
        (if IPNet_Contains n ip then net_IP n
         else pick_disc ip as (if first = [] then net_IP n else first))
      else pick_disc ip as first)"

definition getMyDisc :: "bfd_env \<Rightarrow> IP \<Rightarrow> IP" where
  "getMyDisc env ip = (case env_InterfaceAddrs env of None \<Rightarrow> [] | Some as \<Rightarrow> pick_disc ip as [])"

definition bfd_initialize ::
  "bfd_env \<Rightarrow> string \<Rightarrow> string \<Rightarrow> u16 \<Rightarrow> u32 \<Rightarrow> u8 \<Rightarrow> bfdSession \<Rightarrow> string + bfdSession" where
  "bfd_initialize env remoteIP sourceIP port interval multi b =
    (let rn = remoteIP @ '':'' @ dec (unat port); ip = ParseIP remoteIP; src = ParseIP sourceIP in
     if ip = [] then Inl ''address malformed''
     else if src = [] then Inl ''source address malformed''
     else (let myIP = (if IsUnspecified src then getMyDisc env ip else src) in
       if myIP = [] then Inl ''my discriminator not found''
       else if \<not> env_Dial env rn then Inl ''failed to dial BFD''
       else Inr (b \<lparr> RemoteName := rn, MyIP := myIP, MyDisc := env_IPtonl env myIP, RemDisc := 0,
         MyMulti := multi, DesMinTxInt := interval, ReqMinRxInt := interval,
         ReqMinEchoInt := interval, State := BFDDown, ntfSig := False,
         TxTicker := interval, RxTicker := BFDMinSysRXIntervalUs \<rparr>)))"

text \<open>\<open>destruct\<close> returns the packet that tells the peer about the administrative down.\<close>

definition bfd_destruct :: "bfdSession \<Rightarrow> bfdSession \<times> u8 list" where
  "bfd_destruct b = (let b' = encodeCtrlPacket (b \<lparr> State := BFDAdminDown \<rparr>) in (b', PktDat b'))"

text \<open>Changing the timers of a live session restarts its ticker from the down state.\<close>

definition bfd_retune :: "ConfigArgs \<Rightarrow> bfdSession \<Rightarrow> bfdSession \<times> bool" where
  "bfd_retune args b =
    (let u1 = (ca_Interval args \<noteq> 0 \<and> DesMinTxInt b \<noteq> ca_Interval args);
         b1 = (if u1 then b \<lparr> DesMinTxInt := ca_Interval args, ReqMinRxInt := ca_Interval args,
                 ReqMinEchoInt := ca_Interval args \<rparr> else b);
         u2 = (ca_Multi args \<noteq> 0 \<and> MyMulti b1 \<noteq> ca_Multi args);
         b2 = (if u2 then b1 \<lparr> MyMulti := ca_Multi args \<rparr> else b1)
     in if u1 \<or> u2
        then (b2 \<lparr> State := BFDDown, TxTicker := DesMinTxInt b2, RxTicker := BFDMinSysRXIntervalUs \<rparr>, True)
        else (b2, False))"

definition BFDAddRemote :: "bfd_env \<Rightarrow> ConfigArgs \<Rightarrow> BFDStruct \<Rightarrow> (string + unit) \<times> BFDStruct" where
  "BFDAddRemote env args bs = (case gm_get bs (ca_RemoteIP args) of
      Some sess \<Rightarrow>
        (if Instance sess = ca_Instance args then
           (let (sess', update) = bfd_retune args sess; bs' = gm_put (ca_RemoteIP args) sess' bs in
            if update then (Inr (), bs') else (Inl ''bfd existing session'', bs'))
         else (Inl ''bfd existing session'', bs))
    | None \<Rightarrow>
        (if ca_Interval args < BFDMinSysTXIntervalUs \<or> ca_Multi args = 0
         then (Inl ''bfd malformed args'', bs)
         else (case bfd_initialize env (ca_RemoteIP args) (ca_SourceIP args) (ca_Port args)
                 (ca_Interval args) (ca_Multi args) (zero_session \<lparr> Instance := ca_Instance args \<rparr>) of
             Inl e \<Rightarrow> (Inl e, bs)
           | Inr sess \<Rightarrow> (Inr (), gm_put (ca_RemoteIP args) sess bs))))"

definition BFDDeleteRemote :: "ConfigArgs \<Rightarrow> BFDStruct \<Rightarrow> (string + u8 list) \<times> BFDStruct" where
  "BFDDeleteRemote args bs = (case gm_get bs (ca_RemoteIP args) of
      None \<Rightarrow> (Inl ''no bfd session'', bs)
    | Some sess \<Rightarrow> (Inr (snd (bfd_destruct sess)), gm_del (ca_RemoteIP args) bs))"

record BFDMod =
  bm_Instance :: string
  bm_RemoteIP :: IP
  bm_SourceIP :: IP
  bm_Port :: u16
  bm_Interval :: u64
  bm_RetryCount :: u8
  bm_State :: string

definition BFDGet1 :: "bfdSession \<Rightarrow> BFDMod option" where
  "BFDGet1 s = (let pair = split_on CHR '':'' (RemoteName s) in
     if length pair < 2 then None
     else Some \<lparr> bm_Instance = Instance s, bm_RemoteIP = ParseIP (pair ! 0), bm_SourceIP = MyIP s,
       bm_Port = (case undec (pair ! 1) of None \<Rightarrow> 0 | Some n \<Rightarrow> of_nat n),
       bm_Interval = ucast (DesMinTxInt s), bm_RetryCount = MyMulti s,
       bm_State = BFDStateMap (State s) \<rparr>)"

definition BFDGet :: "BFDStruct \<Rightarrow> BFDMod list option" where
  "BFDGet bs = those (map (\<lambda>(k, s). BFDGet1 s) bs)"

text \<open>A datagram of \<open>n\<close> bytes from \<open>remIP\<close>.  \<open>None\<close> is the nil
dereference of \<open>RunSessionSM\<close> on an undecodable packet.\<close>

definition processBFD :: "int \<Rightarrow> u8 list \<Rightarrow> nat \<Rightarrow> IP \<Rightarrow> BFDStruct \<Rightarrow> BFDStruct option" where
  "processBFD now buf n remIP bs =
    (let raw = decodeCtrlPacket buf n in
     if remIP = [] then Some bs
     else (case gm_get bs (IP_String remIP) of
         None \<Rightarrow> Some bs
       | Some sess \<Rightarrow> (case raw of
             None \<Rightarrow> None
           | Some r \<Rightarrow> Some (gm_put (IP_String remIP) (RunSessionSM now r sess) bs))))"

subsection \<open>Goroutines of one session\<close>

text \<open>The ticker reacts to its two tickers.  The notifier waits for \<open>ntfSig\<close>,
then takes \<open>ntfPending\<close> under the lock, then calls \<open>Notify\<close>; other
goroutines may run between these steps.  \<open>decided\<close> and \<open>delivered\<close> list
the election results stored and the arguments of \<open>Notify\<close>, newest first.\<close>

datatype ntf_pc = NtfWait | NtfWoken | NtfDeliver string

record bfd_sys =
  sess :: bfdSession
  pc :: ntf_pc
  sent :: "u8 list list"
  decided :: "string list"
  delivered :: "string list"

definition rx_election :: "int \<Rightarrow> WireRaw \<Rightarrow> bfdSession \<Rightarrow> string option" where
  "rx_election now raw b = (let b1 = rx_update now raw b; (new, old) = next_state raw b1 in
     elect (b1 \<lparr> State := new \<rparr>) new old)"

definition timeout_election :: "int \<Rightarrow> bfdSession \<Rightarrow> string option" where
  "timeout_election now b =
    (if State b = BFDUp \<and> micros (now - LastRxTS b) > uint (TimeOut b)
     then elect (b \<lparr> State := BFDDown, MyDisc := RemDisc b + BFDIncrDiscVal \<rparr>) BFDDown BFDUp
     else None)"

primrec opt_cons :: "'a option \<Rightarrow> 'a list \<Rightarrow> 'a list" where
  "opt_cons None xs = xs"
| "opt_cons (Some x) xs = x # xs"

inductive bfd_step :: "bfd_sys \<Rightarrow> bfd_sys \<Rightarrow> bool" where
  recv: "bfd_step S (S \<lparr> sess := RunSessionSM now raw (sess S),
    decided := opt_cons (rx_election now raw (sess S)) (decided S) \<rparr>)"
| rx_tick: "bfd_step S (S \<lparr> sess := checkSessTimeout now (sess S),
    decided := opt_cons (timeout_election now (sess S)) (decided S) \<rparr>)"
| tx_tick: "b = encodeCtrlPacket (sess S) \<Longrightarrow> bfd_step S (S \<lparr> sess := b, sent := PktDat b # sent S \<rparr>)"
| retune: "bfd_step S (S \<lparr> sess := fst (bfd_retune args (sess S)) \<rparr>)"
| wake: "\<lbrakk> pc S = NtfWait; ntfSig (sess S) \<rbrakk> \<Longrightarrow>
    bfd_step S (S \<lparr> sess := (sess S) \<lparr> ntfSig := False \<rparr>, pc := NtfWoken \<rparr>)"
| take_pending: "pc S = NtfWoken \<Longrightarrow>
    bfd_step S (S \<lparr> sess := (sess S) \<lparr> ntfPending := [] \<rparr>,
      pc := (if ntfPending (sess S) = [] then NtfWait else NtfDeliver (ntfPending (sess S))) \<rparr>)"
| deliver: "pc S = NtfDeliver c \<Longrightarrow>
    bfd_step S (S \<lparr> pc := NtfWait, delivered := c # delivered S \<rparr>)"

definition bfd_start :: "bfdSession \<Rightarrow> bfd_sys" where
  "bfd_start b = \<lparr> sess = b, pc = NtfWait, sent = [], decided = [], delivered = [] \<rparr>"

subsection \<open>Codec\<close>

lemma u8_state_u8: "u8_state (drop_bit 6 (push_bit 6 (state_u8 s)) AND 3) = s"
  by (cases s) (simp_all add: u8_state_def)

lemma PktDat_encode: "PktDat (encodeCtrlPacket b) =
     [push_bit 5 1 OR 0, push_bit 6 (state_u8 (State b)), MyMulti b, 24] @
     put_u32 (MyDisc b) @ put_u32 (RemDisc b) @ put_u32 (DesMinTxInt b) @
     put_u32 (ReqMinRxInt b) @ put_u32 (ReqMinEchoInt b) @ drop 24 (PktDat b)"
  by (simp add: encodeCtrlPacket_def)

subsection \<open>Election\<close>

lemma electLocked_sel [simp]:
  "MyDisc (electLocked n o' b) = MyDisc b" "RemDisc (electLocked n o' b) = RemDisc b"
  "State (electLocked n o' b) = State b" "TimeOut (electLocked n o' b) = TimeOut b"
  "LastRxTS (electLocked n o' b) = LastRxTS b" "ReqMinRxInt (electLocked n o' b) = ReqMinRxInt b"
  "CiState (electLocked n o' b) = (case elect b n o' of None \<Rightarrow> CiState b | Some c \<Rightarrow> c)"
  "ntfPending (electLocked n o' b) = (case elect b n o' of None \<Rightarrow> ntfPending b | Some c \<Rightarrow> c)"
  "ntfSig (electLocked n o' b) = (elect b n o' \<noteq> None \<or> ntfSig b)"
  by (simp_all add: electLocked_def split: option.splits)

lemma rx_update_sel [simp]:
  "MyDisc (rx_update t raw b) = MyDisc b" "RemDisc (rx_update t raw b) = w_Disc raw"
  "State (rx_update t raw b) = State b" "CiState (rx_update t raw b) = CiState b"
  "ntfPending (rx_update t raw b) = ntfPending b" "ntfSig (rx_update t raw b) = ntfSig b"
  by (simp_all add: rx_update_def)

lemma RunSessionSM_disc [simp]:
  "MyDisc (RunSessionSM t raw b) = MyDisc b" "RemDisc (RunSessionSM t raw b) = w_Disc raw"
  by (simp_all add: RunSessionSM_def Let_def split_def)

lemma elect_nonempty: "elect b n o' = Some c \<Longrightarrow> c \<noteq> []"
  by (auto simp: elect_def go_consts split: if_splits)

lemma master_not_backup [simp]: "CIMasterStateString \<noteq> CIBackupStateString"
    "CIBackupStateString \<noteq> CIMasterStateString"
  by (simp_all add: go_consts)

lemma RunSessionSM_sel:
  "State (RunSessionSM t raw b) = fst (next_state raw (rx_update t raw b))"
  "CiState (RunSessionSM t raw b) =
    (case rx_election t raw b of None \<Rightarrow> CiState b | Some c \<Rightarrow> c)"
  "ntfPending (RunSessionSM t raw b) =
    (case rx_election t raw b of None \<Rightarrow> ntfPending b | Some c \<Rightarrow> c)"
  "ntfSig (RunSessionSM t raw b) = (rx_election t raw b \<noteq> None \<or> ntfSig b)"
  by (simp_all add: RunSessionSM_def rx_election_def Let_def split_def split: option.splits)

text \<open>The receiver's session after a packet of the sender's session arrived.\<close>

definition bfd_deliver :: "int \<Rightarrow> bfdSession \<Rightarrow> bfdSession \<Rightarrow> bfdSession" where
  "bfd_deliver t a b = (case decodeCtrlPacket (PktDat (encodeCtrlPacket a)) 24 of
      None \<Rightarrow> b | Some raw \<Rightarrow> RunSessionSM t raw b)"

definition wire_of :: "bfdSession \<Rightarrow> WireRaw" where
  "wire_of b = \<lparr> w_Version = 1, w_Length = 24, w_State = State b, w_Multi = MyMulti b,
     w_Disc = MyDisc b, w_RDisc = RemDisc b, w_DesMinTxInt = DesMinTxInt b,
     w_ReqMinRxInt = ReqMinRxInt b, w_ReqMinEchoInt = ReqMinEchoInt b \<rparr>"

lemma wire_of_sel [simp]: "w_State (wire_of b) = State b" "w_Disc (wire_of b) = MyDisc b"
  by (simp_all add: wire_of_def)

lemma decode_encode: "decodeCtrlPacket (PktDat (encodeCtrlPacket b) @ pad) (24 + k) = Some (wire_of b)"
  by (simp add: decodeCtrlPacket_def PktDat_encode u8_state_u8 drop_Cons' nth_Cons' wire_of_def)

text \<open>C8. A control packet written by a session decodes, at the receiver and whatever
follows it in the receive buffer, to exactly the version, state, multiplier, discriminators
and intervals of the sending session.\<close>

theorem bfd_codec_roundtrip:
  "decodeCtrlPacket (PktDat (encodeCtrlPacket b) @ pad) (24 + k) =
     Some \<lparr> w_Version = 1, w_Length = 24, w_State = State b, w_Multi = MyMulti b,
       w_Disc = MyDisc b, w_RDisc = RemDisc b, w_DesMinTxInt = DesMinTxInt b,
       w_ReqMinRxInt = ReqMinRxInt b, w_ReqMinEchoInt = ReqMinEchoInt b \<rparr>"
  by (simp add: decode_encode wire_of_def)

lemma bfd_deliver_eq: "bfd_deliver t a b = RunSessionSM t (wire_of a) b"
  using decode_encode [of a "[]" 0] by (simp add: bfd_deliver_def)

text \<open>C9. Two sessions that are both down and hear each other come up after three
packets, through the encoded wire format: the first side is up after the second packet, the
other after the third.  If their discriminators are non-zero and different, the side with
the larger one has become master and the other backup.\<close>

theorem bfd_handshake:
  assumes "State a = BFDDown" "State b = BFDDown"
    "MyDisc a \<noteq> MyDisc b" "MyDisc a \<noteq> 0" "MyDisc b \<noteq> 0"
    "b1 = bfd_deliver t1 a b" "a1 = bfd_deliver t2 b1 a" "b2 = bfd_deliver t3 a1 b1"
  shows "State a1 = BFDUp \<and> State b2 = BFDUp \<and>
    CiState a1 = (if MyDisc a > MyDisc b then CIMasterStateString else CIBackupStateString) \<and>
    CiState b2 = (if MyDisc b > MyDisc a then CIMasterStateString else CIBackupStateString)"
proof -
  have b1: "State b1 = BFDInit" "MyDisc b1 = MyDisc b"
    using assms by (simp_all add: bfd_deliver_eq RunSessionSM_sel next_state_def)
  have a1: "State a1 = BFDUp" "MyDisc a1 = MyDisc a"
    using assms b1 by (simp_all add: bfd_deliver_eq RunSessionSM_sel next_state_def)
  have ca: "CiState a1 = (if MyDisc a > MyDisc b then CIMasterStateString else CIBackupStateString)"
    using assms b1 by (simp add: bfd_deliver_eq RunSessionSM_sel rx_election_def next_state_def elect_def Let_def)
  have "State b2 = BFDUp"
    "CiState b2 = (if MyDisc b > MyDisc a then CIMasterStateString else CIBackupStateString)"
    using assms(4,8) a1 b1
    by (simp_all add: bfd_deliver_eq RunSessionSM_sel rx_election_def next_state_def elect_def Let_def)
  then show ?thesis using a1 ca by simp
qed

theorem bfd_handshake_witness:
  "let a = zero_session \<lparr> State := BFDDown, MyDisc := 7 \<rparr>;
       b = zero_session \<lparr> State := BFDDown, MyDisc := 4 \<rparr>;
       b1 = bfd_deliver 1 a b; a1 = bfd_deliver 2 b1 a; b2 = bfd_deliver 3 a1 b1
   in State a1 = BFDUp \<and> State b2 = BFDUp \<and> CiState a1 = ''MASTER'' \<and> CiState b2 = ''BACKUP''"
  using bfd_handshake [OF _ _ _ _ _ refl refl refl, of "zero_session \<lparr> State := BFDDown, MyDisc := 7 \<rparr>"
      "zero_session \<lparr> State := BFDDown, MyDisc := 4 \<rparr>" 2 1 3]
  by (simp add: Let_def go_consts)

subsection \<open>Timeout\<close>

definition expired :: "int \<Rightarrow> bfdSession \<Rightarrow> bool" where
  "expired now b \<longleftrightarrow> State b = BFDUp \<and> micros (now - LastRxTS b) > uint (TimeOut b)"

lemma checkSessTimeout_expired:
  "expired now b \<Longrightarrow> checkSessTimeout now b =
     electLocked BFDDown BFDUp (b \<lparr> State := BFDDown, MyDisc := RemDisc b + BFDIncrDiscVal \<rparr>)"
  by (simp add: checkSessTimeout_def expired_def)

lemma checkSessTimeout_live: "\<not> expired now b \<Longrightarrow> checkSessTimeout now b = b"
  by (auto simp: checkSessTimeout_def expired_def electLocked_def elect_def)

text \<open>The detection time a packet installs, when the product fits the 32-bit field.\<close>

text \<open>A receive tick leaves a live session alone.  Once the time since the last
packet exceeds the detection time of an up session that knows its peer, the tick takes it
down, makes it master, hands that result to the notifier and raises its discriminator above
the peer's.\<close>

theorem bfd_timeout_failover:
  assumes "State b = BFDUp" "RemDisc b \<noteq> 0" "RemDisc b \<noteq> NOT 0"
  shows "checkSessTimeout now b =
      (if (now - LastRxTS b) div 1000 > uint (TimeOut b) \<and> LastRxTS b \<le> now
       then b \<lparr> State := BFDDown, MyDisc := RemDisc b + 1, CiState := CIMasterStateString,
                ntfPending := CIMasterStateString, ntfSig := True \<rparr>
       else b) \<and> RemDisc b < RemDisc b + 1"
proof -
  have neg: "\<not> uint (TimeOut b) < - ((LastRxTS b - now) div 1000)" if "\<not> LastRxTS b \<le> now"
  proof -
    have "0 \<le> (LastRxTS b - now) div 1000" using that by (simp add: pos_imp_zdiv_nonneg_iff)
    moreover have "0 \<le> uint (TimeOut b)" by simp
    ultimately show ?thesis by linarith
  qed
  then have ex: "expired now b \<longleftrightarrow> (now - LastRxTS b) div 1000 > uint (TimeOut b) \<and> LastRxTS b \<le> now"
    using assms(1) by (simp add: expired_def micros_def)
  have "RemDisc b < RemDisc b + 1"
    using assms(3) by (rule less_Suc_u32)
  moreover have "checkSessTimeout now b = b \<lparr> State := BFDDown, MyDisc := RemDisc b + 1,
      CiState := CIMasterStateString, ntfPending := CIMasterStateString, ntfSig := True \<rparr>" if "expired now b"
    using that assms(2) by (simp add: checkSessTimeout_expired electLocked_def elect_def go_consts)
  ultimately show ?thesis using ex checkSessTimeout_live by auto
qed

theorem bfd_timeout_failover_witness:
  "CiState (checkSessTimeout 700001 (zero_session \<lparr> State := BFDUp, RemDisc := 9, TimeOut := 600 \<rparr>)) = ''MASTER'' \<and>
   checkSessTimeout 600000 (zero_session \<lparr> State := BFDUp, RemDisc := 9, TimeOut := 600 \<rparr>) =
     zero_session \<lparr> State := BFDUp, RemDisc := 9, TimeOut := 600 \<rparr>"
  using bfd_timeout_failover [of "zero_session \<lparr> State := BFDUp, RemDisc := 9, TimeOut := 600 \<rparr>" 700001]
    bfd_timeout_failover [of "zero_session \<lparr> State := BFDUp, RemDisc := 9, TimeOut := 600 \<rparr>" 600000]
  by (simp add: zero_session_def go_consts)

text \<open>Packets and receive ticks of one session in their order of arrival.\<close>

datatype bfd_event = Pkt int WireRaw | RxTick int

fun bfd_run :: "bfd_event list \<Rightarrow> bfdSession \<Rightarrow> bfdSession" where
  "bfd_run [] b = b"
| "bfd_run (Pkt t raw # es) b = bfd_run es (RunSessionSM t raw b)"
| "bfd_run (RxTick t # es) b = bfd_run es (checkSessTimeout t b)"

fun from_disc :: "u32 \<Rightarrow> bfd_event \<Rightarrow> bool" where
  "from_disc d (Pkt t raw) = (w_Disc raw = d)"
| "from_disc d (RxTick t) = True"

definition survivor :: "u32 \<Rightarrow> bfdSession \<Rightarrow> bool" where
  "survivor d b \<longleftrightarrow> CiState b = CIMasterStateString \<and> MyDisc b = d + 1 \<and> RemDisc b = d"

lemma survivor_pkt:
  assumes "survivor d b" "w_Disc raw = d" "d \<noteq> 0" "d \<noteq> - 1"
  shows "survivor d (RunSessionSM t raw b)"
  using assms less_Suc_u32 [of d]
  by (auto simp: survivor_def RunSessionSM_sel rx_election_def Let_def next_state_def elect_def
      split: SessionState.splits option.splits if_splits)

lemma survivor_tick:
  assumes "survivor d b" "d \<noteq> 0"
  shows "survivor d (checkSessTimeout t b)"
  using assms
  by (cases "expired t b")
    (auto simp: survivor_def checkSessTimeout_expired checkSessTimeout_live elect_def go_consts)

lemma survivor_run:
  assumes "survivor d b" "d \<noteq> 0" "d \<noteq> NOT 0" "list_all (from_disc d) es"
  shows "survivor d (bfd_run es b)"
  using assms
  by (induction es b rule: bfd_run.induct) (auto intro: survivor_pkt survivor_tick)



subsection \<open>The notifier\<close>

inductive_cases bfd_stepE: "bfd_step S S'"

text \<open>Results decided but not yet handed to \<open>Notify\<close>, newest first.\<close>

definition in_flight :: "bfd_sys \<Rightarrow> string list" where
  "in_flight S = (if ntfPending (sess S) = [] then [] else [ntfPending (sess S)]) @
     (case pc S of NtfDeliver c \<Rightarrow> [c] | _ \<Rightarrow> [])"

definition ntf_inv :: "bfd_sys \<Rightarrow> bool" where
  "ntf_inv S \<longleftrightarrow>
     (ntfPending (sess S) \<noteq> [] \<longrightarrow> ntfSig (sess S) \<or> pc S = NtfWoken) \<and>
     subseq (in_flight S @ delivered S) (decided S) \<and>
     (decided S \<noteq> [] \<longrightarrow> CiState (sess S) = hd (decided S) \<and>
        in_flight S @ delivered S \<noteq> [] \<and> hd (in_flight S @ delivered S) = hd (decided S))"

lemma checkSessTimeout_eq:
  "checkSessTimeout t b = (if expired t b then electLocked BFDDown BFDUp
     (b \<lparr> State := BFDDown, MyDisc := RemDisc b + BFDIncrDiscVal \<rparr>) else b)"
  using checkSessTimeout_expired checkSessTimeout_live by auto

lemma timeout_election_eq:
  "timeout_election t b = (if expired t b then elect
     (b \<lparr> State := BFDDown, MyDisc := RemDisc b + BFDIncrDiscVal \<rparr>) BFDDown BFDUp else None)"
  by (simp add: timeout_election_def expired_def)

lemma checkSessTimeout_sel:
  "CiState (checkSessTimeout t b) = (case timeout_election t b of None \<Rightarrow> CiState b | Some c \<Rightarrow> c)"
  "ntfPending (checkSessTimeout t b) = (case timeout_election t b of None \<Rightarrow> ntfPending b | Some c \<Rightarrow> c)"
  "ntfSig (checkSessTimeout t b) = (timeout_election t b \<noteq> None \<or> ntfSig b)"
  by (auto simp: checkSessTimeout_eq timeout_election_eq split: option.splits)

lemma election_nonempty:
  "rx_election t raw b = Some c \<Longrightarrow> c \<noteq> []" "timeout_election t b = Some c \<Longrightarrow> c \<noteq> []"
  by (auto simp: rx_election_def timeout_election_def Let_def split_def dest: elect_nonempty split: if_splits)

text \<open>Any update of the session that stores the result \<open>e\<close> of an election.\<close>

lemma ntf_inv_elect:
  assumes "ntf_inv S" "\<And>c. e = Some c \<Longrightarrow> c \<noteq> []"
    "CiState b' = (case e of None \<Rightarrow> CiState (sess S) | Some c \<Rightarrow> c)"
    "ntfPending b' = (case e of None \<Rightarrow> ntfPending (sess S) | Some c \<Rightarrow> c)"
    "ntfSig b' = (e \<noteq> None \<or> ntfSig (sess S))"
  shows "ntf_inv (S \<lparr> sess := b', decided := opt_cons e (decided S) \<rparr>)"
proof (cases e)
  case None
  then show ?thesis using assms by (auto simp: ntf_inv_def in_flight_def)
next
  case (Some c)
  have "subseq ((case pc S of NtfDeliver c \<Rightarrow> [c] | _ \<Rightarrow> []) @ delivered S) (decided S)"
    using assms(1) by (auto simp: ntf_inv_def in_flight_def split: if_splits dest: subseq_Cons')
  then show ?thesis using Some assms(2-5) by (auto simp: ntf_inv_def in_flight_def)
qed

lemma encode_sel [simp]:
  "CiState (encodeCtrlPacket b) = CiState b" "ntfPending (encodeCtrlPacket b) = ntfPending b"
  "ntfSig (encodeCtrlPacket b) = ntfSig b"
  by (simp_all add: encodeCtrlPacket_def)

lemma retune_sel [simp]:
  "CiState (fst (bfd_retune args b)) = CiState b" "ntfPending (fst (bfd_retune args b)) = ntfPending b"
  "ntfSig (fst (bfd_retune args b)) = ntfSig b"
  by (simp_all add: bfd_retune_def Let_def)

lemma ntf_inv_step:
  assumes "bfd_step S S'" "ntf_inv S"
  shows "ntf_inv S'"
  using assms
proof cases
  case (recv now raw)
  then show ?thesis
    using assms(2) by (auto intro!: ntf_inv_elect simp: RunSessionSM_sel dest: election_nonempty)
next
  case (rx_tick now)
  then show ?thesis
    using assms(2) by (auto intro!: ntf_inv_elect simp: checkSessTimeout_sel dest: election_nonempty)
qed (use assms(2) in \<open>auto simp: ntf_inv_def in_flight_def split: if_splits ntf_pc.splits\<close>)

lemma ntf_inv_start: "ntfPending b = [] \<Longrightarrow> ntf_inv (bfd_start b)"
  by (simp add: ntf_inv_def in_flight_def bfd_start_def)

lemma ntf_inv_reach:
  assumes "bfd_step\<^sup>*\<^sup>* (bfd_start b) S" "ntfPending b = []"
  shows "ntf_inv S"
  using assms by (induction rule: rtranclp_induct) (auto intro: ntf_inv_start ntf_inv_step)

text \<open>C11. In every interleaving of packets, ticks, reconfigurations and the notifier's own
steps: what has been delivered is a subsequence, in order, of what was decided; whenever the
notifier is idle with no wake-up pending, the last result delivered is the last one decided
and equals the session's current role (or nothing was ever decided); and whenever a result
is still undelivered the notifier has a step to take, so no wake-up is lost.\<close>

theorem bfd_notifier_latest_wins:
  assumes "bfd_step\<^sup>*\<^sup>* (bfd_start b) S" "ntfPending b = []"
  shows "subseq (delivered S) (decided S) \<and>
    (pc S = NtfWait \<and> \<not> ntfSig (sess S) \<longrightarrow>
       (decided S = [] \<and> delivered S = []) \<or>
       (delivered S \<noteq> [] \<and> hd (delivered S) = hd (decided S) \<and> CiState (sess S) = hd (delivered S))) \<and>
    (ntfPending (sess S) \<noteq> [] \<longrightarrow> pc S \<noteq> NtfWait \<or> ntfSig (sess S))"
proof -
  have inv: "ntf_inv S" by (rule ntf_inv_reach [OF assms])
  have "subseq (delivered S) (decided S)"
    using inv subseq_drop_many [of "delivered S" "delivered S" "in_flight S"] subseq_order.trans
    unfolding ntf_inv_def by blast
  moreover have "in_flight S = []" if "pc S = NtfWait" "\<not> ntfSig (sess S)"
    using that inv by (auto simp: ntf_inv_def in_flight_def)
  ultimately show ?thesis using inv by (auto simp: ntf_inv_def)
qed

theorem bfd_notifier_latest_wins_witness:
  "\<exists>S. bfd_step\<^sup>*\<^sup>* (bfd_start (zero_session \<lparr> MyDisc := 9, State := BFDDown \<rparr>)) S \<and>
     delivered S = [''MASTER''] \<and> CiState (sess S) = ''MASTER'' \<and> subseq (delivered S) (decided S)"
proof -
  define b where "b = zero_session \<lparr> MyDisc := 9, State := BFDDown \<rparr>"
  define raw where "raw = wire_of (zero_session \<lparr> MyDisc := 4, State := BFDInit \<rparr>)"
  define b1 where "b1 = RunSessionSM 5 raw b"
  have e: "rx_election 5 raw b = Some ''MASTER''"
    by (simp add: rx_election_def Let_def next_state_def raw_def b_def elect_def go_consts)
  have b1: "ntfSig b1" "ntfPending b1 = ''MASTER''" "CiState b1 = ''MASTER''"
    by (simp_all add: b1_def RunSessionSM_sel e)
  define S1 where "S1 = (bfd_start b) \<lparr> sess := b1, decided := [''MASTER''] \<rparr>"
  define S2 where "S2 = S1 \<lparr> sess := b1 \<lparr> ntfSig := False \<rparr>, pc := NtfWoken \<rparr>"
  define S3 where "S3 = S2 \<lparr> sess := b1 \<lparr> ntfSig := False, ntfPending := [] \<rparr>, pc := NtfDeliver ''MASTER'' \<rparr>"
  define S4 where "S4 = S3 \<lparr> pc := NtfWait, delivered := [''MASTER''] \<rparr>"
  have 1: "bfd_step (bfd_start b) S1"
    using recv [of "bfd_start b" 5 raw] by (simp add: S1_def bfd_start_def e b1_def)
  have 2: "bfd_step S1 S2"
    using wake [of S1] b1 by (simp add: S1_def S2_def bfd_start_def)
  have 3: "bfd_step S2 S3"
    using take_pending [of S2] b1 by (simp add: S3_def S2_def S1_def bfd_start_def)
  have 4: "bfd_step S3 S4"
    using deliver [of S3 "''MASTER''"] by (simp add: S4_def S3_def S2_def S1_def bfd_start_def)
  have r: "bfd_step\<^sup>*\<^sup>* (bfd_start b) S4"
    using 1 2 3 4 by (meson converse_rtranclp_into_rtranclp rtranclp.rtrancl_refl)
  have "subseq (delivered S4) (decided S4)"
    using bfd_notifier_latest_wins [OF r] by (simp add: b_def zero_session_def)
  then show ?thesis
    using r b1 unfolding b_def [symmetric] by (intro exI [of _ S4]) (simp add: S4_def S3_def)
qed

subsection \<open>The session table\<close>

lemma BFDGet1_v4:
  assumes "length a = 4" "RemoteName s = ip4_string a @ '':'' @ dec (unat p)"
  shows "BFDGet1 s = Some \<lparr> bm_Instance = Instance s, bm_RemoteIP = v4InV6Prefix @ a,
    bm_SourceIP = MyIP s, bm_Port = p, bm_Interval = ucast (DesMinTxInt s),
    bm_RetryCount = MyMulti s, bm_State = BFDStateMap (State s) \<rparr>"
proof -
  have "CHR '':'' \<notin> set (ip4_string a)"
    by (simp add: ip4_string_def)
  then have "split_on CHR '':'' (RemoteName s) = [ip4_string a, dec (unat p)]"
    by (simp add: assms(2))
  then show ?thesis
    by (simp add: BFDGet1_def ParseIP_ip4_string [OF assms(1)])
qed

text \<open>A session accepted for an IPv4 peer that had none is listed by
\<open>BFDGet\<close> with exactly the configured peer, port, interval and retry count in the down
state, every other session is untouched, and deleting the peer again restores the table's
contents.\<close>

theorem bfd_add_get_delete:
  assumes "length a = 4" "ca_RemoteIP args = ip4_string a" "gm_get bs (ca_RemoteIP args) = None"
    "BFDAddRemote env args bs = (Inr (), bs')"
  shows "\<exists>s. gm_get bs' (ca_RemoteIP args) = Some s \<and>
    (\<forall>k. k \<noteq> ca_RemoteIP args \<longrightarrow> gm_get bs' k = gm_get bs k) \<and>
    BFDGet1 s = Some \<lparr> bm_Instance = ca_Instance args, bm_RemoteIP = v4InV6Prefix @ a,
      bm_SourceIP = MyIP s, bm_Port = ca_Port args, bm_Interval = ucast (ca_Interval args),
      bm_RetryCount = ca_Multi args, bm_State = ''BFDDown'' \<rparr> \<and>
    map_of (snd (BFDDeleteRemote args bs')) = map_of bs"
proof -
  obtain s where s: "bfd_initialize env (ca_RemoteIP args) (ca_SourceIP args) (ca_Port args)
      (ca_Interval args) (ca_Multi args) (zero_session \<lparr> Instance := ca_Instance args \<rparr>) = Inr s"
    "bs' = gm_put (ca_RemoteIP args) s bs"
    using assms(3,4) by (auto simp: BFDAddRemote_def split: if_splits sum.splits)
  then have "RemoteName s = ip4_string a @ '':'' @ dec (unat (ca_Port args))" "Instance s = ca_Instance args"
    "DesMinTxInt s = ca_Interval args" "MyMulti s = ca_Multi args" "State s = BFDDown"
    using assms(2) by (auto simp: bfd_initialize_def Let_def split: if_splits)
  moreover from this have "BFDGet1 s = Some \<lparr> bm_Instance = ca_Instance args, bm_RemoteIP = v4InV6Prefix @ a,
      bm_SourceIP = MyIP s, bm_Port = ca_Port args, bm_Interval = ucast (ca_Interval args),
      bm_RetryCount = ca_Multi args, bm_State = ''BFDDown'' \<rparr>"
    by (simp add: BFDGet1_v4 [OF assms(1)])
  moreover have "map_of (snd (BFDDeleteRemote args bs')) = map_of bs"
    using s(2) assms(3) by (auto simp: BFDDeleteRemote_def)
  ultimately show ?thesis using s(2) by auto
qed

theorem bfd_add_get_delete_witness:
  "\<exists>bs' s. BFDAddRemote \<lparr> env_IPtonl = (\<lambda>_. 5), env_InterfaceAddrs = None, env_Dial = (\<lambda>_. True) \<rparr>
      \<lparr> ca_RemoteIP = ''10.0.0.2'', ca_SourceIP = ''10.0.0.1'', ca_Port = 3784, ca_Interval = 200000,
        ca_Multi = 3, ca_Instance = ''i'' \<rparr> [] = (Inr (), bs') \<and>
    gm_get bs' ''10.0.0.2'' = Some s \<and> bm_Port (the (BFDGet1 s)) = 3784"
proof -
  define env where "env = \<lparr> env_IPtonl = (\<lambda>_. 5), env_InterfaceAddrs = None, env_Dial = (\<lambda>_. True) \<rparr>"
  define args where "args = \<lparr> ca_RemoteIP = ''10.0.0.2'', ca_SourceIP = ''10.0.0.1'', ca_Port = 3784,
    ca_Interval = 200000, ca_Multi = 3, ca_Instance = ''i'' \<rparr>"
  have a: "ip4_string [10, 0, 0, 2] = ''10.0.0.2''" by code_simp
  have p: "ParseIP ''10.0.0.2'' = v4InV6Prefix @ [10, 0, 0, 2]" "ParseIP ''10.0.0.1'' = v4InV6Prefix @ [10, 0, 0, 1]"
    by code_simp+
  have u: "\<not> IsUnspecified (v4InV6Prefix @ [10, 0, 0, 1])" by code_simp
  obtain bs' where add: "BFDAddRemote env args [] = (Inr (), bs')"
    by (simp add: BFDAddRemote_def bfd_initialize_def args_def env_def p u Let_def go_consts)
  from bfd_add_get_delete [OF _ _ _ this, of "[10, 0, 0, 2]"] obtain s where
    "gm_get bs' ''10.0.0.2'' = Some s" "bm_Port (the (BFDGet1 s)) = 3784"
    by (auto simp: args_def a)
  then show ?thesis using add unfolding env_def args_def by blast
qed

text \<open>C12. Receiving a datagram fails with a nil dereference exactly when it is shorter
than a control packet and comes from the address of a configured peer; every other datagram
is processed, and it changes at most the session of its sender.\<close>

theorem processBFD_panics_iff:
  "(processBFD now buf n remIP bs = None \<longleftrightarrow>
     n < 24 \<and> remIP \<noteq> [] \<and> gm_get bs (IP_String remIP) \<noteq> None) \<and>
   (\<forall>bs' k. processBFD now buf n remIP bs = Some bs' \<and> k \<noteq> IP_String remIP \<longrightarrow> gm_get bs' k = gm_get bs k)"
  by (auto simp: processBFD_def decodeCtrlPacket_def Let_def split: option.splits if_splits)

theorem processBFD_panics_iff_witness:
  "processBFD 0 [] 3 [10, 0, 0, 2] [(''10.0.0.2'', zero_session)] = None"
proof -
  have "IP_String [10, 0, 0, 2] = ''10.0.0.2''" by code_simp
  then show ?thesis
    using processBFD_panics_iff [of 0 "[]" 3 "[10, 0, 0, 2]" "[(''10.0.0.2'', zero_session)]"] by simp
qed

end
