(* ===== verification/IPPool.thy ===== *)
theory IPPool
  imports GoNet
begin

text \<open>The address pool of \<open>api/ippool\<close>: the set of allocated addresses
(\<open>set.go\<close>), the counter that enumerates the host addresses of a subnet
(\<open>generater.go\<close>) and the pool that combines them (\<open>ippool.go\<close>).  A set whose
map was never made is \<open>None\<close>; adding to it panics.\<close>

subsection \<open>The set\<close>

record IPSet =
  ipaddress :: "(string, unit) gomap option"

definition NewSet :: IPSet where
  "NewSet = \<lparr> ipaddress = Some [] \<rparr>"

definition Set_Add :: "string \<Rightarrow> IPSet \<Rightarrow> IPSet option" where
  "Set_Add v s = map_option (\<lambda>m. s \<lparr> ipaddress := Some (gm_put v () m) \<rparr>) (ipaddress s)"

definition Set_Remove :: "string \<Rightarrow> IPSet \<Rightarrow> IPSet" where
  "Set_Remove v s = s \<lparr> ipaddress := map_option (gm_del v) (ipaddress s) \<rparr>"

definition Set_Contains :: "IPSet \<Rightarrow> string \<Rightarrow> bool" where
  "Set_Contains s v = (case ipaddress s of None \<Rightarrow> False | Some m \<Rightarrow> gm_get m v \<noteq> None)"

definition GetAll :: "IPSet \<Rightarrow> string list" where
  "GetAll s = (case ipaddress s of None \<Rightarrow> [] | Some m \<Rightarrow> map fst m)"

fun diff_loop :: "string list \<Rightarrow> IPSet \<Rightarrow> bool \<times> IPSet \<Rightarrow> (bool \<times> IPSet) option" where
  "diff_loop [] other acc = Some acc"
| "diff_loop (v # vs) other (eq, out) =
     (if Set_Contains other v then diff_loop vs other (eq, out)
      else (case Set_Add v out of None \<Rightarrow> None | Some out' \<Rightarrow> diff_loop vs other (False, out')))"

definition IsEqual :: "IPSet \<Rightarrow> IPSet \<Rightarrow> (bool \<times> IPSet \<times> IPSet) option" where
  "IsEqual s pr = (case diff_loop (GetAll s) pr (True, \<lparr> ipaddress = None \<rparr>) of
      None \<Rightarrow> None
    | Some (eq, deleted) \<Rightarrow> (case diff_loop (GetAll pr) s (eq, \<lparr> ipaddress = None \<rparr>) of
        None \<Rightarrow> None
      | Some (eq', added) \<Rightarrow> Some (eq', added, deleted)))"

text \<open>The contract the pool relies on: a made set stays made, and membership after an
insertion or a removal is what it should be.\<close>

locale addr_set =
  fixes made :: "'s \<Rightarrow> bool" and new :: "'s" and add :: "'a \<Rightarrow> 's \<Rightarrow> 's option"
    and remove :: "'a \<Rightarrow> 's \<Rightarrow> 's" and contains :: "'s \<Rightarrow> 'a \<Rightarrow> bool"
  assumes new: "made new" "\<not> contains new v"
    and add: "made s \<Longrightarrow> \<exists>s'. add v s = Some s' \<and> made s' \<and> (\<forall>w. contains s' w \<longleftrightarrow> w = v \<or> contains s w)"
    and remove: "made s \<Longrightarrow> made (remove v s)"
      "made s \<Longrightarrow> contains (remove v s) w \<longleftrightarrow> w \<noteq> v \<and> contains s w"
begin

definition elems :: "'s \<Rightarrow> 'a set" where
  "elems s = {v. contains s v}"

lemma elems_new: "elems new = {}"
  using new by (simp add: elems_def)

lemma elems_add: "made s \<Longrightarrow> add v s = Some s' \<Longrightarrow> made s' \<and> elems s' = insert v (elems s)"
  using add [of s v] by (auto simp: elems_def)

lemma add_made: "made s \<Longrightarrow> add v s \<noteq> None"
  using add [of s v] by auto

lemma elems_remove: "made s \<Longrightarrow> elems (remove v s) = elems s - {v}"
  using remove by (auto simp: elems_def)

end

definition set_made :: "IPSet \<Rightarrow> bool" where
  "set_made s \<longleftrightarrow> ipaddress s \<noteq> None"

interpretation iset: addr_set set_made NewSet Set_Add Set_Remove Set_Contains
  by unfold_locales
    (auto simp: set_made_def NewSet_def Set_Contains_def Set_Add_def Set_Remove_def split: option.splits)

lemma Set_Contains_GetAll: "Set_Contains s v \<longleftrightarrow> v \<in> set (GetAll s)"
  by (auto simp: Set_Contains_def GetAll_def map_of_eq_None_iff split: option.splits)

lemma diff_loop_nil:
  "diff_loop vs other (eq, \<lparr> ipaddress = None \<rparr>) =
    (if list_all (Set_Contains other) vs then Some (eq, \<lparr> ipaddress = None \<rparr>) else None)"
  by (induction vs) (auto simp: Set_Add_def)

text \<open>Comparing two address sets answers ``equal'' with empty difference sets when
they have the same members; when they differ the difference sets, whose maps were never
made, are written to and the comparison panics.\<close>

theorem IsEqual_panics_iff_different:
  "IsEqual s p = (if set (GetAll s) = set (GetAll p)
     then Some (True, \<lparr> ipaddress = None \<rparr>, \<lparr> ipaddress = None \<rparr>) else None)"
proof -
  have "set (GetAll s) = set (GetAll p) \<longleftrightarrow>
      list_all (Set_Contains p) (GetAll s) \<and> list_all (Set_Contains s) (GetAll p)"
    by (auto simp: Set_Contains_GetAll list_all_iff)
  then show ?thesis
    by (auto simp: IsEqual_def diff_loop_nil)
qed

subsection \<open>The generator\<close>

record IPGenerater =
  netCIDR :: IPNet
  uintMaskBits :: u32
  gcounter :: u32

definition InitIPGenerater :: "string \<Rightarrow> string + IPGenerater" where
  "InitIPGenerater cidr = (case ParseCIDR cidr of
      None \<Rightarrow> Inl ''invalid CIDR format''
    | Some (_, ipn) \<Rightarrow> Inr \<lparr> netCIDR = ipn,
        uintMaskBits = drop_bit (fst (Mask_Size (net_Mask ipn))) 0xFFFFFFFF, gcounter = 0 \<rparr>)"

text \<open>The address for a counter value, and the compare-and-swap increment.\<close>

definition host_ip :: "IPGenerater \<Rightarrow> u32 \<Rightarrow> IP" where
  "host_ip g c = (let cb = c AND uintMaskBits g; ip = net_IP (netCIDR g) in
     [ucast ((ucast (ip ! 0) :: u32) OR drop_bit 24 (cb AND push_bit 24 0xFF)),
      ucast ((ucast (ip ! 1) :: u32) OR drop_bit 16 (cb AND push_bit 16 0xFF)),
      ucast ((ucast (ip ! 2) :: u32) OR drop_bit 8 (cb AND push_bit 8 0xFF)),
      ucast ((ucast (ip ! 3) :: u32) OR drop_bit 0 (cb AND 0xFF))])"

definition NextIP :: "IPGenerater \<Rightarrow> IP \<times> IPGenerater" where
  "NextIP g = (host_ip g (gcounter g), g \<lparr> gcounter := gcounter g + 1 \<rparr>)"

definition GetBroadcastIP :: "IPGenerater \<Rightarrow> IP" where
  "GetBroadcastIP g = (let ip = net_IP (netCIDR g) in
     [ucast ((ucast (ip ! 0) :: u32) OR drop_bit 24 (uintMaskBits g)),
      ucast ((ucast (ip ! 1) :: u32) OR drop_bit 16 (uintMaskBits g)),
      ucast ((ucast (ip ! 2) :: u32) OR drop_bit 8 (uintMaskBits g)),
      ucast ((ucast (ip ! 3) :: u32) OR drop_bit 0 (uintMaskBits g))])"

definition GetNetwork :: "IPGenerater \<Rightarrow> IP" where
  "GetNetwork g = net_IP (netCIDR g)"

definition CheckIPAddressInSubnet :: "IPGenerater \<Rightarrow> string \<Rightarrow> bool" where
  "CheckIPAddressInSubnet g ipStr = IPNet_Contains (netCIDR g) (ParseIP ipStr)"

subsection \<open>The pool\<close>

record IPPool =
  IPv4Generator :: IPGenerater
  IPv4Pool :: IPSet

definition NewIPPool :: "string \<Rightarrow> (string + IPPool) option" where
  "NewIPPool cidr = (case InitIPGenerater cidr of
      Inl e \<Rightarrow> Some (Inl e)
    | Inr g \<Rightarrow> Option.bind (Set_Add (IP_String (GetNetwork g)) NewSet) (\<lambda>s1.
        Option.bind (Set_Add (IP_String (GetBroadcastIP g)) s1) (\<lambda>s2.
          Some (Inr \<lparr> IPv4Generator = g, IPv4Pool = s2 \<rparr>))))"

text \<open>\<open>None\<close> is a panic or a loop that ran out of the given number of rounds; the
theorems below show that \<open>Suc (unat uintMaskBits)\<close> rounds always suffice.\<close>

fun assign_loop :: "nat \<Rightarrow> IP \<Rightarrow> IPPool \<Rightarrow> (IP \<times> IPPool) option" where
  "assign_loop 0 start p = None"
| "assign_loop (Suc fuel) start p =
     (let (newIP, g) = NextIP (IPv4Generator p); id' = IP_String newIP; p' = p \<lparr> IPv4Generator := g \<rparr> in
      if \<not> Set_Contains (IPv4Pool p) id' then
        map_option (\<lambda>s. (newIP, p' \<lparr> IPv4Pool := s \<rparr>)) (Set_Add id' (IPv4Pool p))
      else if IP_Equal start newIP then Some ([], p')
      else assign_loop fuel start p')"

definition AssignNewIPv4 :: "IPPool \<Rightarrow> (IP \<times> IPPool) option" where
  "AssignNewIPv4 p =
    (let (start, g) = NextIP (IPv4Generator p); id' = IP_String start; p' = p \<lparr> IPv4Generator := g \<rparr> in
     if \<not> Set_Contains (IPv4Pool p) id' then
       map_option (\<lambda>s. (start, p' \<lparr> IPv4Pool := s \<rparr>)) (Set_Add id' (IPv4Pool p))
     else assign_loop (Suc (unat (uintMaskBits (IPv4Generator p)))) start p')"

definition RetrieveIPv4 :: "string \<Rightarrow> IPPool \<Rightarrow> IPPool" where
  "RetrieveIPv4 ip p = (if Set_Contains (IPv4Pool p) ip
     then p \<lparr> IPv4Pool := Set_Remove ip (IPv4Pool p) \<rparr> else p)"

definition UpdateAllocateddIPv4 :: "string \<Rightarrow> IPPool \<Rightarrow> IPPool option" where
  "UpdateAllocateddIPv4 ip p = (if \<not> Set_Contains (IPv4Pool p) ip
     then map_option (\<lambda>s. p \<lparr> IPv4Pool := s \<rparr>) (Set_Add ip (IPv4Pool p)) else Some p)"

definition CheckSubnetAndUpdateIPPool :: "string \<Rightarrow> IPPool \<Rightarrow> (bool \<times> IPPool) option" where
  "CheckSubnetAndUpdateIPPool ip p = (if CheckIPAddressInSubnet (IPv4Generator p) ip
     then map_option (Pair True) (UpdateAllocateddIPv4 ip p) else Some (False, p))"

subsection \<open>Host addresses\<close>

text \<open>A generator of an IPv4 subnet: the network address has no host bits, the mask bits
are the host bits, and the mask is their complement.\<close>

definition gen_ok :: "nat \<Rightarrow> IPGenerater \<Rightarrow> bool" where
  "gen_ok k g \<longleftrightarrow> k \<le> 32 \<and> uintMaskBits g = mask k \<and> length (net_IP (netCIDR g)) = 4 \<and>
     net_Mask (netCIDR g) = map NOT (put_u32 (mask k)) \<and>
     map2 (AND) (net_IP (netCIDR g)) (put_u32 (mask k)) = replicate 4 0"

lemma ff_mask: "(0xFF :: u32) = mask 8"
  by (simp add: mask_eq_exp_minus_1)

lemma host_ip_eq:
  assumes "length (net_IP (netCIDR g)) = 4"
  shows "host_ip g c = map2 (OR) (net_IP (netCIDR g)) (put_u32 (c AND uintMaskBits g))"
proof -
  obtain w x y z where "net_IP (netCIDR g) = [w, x, y, z]"
    using assms by (auto simp: length_Suc_conv numeral_eq_Suc)
  moreover have "(ucast ((ucast (v :: u8) :: u32) OR t) :: u8) = v OR ucast t" for v t
    by (rule bit_word_eqI) (auto simp: bit_simps)
  moreover have "(ucast (drop_bit 24 (cb AND push_bit 24 0xFF)) :: u8) = ucast (drop_bit 24 cb)"
      "(ucast (drop_bit 16 (cb AND push_bit 16 0xFF)) :: u8) = ucast (drop_bit 16 cb)"
      "(ucast (drop_bit 8 (cb AND push_bit 8 0xFF)) :: u8) = ucast (drop_bit 8 cb)"
      "(ucast (cb AND 0xFF) :: u8) = ucast cb" for cb :: u32
    unfolding ff_mask by (rule bit_word_eqI; auto simp: bit_simps)+
  ultimately show ?thesis
    by (simp add: host_ip_def put_u32_def Let_def)
qed

lemma map2_OR_AND:
  assumes "length xs = length ms" "length bs = length ms" "map2 (AND) xs ms = replicate (length ms) (0 :: u8)"
    "map2 (AND) bs ms = bs"
  shows "map2 (AND) (map2 (OR) xs bs) ms = bs"
  using assms
proof (induction ms arbitrary: xs bs)
  case Nil
  then show ?case by simp
next
  case (Cons m ms)
  then obtain x xs' b bs' where "xs = x # xs'" "bs = b # bs'"
    by (metis length_Suc_conv)
  with Cons show ?case by (simp add: bit.conj_disj_distrib2)
qed

lemma put_u32_AND: "map2 (AND) (put_u32 a) (put_u32 b) = put_u32 (a AND b)"
  by (simp add: put_u32_def) (intro conjI bit_word_eqI; simp add: bit_simps)

lemma host_ip_bits:
  assumes "gen_ok k g"
  shows "map2 (AND) (host_ip g c) (put_u32 (mask k)) = put_u32 (take_bit k c)"
  using assms
  by (simp add: gen_ok_def host_ip_eq take_bit_eq_mask)
    (rule map2_OR_AND, simp_all add: put_u32_AND and.assoc)

lemma host_ip_inj:
  assumes "gen_ok k g"
  shows "host_ip g c = host_ip g d \<longleftrightarrow> take_bit k c = take_bit k d"
proof
  assume "host_ip g c = host_ip g d"
  then have "put_u32 (take_bit k c) = put_u32 (take_bit k d)"
    using host_ip_bits [OF assms] by metis
  then show "take_bit k c = take_bit k d" by (metis get_put_u32_nil)
next
  assume "take_bit k c = take_bit k d"
  then show "host_ip g c = host_ip g d"
    using assms by (simp add: gen_ok_def host_ip_eq take_bit_eq_mask)
qed

lemma length_host_ip [simp]: "length (host_ip g c) = 4"
  by (simp add: host_ip_def Let_def)

lemma host_ip_counter [simp]: "host_ip (g \<lparr> gcounter := x \<rparr>) c = host_ip g c"
  by (simp add: host_ip_def)

lemma map2_OR_NOT:
  assumes "length xs = length ms" "length bs = length ms" "map2 (AND) xs ms = replicate (length ms) (0 :: u8)"
    "map2 (AND) bs ms = bs"
  shows "map2 (AND) (map2 (OR) xs bs) (map NOT ms) = map2 (AND) xs (map NOT ms)"
  using assms
proof (induction ms arbitrary: xs bs)
  case Nil
  then show ?case by simp
next
  case (Cons m ms)
  then obtain x xs' b bs' where l: "xs = x # xs'" "bs = b # bs'"
    by (metis length_Suc_conv)
  with Cons.prems have "b AND m = b" by simp
  then have "(x OR b) AND NOT m = x AND NOT m"
    by (metis (no_types, lifting) and.assoc and.right_neutral bit.conj_cancel_right bit.conj_disj_distrib2
        bit.conj_zero_right bit.disj_zero_right)
  with Cons l show ?case by simp
qed

lemma host_ip_in_subnet:
  assumes "gen_ok k g"
  shows "IPNet_Contains (netCIDR g) (host_ip g c)"
proof -
  have n: "networkNumberAndMask (netCIDR g) = (net_IP (netCIDR g), map NOT (put_u32 (mask k)))"
    using assms by (auto simp: gen_ok_def networkNumberAndMask_def Let_def)
  have "map2 (AND) (host_ip g c) (map NOT (put_u32 (mask k))) =
      map2 (AND) (net_IP (netCIDR g)) (map NOT (put_u32 (mask k)))"
    using assms by (simp add: gen_ok_def host_ip_eq)
      (rule map2_OR_NOT, simp_all add: put_u32_AND and.assoc)
  then show ?thesis
    using assms by (simp add: IPNet_Contains_def n gen_ok_def flip: length_0_conv)
qed

lemma mask_bytes_cases:
  assumes "n \<le> 32"
  shows "mask_bytes n 4 = map NOT (put_u32 (drop_bit n 0xFFFFFFFF)) \<and>
    simpleMaskLength (mask_bytes n 4) = Some n"
proof -
  have "list_all (\<lambda>n. mask_bytes n 4 = map NOT (put_u32 (drop_bit n 0xFFFFFFFF)) \<and>
    simpleMaskLength (mask_bytes n 4) = Some n) [0..<33]" by code_simp
  then have "\<forall>n \<in> set [0..<33]. mask_bytes n 4 = map NOT (put_u32 (drop_bit n 0xFFFFFFFF)) \<and>
    simpleMaskLength (mask_bytes n 4) = Some n" unfolding list_all_iff .
  moreover have "n \<in> set [0..<33]" using assms by simp
  ultimately show ?thesis by blast
qed

lemma ones_mask: "(0xFFFFFFFF :: u32) = mask 32"
  by (simp add: mask_eq_exp_minus_1)

lemma drop_bit_ones: "n \<le> 32 \<Longrightarrow> drop_bit n (0xFFFFFFFF :: u32) = mask (32 - n)"
  unfolding ones_mask by (rule bit_word_eqI) (auto simp: bit_simps)

text \<open>The generator of every IPv4 prefix in CIDR notation is well formed.\<close>

lemma split_first_append [simp]: "c \<notin> set a \<Longrightarrow> split_first c (a @ c # b) = Some (a, b)"
  by (induction a) auto

lemma addr_kind_ip4 [simp]: "addr_kind (ip4_string b) = Some CHR ''.''"
  unfolding ip4_string_def by (subst addr_kind_append) (use dec_digits in auto)

lemma map2_AND_mask0:
  "length a = length m \<Longrightarrow> map2 (AND) (map2 (AND) a (map NOT m)) m = replicate (length m) (0 :: u8)"
proof (induction m arbitrary: a)
  case Nil
  then show ?case by simp
next
  case (Cons x m)
  then obtain y ys where "a = y # ys" by (metis length_Suc_conv)
  with Cons show ?case by (simp add: and.assoc)
qed

lemma InitIPGenerater_ok:
  assumes "length a = 4" "n \<le> 32"
  shows "\<exists>g. InitIPGenerater (ip4_string a @ ''/'' @ dec n) = Inr g \<and> gen_ok (32 - n) g"
proof -
  have sl: "CHR ''/'' \<notin> set (ip4_string a)" by (simp add: ip4_string_def)
  have mb: "CIDRMask n 32 = mask_bytes n 4" using assms(2) by (simp add: CIDRMask_def)
  have cm: "CIDRMask n 32 = map NOT (put_u32 (mask (32 - n)))"
    using mask_bytes_cases [OF assms(2)] assms(2) by (simp add: mb drop_bit_ones)
  have sm: "simpleMaskLength (CIDRMask n 32) = Some n"
    unfolding mb using mask_bytes_cases [OF assms(2)] by blast
  have ip: "IP_Mask a (CIDRMask n 32) = map2 (AND) a (CIDRMask n 32)"
    using assms by (simp add: IP_Mask_def cm)
  have "ParseCIDR (ip4_string a @ ''/'' @ dec n) = Some (v4InV6Prefix @ a,
     \<lparr> net_IP = map2 (AND) a (CIDRMask n 32), net_Mask = CIDRMask n 32 \<rparr>)"
    using assms sl ip by (simp add: ParseCIDR_def ParseIP_ip4_string Let_def v4InV6Prefix_def)
  then show ?thesis
    using assms sm map2_AND_mask0 [of a "put_u32 (mask (32 - n))"]
    by (simp add: InitIPGenerater_def Mask_Size_def gen_ok_def drop_bit_ones) (simp add: cm)
qed

subsection \<open>Allocation\<close>

definition pool_ok :: "nat \<Rightarrow> IPPool \<Rightarrow> bool" where
  "pool_ok k p \<longleftrightarrow> gen_ok k (IPv4Generator p) \<and> set_made (IPv4Pool p)"

definition hosts :: "IPPool \<Rightarrow> string set" where
  "hosts p = range (\<lambda>c. IP_String (host_ip (IPv4Generator p) c))"

lemma unat_take_bit_add:
  assumes "k \<le> 32"
  shows "unat (take_bit k ((c :: u32) + of_nat i)) = (unat c + i) mod 2 ^ k"
proof -
  have "(2 :: nat) ^ k dvd 2 ^ 32" using assms by (rule le_imp_power_dvd)
  then have m: "x mod 2 ^ 32 mod 2 ^ k = (x :: nat) mod 2 ^ k" for x by (rule mod_mod_cancel)
  have "unat (c + of_nat i) = (unat c + i) mod 2 ^ 32"
    by (simp add: unat_word_ariths unat_of_nat take_bit_eq_mod mod_add_right_eq)
  then have "take_bit k (unat (c + of_nat i)) = (unat c + i) mod 2 ^ k"
    using m [of "unat c + i"] by (simp add: take_bit_eq_mod)
  then show ?thesis by (simp only: unsigned_take_bit_eq)
qed

lemma host_ip_mod:
  assumes "gen_ok k g"
  shows "host_ip g (c + of_nat i) = host_ip g (c + of_nat j) \<longleftrightarrow> (unat c + i) mod 2 ^ k = (unat c + j) mod 2 ^ k"
proof -
  have k: "k \<le> 32" using assms by (simp add: gen_ok_def)
  show ?thesis
    unfolding host_ip_inj [OF assms] unat_take_bit_add [OF k, symmetric]
    by (auto dest: unsigned_word_eqI)
qed

lemma host_ip_covered:
  assumes "gen_ok k g"
  shows "\<exists>i < 2 ^ k. host_ip g d = host_ip g (c + of_nat i)"
proof -
  have k: "k \<le> 32" using assms by (simp add: gen_ok_def)
  define x where "x = unat (d - c)"
  have d: "d = c + of_nat x" by (simp add: x_def)
  have "host_ip g d = host_ip g (c + of_nat (x mod 2 ^ k))"
    unfolding d host_ip_mod [OF assms] by (simp add: mod_add_right_eq)
  then show ?thesis by (intro exI [of _ "x mod 2 ^ k"]) simp
qed

lemma IP_String_host_inj [simp]:
  "IP_String (host_ip g c) = IP_String (host_ip g' d) \<longleftrightarrow> host_ip g c = host_ip g' d"
  by (simp add: ip4_string_inj IP_String_v4)

lemma unat_mask_u32: "k \<le> 32 \<Longrightarrow> unat (mask k :: u32) = 2 ^ k - 1"
proof -
  assume "k \<le> 32"
  moreover have "unat (take_bit k (- 1 :: u32)) = take_bit k (unat (- 1 :: u32))"
    by (rule unsigned_take_bit_eq)
  ultimately have "unat (mask k :: u32) = mask k"
    by (simp only: take_bit_minus_one_eq_mask unsigned_minus_1_eq_mask take_bit_of_mask) simp
  then show ?thesis by (simp only: mask_eq_exp_minus_1)
qed

lemma assign_loop_skip:
  assumes "\<And>j. j < m \<Longrightarrow> Set_Contains (IPv4Pool p) (IP_String (host_ip g (c + of_nat j))) \<and>
      host_ip g (c + of_nat j) \<noteq> start" "length start = 4"
  shows "assign_loop (m + f) start (p \<lparr> IPv4Generator := g \<lparr> gcounter := c \<rparr> \<rparr>) =
    assign_loop f start (p \<lparr> IPv4Generator := g \<lparr> gcounter := c + of_nat m \<rparr> \<rparr>)"
  using assms(1)
proof (induction m arbitrary: c)
  case 0
  then show ?case by simp
next
  case (Suc m)
  have s0: "Set_Contains (IPv4Pool p) (IP_String (host_ip g c))" "host_ip g c \<noteq> start"
    using Suc.prems [of 0] by auto
  have "assign_loop (m + f) start (p \<lparr> IPv4Generator := g \<lparr> gcounter := c + 1 \<rparr> \<rparr>) =
    assign_loop f start (p \<lparr> IPv4Generator := g \<lparr> gcounter := c + 1 + of_nat m \<rparr> \<rparr>)"
    using Suc.prems [of "Suc _"] by (intro Suc.IH) (simp add: add.assoc)
  then show ?case
    using s0 assms(2) by (auto simp: NextIP_def IP_Equal_def add.assoc)
qed

lemma assign_loop_found:
  assumes "set_made (IPv4Pool p)" "\<not> Set_Contains (IPv4Pool p) (IP_String (host_ip g c))"
  shows "\<exists>s. assign_loop (Suc f) start (p \<lparr> IPv4Generator := g \<lparr> gcounter := c \<rparr> \<rparr>) =
      Some (host_ip g c, p \<lparr> IPv4Generator := g \<lparr> gcounter := c + 1 \<rparr>, IPv4Pool := s \<rparr>) \<and>
    Set_Add (IP_String (host_ip g c)) (IPv4Pool p) = Some s"
  using iset.add_made [OF assms(1), of "IP_String (host_ip g c)"] assms(2)
  by (auto simp: NextIP_def)

lemma assign_loop_back:
  assumes "Set_Contains (IPv4Pool p) (IP_String (host_ip g c))"
  shows "assign_loop (Suc f) (host_ip g c) (p \<lparr> IPv4Generator := g \<lparr> gcounter := c \<rparr> \<rparr>) =
      Some ([], p \<lparr> IPv4Generator := g \<lparr> gcounter := c + 1 \<rparr> \<rparr>)"
  using assms by (simp add: NextIP_def)

text \<open>The first counter value after the start at which the search stops.\<close>

lemma search_stops:
  assumes ok: "gen_ok k g" and c0: "Set_Contains s (IP_String (host_ip g c))"
  obtains j where "j < 2 ^ k"
    "\<And>i. i < j \<Longrightarrow> Set_Contains s (IP_String (host_ip g (c + 1 + of_nat i))) \<and> host_ip g (c + 1 + of_nat i) \<noteq> host_ip g c"
    "\<not> Set_Contains s (IP_String (host_ip g (c + 1 + of_nat j))) \<or>
     (host_ip g (c + 1 + of_nat j) = host_ip g c \<and> (\<forall>d. Set_Contains s (IP_String (host_ip g d))))"
proof -
  define P where "P j \<longleftrightarrow> \<not> Set_Contains s (IP_String (host_ip g (c + 1 + of_nat j))) \<or>
     host_ip g (c + 1 + of_nat j) = host_ip g c" for j
  have sh: "c + 1 + of_nat i = c + of_nat (Suc i)" for i by simp
  have wrap: "host_ip g (c + 1 + of_nat i) = host_ip g c \<longleftrightarrow> (unat c + Suc i) mod 2 ^ k = unat c mod 2 ^ k" for i
    using host_ip_mod [OF ok, of c "Suc i" 0] by (simp only: sh) simp
  have last: "P (2 ^ k - 1)" unfolding P_def wrap by simp
  define j where "j = (LEAST j. P j)"
  have j1: "P j" unfolding j_def by (rule LeastI [of P, OF last])
  have j2: "\<not> P i" if "i < j" for i using that not_less_Least [of i P] unfolding j_def by blast
  have j3: "j \<le> 2 ^ k - 1" unfolding j_def by (rule Least_le [of P, OF last])
  note j = j1 j2 j3
  show ?thesis
  proof (rule that [of j])
    show "j < 2 ^ k" using j(3) by (simp add: le_less_trans [of j "2 ^ k - 1"])
    show "Set_Contains s (IP_String (host_ip g (c + 1 + of_nat i))) \<and> host_ip g (c + 1 + of_nat i) \<noteq> host_ip g c"
      if "i < j" for i using j(2) [OF that] by (simp add: P_def)
    show "\<not> Set_Contains s (IP_String (host_ip g (c + 1 + of_nat j))) \<or>
     (host_ip g (c + 1 + of_nat j) = host_ip g c \<and> (\<forall>d. Set_Contains s (IP_String (host_ip g d))))"
    proof (cases "Set_Contains s (IP_String (host_ip g (c + 1 + of_nat j)))")
      case True
      then have eq: "host_ip g (c + 1 + of_nat j) = host_ip g c" using j(1) by (simp add: P_def)
      then have "(unat c + Suc j) mod 2 ^ k = unat c mod 2 ^ k" by (simp add: wrap)
      then have "2 ^ k dvd Suc j" using mod_eq_dvd_iff_nat [of "unat c" "unat c + Suc j" "2 ^ k"] by simp
      then have "2 ^ k \<le> Suc j" by (rule dvd_imp_le) simp
      then have jk: "Suc j = 2 ^ k" using j(3) one_le_power [of "2 :: nat" k] by linarith
      have "Set_Contains s (IP_String (host_ip g d))" for d
      proof -
        obtain i where i: "i < 2 ^ k" "host_ip g d = host_ip g (c + of_nat i)"
          using host_ip_covered [OF ok] by blast
        show ?thesis
        proof (cases i)
          case 0
          then show ?thesis using i(2) c0 by simp
        next
          case (Suc n)
          then have "n < j" using i(1) jk by simp
          then show ?thesis using j(2) [of n] i(2) Suc sh [of n] by (simp add: P_def)
        qed
      qed
      then show ?thesis using eq by simp
    qed simp
  qed
qed

lemma pool_after_add:
  assumes ok: "gen_ok k g" and md: "set_made s" and add: "Set_Add (IP_String (host_ip g d)) s = Some s'"
    and nc: "\<not> Set_Contains s (IP_String (host_ip g d))"
    and p': "p' = p \<lparr> IPv4Generator := g \<lparr> gcounter := x \<rparr>, IPv4Pool := s' \<rparr>" and g: "g = IPv4Generator p"
  shows "pool_ok k p' \<and> hosts p' = hosts p \<and> netCIDR (IPv4Generator p') = netCIDR (IPv4Generator p) \<and>
    \<not> hosts p \<subseteq> iset.elems s \<and> IP_String (host_ip g d) \<in> hosts p - iset.elems s \<and> host_ip g d \<noteq> [] \<and>
    IPNet_Contains (netCIDR g) (host_ip g d) \<and>
    iset.elems (IPv4Pool p') = insert (IP_String (host_ip g d)) (iset.elems s)"
proof -
  have "pool_ok k p'" "iset.elems (IPv4Pool p') = insert (IP_String (host_ip g d)) (iset.elems s)"
    using iset.elems_add [OF md add] ok unfolding pool_ok_def gen_ok_def p' by simp_all
  moreover have "hosts p' = hosts p" "netCIDR (IPv4Generator p') = netCIDR (IPv4Generator p)"
    by (simp_all add: hosts_def p' g)
  moreover have mem: "IP_String (host_ip g d) \<in> hosts p - iset.elems s"
    unfolding hosts_def iset.elems_def g [symmetric] using nc by blast
  moreover from mem have "\<not> hosts p \<subseteq> iset.elems s" by blast
  moreover have "host_ip g d \<noteq> []" using length_host_ip [of g d] by force
  moreover have "IPNet_Contains (netCIDR g) (host_ip g d)" by (rule host_ip_in_subnet [OF ok])
  ultimately show ?thesis by blast
qed

lemma AssignNewIPv4_cases:
  assumes "pool_ok k p"
  shows "\<exists>ip p'. AssignNewIPv4 p = Some (ip, p') \<and> pool_ok k p' \<and> hosts p' = hosts p \<and>
    netCIDR (IPv4Generator p') = netCIDR (IPv4Generator p) \<and>
    (if hosts p \<subseteq> iset.elems (IPv4Pool p) then ip = [] \<and> IPv4Pool p' = IPv4Pool p
     else IP_String ip \<in> hosts p - iset.elems (IPv4Pool p) \<and> ip \<noteq> [] \<and>
       IPNet_Contains (netCIDR (IPv4Generator p)) ip \<and>
       iset.elems (IPv4Pool p') = insert (IP_String ip) (iset.elems (IPv4Pool p)))"
proof -
  define g c s where "g = IPv4Generator p" and "c = gcounter g" and "s = IPv4Pool p"
  have ok: "gen_ok k g" and md: "set_made s" using assms by (simp_all add: pool_ok_def g_def s_def)
  have ok': "gen_ok k (g \<lparr> gcounter := x \<rparr>)" for x using ok by (simp add: gen_ok_def)
  note found = pool_after_add [OF ok md _ _ refl g_def]
  show ?thesis
  proof (cases "Set_Contains s (IP_String (host_ip g c))")
    case False
    then obtain s' where "Set_Add (IP_String (host_ip g c)) s = Some s'"
      using iset.add_made [OF md] by blast
    then have "AssignNewIPv4 p = Some (host_ip g c, p \<lparr> IPv4Generator := g \<lparr> gcounter := c + 1 \<rparr>, IPv4Pool := s' \<rparr>)"
      using False by (simp add: AssignNewIPv4_def NextIP_def g_def c_def s_def Let_def)
    then show ?thesis
      using found [OF \<open>Set_Add _ s = Some s'\<close> False, of "c + 1"] unfolding s_def [symmetric] g_def [symmetric] by auto
  next
    case True
    obtain j where j: "j < 2 ^ k"
      "\<And>i. i < j \<Longrightarrow> Set_Contains s (IP_String (host_ip g (c + 1 + of_nat i))) \<and> host_ip g (c + 1 + of_nat i) \<noteq> host_ip g c"
      "\<not> Set_Contains s (IP_String (host_ip g (c + 1 + of_nat j))) \<or>
       (host_ip g (c + 1 + of_nat j) = host_ip g c \<and> (\<forall>d. Set_Contains s (IP_String (host_ip g d))))"
      using search_stops [OF ok True] by metis
    have "Suc (unat (uintMaskBits g)) = 2 ^ k"
      using ok by (simp add: gen_ok_def unat_mask_u32)
    then obtain f where f: "Suc (unat (uintMaskBits g)) = j + Suc f"
      using j(1) by (metis add_Suc_right less_imp_Suc_add)
    have "AssignNewIPv4 p = assign_loop (j + Suc f) (host_ip g c) (p \<lparr> IPv4Generator := g \<lparr> gcounter := c + 1 \<rparr> \<rparr>)"
      using True f by (simp add: AssignNewIPv4_def NextIP_def g_def [symmetric] c_def [symmetric] s_def [symmetric] Let_def)
    also have "\<dots> = assign_loop (Suc f) (host_ip g c) (p \<lparr> IPv4Generator := g \<lparr> gcounter := c + 1 + of_nat j \<rparr> \<rparr>)"
      using j(2) by (intro assign_loop_skip) (simp_all add: s_def [symmetric])
    finally have A: "AssignNewIPv4 p = \<dots>" .
    from j(3) show ?thesis
    proof
      assume nc: "\<not> Set_Contains s (IP_String (host_ip g (c + 1 + of_nat j)))"
      then obtain s' where A': "AssignNewIPv4 p = Some (host_ip g (c + 1 + of_nat j),
          p \<lparr> IPv4Generator := g \<lparr> gcounter := c + 1 + of_nat j + 1 \<rparr>, IPv4Pool := s' \<rparr>)"
        and add: "Set_Add (IP_String (host_ip g (c + 1 + of_nat j))) s = Some s'"
        using assign_loop_found [of p g "c + 1 + of_nat j" f "host_ip g c"] md A by (auto simp: s_def)
      show ?thesis
        using A' found [OF add nc, of "c + 1 + of_nat j + 1"] unfolding s_def [symmetric] g_def [symmetric] by auto
    next
      assume b: "host_ip g (c + 1 + of_nat j) = host_ip g c \<and> (\<forall>d. Set_Contains s (IP_String (host_ip g d)))"
      then have "AssignNewIPv4 p = Some ([], p \<lparr> IPv4Generator := g \<lparr> gcounter := c + 1 + of_nat j + 1 \<rparr> \<rparr>)"
        using assign_loop_back [of p g "c + 1 + of_nat j" f] A by (simp add: s_def)
      moreover have "hosts p \<subseteq> iset.elems s" using b by (auto simp: hosts_def iset.elems_def g_def)
      ultimately show ?thesis
        using ok' md by (simp add: pool_ok_def s_def hosts_def g_def)
    qed
  qed
qed

lemma put_get_u32: "length x = 4 \<Longrightarrow> put_u32 (get_u32 x) = x"
proof -
  assume "length x = 4"
  then obtain a b c d where x: "x = [a, b, c, d]" by (auto simp: length_Suc_conv numeral_eq_Suc)
  show ?thesis unfolding x
    by (simp add: put_u32_def get_u32_def) (intro conjI bit_word_eqI; auto simp: bit_simps dest: bit_imp_le_length)
qed

lemma split_bits:
  assumes "length xs = length ms" "length ns = length ms"
    "map2 (AND) ns ms = replicate (length ms) (0 :: u8)"
    "map2 (AND) ns (map NOT ms) = map2 (AND) xs (map NOT ms)"
  shows "map2 (OR) ns (map2 (AND) xs ms) = xs"
  using assms
proof (induction ms arbitrary: xs ns)
  case Nil
  then show ?case by simp
next
  case (Cons m ms)
  then obtain x xs' n ns' where l: "xs = x # xs'" "ns = n # ns'" by (metis length_Suc_conv)
  with Cons.prems have e: "n AND m = 0" "n AND NOT m = x AND NOT m" by simp_all
  have "n OR (x AND m) = x"
  proof (rule bit_word_eqI)
    fix i
    assume i: "i < LENGTH(8)"
    have "bit (n AND m) i = bit (0 :: u8) i" "bit (n AND NOT m) i = bit (x AND NOT m) i" using e by simp_all
    then show "bit (n OR (x AND m)) i = bit x i" using i by (auto simp: bit_simps)
  qed
  with Cons l show ?case by simp
qed

text \<open>The host addresses are exactly the four-byte addresses the subnet contains.\<close>

lemma hosts_eq:
  assumes "pool_ok k p"
  shows "hosts p = {IP_String x | x. length x = 4 \<and> IPNet_Contains (netCIDR (IPv4Generator p)) x}"
proof -
  define g where "g = IPv4Generator p"
  have ok: "gen_ok k g" using assms by (simp add: pool_ok_def g_def)
  then have n: "networkNumberAndMask (netCIDR g) = (net_IP (netCIDR g), map NOT (put_u32 (mask k)))"
    by (auto simp: gen_ok_def networkNumberAndMask_def Let_def)
  have "\<exists>c. x = host_ip g c" if x: "length x = 4" "IPNet_Contains (netCIDR g) x" for x
  proof -
    have "map2 (AND) (net_IP (netCIDR g)) (map NOT (put_u32 (mask k))) = map2 (AND) x (map NOT (put_u32 (mask k)))"
      using x n by (simp add: IPNet_Contains_def split: if_splits)
    then have "x = map2 (OR) (net_IP (netCIDR g)) (map2 (AND) x (put_u32 (mask k)))"
      using ok x(1) by (intro split_bits [symmetric]) (simp_all add: gen_ok_def)
    also have "map2 (AND) x (put_u32 (mask k)) = put_u32 (get_u32 x AND mask k)"
      by (subst put_get_u32 [OF x(1), symmetric]) (simp add: put_u32_AND)
    finally have "x = host_ip g (get_u32 x)"
      using ok by (simp add: gen_ok_def host_ip_eq)
    then show ?thesis ..
  qed
  then show ?thesis
    using host_ip_in_subnet [OF ok] length_host_ip unfolding hosts_def g_def [symmetric] by blast
qed

subsection \<open>Histories of a pool\<close>

datatype pool_op = PAssign | PRetrieve string | PCheck string

fun pool_run :: "pool_op list \<Rightarrow> IPPool \<Rightarrow> IPPool option" where
  "pool_run [] p = Some p"
| "pool_run (PAssign # ops) p = (case AssignNewIPv4 p of None \<Rightarrow> None | Some (_, p') \<Rightarrow> pool_run ops p')"
| "pool_run (PRetrieve ip # ops) p = pool_run ops (RetrieveIPv4 ip p)"
| "pool_run (PCheck ip # ops) p =
     (case CheckSubnetAndUpdateIPPool ip p of None \<Rightarrow> None | Some (_, p') \<Rightarrow> pool_run ops p')"

lemma RetrieveIPv4_ok: "pool_ok k p \<Longrightarrow> pool_ok k (RetrieveIPv4 ip p)"
  using iset.remove by (simp add: pool_ok_def RetrieveIPv4_def)

lemma RetrieveIPv4_gen [simp]: "IPv4Generator (RetrieveIPv4 ip p) = IPv4Generator p"
  by (simp add: RetrieveIPv4_def)

lemma Check_ok:
  assumes "pool_ok k p"
  shows "\<exists>b p'. CheckSubnetAndUpdateIPPool ip p = Some (b, p') \<and> pool_ok k p' \<and>
    IPv4Generator p' = IPv4Generator p"
proof -
  have "set_made (IPv4Pool p)" using assms by (simp add: pool_ok_def)
  then obtain s where s: "Set_Add ip (IPv4Pool p) = Some s" "set_made s"
    using iset.add [of "IPv4Pool p" ip] by blast
  then show ?thesis
    using assms by (auto simp: CheckSubnetAndUpdateIPPool_def UpdateAllocateddIPv4_def pool_ok_def)
qed

lemma pool_run_ok:
  assumes "pool_ok k p"
  shows "\<exists>p'. pool_run ops p = Some p' \<and> pool_ok k p' \<and>
    netCIDR (IPv4Generator p') = netCIDR (IPv4Generator p)"
  using assms
proof (induction ops p rule: pool_run.induct)
  case (2 ops p)
  then show ?case using AssignNewIPv4_cases [OF 2(2)] by fastforce
next
  case (3 ip ops p)
  then show ?case using RetrieveIPv4_ok [OF 3(2), of ip] by simp
next
  case (4 ip ops p)
  then show ?case using Check_ok [OF 4(2), of ip] by fastforce
qed simp

lemma NewIPPool_ok:
  assumes "length a = 4" "n \<le> 32"
  shows "\<exists>p. NewIPPool (ip4_string a @ ''/'' @ dec n) = Some (Inr p) \<and> pool_ok (32 - n) p"
proof -
  obtain g where g: "InitIPGenerater (ip4_string a @ ''/'' @ dec n) = Inr g" "gen_ok (32 - n) g"
    using InitIPGenerater_ok [OF assms] by blast
  obtain s1 where s1: "Set_Add (IP_String (GetNetwork g)) NewSet = Some s1" "set_made s1"
    using iset.add [OF iset.new(1)] by blast
  obtain s2 where s2: "Set_Add (IP_String (GetBroadcastIP g)) s1 = Some s2" "set_made s2"
    using iset.add [OF s1(2)] by blast
  show ?thesis using g s1 s2 by (simp add: NewIPPool_def pool_ok_def)
qed

text \<open>C13. For every IPv4 prefix a pool can be made, and after any history of
assignments, returns and registrations of addresses a further assignment terminates without
a panic.  It returns \<open>nil\<close> exactly when every address of the subnet is taken;
otherwise the address lies in the subnet, was free, and is registered as taken.\<close>

theorem ippool_assign_fresh:
  assumes "length a = 4" "n \<le> 32"
  shows "\<exists>p0. NewIPPool (ip4_string a @ ''/'' @ dec n) = Some (Inr p0) \<and>
    (\<forall>ops. \<exists>p ip p'. pool_run ops p0 = Some p \<and> AssignNewIPv4 p = Some (ip, p') \<and>
      (ip = [] \<longleftrightarrow> (\<forall>x. length x = 4 \<and> IPNet_Contains (netCIDR (IPv4Generator p0)) x \<longrightarrow>
                      Set_Contains (IPv4Pool p) (IP_String x))) \<and>
      (ip \<noteq> [] \<longrightarrow> IPNet_Contains (netCIDR (IPv4Generator p0)) ip \<and>
         \<not> Set_Contains (IPv4Pool p) (IP_String ip) \<and>
         (\<forall>w. Set_Contains (IPv4Pool p') w \<longleftrightarrow> w = IP_String ip \<or> Set_Contains (IPv4Pool p) w)))"
proof -
  obtain p0 where p0: "NewIPPool (ip4_string a @ ''/'' @ dec n) = Some (Inr p0)" "pool_ok (32 - n) p0"
    using NewIPPool_ok [OF assms] by blast
  have "\<exists>p ip p'. pool_run ops p0 = Some p \<and> AssignNewIPv4 p = Some (ip, p') \<and>
      (ip = [] \<longleftrightarrow> (\<forall>x. length x = 4 \<and> IPNet_Contains (netCIDR (IPv4Generator p0)) x \<longrightarrow>
                      Set_Contains (IPv4Pool p) (IP_String x))) \<and>
      (ip \<noteq> [] \<longrightarrow> IPNet_Contains (netCIDR (IPv4Generator p0)) ip \<and>
         \<not> Set_Contains (IPv4Pool p) (IP_String ip) \<and>
         (\<forall>w. Set_Contains (IPv4Pool p') w \<longleftrightarrow> w = IP_String ip \<or> Set_Contains (IPv4Pool p) w))" for ops
  proof -
    obtain p where p: "pool_run ops p0 = Some p" "pool_ok (32 - n) p"
      "netCIDR (IPv4Generator p) = netCIDR (IPv4Generator p0)"
      using pool_run_ok [OF p0(2)] by blast
    obtain ip p' where a: "AssignNewIPv4 p = Some (ip, p')"
      "if hosts p \<subseteq> iset.elems (IPv4Pool p) then ip = [] \<and> IPv4Pool p' = IPv4Pool p
       else IP_String ip \<in> hosts p - iset.elems (IPv4Pool p) \<and> ip \<noteq> [] \<and>
         IPNet_Contains (netCIDR (IPv4Generator p)) ip \<and>
         iset.elems (IPv4Pool p') = insert (IP_String ip) (iset.elems (IPv4Pool p))"
      using AssignNewIPv4_cases [OF p(2)] by blast
    have all: "hosts p \<subseteq> iset.elems (IPv4Pool p) \<longleftrightarrow> (\<forall>x. length x = 4 \<and>
        IPNet_Contains (netCIDR (IPv4Generator p0)) x \<longrightarrow> Set_Contains (IPv4Pool p) (IP_String x))"
      unfolding hosts_eq [OF p(2)] iset.elems_def p(3) by blast
    show ?thesis
    proof (cases "hosts p \<subseteq> iset.elems (IPv4Pool p)")
      case True
      then show ?thesis using p(1) a all by auto
    next
      case False
      then have f: "ip \<noteq> []" "\<not> Set_Contains (IPv4Pool p) (IP_String ip)"
          "IPNet_Contains (netCIDR (IPv4Generator p0)) ip"
          "\<forall>w. Set_Contains (IPv4Pool p') w \<longleftrightarrow> w = IP_String ip \<or> Set_Contains (IPv4Pool p) w"
        using a(2) p(3) by (auto simp: iset.elems_def)
      then show ?thesis using p(1) a(1) all False by blast
    qed
  qed
  then show ?thesis using p0(1) by blast
qed

theorem ippool_assign_fresh_witness:
  "\<exists>p0 p ip p'. NewIPPool (ip4_string [10, 0, 0, 0] @ ''/'' @ dec 30) = Some (Inr p0) \<and>
    pool_run [PAssign, PAssign] p0 = Some p \<and> AssignNewIPv4 p = Some (ip, p')"
  using ippool_assign_fresh [of "[10, 0, 0, 0]" 30] by (simp del: pool_run.simps) blast

end
