(* ===== verification/NetUtils.thy ===== *)
theory NetUtils
  imports GoNet
begin

text \<open>Frame builders and route selection helpers of \<open>pkg/utils/net.go\<close>: the
Internet checksum, the neighbour advertisement and gratuitous ARP frames that announce a
virtual IP, local address tests, and the egress candidates of a main routing table dump.
The interface list of the host, the loxilib address tests and the packet socket are
parameters (\<open>host_env\<close>).\<close>

subsection \<open>Internet checksum\<close>

definition put_u16 :: "u16 \<Rightarrow> u8 list" where
  "put_u16 v = [ucast (drop_bit 8 v), ucast v]"

definition be16 :: "u8 \<Rightarrow> u8 \<Rightarrow> u16" where
  "be16 a b = push_bit 8 (ucast a) OR ucast b"

text \<open>The two loops over the data: pairs of bytes, then a trailing odd byte.\<close>

fun csum_add :: "u8 list \<Rightarrow> u32 \<Rightarrow> u32" where
  "csum_add (a # b # r) acc = csum_add r (acc + ucast (be16 a b))"
| "csum_add [a] acc = acc + push_bit 8 (ucast a)"
| "csum_add [] acc = acc"

function csum_fold :: "u32 \<Rightarrow> u32" where
  "csum_fold acc = (if acc > 0xFFFF then csum_fold (drop_bit 16 acc + (acc AND 0xFFFF)) else acc)"
  by auto

lemma unat_u32_lt: "unat (x :: u32) < 2 ^ 32"
  using unsigned_less [of x, where ?'a = nat] by simp

lemma csum_fold_step_nat:
  "unat (drop_bit 16 acc + (acc AND 0xFFFF) :: u32) = unat acc div 65536 + unat acc mod 65536"
proof -
  have m: "(0xFFFF :: u32) = mask 16" by (simp add: mask_eq_exp_minus_1)
  have a: "unat (drop_bit 16 acc) = unat acc div 65536"
    by (simp add: drop_bit_eq_div unat_div_distrib)
  have "unat (take_bit 16 acc) = unat acc mod 65536"
    by (simp add: unsigned_take_bit_eq) (simp add: take_bit_eq_mod)
  then have b: "unat (acc AND 0xFFFF) = unat acc mod 65536"
    unfolding m by (simp add: take_bit_eq_mask)
  have "unat acc div 65536 + unat acc mod 65536 < 2 ^ 32"
    using unat_u32_lt [of acc] by simp
  then show ?thesis by (simp add: unat_word_ariths a b)
qed

termination csum_fold
proof (relation "measure unat")
  fix acc :: u32
  assume "acc > 0xFFFF"
  then have g: "unat acc > 65535" by (simp add: word_less_nat_alt)
  have "unat acc div 65536 + unat acc mod 65536 < unat acc"
    using g div_mult_mod_eq [of "unat acc" 65536] by linarith
  then show "(drop_bit 16 acc + (acc AND 0xFFFF), acc) \<in> measure unat"
    by (simp add: csum_fold_step_nat)
qed simp

declare csum_fold.simps [simp del]

definition checksum :: "u8 list \<Rightarrow> u16" where
  "checksum data = NOT (ucast (csum_fold (csum_add data 0)))"

definition createPseudoHeader :: "IP \<Rightarrow> IP \<Rightarrow> nat \<Rightarrow> u8 list" where
  "createPseudoHeader srcIP dstIP len =
     To16 srcIP @ To16 dstIP @ [0, 58] @ put_u32 (of_nat len)"

definition calculateChecksum :: "u8 list \<Rightarrow> IP \<Rightarrow> IP \<Rightarrow> u16" where
  "calculateChecksum data srcIP dstIP = checksum (createPseudoHeader srcIP dstIP (length data) @ data)"

subsection \<open>Neighbour advertisement and ARP frames\<close>

record icmpv6Header =
  icmp_Type :: u8
  icmp_Code :: u8
  icmp_Checksum :: u16
  icmp_Reserved :: u32

definition Marshal :: "icmpv6Header \<Rightarrow> u8 list" where
  "Marshal h = [icmp_Type h, icmp_Code h] @ put_u16 (icmp_Checksum h) @ put_u32 0x20000000"

definition newNeighborAdvertisementPayload :: "IP \<Rightarrow> u8 list \<Rightarrow> u8 list option" where
  "newNeighborAdvertisementPayload targetIP macAddr =
    (if To16 targetIP = [] then None
     else Some (To16 targetIP @ [2, 1] @ take 6 macAddr @ replicate (6 - length macAddr) 0))"

record Interface =
  if_Index :: int
  if_Name :: string
  if_Flags :: u32
  if_HardwareAddr :: "u8 list"
  if_Addrs :: "IPNet list option"

text \<open>\<open>sock_open\<close> stands for opening a packet socket and binding it to the device,
\<open>sock_send\<close> for writing a frame to it; both return the error, if any.\<close>

record host_env =
  InterfaceByName :: "string \<Rightarrow> Interface option"
  InterfaceByIndex :: "int \<Rightarrow> Interface option"
  InterfaceAddrs :: "IPNet option list option"
  IsNetIPv4 :: "string \<Rightarrow> bool"
  IsNetIPv6 :: "string \<Rightarrow> bool"
  sock_open :: "string \<Rightarrow> string option"
  sock_send :: "string \<Rightarrow> u8 list \<Rightarrow> string option"

definition send_frame :: "host_env \<Rightarrow> string \<Rightarrow> u8 list \<Rightarrow> string + u8 list" where
  "send_frame env ifName f = (case sock_open env ifName of
      Some e \<Rightarrow> Inl e
    | None \<Rightarrow> (case sock_send env ifName f of Some e \<Rightarrow> Inl e | None \<Rightarrow> Inr f))"

definition IPv6linklocalallnodes :: IP where
  "IPv6linklocalallnodes = [0xff, 0x02, 0, 0, 0, 0, 0, 0, 0, 0, 0, 0, 0, 0, 0, 0x01]"

definition na_header :: "u16 \<Rightarrow> icmpv6Header" where
  "na_header cs = \<lparr> icmp_Type = 136, icmp_Code = 0, icmp_Checksum = cs, icmp_Reserved = 0 \<rparr>"

definition na_frame :: "IP \<Rightarrow> u8 list \<Rightarrow> u8 list option" where
  "na_frame targetIP mac = (case newNeighborAdvertisementPayload targetIP mac of
      None \<Rightarrow> None
    | Some payload \<Rightarrow>
        (let cs = calculateChecksum (Marshal (na_header 0) @ payload) IPv6linklocalallnodes IPv6linklocalallnodes
         in Some (Marshal (na_header cs) @ payload)))"

text \<open>The result is the error, or the frame that was put on the wire; \<open>None\<close> is a panic.\<close>

definition NetAdvertiseVI64Req :: "host_env \<Rightarrow> IP \<Rightarrow> string \<Rightarrow> (string + u8 list) option" where
  "NetAdvertiseVI64Req env targetIP ifName =
    (if targetIP = [] \<or> ifName = [] \<or> ifName = ''lo'' then Some (Inl ''invalid parameters'')
     else if \<not> IsNetIPv6 env (IP_String targetIP) then Some (Inl ''invalid parameters'')
     else (case InterfaceByName env ifName of
         None \<Rightarrow> Some (Inl ''intfv6-err'')
       | Some ifi \<Rightarrow>
           (if length (if_HardwareAddr ifi) \<noteq> 6 then Some (Inl ''intfv6-mac-err'')
            else (case na_frame targetIP (if_HardwareAddr ifi) of
                None \<Rightarrow> None
              | Some f \<Rightarrow> Some (send_frame env ifName f)))))"

definition arp_frame :: "u16 \<Rightarrow> u8 list \<Rightarrow> IP \<Rightarrow> u8 list \<Rightarrow> IP \<Rightarrow> u8 list" where
  "arp_frame op sha spa tha tpa =
     put_u16 1 @ put_u16 0x0800 @ [6, 4] @ put_u16 op @ sha @ To4 spa @ tha @ To4 tpa"

text \<open>The socket is opened before the interface is looked up.\<close>

definition arp_send :: "host_env \<Rightarrow> string \<Rightarrow> (u8 list \<Rightarrow> u8 list) \<Rightarrow> string + u8 list" where
  "arp_send env ifName mk = (case sock_open env ifName of
      Some e \<Rightarrow> Inl e
    | None \<Rightarrow> (case InterfaceByName env ifName of
        None \<Rightarrow> Inl ''intf-err''
      | Some ifi \<Rightarrow>
          (if length (if_HardwareAddr ifi) \<noteq> 6 then Inl ''intf-mac-err''
           else (let f = mk (if_HardwareAddr ifi) in
             case sock_send env ifName f of Some e \<Rightarrow> Inl e | None \<Rightarrow> Inr f))))"

definition NetAdvertiseVIP4Req :: "host_env \<Rightarrow> IP \<Rightarrow> string \<Rightarrow> string + u8 list" where
  "NetAdvertiseVIP4Req env AdvIP ifName =
    (if AdvIP = [] \<or> ifName = [] \<or> ifName = ''lo'' then Inl ''invalid parameters''
     else arp_send env ifName (\<lambda>mac. arp_frame 2 mac AdvIP (replicate 6 0xff) AdvIP))"

fun first_v4 :: "IPNet list \<Rightarrow> IP" where
  "first_v4 [] = []"
| "first_v4 (n # ns) = (if To4 (net_IP n) \<noteq> [] then To4 (net_IP n) else first_v4 ns)"

definition GetIfaceIPAddr :: "host_env \<Rightarrow> string \<Rightarrow> string + IP" where
  "GetIfaceIPAddr env ifName = (case InterfaceByName env ifName of
      None \<Rightarrow> Inl ''not such ifname''
    | Some ief \<Rightarrow> (case if_Addrs ief of
        None \<Rightarrow> Inl ''not such addrs''
      | Some addrs \<Rightarrow> (if first_v4 addrs = [] then Inl ''not ipv4 address'' else Inr (first_v4 addrs))))"

definition SendArpReq :: "host_env \<Rightarrow> IP \<Rightarrow> string \<Rightarrow> string + u8 list" where
  "SendArpReq env AdvIP ifName = (case GetIfaceIPAddr env ifName of
      Inl e \<Rightarrow> Inl e
    | Inr srcIP \<Rightarrow> arp_send env ifName (\<lambda>mac. arp_frame 1 mac srcIP (replicate 6 0) AdvIP))"

definition IsLoopback :: "IP \<Rightarrow> bool" where
  "IsLoopback ip = (if To4 ip \<noteq> [] then To4 ip ! 0 = 127 else IP_Equal ip (replicate 15 0 @ [1]))"

definition IsIPHostAddr :: "host_env \<Rightarrow> string \<Rightarrow> bool" where
  "IsIPHostAddr env ipString = (case InterfaceAddrs env of
      None \<Rightarrow> False
    | Some as \<Rightarrow> list_ex (\<lambda>a. case a of None \<Rightarrow> False | Some n \<Rightarrow> \<not> IsLoopback (net_IP n) \<and>
        (To4 (net_IP n) \<noteq> [] \<or> To16 (net_IP n) \<noteq> []) \<and> IP_String (net_IP n) = ipString) as)"

definition IsIPHostNetAddr :: "host_env \<Rightarrow> IP \<Rightarrow> bool" where
  "IsIPHostNetAddr env ip = (case InterfaceAddrs env of
      None \<Rightarrow> False
    | Some as \<Rightarrow> list_ex (\<lambda>a. case a of None \<Rightarrow> False | Some n \<Rightarrow>
        (To4 (net_IP n) \<noteq> [] \<or> To16 (net_IP n) \<noteq> []) \<and> IPNet_Contains n ip) as)"

definition IPHostCIDRString :: "host_env \<Rightarrow> IP \<Rightarrow> string" where
  "IPHostCIDRString env ip = (if ip = [] then ''0.0.0.0/0''
     else if IsNetIPv4 env (IP_String ip) then IP_String ip @ ''/32'' else IP_String ip @ ''/128'')"

text \<open>\<open>rnd\<close> is the outcome of reading six random bytes.\<close>

definition GenerateRandomMAC :: "u8 list option \<Rightarrow> u8 list option" where
  "GenerateRandomMAC rnd = map_option (\<lambda>mac. mac [0 := (mac ! 0 OR 0x02) AND 0xfe]) rnd"

subsection \<open>Egress candidates\<close>

record EgressCand =
  PrefixLen :: nat
  Priority :: int
  IfIndex :: int
  IfName :: string

text \<open>A netlink route: \<open>rt_Dst\<close> is \<open>None\<close> for a default route, whose family
comes from \<open>rt_Family\<close>; \<open>rt_MultiPath\<close> lists the link indexes of its next hops.\<close>

record nl_Route =
  rt_Dst :: "IPNet option"
  rt_Family :: int
  rt_Type :: int
  rt_LinkIndex :: int
  rt_MultiPath :: "int list"
  rt_Priority :: int

definition AF_INET6 :: int where [go_consts]: "AF_INET6 = 10"
definition RTN_UNICAST :: int where [go_consts]: "RTN_UNICAST = 1"

definition AdvIfUsable :: "Interface option \<Rightarrow> bool" where
  "AdvIfUsable i = (case i of None \<Rightarrow> False
    | Some ifi \<Rightarrow> if_Flags ifi AND 1 \<noteq> 0 \<and> if_Flags ifi AND 8 = 0 \<and> length (if_HardwareAddr ifi) = 6)"

definition AdvIfUsableByName :: "host_env \<Rightarrow> string \<Rightarrow> bool" where
  "AdvIfUsableByName env ifName =
    (if ifName = [] \<or> ifName = ''lo'' then False else AdvIfUsable (InterfaceByName env ifName))"

definition routeCovers :: "nl_Route \<Rightarrow> IP \<Rightarrow> bool \<Rightarrow> nat option" where
  "routeCovers rt dst v6 = (case rt_Dst rt of
      None \<Rightarrow> (if (rt_Family rt = AF_INET6) \<noteq> v6 then None else Some 0)
    | Some n \<Rightarrow>
        (if (To4 (net_IP n) = []) \<noteq> v6 then None
         else if \<not> IPNet_Contains n dst then None
         else Some (fst (Mask_Size (net_Mask n)))))"

definition route_cand :: "IP \<Rightarrow> (int \<Rightarrow> Interface option) \<Rightarrow> nl_Route \<Rightarrow> EgressCand option" where
  "route_cand dst lookup rt =
    (if rt_Type rt \<noteq> RTN_UNICAST then None
     else (case routeCovers rt dst (To4 dst = []) of
         None \<Rightarrow> None
       | Some pl \<Rightarrow>
           (let ifIndex = (if rt_MultiPath rt \<noteq> [] then hd (rt_MultiPath rt) else rt_LinkIndex rt) in
            if ifIndex \<le> 0 then None
            else if \<not> AdvIfUsable (lookup ifIndex) then None
            else Some \<lparr> PrefixLen = pl, Priority = rt_Priority rt, IfIndex = ifIndex,
              IfName = (case lookup ifIndex of None \<Rightarrow> [] | Some ifi \<Rightarrow> if_Name ifi) \<rparr>)))"

definition MainTableEgressCands :: "IP \<Rightarrow> nl_Route list \<Rightarrow> (int \<Rightarrow> Interface option) \<Rightarrow> EgressCand list" where
  "MainTableEgressCands dst routes lookup =
    (if dst = [] then [] else List.map_filter (route_cand dst lookup) routes)"

subsection \<open>Checksum arithmetic\<close>

text \<open>The sum as a natural number.\<close>

fun csum_nat :: "u8 list \<Rightarrow> nat" where
  "csum_nat (a # b # r) = 256 * unat a + unat b + csum_nat r"
| "csum_nat [a] = 256 * unat a"
| "csum_nat [] = 0"

lemma unat_u8_lt: "unat (x :: u8) < 256"
  using unsigned_less [of x, where ?'a = nat] by simp

lemma csum_nat_bound: "csum_nat d \<le> 65535 * ((length d + 1) div 2)"
proof (induction d rule: csum_nat.induct)
  case (1 a b r)
  then show ?case using unat_u8_lt [of a] unat_u8_lt [of b] by simp
next
  case (2 a)
  then show ?case using unat_u8_lt [of a] by simp
qed simp

lemma unat_be16: "unat (ucast (be16 a b) :: u32) = 256 * unat a + unat b"
proof -
  have d: "push_bit 8 (ucast a :: u16) AND ucast b = 0"
    by (rule bit_word_eqI) (auto simp: bit_simps dest: bit_imp_le_length)
  have "be16 a b = push_bit 8 (ucast a) + ucast b"
    unfolding be16_def by (rule disjunctive_add_eq_or [symmetric, OF d])
  moreover have "unat (push_bit 8 (ucast a :: u16) + ucast b) = 256 * unat a + unat b"
    using unat_u8_lt [of a] unat_u8_lt [of b]
    by (simp add: push_bit_eq_mult unat_word_ariths unsigned_ucast_eq take_bit_nat_eq_self)
  ultimately have u: "unat (be16 a b) = 256 * unat a + unat b" by simp
  then show ?thesis
    using unat_u8_lt [of a] unat_u8_lt [of b] by (simp add: unsigned_ucast_eq take_bit_nat_eq_self)
qed

lemma csum_add_nat:
  assumes "unat acc + csum_nat d < 2 ^ 32"
  shows "unat (csum_add d acc) = unat acc + csum_nat d"
  using assms
proof (induction d acc rule: csum_add.induct)
  case (1 a b r acc)
  have "unat (acc + ucast (be16 a b)) = unat acc + (256 * unat a + unat b)"
    using 1(2) by (simp add: unat_word_ariths unat_be16)
  then show ?case using 1 by simp
next
  case (2 a acc)
  then show ?case
    by (simp add: push_bit_eq_mult unat_word_ariths)
qed simp

lemma csum_fold_props:
  "unat (csum_fold x) mod 65535 = unat x mod 65535 \<and> unat (csum_fold x) \<le> 65535 \<and>
   (unat (csum_fold x) = 0 \<longleftrightarrow> unat x = 0)"
proof (induction x rule: csum_fold.induct)
  case (1 x)
  show ?case
  proof (cases "x > 0xFFFF")
    case True
    define y where "y = drop_bit 16 x + (x AND 0xFFFF)"
    have y: "unat y = unat x div 65536 + unat x mod 65536" by (simp add: y_def csum_fold_step_nat)
    have g: "unat x > 65535" using True by (simp add: word_less_nat_alt)
    have "unat x = 65535 * (unat x div 65536) + unat y"
      unfolding y using div_mult_mod_eq [of "unat x" 65536] by linarith
    then have "unat x mod 65535 = unat y mod 65535" by (metis mod_mult_self4)
    moreover have "unat y \<noteq> 0" using g by (simp add: y div_eq_0_iff)
    ultimately show ?thesis
      using 1 [OF True] g True by (simp add: csum_fold.simps [of x] y_def [symmetric])
  next
    case False
    then show ?thesis by (simp add: csum_fold.simps [of x] word_less_nat_alt)
  qed
qed

text \<open>What a checksum says: the complement of the one's complement sum, where a
non-zero sum never folds to zero.\<close>

lemma checksum_nat:
  assumes "length d < 100000"
  shows "unat (checksum d) = 65535 - unat (csum_fold (csum_add d 0))"
    "unat (csum_add d 0) = csum_nat d"
proof -
  have b: "csum_nat d < 2 ^ 32" using csum_nat_bound [of d] assms by simp
  show "unat (csum_add d 0) = csum_nat d" using csum_add_nat [of 0 d] b by simp
  define f where "f = csum_fold (csum_add d 0)"
  have f: "unat f \<le> 65535" using csum_fold_props by (simp add: f_def)
  have n: "unat (ucast f :: u16) = unat f" using f by (simp add: unsigned_ucast_eq take_bit_nat_eq_self)
  have "NOT (ucast f :: u16) = - 1 - ucast f" by (simp add: not_eq_complement)
  moreover have "ucast f \<le> (- 1 :: u16)" by simp
  ultimately have "unat (NOT (ucast f :: u16)) = unat (- 1 :: u16) - unat f"
    by (simp add: unat_sub n)
  then show "unat (checksum d) = 65535 - unat (csum_fold (csum_add d 0))"
    by (simp add: checksum_def f_def [symmetric] unsigned_minus_1_eq_mask mask_eq_exp_minus_1)
qed

lemma checksum_cong:
  assumes "length d < 100000" "length e < 100000" "csum_nat d = csum_nat e"
  shows "checksum d = checksum e"
proof -
  have "csum_add d 0 = csum_add e 0"
    using checksum_nat(2) [OF assms(1)] checksum_nat(2) [OF assms(2)] assms(3)
    by (metis unsigned_word_eqI)
  then show ?thesis by (simp add: checksum_def)
qed

lemma csum_nat_append: "even (length d) \<Longrightarrow> csum_nat (d @ e) = csum_nat d + csum_nat e"
  by (induction d rule: csum_nat.induct) auto

lemma csum_put_u16 [simp]: "csum_nat (put_u16 v) = unat v"
proof -
  have a: "unat (ucast (drop_bit 8 v) :: u8) = unat v div 256"
  proof -
    have "unat (drop_bit 8 v) = unat v div 256" by (simp add: drop_bit_eq_div unat_div_distrib)
    moreover have "unat v div 256 < 256" using unsigned_less [of v, where ?'a = nat] by simp
    ultimately show ?thesis by (simp add: unsigned_ucast_eq take_bit_nat_eq_self)
  qed
  have b: "unat (ucast v :: u8) = unat v mod 256" by (simp add: unsigned_ucast_eq take_bit_eq_mod)
  show ?thesis by (simp add: put_u16_def a b)
qed

lemma length_put_u16 [simp]: "length (put_u16 v) = 2"
  by (simp add: put_u16_def)

text \<open>Filling the checksum of a message into its zeroed field makes it verify.\<close>

lemma checksum_verifies:
  assumes "even (length d)" "even (length e)" "length d + length e < 90000" "csum_nat d + csum_nat e > 0"
  shows "checksum (d @ put_u16 (checksum (d @ put_u16 0 @ e)) @ e) = 0"
proof -
  define S where "S = csum_nat d + csum_nat e"
  define c where "c = checksum (d @ put_u16 0 @ e)"
  have s0: "csum_nat (d @ put_u16 0 @ e) = S"
    using assms by (simp add: csum_nat_append S_def)
  have l0: "length (d @ put_u16 0 @ e) < 100000" using assms by simp
  define f where "f = unat (csum_fold (csum_add (d @ put_u16 0 @ e) 0))"
  have c: "unat c = 65535 - f" using checksum_nat(1) [OF l0] by (simp add: c_def f_def)
  have f: "f mod 65535 = S mod 65535" "f \<le> 65535"
    using csum_fold_props [of "csum_add (d @ put_u16 0 @ e) 0"] checksum_nat(2) [OF l0] s0 by (simp_all add: f_def)
  define m where "m = d @ put_u16 c @ e"
  have s1: "csum_nat m = S + (65535 - f)"
    using assms c by (simp add: csum_nat_append S_def m_def)
  have l1: "length m < 100000" using assms by (simp add: m_def)
  have "csum_nat m mod 65535 = 0"
  proof -
    have "(S + (65535 - f)) mod 65535 = (f + (65535 - f)) mod 65535" using f(1) by (metis mod_add_cong)
    then show ?thesis using f(2) s1 by simp
  qed
  moreover have "csum_nat m > 0" using s1 assms(4) by (simp add: S_def)
  ultimately have "unat (csum_fold (csum_add m 0)) = 65535"
    using csum_fold_props [of "csum_add m 0"] checksum_nat(2) [OF l1]
    by (metis le_neq_implies_less mod_less neq0_conv)
  then have "unat (checksum m) = 0" using checksum_nat(1) [OF l1] by simp
  then show ?thesis by (simp add: m_def c_def unat_eq_zero)
qed

lemma length_To16: "To16 ip \<noteq> [] \<Longrightarrow> length (To16 ip) = 16"
  by (auto simp: To16_def split: if_splits)

lemma To16_allnodes [simp]: "To16 IPv6linklocalallnodes = IPv6linklocalallnodes"
  by (simp add: To16_def IPv6linklocalallnodes_def)

lemma length_allnodes [simp]: "length IPv6linklocalallnodes = 16"
  by (simp add: IPv6linklocalallnodes_def)



text \<open>Every gratuitous ARP that is sent is a 28-byte reply frame for the announced
IPv4 address from a six-byte link address; an interface that is unknown or has no such
address is refused before anything is sent.\<close>

theorem garp_frame_valid:
  assumes "To4 AdvIP \<noteq> []" "NetAdvertiseVIP4Req env AdvIP ifName = Inr f"
  shows "length f = 28 \<and> take 8 f = [0, 1, 8, 0, 6, 4, 0, 2] \<and>
    take 4 (drop 14 f) = To4 AdvIP \<and> drop 24 f = To4 AdvIP \<and>
    (\<exists>ifi. InterfaceByName env ifName = Some ifi \<and> take 6 (drop 8 f) = if_HardwareAddr ifi \<and>
       length (if_HardwareAddr ifi) = 6) \<and> ifName \<noteq> ''lo''"
proof -
  have l: "length (To4 AdvIP) = 4" using assms(1) by (auto simp: To4_def split: if_splits)
  obtain ifi where i: "InterfaceByName env ifName = Some ifi" "length (if_HardwareAddr ifi) = 6"
    "f = arp_frame 2 (if_HardwareAddr ifi) AdvIP (replicate 6 0xff) AdvIP" "ifName \<noteq> ''lo''"
    using assms(2) by (auto simp: NetAdvertiseVIP4Req_def arp_send_def Let_def split: if_splits option.splits)
  show ?thesis using i l by (simp add: arp_frame_def put_u16_def)
qed

theorem garp_frame_valid_witness:
  "\<exists>f. NetAdvertiseVIP4Req \<lparr> InterfaceByName = (\<lambda>_. Some \<lparr> if_Index = 2, if_Name = ''eth0'', if_Flags = 1,
        if_HardwareAddr = [2, 0, 0, 0, 0, 1], if_Addrs = None \<rparr>), InterfaceByIndex = (\<lambda>_. None),
        InterfaceAddrs = None, IsNetIPv4 = (\<lambda>_. True), IsNetIPv6 = (\<lambda>_. False),
        sock_open = (\<lambda>_. None), sock_send = (\<lambda>_ _. None) \<rparr> [10, 0, 0, 9] ''eth0'' = Inr f \<and> length f = 28"
proof -
  define env where "env = \<lparr> InterfaceByName = (\<lambda>_. Some \<lparr> if_Index = 2, if_Name = ''eth0'', if_Flags = 1,
        if_HardwareAddr = [2, 0, 0, 0, 0, 1], if_Addrs = None \<rparr>), InterfaceByIndex = (\<lambda>_. None),
        InterfaceAddrs = None, IsNetIPv4 = (\<lambda>_. True), IsNetIPv6 = (\<lambda>_. False),
        sock_open = (\<lambda>_. None), sock_send = (\<lambda>_ _. None) \<rparr>"
  obtain f where f: "NetAdvertiseVIP4Req env [10, 0, 0, 9] ''eth0'' = Inr f"
    by (simp add: NetAdvertiseVIP4Req_def arp_send_def env_def)
  have "length f = 28" using garp_frame_valid [OF _ f] by (simp add: To4_def)
  then show ?thesis using f unfolding env_def by blast
qed

subsection \<open>The checksum as one's complement arithmetic\<close>

text \<open>The Internet checksum as it is specified: the 16-bit words of the message, a last single byte padded with
zero, are added in one's complement, each carry going round to the end at once.\<close>

definition ones_add :: "u16 \<Rightarrow> u16 \<Rightarrow> u16" where
  "ones_add a b = (let s = unat a + unat b in of_nat (if s > 65535 then s - 65535 else s))"

fun words16 :: "u8 list \<Rightarrow> u16 list" where
  "words16 (a # b # r) = be16 a b # words16 r"
| "words16 [a] = [be16 a 0]"
| "words16 [] = []"

lemma unat_u16_lt: "unat (x :: u16) \<le> 65535"
  using unsigned_less [of x, where ?'a = nat] by simp

lemma be16_nat: "unat (be16 a b) = 256 * unat a + unat b"
  using unat_be16 [of a b] unat_u16_lt [of "be16 a b"] by (simp add: unsigned_ucast_eq take_bit_nat_eq_self)

lemma unat_ones_add: "unat (ones_add a b) = (if unat a + unat b > 65535 then unat a + unat b - 65535 else unat a + unat b)"
proof -
  define s where "s = (if unat a + unat b > 65535 then unat a + unat b - 65535 else unat a + unat b)"
  have "s < 2 ^ 16" using unat_u16_lt [of a] unat_u16_lt [of b] by (auto simp: s_def)
  then have "unat (of_nat s :: u16) = s" by (simp add: unat_of_nat take_bit_nat_eq_self)
  then show ?thesis by (simp add: ones_add_def s_def Let_def)
qed

lemma ones_add_mod: "unat (ones_add a b) mod 65535 = (unat a + unat b) mod 65535" "unat (ones_add a b) = 0 \<longleftrightarrow> unat a = 0 \<and> unat b = 0"
  by (auto simp: unat_ones_add le_mod_geq)

lemma ones_sum:
  "unat (foldl ones_add acc (words16 d)) mod 65535 = (unat acc + csum_nat d) mod 65535 \<and>
   (unat (foldl ones_add acc (words16 d)) = 0 \<longleftrightarrow> unat acc + csum_nat d = 0)"
proof (induction d arbitrary: acc rule: words16.induct)
  case (1 a b r)
  have "(unat (ones_add acc (be16 a b)) + csum_nat r) mod 65535 = (unat acc + unat (be16 a b) + csum_nat r) mod 65535"
    using ones_add_mod(1) [of acc "be16 a b"] by (metis mod_add_left_eq)
  then show ?case using 1 [of "ones_add acc (be16 a b)"] ones_add_mod(2) [of acc "be16 a b"] by (simp add: be16_nat add.assoc)
qed (simp_all add: ones_add_mod be16_nat)

text \<open>C15. The checksum routine adds the words in 32 bits and folds the carries at the end; for every message
up to the largest IPv6 packet it computes the one's complement sum in which every addition carries round,
complemented.\<close>

theorem checksum_ones_complement:
  assumes "length d < 100000"
  shows "checksum d = NOT (foldl ones_add 0 (words16 d))"
proof -
  define f where "f = csum_fold (csum_add d 0)"
  define g where "g = foldl ones_add 0 (words16 d)"
  have f: "unat f mod 65535 = csum_nat d mod 65535" "unat f \<le> 65535" "unat f = 0 \<longleftrightarrow> csum_nat d = 0"
    using csum_fold_props [of "csum_add d 0"] checksum_nat(2) [OF assms] by (simp_all add: f_def)
  have g: "unat g mod 65535 = csum_nat d mod 65535" "unat g \<le> 65535" "unat g = 0 \<longleftrightarrow> csum_nat d = 0"
    using ones_sum [of 0 d] unat_u16_lt [of g] by (simp_all add: g_def)
  have "x = y" if "x mod 65535 = y mod 65535" "x \<le> 65535" "y \<le> 65535" "x = 0 \<longleftrightarrow> y = 0" for x y :: nat
  proof (cases "x = 65535 \<or> y = 65535")
    case True
    then show ?thesis using that by (cases "x < 65535"; cases "y < 65535") auto
  next
    case False
    then show ?thesis using that by simp
  qed
  then have "unat f = unat g" using f g by metis
  then have "unat (ucast f :: u16) = unat g" using f(2) by (simp add: unsigned_ucast_eq take_bit_nat_eq_self)
  then have "ucast f = g" by (rule unsigned_word_eqI)
  then show ?thesis by (simp add: checksum_def f_def g_def)
qed

theorem checksum_ones_complement_witness:
  "checksum [0x45, 0x00, 0xff, 0xff, 0xfe] = NOT (foldl ones_add 0 [0x4500, 0xffff, 0xfe00])"
  using checksum_ones_complement [of "[0x45, 0x00, 0xff, 0xff, 0xfe]"] by (simp add: be16_def push_bit_eq_mult)

end
