(* ===== verification/RuleKey.thy ===== *)
theory RuleKey
  imports GoNet
begin

text \<open>The match tuples of a rule and the string key under which \<open>rules.go\<close> stores a
rule in its table.  Fields are printed one after the other without separators.\<close>

subsection \<open>Definitions\<close>

record rule8Tuple =
  v8 :: u8
  valid8 :: u8

record rule16Tuple =
  v16 :: u16
  valid16 :: u16

record rule16RTuple =
  valMin :: u16
  valMax :: u16
  validR :: bool

record rule32Tuple =
  v32 :: u32
  valid32 :: u32

record ruleMacTuple =
  mac_addr :: "u8 list"
  mac_valid :: "u8 list"

text \<open>An unset \<open>net.IPNet\<close> has a nil address and a nil mask.\<close>

record ruleTuples =
  t_port :: string
  l2Src :: ruleMacTuple
  l2Dst :: ruleMacTuple
  vlanID :: rule16Tuple
  l3Src :: IPNet
  l3Dst :: IPNet
  l4Prot :: rule8Tuple
  l4Src :: rule16RTuple
  l4Dst :: rule16RTuple
  tunID :: rule32Tuple
  inL2Src :: ruleMacTuple
  inL2Dst :: ruleMacTuple
  inL3Src :: IPNet
  inL3Dst :: IPNet
  inL4Prot :: rule8Tuple
  inL4Src :: rule16RTuple
  inL4Dst :: rule16RTuple
  t_pref :: u32
  t_path :: string

definition zero_mac :: ruleMacTuple where
  "zero_mac = \<lparr> mac_addr = replicate 6 0, mac_valid = replicate 6 0 \<rparr>"

definition zero_range :: rule16RTuple where
  "zero_range = \<lparr> valMin = 0, valMax = 0, validR = False \<rparr>"

definition nil_net :: IPNet where
  "nil_net = \<lparr> net_IP = [], net_Mask = [] \<rparr>"

definition zero_tuples :: ruleTuples where
  "zero_tuples = \<lparr> t_port = [], l2Src = zero_mac, l2Dst = zero_mac, vlanID = \<lparr> v16 = 0, valid16 = 0 \<rparr>,
     l3Src = nil_net, l3Dst = nil_net, l4Prot = \<lparr> v8 = 0, valid8 = 0 \<rparr>, l4Src = zero_range,
     l4Dst = zero_range, tunID = \<lparr> v32 = 0, valid32 = 0 \<rparr>, inL2Src = zero_mac, inL2Dst = zero_mac,
     inL3Src = nil_net, inL3Dst = nil_net, inL4Prot = \<lparr> v8 = 0, valid8 = 0 \<rparr>,
     inL4Src = zero_range, inL4Dst = zero_range, t_pref = 0, t_path = [] \<rparr>"

definition byte_hex :: "u8 \<Rightarrow> string" where
  "byte_hex b = [digit_char (unat b div 16), digit_char (unat b mod 16)]"

fun join_colon :: "string list \<Rightarrow> string" where
  "join_colon [] = []"
| "join_colon [s] = s"
| "join_colon (s # ss) = s @ '':'' @ join_colon ss"

definition mac_key :: "ruleMacTuple \<Rightarrow> string" where
  "mac_key m = join_colon (map byte_hex (map2 (AND) (mac_addr m) (mac_valid m)))"

definition range_key :: "rule16RTuple \<Rightarrow> string" where
  "range_key r = (if validR r then
      (if valMin r = valMax r then dec (unat (valMin r))
       else dec (unat (valMin r)) @ dec (unat (valMax r)))
     else [])"

definition ruleKey :: "ruleTuples \<Rightarrow> string" where
  "ruleKey r = t_path r @ t_port r @ mac_key (l2Dst r) @ mac_key (l2Src r) @
     dec (unat (v16 (vlanID r) AND valid16 (vlanID r))) @
     IPNet_String (l3Dst r) @ IPNet_String (l3Src r) @
     dec (unat (v8 (l4Prot r) AND valid8 (l4Prot r))) @
     range_key (l4Src r) @ range_key (l4Dst r) @
     mac_key (inL2Dst r) @ mac_key (inL2Src r) @
     IPNet_String (inL3Dst r) @ IPNet_String (inL3Src r) @
     dec (unat (v8 (inL4Prot r) AND valid8 (inL4Prot r))) @
     range_key (inL4Src r) @ range_key (inL4Dst r) @
     dec (unat (t_pref r))"

definition checkValidMACTuple :: "ruleMacTuple \<Rightarrow> bool" where
  "checkValidMACTuple mt = list_ex (\<lambda>b. b \<noteq> 0) (take 6 (mac_valid mt))"

text \<open>The tuples of a load-balancer service, as \<open>AddLbRule\<close>, \<open>DeleteLbRule\<close> and
the lookups build them.\<close>

definition lb_tuples :: "IPNet \<Rightarrow> u8 \<Rightarrow> u16 \<Rightarrow> u16 \<Rightarrow> u32 \<Rightarrow> string \<Rightarrow> ruleTuples" where
  "lb_tuples vip prot pmin pmax blk host =
     zero_tuples \<lparr> l3Dst := vip, l4Prot := \<lparr> v8 = prot, valid8 = 0xff \<rparr>,
       l4Dst := \<lparr> valMin = pmin, valMax = pmax, validR = True \<rparr>, t_pref := blk, t_path := host \<rparr>"

definition host_net :: "u8 list \<Rightarrow> IPNet" where
  "host_net b = \<lparr> net_IP = b, net_Mask = replicate 4 0xff \<rparr>"

subsection \<open>Keys of load-balancer rules\<close>

lemma IPNet_String_nil [simp]: "IPNet_String nil_net = ''<nil>''"
  by (simp add: IPNet_String_def nil_net_def networkNumberAndMask_def To4_def)

definition mac00 :: string where "mac00 = ''00:00:00:00:00:00''"

lemma mac_key_zero [simp]: "mac_key zero_mac = mac00"
  by code_simp

lemma dec_0 [simp]: "dec 0 = ''0''"
  by code_simp

lemma IPNet_String_host: "length b = 4 \<Longrightarrow> IPNet_String (host_net b) = ip4_string b @ ''/32''"
proof -
  assume b: "length b = 4"
  have "simpleMaskLength (replicate 4 0xff) = Some 32" "dec 32 = ''32''" by code_simp+
  then show ?thesis
    using b by (auto simp: IPNet_String_def host_net_def networkNumberAndMask_def Let_def IP_String_v4
        simp flip: length_0_conv)
qed

lemma u8_and_ff [simp]: "(x :: u8) AND 255 = x"
proof -
  have "(255 :: u8) = - 1" by simp
  then show ?thesis by (simp only: and.right_neutral)
qed

lemma ruleKey_lb:
  assumes "length b = 4"
  shows "ruleKey (lb_tuples (host_net b) prot pmin pmax blk host) =
    host @ mac00 @ mac00 @ ''0'' @ ip4_string b @ ''/32'' @ ''<nil>'' @ dec (unat prot) @
    range_key \<lparr> valMin = pmin, valMax = pmax, validR = True \<rparr> @ mac00 @ mac00 @
    ''<nil>'' @ ''<nil>'' @ ''0'' @ dec (unat blk)"
  by (simp add: ruleKey_def lb_tuples_def zero_tuples_def IPNet_String_host [OF assms]
      range_key_def zero_range_def)

lemma append_split_eq:
  "length s = length s' \<Longrightarrow> xs @ s = ys @ s' \<longleftrightarrow> xs = ys \<and> s = s'"
  by (simp add: append_eq_append_conv)

text \<open>The transport protocols a service can name, and the port an ICMP service must have.\<close>

definition lb_proto_port :: "u8 \<Rightarrow> u16 \<Rightarrow> bool" where
  "lb_proto_port prot p \<longleftrightarrow> prot \<in> {0, 1, 6, 17, 132} \<and> (prot = 1 \<longrightarrow> p = 0)"

lemma proto_digits:
  "dec (unat (0::u8)) = ''0''" "dec (unat (1::u8)) = ''1''" "dec (unat (6::u8)) = ''6''"
  "dec (unat (17::u8)) = ''17''" "dec (unat (132::u8)) = ''132''" "dec (unat (0::u16)) = ''0''"
  by code_simp+

lemma proto_port_digits:
  assumes "lb_proto_port a p" "lb_proto_port b q" "dec (unat a) @ dec (unat p) = dec (unat b) @ dec (unat q)"
  shows "a = b \<and> p = q"
proof -
  have "a = b \<and> dec (unat p) = dec (unat q)"
    using assms unfolding lb_proto_port_def
    by (elim conjE insertE emptyE) (simp_all only: proto_digits append.simps list.inject char.inject
        refl simp_thms zero_neq_one one_neq_zero)
  then show ?thesis by (auto dest: unsigned_word_eqI)
qed

lemma range_key_single: "range_key \<lparr> valMin = p, valMax = p, validR = True \<rparr> = dec (unat p)"
  by (simp add: range_key_def)

lemma gt_no_dec: "CHR ''>'' \<notin> set (dec n)" "CHR '':'' \<notin> set (dec n)"
  by (simp_all add: char_digit_def)

lemma ip4_no_colon: "length b = 4 \<Longrightarrow> CHR '':'' \<notin> set (ip4_string b)"
  by (auto simp: ip4_string_def gt_no_dec)

text \<open>C23. The table key of a load-balancer rule identifies its service: for IPv4 virtual
addresses and single ports, two services have the same key only when address, protocol, port,
block number and host name all agree, although the key has no separators.\<close>

theorem lb_key_inj:
  assumes "length b = 4" "length b' = 4" "lb_proto_port prot p" "lb_proto_port prot' p'"
    "ruleKey (lb_tuples (host_net b) prot p p blk host) = ruleKey (lb_tuples (host_net b') prot' p' p' blk' host')"
  shows "b = b' \<and> prot = prot' \<and> p = p' \<and> blk = blk' \<and> host = host'"
proof -
  let ?A = "\<lambda>h i. h @ mac00 @ ''00:00:00:00:00'' @ '':'' @ ''000'' @ ip4_string i"
  let ?B = "\<lambda>h i a q. ?A h i @ ''/32'' @ ''<nil'' @ ''>'' @ dec (unat a) @ dec (unat q)"
  let ?C = "\<lambda>h i a q (k :: u32). (?B h i a q @ mac00 @ mac00 @ ''<nil><nil'') @ CHR ''>'' # ''0'' @ dec (unat k)"
  have key: "ruleKey (lb_tuples (host_net i) a q q k h) = ?C h i a q k" if "length i = 4" for i a q k h
    unfolding ruleKey_lb [OF that] range_key_single by (simp add: mac00_def)
  from assms(5) have eq: "?C host b prot p blk = ?C host' b' prot' p' blk'" unfolding key [OF assms(1)] key [OF assms(2)] .
  have gt: "CHR ''>'' \<notin> set (''0'' @ dec n)" for n using gt_no_dec(1) by simp
  from split_last [OF eq gt gt]
  have 1: "?B host b prot p = ?B host' b' prot' p'" "blk = blk'"
    by (auto simp: append_split_eq dest: unsigned_word_eqI)
  have gt2: "CHR ''>'' \<notin> set (dec m @ dec n)" for m n using gt_no_dec(1) by simp
  have "(?A host b @ ''/32'' @ ''<nil'') @ CHR ''>'' # (dec (unat prot) @ dec (unat p)) =
      (?A host' b' @ ''/32'' @ ''<nil'') @ CHR ''>'' # (dec (unat prot') @ dec (unat p'))"
    using 1(1) by simp
  from split_last [OF this gt2 gt2]
  have 2: "?A host b = ?A host' b'" "prot = prot' \<and> p = p'"
    using proto_port_digits [OF assms(3,4)] by (auto simp: append_split_eq)
  have col: "CHR '':'' \<notin> set (''000'' @ ip4_string i)" if "length i = 4" for i using ip4_no_colon [OF that] by simp
  have "(host @ mac00 @ ''00:00:00:00:00'') @ CHR '':'' # (''000'' @ ip4_string b) =
      (host' @ mac00 @ ''00:00:00:00:00'') @ CHR '':'' # (''000'' @ ip4_string b')"
    using 2(1) by simp
  from split_last [OF this col [OF assms(1)] col [OF assms(2)]]
  have "host = host'" "ip4_string b = ip4_string b'" by simp_all
  then show ?thesis using 1(2) 2(2) ip4_string_inj [OF assms(1,2)] by simp
qed

theorem lb_key_inj_witness:
  "ruleKey (lb_tuples (host_net [20, 20, 20, 1]) 6 80 80 0 []) \<noteq> ruleKey (lb_tuples (host_net [20, 20, 20, 1]) 17 80 80 0 [])"
  using lb_key_inj [of "[20, 20, 20, 1]" "[20, 20, 20, 1]" 6 80 17 80 0 "[]" 0 "[]"]
  by (auto simp: lb_proto_port_def)

text \<open>Port ranges are not identified by the key: for every service, the rule for the
ports 1 to 23 and the rule for port 123 have the same key, and so do the lookup key for port 80
with the unset upper end 0 and the rule for port 800.  The printed bounds have no separator.\<close>

theorem lb_key_range_collision:
  "ruleKey (lb_tuples vip prot 1 23 blk host) = ruleKey (lb_tuples vip prot 123 123 blk host) \<and>
   ruleKey (lb_tuples vip prot 80 0 blk host) = ruleKey (lb_tuples vip prot 800 800 blk host)"
proof -
  have "range_key \<lparr> valMin = 1, valMax = 23, validR = True \<rparr> = range_key \<lparr> valMin = 123, valMax = 123, validR = True \<rparr>"
    "range_key \<lparr> valMin = 80, valMax = 0, validR = True \<rparr> = range_key \<lparr> valMin = 800, valMax = 800, validR = True \<rparr>"
    by code_simp+
  then show ?thesis by (simp add: ruleKey_def lb_tuples_def zero_tuples_def)
qed

end
