(* ===== verification/DpBroker.thy ===== *)
theory DpBroker
  imports GoNet "HOL-Library.Sublist"
begin

text \<open>The data-path broker (\<open>dpbroker.go\<close>): work-queue entries, their dispatch to the
data-path hooks, the queue with its barrier, the cluster peers, and the synchronisation of
connection entries with the peers.  The hooks themselves belong to the eBPF back end and are the
parameter \<open>hook\<close>, which gives the status of each call; the status pointers of the
entries are written by the hooks and left out.\<close>

subsection \<open>Work-queue entries\<close>

datatype DpWorkT = DpCreate | DpRemove | DpChange | DpStatsGet | DpStatsClr | DpMapGet | DpStatsGetImm

datatype DpStatusT = DpStatusOk | DpCreateErr | DpRemoveErr | DpChangeErr | DpUknownErr | DpInProgressErr

datatype DpTunT = DpTunNone | DpTunVxlan | DpTunGre | DpTunGtp | DpTunStt | DpTunIPIP

datatype FwOpT = DpFwNone | DpFwDrop | DpFwFwd | DpFwRdr | DpFwTrap

datatype NatT = DpNatNone | DpNat | DpSnat | DpDnat | DpHsnat | DpHdnat | DpFullNat | DpFullProxy

datatype NatSel = EpSelNone | EpRR | EpHash | EpPrio | EpRRPersist | EpLeastConn | EpN2 | EpN3

datatype SecT = DpSecNone | DpTermHTTPS | DpE2EHTTPS

abbreviation DpWqUnkErr :: int where "DpWqUnkErr \<equiv> -102999"
definition DpWorkQLen :: nat where [go_consts]: "DpWorkQLen = 1024"

record MirrDpWorkQ =
  mw_Work :: DpWorkT
  mw_Name :: string
  mw_Mark :: int
  mw_MiPortNum :: int
  mw_MiBD :: int

record PortDpWorkQ =
  pw_Work :: DpWorkT
  pw_OsPortNum :: int
  pw_PortNum :: int
  pw_IngVlan :: int
  pw_SetBD :: int
  pw_SetZoneNum :: int
  pw_Prop :: u8
  pw_SetMirr :: int
  pw_SetPol :: int
  pw_LoadEbpf :: string

record L2AddrDpWorkQ =
  l2_Work :: DpWorkT
  l2_L2Addr :: "u8 list"
  l2_Tun :: DpTunT
  l2_NhNum :: int
  l2_PortNum :: int
  l2_BD :: int
  l2_Tagged :: int

record RouterMacDpWorkQ =
  rm_Work :: DpWorkT
  rm_L2Addr :: "u8 list"
  rm_PortNum :: int
  rm_BD :: int
  rm_TunID :: u32
  rm_TunType :: DpTunT
  rm_NhNum :: int

record NextHopDpWorkQ =
  nh_Work :: DpWorkT
  nh_TunNh :: bool
  nh_TunID :: u32
  nh_TunType :: DpTunT
  nh_RIP :: IP
  nh_SIP :: IP
  nh_NNextHopNum :: int
  nh_NextHopNum :: int
  nh_Resolved :: bool
  nh_DstAddr :: "u8 list"
  nh_SrcAddr :: "u8 list"
  nh_BD :: int

record RouteDpWorkQ =
  rt_Work :: DpWorkT
  rt_ZoneNum :: int
  rt_Dst :: IPNet
  rt_RtType :: int
  rt_RtMark :: int
  rt_NMax :: int
  rt_NMark :: "int list"

record StatDpWorkQ =
  sw_Work :: DpWorkT
  sw_Name :: string
  sw_Mark :: u32

record TableDpWorkQ =
  tw_Work :: DpWorkT
  tw_Name :: string

record PolDpWorkQ =
  po_Work :: DpWorkT
  po_Name :: string
  po_Mark :: int
  po_Cir :: u64
  po_Pir :: u64
  po_Cbs :: u64
  po_Ebs :: u64
  po_Color :: bool
  po_Srt :: bool

record PeerDpWorkQ =
  pe_Work :: DpWorkT
  pe_PeerIP :: IP

record FwDpWorkQ =
  fw_Work :: DpWorkT
  fw_ZoneNum :: int
  fw_SrcIP :: IPNet
  fw_DstIP :: IPNet
  fw_L4SrcMin :: u16
  fw_L4SrcMax :: u16
  fw_L4DstMin :: u16
  fw_L4DstMax :: u16
  fw_Port :: u16
  fw_Pref :: u16
  fw_Proto :: u8
  fw_Mark :: int
  fw_FwType :: FwOpT
  fw_FwVal1 :: u16
  fw_FwVal2 :: u32
  fw_FwRecord :: bool
  fw_OnDflt :: bool

record NatEP =
  XIP :: IP
  RIP :: IP
  XPort :: u16
  NWeight :: u8
  InActive :: bool

record LBDpWorkQ =
  lb_Work :: DpWorkT
  lb_ZoneNum :: int
  lb_ServiceIP :: IP
  lb_L4Port :: u16
  lb_BlockNum :: u32
  lb_DsrMode :: bool
  lb_CsumDis :: bool
  lb_SrcCheck :: bool
  lb_Ppv2En :: bool
  lb_SecMode :: SecT
  lb_HostURL :: string
  lb_Proto :: u8
  lb_Mark :: int
  lb_NatType :: NatT
  lb_EpSel :: NatSel
  lb_InActTo :: u64
  lb_PersistTo :: u64
  lb_endPoints :: "NatEP list"
  lb_secIP :: "IP list"

record LBSessionResetWorkQ =
  lsr_Mark :: int
  lsr_EndpointIdx :: int
  lsr_EndpointMask :: "bool list"

record UlClDpWorkQ =
  ul_Work :: DpWorkT
  ul_MDip :: IP
  ul_MSip :: IP
  ul_mTeID :: u32
  ul_Zone :: int
  ul_Qfi :: u8
  ul_Mark :: int
  ul_TDip :: IP
  ul_TSip :: IP
  ul_TTeID :: u32
  ul_Type :: DpTunT

record SockVIPDpWorkQ =
  sv_Work :: DpWorkT
  sv_VIP :: IP
  sv_Port :: u16
  sv_RwPort :: u16

text \<open>What \<open>ToDpCh\<close> carries; a barrier is named by its reply channel.  Any other
value is \<open>UnknownQ\<close>.\<close>

datatype DpWork = MirrQ MirrDpWorkQ | PolQ PolDpWorkQ | PortQ PortDpWorkQ | L2AddrQ L2AddrDpWorkQ
  | RouterMacQ RouterMacDpWorkQ | NextHopQ NextHopDpWorkQ | RouteQ RouteDpWorkQ | LBQ LBDpWorkQ
  | UlClQ UlClDpWorkQ | StatQ StatDpWorkQ | TableQ TableDpWorkQ | FwQ FwDpWorkQ | PeerQ PeerDpWorkQ
  | SockVIPQ SockVIPDpWorkQ | DpSyncBarrier nat | UnknownQ

text \<open>Calls of the hook interface.\<close>

datatype dp_call = DpMirrAdd MirrDpWorkQ | DpMirrDel MirrDpWorkQ | DpPolAdd PolDpWorkQ | DpPolDel PolDpWorkQ
  | DpPortPropAdd PortDpWorkQ | DpPortPropDel PortDpWorkQ | DpL2AddrAdd L2AddrDpWorkQ | DpL2AddrDel L2AddrDpWorkQ
  | DpRouterMacAdd RouterMacDpWorkQ | DpRouterMacDel RouterMacDpWorkQ | DpNextHopAdd NextHopDpWorkQ
  | DpNextHopDel NextHopDpWorkQ | DpRouteAdd RouteDpWorkQ | DpRouteDel RouteDpWorkQ | DpLBRuleAdd LBDpWorkQ
  | DpLBRuleDel LBDpWorkQ | DpFwRuleAdd FwDpWorkQ | DpFwRuleDel FwDpWorkQ | DpStat StatDpWorkQ
  | DpUlClAdd UlClDpWorkQ | DpUlClDel UlClDpWorkQ | DpTableGet TableDpWorkQ | DpSockVIPAdd SockVIPDpWorkQ
  | DpSockVIPDel SockVIPDpWorkQ

record DpPeer =
  Peer :: IP
  Client :: bool

text \<open>The broker: its peers, the hook calls made so far and the barriers closed so far,
both newest first.\<close>

record DpH =
  Peers :: "DpPeer list"
  calls :: "dp_call list"
  closed :: "nat list"

subsection \<open>Dispatch\<close>

type_synonym dp_hook = "dp_call \<Rightarrow> int"

definition do_call :: "dp_hook \<Rightarrow> dp_call \<Rightarrow> DpH \<Rightarrow> int \<times> DpH" where
  "do_call hook c dp = (hook c, dp \<lparr> calls := c # calls dp \<rparr>)"

definition add_or_del :: "dp_hook \<Rightarrow> DpWorkT \<Rightarrow> dp_call \<Rightarrow> dp_call \<Rightarrow> DpH \<Rightarrow> int \<times> DpH" where
  "add_or_del hook work add del dp =
    (if work = DpCreate then do_call hook add dp
     else if work = DpRemove then do_call hook del dp
     else (DpWqUnkErr, dp))"

definition DpWorkOnPort :: "dp_hook \<Rightarrow> PortDpWorkQ \<Rightarrow> DpH \<Rightarrow> int \<times> DpH" where
  "DpWorkOnPort hook w = add_or_del hook (pw_Work w) (DpPortPropAdd w) (DpPortPropDel w)"

definition DpWorkOnL2Addr :: "dp_hook \<Rightarrow> L2AddrDpWorkQ \<Rightarrow> DpH \<Rightarrow> int \<times> DpH" where
  "DpWorkOnL2Addr hook w = add_or_del hook (l2_Work w) (DpL2AddrAdd w) (DpL2AddrDel w)"

definition DpWorkOnRtMac :: "dp_hook \<Rightarrow> RouterMacDpWorkQ \<Rightarrow> DpH \<Rightarrow> int \<times> DpH" where
  "DpWorkOnRtMac hook w = add_or_del hook (rm_Work w) (DpRouterMacAdd w) (DpRouterMacDel w)"

definition DpWorkOnNextHop :: "dp_hook \<Rightarrow> NextHopDpWorkQ \<Rightarrow> DpH \<Rightarrow> int \<times> DpH" where
  "DpWorkOnNextHop hook w = add_or_del hook (nh_Work w) (DpNextHopAdd w) (DpNextHopDel w)"

definition DpWorkOnRoute :: "dp_hook \<Rightarrow> RouteDpWorkQ \<Rightarrow> DpH \<Rightarrow> int \<times> DpH" where
  "DpWorkOnRoute hook w = add_or_del hook (rt_Work w) (DpRouteAdd w) (DpRouteDel w)"

definition DpWorkOnNatLb :: "dp_hook \<Rightarrow> LBDpWorkQ \<Rightarrow> DpH \<Rightarrow> int \<times> DpH" where
  "DpWorkOnNatLb hook w = add_or_del hook (lb_Work w) (DpLBRuleAdd w) (DpLBRuleDel w)"

definition DpWorkOnUlCl :: "dp_hook \<Rightarrow> UlClDpWorkQ \<Rightarrow> DpH \<Rightarrow> int \<times> DpH" where
  "DpWorkOnUlCl hook w = add_or_del hook (ul_Work w) (DpUlClAdd w) (DpUlClDel w)"

definition DpWorkOnStat :: "dp_hook \<Rightarrow> StatDpWorkQ \<Rightarrow> DpH \<Rightarrow> int \<times> DpH" where
  "DpWorkOnStat hook w = do_call hook (DpStat w)"

definition DpWorkOnTableOp :: "dp_hook \<Rightarrow> TableDpWorkQ \<Rightarrow> DpH \<Rightarrow> int \<times> DpH" where
  "DpWorkOnTableOp hook w = do_call hook (DpTableGet w)"

definition DpWorkOnPol :: "dp_hook \<Rightarrow> PolDpWorkQ \<Rightarrow> DpH \<Rightarrow> int \<times> DpH" where
  "DpWorkOnPol hook w = add_or_del hook (po_Work w) (DpPolAdd w) (DpPolDel w)"

definition DpWorkOnMirr :: "dp_hook \<Rightarrow> MirrDpWorkQ \<Rightarrow> DpH \<Rightarrow> int \<times> DpH" where
  "DpWorkOnMirr hook w = add_or_del hook (mw_Work w) (DpMirrAdd w) (DpMirrDel w)"

definition DpWorkOnFw :: "dp_hook \<Rightarrow> FwDpWorkQ \<Rightarrow> DpH \<Rightarrow> int \<times> DpH" where
  "DpWorkOnFw hook w = add_or_del hook (fw_Work w) (DpFwRuleAdd w) (DpFwRuleDel w)"

definition DpWorkOnSockVIP :: "dp_hook \<Rightarrow> SockVIPDpWorkQ \<Rightarrow> DpH \<Rightarrow> int \<times> DpH" where
  "DpWorkOnSockVIP hook w = add_or_del hook (sv_Work w) (DpSockVIPAdd w) (DpSockVIPDel w)"

text \<open>Peers: an address is added once; the first peer with the address is removed.  The
status \<open>DpCreateErr\<close> of a duplicate is the number 1.\<close>

fun remove_peer :: "IP \<Rightarrow> DpPeer list \<Rightarrow> DpPeer list option" where
  "remove_peer ip [] = None"
| "remove_peer ip (p # ps) = (if IP_Equal (Peer p) ip then Some ps else map_option (Cons p) (remove_peer ip ps))"

definition DpWorkOnPeerOp :: "PeerDpWorkQ \<Rightarrow> DpH \<Rightarrow> int \<times> DpH" where
  "DpWorkOnPeerOp w dp =
    (if pe_Work w = DpCreate then
       (if list_ex (\<lambda>p. IP_Equal (Peer p) (pe_PeerIP w)) (Peers dp) then (1, dp)
        else (0, dp \<lparr> Peers := Peers dp @ [\<lparr> Peer = pe_PeerIP w, Client = False \<rparr>] \<rparr>))
     else if pe_Work w = DpRemove then
       (case remove_peer (pe_PeerIP w) (Peers dp) of
          Some ps \<Rightarrow> (0, dp \<lparr> Peers := ps \<rparr>)
        | None \<Rightarrow> (DpWqUnkErr, dp))
     else (DpWqUnkErr, dp))"

fun DpWorkSingle :: "dp_hook \<Rightarrow> DpWork \<Rightarrow> DpH \<Rightarrow> int \<times> DpH" where
  "DpWorkSingle hook (DpSyncBarrier b) dp = (0, dp \<lparr> closed := b # closed dp \<rparr>)"
| "DpWorkSingle hook (MirrQ w) dp = DpWorkOnMirr hook w dp"
| "DpWorkSingle hook (PolQ w) dp = DpWorkOnPol hook w dp"
| "DpWorkSingle hook (PortQ w) dp = DpWorkOnPort hook w dp"
| "DpWorkSingle hook (L2AddrQ w) dp = DpWorkOnL2Addr hook w dp"
| "DpWorkSingle hook (RouterMacQ w) dp = DpWorkOnRtMac hook w dp"
| "DpWorkSingle hook (NextHopQ w) dp = DpWorkOnNextHop hook w dp"
| "DpWorkSingle hook (RouteQ w) dp = DpWorkOnRoute hook w dp"
| "DpWorkSingle hook (LBQ w) dp = DpWorkOnNatLb hook w dp"
| "DpWorkSingle hook (UlClQ w) dp = DpWorkOnUlCl hook w dp"
| "DpWorkSingle hook (StatQ w) dp = DpWorkOnStat hook w dp"
| "DpWorkSingle hook (TableQ w) dp = DpWorkOnTableOp hook w dp"
| "DpWorkSingle hook (FwQ w) dp = DpWorkOnFw hook w dp"
| "DpWorkSingle hook (PeerQ w) dp = DpWorkOnPeerOp w dp"
| "DpWorkSingle hook (SockVIPQ w) dp = DpWorkOnSockVIP hook w dp"
| "DpWorkSingle hook UnknownQ dp = (DpWqUnkErr, dp)"

subsection \<open>The queue\<close>

text \<open>Senders block while the channel is full; the worker takes entries from the front.
\<open>sent\<close> records everything ever sent.\<close>

record dp_sys =
  dph :: DpH
  ToDpCh :: "DpWork list"
  sent :: "DpWork list"

inductive dp_step :: "dp_hook \<Rightarrow> dp_sys \<Rightarrow> dp_sys \<Rightarrow> bool" for hook :: dp_hook where
  send: "length (ToDpCh S) < DpWorkQLen \<Longrightarrow>
    dp_step hook S (S \<lparr> ToDpCh := ToDpCh S @ [m], sent := sent S @ [m] \<rparr>)"
| work: "ToDpCh S = m # ms \<Longrightarrow>
    dp_step hook S (S \<lparr> dph := snd (DpWorkSingle hook m (dph S)), ToDpCh := ms \<rparr>)"

inductive_cases dp_stepE: "dp_step hook S S'"

definition dp_init :: dp_sys where
  "dp_init = \<lparr> dph = \<lparr> Peers = [], calls = [], closed = [] \<rparr>, ToDpCh = [], sent = [] \<rparr>"

definition run_work :: "dp_hook \<Rightarrow> DpWork list \<Rightarrow> DpH \<Rightarrow> DpH" where
  "run_work hook ms dp = fold (\<lambda>m d. snd (DpWorkSingle hook m d)) ms dp"

text \<open>What is handled is what was sent, in order, up to what still waits in the channel.\<close>

definition dp_inv :: "dp_hook \<Rightarrow> dp_sys \<Rightarrow> bool" where
  "dp_inv hook S \<longleftrightarrow> (\<exists>done. sent S = done @ ToDpCh S \<and> dph S = run_work hook done (dph dp_init))
     \<and> length (ToDpCh S) \<le> DpWorkQLen"

lemma dp_inv_step: "dp_step hook S S' \<Longrightarrow> dp_inv hook S \<Longrightarrow> dp_inv hook S'"
proof (erule dp_stepE)
  fix m ms
  assume inv: "dp_inv hook S" and S': "S' = S \<lparr> dph := snd (DpWorkSingle hook m (dph S)), ToDpCh := ms \<rparr>"
    and q: "ToDpCh S = m # ms"
  then obtain dn where "sent S = dn @ ToDpCh S" "dph S = run_work hook dn (dph dp_init)"
    "length (ToDpCh S) \<le> DpWorkQLen" unfolding dp_inv_def by blast
  then show ?thesis
    unfolding dp_inv_def S' using q by (intro conjI exI [of _ "dn @ [m]"]) (simp_all add: run_work_def)
qed (auto simp: dp_inv_def)

lemma dp_inv_reach: "(dp_step hook)\<^sup>*\<^sup>* dp_init S \<Longrightarrow> dp_inv hook S"
proof (induction rule: rtranclp_induct)
  case base
  have "sent dp_init = [] @ ToDpCh dp_init" "dph dp_init = run_work hook [] (dph dp_init)"
    "length (ToDpCh dp_init) \<le> DpWorkQLen" by (simp_all add: dp_init_def run_work_def)
  then show ?case unfolding dp_inv_def by blast
qed (rule dp_inv_step)

lemma closed_work:
  "b \<in> set (closed (snd (DpWorkSingle hook m dp))) \<longleftrightarrow> b \<in> set (closed dp) \<or> m = DpSyncBarrier b"
  by (cases m) (auto simp: DpWorkOnPort_def DpWorkOnL2Addr_def DpWorkOnRtMac_def DpWorkOnNextHop_def
      DpWorkOnRoute_def DpWorkOnNatLb_def DpWorkOnUlCl_def DpWorkOnStat_def DpWorkOnTableOp_def
      DpWorkOnPol_def DpWorkOnMirr_def DpWorkOnFw_def DpWorkOnSockVIP_def DpWorkOnPeerOp_def
      add_or_del_def do_call_def split: option.splits)

lemma closed_run: "b \<in> set (closed (run_work hook ms dp)) \<longleftrightarrow> b \<in> set (closed dp) \<or> DpSyncBarrier b \<in> set ms"
  unfolding run_work_def by (induction ms arbitrary: dp) (auto simp: closed_work)

text \<open>C24. The barrier orders work: once a barrier is closed, every entry sent before it has
been handled, in the order sent, and the broker is in the state that handling those entries (and
possibly later ones) gives.\<close>

theorem dp_barrier_complete:
  assumes "(dp_step hook)\<^sup>*\<^sup>* dp_init S" "sent S = pre @ DpSyncBarrier b # post"
    "DpSyncBarrier b \<notin> set pre \<union> set post" "b \<in> set (closed (dph S))"
  shows "\<exists>later. prefix later post \<and> dph S = run_work hook later (run_work hook (pre @ [DpSyncBarrier b]) (dph dp_init))"
proof -
  obtain dn where dn: "sent S = dn @ ToDpCh S" "dph S = run_work hook dn (dph dp_init)"
    using dp_inv_reach [OF assms(1)] unfolding dp_inv_def by blast
  have "DpSyncBarrier b \<in> set dn"
    using assms(4) unfolding dn(2) closed_run by (simp add: dp_init_def)
  then obtain later where "dn = pre @ DpSyncBarrier b # later" "later @ ToDpCh S = post"
    using dn(1) assms(2,3) by (auto simp: append_eq_append_conv2 append_eq_Cons_conv Cons_eq_append_conv)
  then show ?thesis using dn(2) by (intro exI [of _ later]) (auto simp: run_work_def)
qed

theorem dp_barrier_complete_witness:
  "\<exists>S. (dp_step (\<lambda>c. 0))\<^sup>*\<^sup>* dp_init S \<and> DpStat \<lparr> sw_Work = DpStatsGet, sw_Name = ''NAT'', sw_Mark = 1 \<rparr> \<in> set (calls (dph S))"
proof -
  define w where "w = \<lparr> sw_Work = DpStatsGet, sw_Name = ''NAT'', sw_Mark = 1 \<rparr>"
  define S1 where "S1 = dp_init \<lparr> ToDpCh := [StatQ w], sent := [StatQ w] \<rparr>"
  define S2 where "S2 = S1 \<lparr> ToDpCh := [StatQ w, DpSyncBarrier 7], sent := [StatQ w, DpSyncBarrier 7] \<rparr>"
  define S3 where "S3 = S2 \<lparr> dph := snd (DpWorkSingle (\<lambda>c. 0) (StatQ w) (dph S2)), ToDpCh := [DpSyncBarrier 7] \<rparr>"
  define S4 where "S4 = S3 \<lparr> dph := snd (DpWorkSingle (\<lambda>c. 0) (DpSyncBarrier 7) (dph S3)), ToDpCh := [] \<rparr>"
  have "dp_step (\<lambda>c. 0) dp_init S1"
    using dp_step.send [of dp_init _ "StatQ w"] by (simp add: S1_def dp_init_def go_consts)
  moreover have "dp_step (\<lambda>c. 0) S1 S2"
    using dp_step.send [of S1 _ "DpSyncBarrier 7"] by (simp add: S2_def S1_def go_consts)
  moreover have "dp_step (\<lambda>c. 0) S2 S3" unfolding S3_def by (rule dp_step.work) (simp add: S2_def)
  moreover have "dp_step (\<lambda>c. 0) S3 S4" unfolding S4_def by (rule dp_step.work) (simp add: S3_def)
  ultimately have r: "(dp_step (\<lambda>c. 0))\<^sup>*\<^sup>* dp_init S4" by (meson converse_rtranclp_into_rtranclp rtranclp.rtrancl_refl)
  have "sent S4 = [StatQ w] @ DpSyncBarrier 7 # []" by (simp add: S4_def S3_def S2_def)
  moreover have "7 \<in> set (closed (dph S4))" by (simp add: S4_def)
  ultimately have "dph S4 = run_work (\<lambda>c. 0) ([StatQ w] @ [DpSyncBarrier 7]) (dph dp_init)"
    using dp_barrier_complete [OF r, of "[StatQ w]" 7 "[]"] by (auto simp: run_work_def)
  then have "DpStat w \<in> set (calls (dph S4))"
    by (simp add: run_work_def DpWorkOnStat_def do_call_def)
  then show ?thesis using r unfolding w_def by blast
qed

end
