(* ===== verification/LbEndpoints.thy ===== *)
theory LbEndpoints
  imports DpBroker
begin

text \<open>End-points of a load-balancer rule (\<open>rules.go\<close>): merging an update into the
end-points of an existing rule, the expansion of weights into the sixteen round-robin slots of
the data path, folding the per-slot counters back into the end-points, and the mask of session
counters to reset.\<close>

subsection \<open>Data\<close>

datatype LBOp = LBOPAdd | LBOPAttach | LBOPDetach

definition MaxLBEndPoints :: nat where [go_consts]: "MaxLBEndPoints = 32"
definition MaxLBPrioSlots :: nat where [go_consts]: "MaxLBPrioSlots = 16"

text \<open>An end-point that is the service of another rule is folded: it refers to a slice of the
array that holds the end-points of that rule, given by the array and the length of the slice.\<close>

record ruleLBEp =
  xIP :: IP
  rIP :: IP
  xPort :: u16
  weight :: u8
  inActTries :: int
  inActiveEP :: bool
  noService :: bool
  chkVal :: bool
  epCreated :: bool
  st_bytes :: u64
  st_packets :: u64
  foldEndPoints :: "(nat \<times> nat) option"
  foldRuleKey :: string

subsection \<open>Merging an update\<close>

definition ep_match :: "ruleLBEp \<Rightarrow> ruleLBEp \<Rightarrow> bool" where
  "ep_match e n \<longleftrightarrow> IP_Equal (xIP e) (xIP n) \<and> xPort e = xPort n"

fun first_match :: "ruleLBEp \<Rightarrow> ruleLBEp list \<Rightarrow> nat option" where
  "first_match e [] = None"
| "first_match e (n # ns) = (if ep_match e n then Some 0 else map_option Suc (first_match e ns))"

text \<open>The double loop over old and new end-points: whether something changed, whether a
match was found, and both slices with their in-place updates.\<close>

definition touch_old :: "LBOp \<Rightarrow> ruleLBEp \<Rightarrow> ruleLBEp \<Rightarrow> bool \<times> ruleLBEp" where
  "touch_old oper e n =
    (let c1 = (inActiveEP e \<and> oper \<noteq> LBOPDetach);
         e1 = (if c1 then e \<lparr> inActiveEP := False \<rparr> else e);
         c2 = (weight e1 \<noteq> weight n);
         e2 = (if c2 then e1 \<lparr> weight := weight n \<rparr> else e1)
     in (c1 \<or> c2, e2 \<lparr> chkVal := True \<rparr>))"

fun match_eps :: "LBOp \<Rightarrow> ruleLBEp list \<Rightarrow> ruleLBEp list \<Rightarrow> bool \<times> bool \<times> ruleLBEp list \<times> ruleLBEp list" where
  "match_eps oper [] news = (False, False, [], news)"
| "match_eps oper (e # es) news = (case first_match e news of
      None \<Rightarrow> (let (c, f, es', ns') = match_eps oper es news in (c, f, e # es', ns'))
    | Some j \<Rightarrow>
        (let (c1, e') = touch_old oper e (news ! j);
             (c, f, es', ns') = match_eps oper es (news [j := (news ! j) \<lparr> chkVal := True \<rparr>])
         in (c1 \<or> c, True, e' # es', ns')))"

definition settle :: "LBOp \<Rightarrow> ruleLBEp \<Rightarrow> ruleLBEp" where
  "settle oper e = (if \<not> chkVal e \<and> oper = LBOPAdd then e \<lparr> inActiveEP := True, chkVal := False \<rparr>
     else e \<lparr> chkVal := False \<rparr>)"

text \<open>Result: changed, the new end-points of the rule, and the end-points that went away.\<close>

definition getLBConsolidatedEPs ::
  "ruleLBEp list \<Rightarrow> ruleLBEp list \<Rightarrow> LBOp \<Rightarrow> bool \<times> ruleLBEp list \<times> ruleLBEp list" where
  "getLBConsolidatedEPs oldEps newEps oper =
    (let (chg, found, olds, news) = match_eps oper oldEps newEps in
     if oper = LBOPDetach then
       (if \<not> found then (False, olds, [])
        else (True, filter (\<lambda>e. \<not> chkVal e) olds, map (\<lambda>e. e \<lparr> chkVal := False \<rparr>) (filter chkVal olds)))
     else
       (let delEps = filter (\<lambda>e. \<not> chkVal e \<and> \<not> inActiveEP e) olds;
            fresh = map (\<lambda>n. n \<lparr> chkVal := True \<rparr>) (filter (\<lambda>n. \<not> chkVal n) news);
            ret0 = olds @ fresh
        in (chg \<or> fresh \<noteq> [] \<or> (oper = LBOPAdd \<and> list_ex (\<lambda>e. \<not> chkVal e) ret0),
            map (settle oper) ret0, delEps)))"

text \<open>The key an end-point is identified by.  Addresses come from \<open>ParseIP\<close> and
have sixteen bytes.\<close>

definition ep_key :: "ruleLBEp \<Rightarrow> IP \<times> u16" where
  "ep_key e = (xIP e, xPort e)"

definition ep_wf :: "ruleLBEp \<Rightarrow> bool" where
  "ep_wf e \<longleftrightarrow> length (xIP e) = 16 \<and> \<not> chkVal e"

definition ep_active :: "ruleLBEp \<Rightarrow> bool" where
  "ep_active e \<longleftrightarrow> \<not> inActiveEP e"

lemma ep_match_key: "length (xIP e) = 16 \<Longrightarrow> length (xIP n) = 16 \<Longrightarrow> ep_match e n \<longleftrightarrow> ep_key e = ep_key n"
  by (simp add: ep_match_def IP_Equal_def ep_key_def)

lemma ep_key_upd [simp]:
  "ep_key (e \<lparr> inActiveEP := b \<rparr>) = ep_key e" "ep_key (e \<lparr> weight := w \<rparr>) = ep_key e"
  "ep_key (e \<lparr> chkVal := b \<rparr>) = ep_key e"
  by (simp_all add: ep_key_def)

lemma touch_old_props:
  "ep_key (snd (touch_old oper e n)) = ep_key e" "chkVal (snd (touch_old oper e n))"
  "oper \<noteq> LBOPDetach \<Longrightarrow> \<not> inActiveEP (snd (touch_old oper e n))"
  "weight (snd (touch_old oper e n)) = weight n" "xIP (snd (touch_old oper e n)) = xIP e"
  by (auto simp: touch_old_def Let_def ep_key_def)

lemma settle_props [simp]:
  "ep_key (settle oper e) = ep_key e" "\<not> chkVal (settle oper e)"
  "inActiveEP (settle oper e) \<longleftrightarrow> inActiveEP e \<or> (\<not> chkVal e \<and> oper = LBOPAdd)"
  "weight (settle oper e) = weight e"
  by (auto simp: settle_def ep_key_def)

lemma first_match_some:
  "first_match e ns = Some j \<Longrightarrow> j < length ns \<and> ep_match e (ns ! j)"
  by (induction ns arbitrary: j) (auto split: if_splits)

lemma first_match_none: "first_match e ns = None \<longleftrightarrow> (\<forall>n \<in> set ns. \<not> ep_match e n)"
  by (induction ns) (auto split: if_splits)

text \<open>Closed form of the matching pass.\<close>

definition upd_old :: "LBOp \<Rightarrow> ruleLBEp list \<Rightarrow> ruleLBEp \<Rightarrow> ruleLBEp" where
  "upd_old oper news e = (case first_match e news of
     None \<Rightarrow> e | Some j \<Rightarrow> snd (touch_old oper e (news ! j)))"

lemma first_match_mark [simp]:
  "first_match e (ns [j := (ns ! j) \<lparr> chkVal := b \<rparr>]) = first_match e ns"
proof (cases "j < length ns")
  case True
  then show ?thesis
  proof (induction ns arbitrary: j)
    case (Cons n ns)
    then show ?case by (cases j) (simp_all add: ep_match_def)
  qed simp
qed (simp add: list_update_beyond)

lemma touch_old_mark [simp]: "touch_old oper e (n \<lparr> chkVal := b \<rparr>) = touch_old oper e n"
  by (simp add: touch_old_def Let_def)

lemma upd_old_mark [simp]: "upd_old oper (ns [j := (ns ! j) \<lparr> chkVal := b \<rparr>]) e = upd_old oper ns e"
proof -
  have "snd (touch_old oper e ((ns [j := (ns ! j) \<lparr> chkVal := b \<rparr>]) ! i)) = snd (touch_old oper e (ns ! i))" for i
    by (cases "j < length ns"; cases "i = j") (simp_all add: list_update_beyond)
  then show ?thesis by (simp add: upd_old_def split: option.splits)
qed

lemma match_eps_olds: "match_eps oper olds news = (c, f, olds', news') \<Longrightarrow> olds' = map (upd_old oper news) olds"
proof (induction olds arbitrary: news c f olds' news')
  case (Cons e es)
  show ?case
  proof (cases "first_match e news")
    case None
    then show ?thesis using Cons by (auto simp: upd_old_def [of _ _ e] split: prod.splits)
  next
    case (Some j)
    then obtain c1 f1 es1 where r: "match_eps oper es (news [j := (news ! j) \<lparr> chkVal := True \<rparr>]) = (c1, f1, es1, news')"
        "olds' = snd (touch_old oper e (news ! j)) # es1"
      using Cons.prems by (auto split: prod.splits)
    then show ?thesis using Cons.IH [OF r(1)] Some by (simp add: upd_old_def [of _ _ e])
  qed
qed simp

lemma match_eps_found:
  "match_eps oper olds news = (c, f, olds', news') \<Longrightarrow> f \<longleftrightarrow> (\<exists>e \<in> set olds. first_match e news \<noteq> None)"
proof (induction olds arbitrary: news c f olds' news')
  case (Cons e es)
  then show ?case by (fastforce split: option.splits prod.splits)
qed simp

lemma match_eps_news_sub:
  "match_eps oper olds news = (c, f, olds', news') \<Longrightarrow> n' \<in> set news' \<Longrightarrow>
    \<exists>n \<in> set news. n' = n \<or> n' = n \<lparr> chkVal := True \<rparr>"
proof (induction olds arbitrary: news c f olds' news')
  case (Cons e es)
  show ?case
  proof (cases "first_match e news")
    case None
    then show ?thesis using Cons by (auto split: prod.splits)
  next
    case (Some j)
    then have j: "j < length news" using first_match_some by blast
    obtain c1 f1 es1 where r: "match_eps oper es (news [j := (news ! j) \<lparr> chkVal := True \<rparr>]) = (c1, f1, es1, news')"
      using Cons.prems(1) Some by (auto split: prod.splits)
    obtain n where n: "n \<in> set (news [j := (news ! j) \<lparr> chkVal := True \<rparr>])" "n' = n \<or> n' = n \<lparr> chkVal := True \<rparr>"
      using Cons.IH [OF r Cons.prems(2)] by blast
    from n(1) have "n = (news ! j) \<lparr> chkVal := True \<rparr> \<or> n \<in> set news"
      using set_update_subset_insert by fastforce
    then show ?thesis using n(2) nth_mem [OF j] by (elim disjE; force)
  qed
qed auto

lemma match_eps_news_keep:
  assumes "match_eps oper olds news = (c, f, olds', news')" "n \<in> set news" "\<forall>e \<in> set olds. \<not> ep_match e n"
  shows "n \<in> set news'"
  using assms
proof (induction olds arbitrary: news c f olds' news')
  case (Cons e es)
  show ?case
  proof (cases "first_match e news")
    case None
    then show ?thesis using Cons by (auto split: prod.splits)
  next
    case (Some j)
    then have j: "j < length news" "ep_match e (news ! j)" using first_match_some by blast+
    obtain c1 f1 es1 where r: "match_eps oper es (news [j := (news ! j) \<lparr> chkVal := True \<rparr>]) = (c1, f1, es1, news')"
      using Cons.prems(1) Some by (auto split: prod.splits)
    obtain i where i: "i < length news" "news ! i = n" using Cons.prems(2) by (auto simp: in_set_conv_nth)
    then have "i \<noteq> j" using j Cons.prems(3) by auto
    then have "n \<in> set (news [j := (news ! j) \<lparr> chkVal := True \<rparr>])"
      using i by (metis length_list_update nth_list_update_neq nth_mem)
    then show ?thesis using Cons.IH [OF r] Cons.prems(3) by simp
  qed
qed auto

lemma first_match_key:
  assumes "length (xIP e) = 16" "\<forall>n \<in> set news. length (xIP n) = 16"
  shows "first_match e news = None \<longleftrightarrow> ep_key e \<notin> ep_key ` set news"
  using assms by (auto simp: first_match_none ep_match_key)

lemma upd_old_props:
  assumes "length (xIP e) = 16" "\<forall>n \<in> set news. length (xIP n) = 16"
  shows "ep_key (upd_old oper news e) = ep_key e"
    "\<not> chkVal e \<Longrightarrow> chkVal (upd_old oper news e) \<longleftrightarrow> ep_key e \<in> ep_key ` set news"
    "oper \<noteq> LBOPDetach \<Longrightarrow> ep_key e \<in> ep_key ` set news \<Longrightarrow> \<not> inActiveEP (upd_old oper news e)"
    "ep_key e \<notin> ep_key ` set news \<Longrightarrow> upd_old oper news e = e"
    "ep_key e \<in> ep_key ` set news \<Longrightarrow> \<exists>n \<in> set news. ep_key n = ep_key e \<and> weight (upd_old oper news e) = weight n"
proof -
  note m = first_match_key [OF assms]
  show "ep_key (upd_old oper news e) = ep_key e"
    by (simp add: upd_old_def touch_old_props split: option.splits)
  show "\<not> chkVal e \<Longrightarrow> chkVal (upd_old oper news e) \<longleftrightarrow> ep_key e \<in> ep_key ` set news"
    using m by (auto simp: upd_old_def touch_old_props split: option.splits)
  show "oper \<noteq> LBOPDetach \<Longrightarrow> ep_key e \<in> ep_key ` set news \<Longrightarrow> \<not> inActiveEP (upd_old oper news e)"
    using m by (auto simp: upd_old_def touch_old_props split: option.splits)
  show "ep_key e \<notin> ep_key ` set news \<Longrightarrow> upd_old oper news e = e"
    using m by (auto simp: upd_old_def split: option.splits)
  show "\<exists>n \<in> set news. ep_key n = ep_key e \<and> weight (upd_old oper news e) = weight n"
    if k: "ep_key e \<in> ep_key ` set news"
  proof -
    obtain j where j: "first_match e news = Some j" using m k by auto
    then have "j < length news" "ep_match e (news ! j)" using first_match_some by blast+
    then show ?thesis using assms j
      by (intro bexI [of _ "news ! j"]) (auto simp: upd_old_def touch_old_props ep_match_key)
  qed
qed

text \<open>The three outcomes in terms of the closed form.\<close>

lemma consolidated_detach:
  assumes "list_all ep_wf olds" "list_all ep_wf news"
  shows "getLBConsolidatedEPs olds news LBOPDetach =
    (if \<exists>e \<in> set olds. ep_key e \<in> ep_key ` set news
     then (True, filter (\<lambda>e. ep_key e \<notin> ep_key ` set news) olds,
       map (\<lambda>e. (upd_old LBOPDetach news e) \<lparr> chkVal := False \<rparr>) (filter (\<lambda>e. ep_key e \<in> ep_key ` set news) olds))
     else (False, olds, []))"
proof -
  obtain c f olds' news' where m: "match_eps LBOPDetach olds news = (c, f, olds', news')" by (metis prod_cases4)
  have w: "length (xIP e) = 16" "\<not> chkVal e" if "e \<in> set olds" for e
    using assms(1) that by (auto simp: list_all_iff ep_wf_def)
  have wn: "\<forall>n \<in> set news. length (xIP n) = 16" using assms(2) by (auto simp: list_all_iff ep_wf_def)
  note o' = match_eps_olds [OF m]
  have f: "f \<longleftrightarrow> (\<exists>e \<in> set olds. ep_key e \<in> ep_key ` set news)"
    unfolding match_eps_found [OF m] using first_match_key [OF w(1) wn] by (intro bex_cong refl) simp
  have chk: "chkVal (upd_old LBOPDetach news e) \<longleftrightarrow> ep_key e \<in> ep_key ` set news" if "e \<in> set olds" for e
    using upd_old_props(2) [OF w(1) [OF that] wn w(2) [OF that]] .
  have same: "upd_old LBOPDetach news e = e" if "e \<in> set olds" "ep_key e \<notin> ep_key ` set news" for e
    using upd_old_props(4) [OF w(1) [OF that(1)] wn that(2)] .
  have u: "filter (\<lambda>e. \<not> chkVal e) olds' = filter (\<lambda>e. ep_key e \<notin> ep_key ` set news) olds"
    "filter chkVal olds' = map (upd_old LBOPDetach news) (filter (\<lambda>e. ep_key e \<in> ep_key ` set news) olds)"
    unfolding o' using chk same by (induction olds) auto
  have n: "olds' = olds" if "\<not> f"
    unfolding o' using that f same by (intro map_idI) blast
  show ?thesis using m f u n by (simp add: getLBConsolidatedEPs_def o_def)
qed

lemma consolidated_keep:
  assumes "list_all ep_wf olds" "list_all ep_wf news" "oper \<noteq> LBOPDetach"
    "getLBConsolidatedEPs olds news oper = (chg, ret, del)"
  obtains fresh where "ret = map (settle oper \<circ> upd_old oper news) olds @ map (settle oper) fresh"
    "del = filter (\<lambda>e. ep_active e \<and> ep_key e \<notin> ep_key ` set news) olds"
    "\<And>n. n \<in> set fresh \<Longrightarrow> \<exists>n0 \<in> set news. n = n0 \<lparr> chkVal := True \<rparr>"
    "\<And>n. n \<in> set news \<Longrightarrow> ep_key n \<notin> ep_key ` set olds \<Longrightarrow> n \<lparr> chkVal := True \<rparr> \<in> set fresh"
proof -
  obtain c f olds' news' where m: "match_eps oper olds news = (c, f, olds', news')" by (metis prod_cases4)
  have w: "length (xIP e) = 16" "\<not> chkVal e" if "e \<in> set olds" for e
    using assms(1) that by (auto simp: list_all_iff ep_wf_def)
  have wn: "\<forall>n \<in> set news. length (xIP n) = 16" using assms(2) by (auto simp: list_all_iff ep_wf_def)
  note o' = match_eps_olds [OF m]
  define fresh where "fresh = map (\<lambda>n. n \<lparr> chkVal := True \<rparr>) (filter (\<lambda>n. \<not> chkVal n) news')"
  have d: "filter (\<lambda>e. \<not> chkVal e \<and> \<not> inActiveEP e) olds' =
      filter (\<lambda>e. ep_active e \<and> ep_key e \<notin> ep_key ` set news) olds"
    using w unfolding o'
  proof (induction olds)
    case (Cons e es)
    have "chkVal (upd_old oper news e) \<longleftrightarrow> ep_key e \<in> ep_key ` set news"
      "ep_key e \<notin> ep_key ` set news \<Longrightarrow> upd_old oper news e = e"
      using upd_old_props(2,4) [OF Cons.prems(1) wn] Cons.prems(2) by simp_all
    then show ?case using Cons by (auto simp: ep_active_def)
  qed simp
  show ?thesis
  proof (rule that [of fresh])
    show "ret = map (settle oper \<circ> upd_old oper news) olds @ map (settle oper) fresh"
      "del = filter (\<lambda>e. ep_active e \<and> ep_key e \<notin> ep_key ` set news) olds"
      using assms(3,4) m d by (auto simp: getLBConsolidatedEPs_def o' fresh_def Let_def)
    show "\<exists>n0 \<in> set news. n = n0 \<lparr> chkVal := True \<rparr>" if "n \<in> set fresh" for n
      using that match_eps_news_sub [OF m] unfolding fresh_def by fastforce
    show "n \<lparr> chkVal := True \<rparr> \<in> set fresh" if "n \<in> set news" "ep_key n \<notin> ep_key ` set olds" for n
    proof -
      have "\<forall>e \<in> set olds. \<not> ep_match e n" using that w(1) wn by (metis ep_match_key image_eqI)
      then have "n \<in> set news'" using match_eps_news_keep [OF m that(1)] by blast
      moreover have "\<not> chkVal n" using assms(2) that(1) by (auto simp: list_all_iff ep_wf_def)
      ultimately show ?thesis unfolding fresh_def by auto
    qed
  qed
qed

text \<open>The active keys of a merged list: \<open>u\<close> updates an old end-point, \<open>f\<close> settles a fresh one.\<close>

lemma merged_keys:
  assumes "\<And>e. e \<in> olds \<Longrightarrow> ep_key (u e) = ep_key e"
    "\<And>e. e \<in> olds \<Longrightarrow> ep_active (u e) \<longleftrightarrow> ep_key e \<in> N \<or> keep \<and> ep_active e"
    "\<And>n. n \<in> fresh \<Longrightarrow> ep_active (f n) \<and> ep_key (f n) \<in> N"
    "\<And>k. k \<in> N \<Longrightarrow> k \<notin> ep_key ` olds \<Longrightarrow> \<exists>n \<in> fresh. ep_key (f n) = k"
  shows "ep_key ` {e \<in> u ` olds \<union> f ` fresh. ep_active e} = N \<union> (if keep then ep_key ` {e \<in> olds. ep_active e} else {})" (is "?L = ?R")
proof
  show "?L \<subseteq> ?R" using assms(1-3) by auto
  have old: "ep_key q \<in> ?L" if "q \<in> olds" "ep_active (u q)" for q
  proof -
    have "u q \<in> {e \<in> u ` olds \<union> f ` fresh. ep_active e}" using that by blast
    then have "ep_key (u q) \<in> ?L" by (rule imageI)
    then show ?thesis using assms(1) [OF that(1)] by simp
  qed
  have "k \<in> ?L" if kN: "k \<in> N" for k
  proof (cases "k \<in> ep_key ` olds")
    case True
    then show ?thesis using old assms(2) kN by blast
  next
    case False
    then obtain n where "n \<in> fresh" "ep_key (f n) = k" using assms(4) kN by blast
    then show ?thesis using assms(3) by blast
  qed
  moreover have "ep_key q \<in> ?L" if "keep" "q \<in> olds" "ep_active q" for q using old assms(2) that by blast
  ultimately show "?R \<subseteq> ?L" by (auto split: if_splits)
qed

lemma consolidated_active:
  assumes "list_all ep_wf olds" "list_all ep_wf news" "list_all ep_active news" "oper \<noteq> LBOPDetach"
    "getLBConsolidatedEPs olds news oper = (chg, ret, del)"
  shows "map ep_key (take (length olds) ret) = map ep_key olds"
    "ep_key ` {e \<in> set ret. ep_active e} = ep_key ` set news \<union>
      (if oper = LBOPAttach then ep_key ` {e \<in> set olds. ep_active e} else {})"
    "del = filter (\<lambda>e. ep_active e \<and> ep_key e \<notin> ep_key ` set news) olds"
    "list_all (\<lambda>e. \<not> chkVal e) ret"
proof -
  obtain fresh where r: "ret = map (settle oper \<circ> upd_old oper news) olds @ map (settle oper) fresh"
    "del = filter (\<lambda>e. ep_active e \<and> ep_key e \<notin> ep_key ` set news) olds"
    "\<And>n. n \<in> set fresh \<Longrightarrow> \<exists>n0 \<in> set news. n = n0 \<lparr> chkVal := True \<rparr>"
    "\<And>n. n \<in> set news \<Longrightarrow> ep_key n \<notin> ep_key ` set olds \<Longrightarrow> n \<lparr> chkVal := True \<rparr> \<in> set fresh"
    using consolidated_keep [OF assms(1,2,4,5)] by blast
  have w: "length (xIP e) = 16" "\<not> chkVal e" if "e \<in> set olds" for e
    using assms(1) that by (auto simp: list_all_iff ep_wf_def)
  have wn: "\<forall>n \<in> set news. length (xIP n) = 16" using assms(2) by (auto simp: list_all_iff ep_wf_def)
  define u where "u e = settle oper (upd_old oper news e)" for e
  have k: "ep_key (u e) = ep_key e" if "e \<in> set olds" for e
    using upd_old_props(1) [OF w(1) [OF that] wn] by (simp add: u_def)
  have a: "ep_active (u e) \<longleftrightarrow> ep_key e \<in> ep_key ` set news \<or> oper = LBOPAttach \<and> ep_active e" if "e \<in> set olds" for e
    using upd_old_props(2-4) [OF w(1) [OF that] wn, of oper] w(2) [OF that] assms(4)
    by (cases oper) (auto simp: ep_active_def u_def)
  have f: "ep_active (settle oper n) \<and> ep_key (settle oper n) \<in> ep_key ` set news" if "n \<in> set fresh" for n
    using r(3) [OF that] assms(3) by (auto simp: ep_active_def list_all_iff)
  have g: "\<exists>n \<in> set fresh. ep_key (settle oper n) = x" if "x \<in> ep_key ` set news" "x \<notin> ep_key ` set olds" for x
    using that r(4) by force
  have "set ret = u ` set olds \<union> settle oper ` set fresh" using r(1) by (auto simp: u_def)
  then show "ep_key ` {e \<in> set ret. ep_active e} = ep_key ` set news \<union>
      (if oper = LBOPAttach then ep_key ` {e \<in> set olds. ep_active e} else {})"
    using merged_keys [of "set olds" u "ep_key ` set news" "oper = LBOPAttach" "set fresh" "settle oper"] k a f g by simp
  show "map ep_key (take (length olds) ret) = map ep_key olds" using r(1) k by (simp add: u_def)
  show "list_all (\<lambda>e. \<not> chkVal e) ret" using r(1) by (auto simp: list_all_iff)
  show "del = filter (\<lambda>e. ep_active e \<and> ep_key e \<notin> ep_key ` set news) olds" by (rule r(2))
qed

lemma consolidated_detach_ret:
  assumes "list_all ep_wf olds" "list_all ep_wf news"
    "getLBConsolidatedEPs olds news LBOPDetach = (chg, ret, del)"
  shows "ret = filter (\<lambda>e. ep_key e \<notin> ep_key ` set news) olds \<and>
    map ep_key del = map ep_key (filter (\<lambda>e. ep_key e \<in> ep_key ` set news) olds) \<and>
    (chg \<longleftrightarrow> ret \<noteq> olds)"
proof -
  have w: "length (xIP e) = 16" if "e \<in> set olds" for e
    using assms(1) that by (auto simp: list_all_iff ep_wf_def)
  have wn: "\<forall>n \<in> set news. length (xIP n) = 16" using assms(2) by (auto simp: list_all_iff ep_wf_def)
  have k: "ep_key ((upd_old LBOPDetach news e) \<lparr> chkVal := False \<rparr>) = ep_key e" if "e \<in> set olds" for e
    using upd_old_props(1) [OF w [OF that] wn] by simp
  have id_iff: "filter P olds = olds \<longleftrightarrow> (\<forall>e \<in> set olds. P e)" for P
    by (metis filter_True filter_id_conv)
  show ?thesis
  proof (cases "\<exists>e \<in> set olds. ep_key e \<in> ep_key ` set news")
    case True
    then have ne: "filter (\<lambda>e. ep_key e \<notin> ep_key ` set news) olds \<noteq> olds" unfolding id_iff by blast
    have "(chg, ret, del) = (True, filter (\<lambda>e. ep_key e \<notin> ep_key ` set news) olds,
       map (\<lambda>e. (upd_old LBOPDetach news e) \<lparr> chkVal := False \<rparr>) (filter (\<lambda>e. ep_key e \<in> ep_key ` set news) olds))"
      using assms(3) consolidated_detach [OF assms(1,2)] True by argo
    then show ?thesis using ne k by simp
  next
    case False
    then have "(chg, ret, del) = (False, olds, [])"
      using assms(3) consolidated_detach [OF assms(1,2)] by argo
    moreover have "filter (\<lambda>e. ep_key e \<notin> ep_key ` set news) olds = olds"
      "filter (\<lambda>e. ep_key e \<in> ep_key ` set news) olds = []"
      using False by (auto simp: filter_id_conv filter_empty_conv)
    ultimately show ?thesis by simp
  qed
qed

text \<open>An end-point as \<open>AddLbRule\<close> makes it from a request.\<close>

definition new_ep :: "IP \<Rightarrow> u16 \<Rightarrow> u8 \<Rightarrow> ruleLBEp" where
  "new_ep ip p w = \<lparr> xIP = ip, rIP = IPv4 0 0 0 0, xPort = p, weight = w, inActTries = 0,
     inActiveEP = False, noService = False, chkVal = False, epCreated = False, st_bytes = 0,
     st_packets = 0, foldEndPoints = None, foldRuleKey = [] \<rparr>"

lemma new_ep_wf [simp]: "ep_wf (new_ep (IPv4 a b c d) p w)" "ep_active (new_ep ip p w)"
    "ep_key (new_ep ip p w) = (ip, p)"
  by (simp_all add: new_ep_def ep_wf_def ep_active_def ep_key_def IPv4_def)

text \<open>C16. Replacing the end-points of a rule: the order of the existing end-points is
kept, afterwards the active end-points are exactly the requested ones, and the end-points
reported as gone are exactly the formerly active ones that were not requested.\<close>

theorem consolidate_add:
  assumes "list_all ep_wf olds" "list_all ep_wf news" "list_all ep_active news"
    "getLBConsolidatedEPs olds news LBOPAdd = (chg, ret, del)"
  shows "map ep_key (take (length olds) ret) = map ep_key olds \<and>
    ep_key ` {e \<in> set ret. ep_active e} = ep_key ` set news \<and>
    del = filter (\<lambda>e. ep_active e \<and> ep_key e \<notin> ep_key ` set news) olds \<and>
    list_all (\<lambda>e. \<not> chkVal e) ret"
  using consolidated_active [OF assms(1-3) _ assms(4)] by simp

theorem consolidate_add_witness:
  "\<exists>chg ret del. getLBConsolidatedEPs [new_ep (IPv4 10 0 0 1) 80 1] [new_ep (IPv4 10 0 0 2) 80 1] LBOPAdd =
      (chg, ret, del) \<and> ep_key ` {e \<in> set ret. ep_active e} = {(IPv4 10 0 0 2, 80)}"
proof -
  obtain chg ret del where r: "getLBConsolidatedEPs [new_ep (IPv4 10 0 0 1) 80 1]
      [new_ep (IPv4 10 0 0 2) 80 1] LBOPAdd = (chg, ret, del)" by (metis prod_cases3)
  show ?thesis using r consolidate_add [OF _ _ _ r] by simp
qed

text \<open>C17. Detaching end-points removes exactly the existing end-points that are named and
leaves the others unchanged and in order; naming none of them changes nothing and is reported
as no change.\<close>

theorem consolidate_detach:
  assumes "list_all ep_wf olds" "list_all ep_wf news"
    "getLBConsolidatedEPs olds news LBOPDetach = (chg, ret, del)"
  shows "ret = filter (\<lambda>e. ep_key e \<notin> ep_key ` set news) olds \<and>
    map ep_key del = map ep_key (filter (\<lambda>e. ep_key e \<in> ep_key ` set news) olds) \<and>
    (chg \<longleftrightarrow> ret \<noteq> olds)"
  using consolidated_detach_ret [OF assms] .

theorem consolidate_detach_witness:
  "\<exists>chg ret del. getLBConsolidatedEPs [new_ep (IPv4 10 0 0 1) 80 1, new_ep (IPv4 10 0 0 2) 80 1]
      [new_ep (IPv4 10 0 0 1) 80 1] LBOPDetach = (chg, ret, del) \<and> ret = [new_ep (IPv4 10 0 0 2) 80 1]"
proof -
  obtain chg ret del where r: "getLBConsolidatedEPs [new_ep (IPv4 10 0 0 1) 80 1, new_ep (IPv4 10 0 0 2) 80 1]
      [new_ep (IPv4 10 0 0 1) 80 1] LBOPDetach = (chg, ret, del)" by (metis prod_cases3)
  have "ret = [new_ep (IPv4 10 0 0 2) 80 1]" using consolidate_detach [OF _ _ r] by simp
  then show ?thesis using r by blast
qed

text \<open>C18. Attaching end-points keeps every active end-point active and activates the
named ones.  Yet every active end-point that was not named is also reported as gone, so the
caller drops its health checks and resets its session counter although it stays in the rule.\<close>

theorem consolidate_attach:
  assumes "list_all ep_wf olds" "list_all ep_wf news" "list_all ep_active news"
    "getLBConsolidatedEPs olds news LBOPAttach = (chg, ret, del)"
  shows "ep_key ` {e \<in> set ret. ep_active e} = ep_key ` {e \<in> set olds. ep_active e} \<union> ep_key ` set news \<and>
    del = filter (\<lambda>e. ep_active e \<and> ep_key e \<notin> ep_key ` set news) olds \<and>
    ep_key ` set del \<subseteq> ep_key ` {e \<in> set ret. ep_active e}"
  using consolidated_active [OF assms(1-3) _ assms(4)] by auto

theorem consolidate_attach_witness:
  "\<exists>chg ret del. getLBConsolidatedEPs [new_ep (IPv4 10 0 0 1) 80 1] [new_ep (IPv4 10 0 0 2) 80 1] LBOPAttach =
      (chg, ret, del) \<and> del = [new_ep (IPv4 10 0 0 1) 80 1] \<and> ep_key ` set del \<subseteq> ep_key ` {e \<in> set ret. ep_active e}"
proof -
  obtain chg ret del where r: "getLBConsolidatedEPs [new_ep (IPv4 10 0 0 1) 80 1]
      [new_ep (IPv4 10 0 0 2) 80 1] LBOPAttach = (chg, ret, del)" by (metis prod_cases3)
  have w: "list_all ep_wf [new_ep (IPv4 10 0 0 1) 80 1]" "list_all ep_wf [new_ep (IPv4 10 0 0 2) 80 1]"
    "list_all ep_active [new_ep (IPv4 10 0 0 2) 80 1]" by simp_all
  have "del = [new_ep (IPv4 10 0 0 1) 80 1]" using consolidate_attach [OF w r] by simp
  moreover have "ep_key ` set del \<subseteq> ep_key ` {e \<in> set ret. ep_active e}"
    using consolidate_attach [OF w r] by blast
  ultimately show ?thesis using r by blast
qed

subsection \<open>Weighted round robin\<close>

text \<open>The pass over the end-points fills slots with end-point indexes in proportion to
their weights and collects the end-points that got at most one slot.\<close>

definition share :: "ruleLBEp \<Rightarrow> nat" where
  "share e = (unat (weight e) * MaxLBPrioSlots) div 100"

fun prio_fill :: "nat \<Rightarrow> ruleLBEp list \<Rightarrow> nat list \<times> nat list \<Rightarrow> nat list \<times> nat list" where
  "prio_fill i [] acc = acc"
| "prio_fill i (e # es) (slots, small) =
     (if inActiveEP e then prio_fill (Suc i) es (slots, small)
      else (let sw = share e; got = min sw (MaxLBPrioSlots - length slots) in
        prio_fill (Suc i) es
          (slots @ replicate got i, if sw = 0 \<or> (sw = 1 \<and> got = 1) then small @ [i] else small)))"

text \<open>The array \<open>small\<close> has one entry per supported end-point, zero where unset.\<close>

fun spare :: "nat \<Rightarrow> nat \<Rightarrow> nat \<Rightarrow> nat list \<Rightarrow> nat list" where
  "spare 0 v k small = []"
| "spare (Suc n) v k small =
     (let x = v mod k in (if x < length small then small ! x else 0) # spare n (Suc v) k small)"

text \<open>\<open>None\<close> is the division by zero of an end-point list that is empty, or more
small end-points than the array holds.\<close>

definition prio_slots :: "ruleLBEp list \<Rightarrow> nat list option" where
  "prio_slots eps =
    (let (slots, small) = prio_fill 0 eps ([], []) in
     if length small > MaxLBEndPoints then None
     else if length slots < MaxLBPrioSlots then
       (let k = (if small = [] then length eps else length small) in
        if k = 0 then None
        else Some (slots @ spare (MaxLBPrioSlots - length slots) 0 k small))
     else Some slots)"

definition nat_ep :: "ruleLBEp \<Rightarrow> NatEP" where
  "nat_ep e = \<lparr> XIP = xIP e, RIP = rIP e, XPort = xPort e, NWeight = weight e,
     InActive = (inActiveEP e \<or> noService e) \<rparr>"

text \<open>The end-points sent to the data path, with the slot owners for a weighted rule.
\<open>folds\<close> reads the end-points that an end-point is folded into.\<close>

definition dp_eps :: "(ruleLBEp \<Rightarrow> ruleLBEp list) \<Rightarrow> bool \<Rightarrow> ruleLBEp list \<Rightarrow> (NatEP list \<times> nat list option) option" where
  "dp_eps folds prio eps = (if prio then map_option (\<lambda>sl. (map (\<lambda>i. nat_ep (eps ! i)) sl, Some sl)) (prio_slots eps)
     else Some (concat (map (\<lambda>k. if folds k \<noteq> [] then map nat_ep (folds k) else [nat_ep k]) eps), None))"

definition shares :: "ruleLBEp list \<Rightarrow> nat" where
  "shares eps = sum_list (map share (filter ep_active eps))"

text \<open>The slots before they are cut off at sixteen.\<close>

fun raw_slots :: "nat \<Rightarrow> ruleLBEp list \<Rightarrow> nat list" where
  "raw_slots i [] = []"
| "raw_slots i (e # es) = (if inActiveEP e then [] else replicate (share e) i) @ raw_slots (Suc i) es"

lemma prio_fill_slots:
  "length slots \<le> MaxLBPrioSlots \<Longrightarrow>
    fst (prio_fill i eps (slots, small)) = take MaxLBPrioSlots (slots @ raw_slots i eps)"
proof (induction eps arbitrary: i slots small)
  case (Cons e es)
  have "slots @ replicate (min (share e) (MaxLBPrioSlots - length slots)) i =
      take MaxLBPrioSlots (slots @ replicate (share e) i)"
    using Cons.prems by (simp add: min.commute)
  moreover have "length (take MaxLBPrioSlots (slots @ replicate (share e) i)) \<le> MaxLBPrioSlots" by simp
  ultimately show ?case using Cons by (simp add: Let_def min_def)
qed simp

lemma length_raw_slots: "length (raw_slots i eps) = shares eps"
  by (induction eps arbitrary: i) (auto simp: shares_def ep_active_def)

lemma raw_slots_mem: "x \<in> set (raw_slots i eps) \<Longrightarrow> i \<le> x \<and> x < i + length eps \<and> ep_active (eps ! (x - i))"
proof (induction eps arbitrary: i)
  case (Cons e es)
  then consider "x = i" "\<not> inActiveEP e" | "x \<in> set (raw_slots (Suc i) es)" by (auto split: if_splits)
  then show ?case
  proof cases
    case 2
    then show ?thesis using Cons.IH [of "Suc i"] by (auto simp: nth_Cons')
  qed (simp add: ep_active_def)
qed simp

lemma count_list_replicate [simp]: "count_list (replicate n x) y = (if x = y then n else 0)"
  by (induction n) auto

lemma raw_slots_count:
  "j < length eps \<Longrightarrow> count_list (raw_slots i eps) (i + j) = (if ep_active (eps ! j) then share (eps ! j) else 0)"
proof (induction eps arbitrary: i j)
  case (Cons e es)
  show ?case
  proof (cases j)
    case 0
    have "count_list (raw_slots (Suc i) es) i = 0"
      using raw_slots_mem [of i "Suc i" es] by (auto simp: count_list_0_iff)
    then show ?thesis using 0 by (simp add: ep_active_def)
  next
    case (Suc j')
    then show ?thesis using Cons.IH [of j' "Suc i"] Cons.prems by simp
  qed
qed simp

lemma prio_fill_small:
  assumes "length slots + shares eps \<le> MaxLBPrioSlots"
  shows "\<exists>b. snd (prio_fill i eps (slots, small)) = small @ b \<and> length b \<le> length eps \<and>
    set b = {i + j | j. j < length eps \<and> ep_active (eps ! j) \<and> share (eps ! j) \<le> 1}"
  using assms
proof (induction eps arbitrary: i slots small)
  case Nil
  then show ?case by simp
next
  case (Cons e es)
  have shift: "{i + j | j. j < length (e # es) \<and> P ((e # es) ! j)} =
      (if P e then {i} else {}) \<union> {Suc i + j | j. j < length es \<and> P (es ! j)}" for P
  proof (intro equalityI subsetI)
    fix x
    assume "x \<in> {i + j | j. j < length (e # es) \<and> P ((e # es) ! j)}"
    then obtain j where "x = i + j" "j < length (e # es)" "P ((e # es) ! j)" by blast
    then show "x \<in> (if P e then {i} else {}) \<union> {Suc i + j | j. j < length es \<and> P (es ! j)}"
      by (cases j) auto
  next
    fix x
    assume "x \<in> (if P e then {i} else {}) \<union> {Suc i + j | j. j < length es \<and> P (es ! j)}"
    then consider "x = i" "P e" | j where "x = Suc i + j" "j < length es" "P (es ! j)"
      by (auto split: if_splits)
    then show "x \<in> {i + j | j. j < length (e # es) \<and> P ((e # es) ! j)}"
    proof cases
      case 2
      then show ?thesis by (intro CollectI exI [of _ "Suc j"]) auto
    qed force
  qed
  define Q where "Q e \<longleftrightarrow> ep_active e \<and> share e \<le> 1" for e
  show ?case
  proof (cases "inActiveEP e")
    case True
    then have "length slots + shares es \<le> MaxLBPrioSlots" "\<not> Q e"
      using Cons.prems by (simp_all add: shares_def ep_active_def Q_def)
    then show ?thesis
      using Cons.IH [of slots "Suc i" small] True shift [of Q] by (auto simp: Q_def)
  next
    case False
    then have l: "length slots + share e + shares es \<le> MaxLBPrioSlots"
      using Cons.prems by (simp add: shares_def ep_active_def)
    then have got: "min (share e) (MaxLBPrioSlots - length slots) = share e" by simp
    have l': "length (slots @ replicate (share e) i) + shares es \<le> MaxLBPrioSlots" using l by simp
    have sm: "share e = 0 \<or> (share e = 1 \<and> share e = 1) \<longleftrightarrow> Q e" using False by (auto simp: Q_def ep_active_def)
    obtain b where b: "snd (prio_fill (Suc i) es (slots @ replicate (share e) i, if Q e then small @ [i] else small)) =
        (if Q e then small @ [i] else small) @ b" "length b \<le> length es"
      "set b = {Suc i + j | j. j < length es \<and> Q (es ! j)}"
      using Cons.IH [OF l', of "Suc i"] unfolding Q_def by blast
    have "snd (prio_fill i (e # es) (slots, small)) = (if Q e then small @ [i] else small) @ b"
      using False got sm b(1) by (simp add: Let_def)
    then show ?thesis
      using b shift [of Q] unfolding Q_def by (intro exI [of _ "(if Q e then [i] else []) @ b"]) (auto simp: Q_def)
  qed
qed

lemma spare_props:
  assumes "0 < k"
  shows "length (spare n v k small) = n"
    "k = length small \<Longrightarrow> set (spare n v k small) \<subseteq> set small"
    "small = [] \<Longrightarrow> spare n v k small = replicate n 0"
  using assms
proof (induction n arbitrary: v)
  case (Suc n)
  {
    case 2
    then show ?case using Suc.IH(2) [of "Suc v"] by (simp add: Let_def)
  }
qed (simp_all add: Let_def)

lemma shares_bound:
  assumes "sum_list (map (unat \<circ> weight) (filter ep_active eps)) \<le> 100"
  shows "shares eps \<le> MaxLBPrioSlots"
proof -
  have "sum_list (map share l) * 100 \<le> sum_list (map (unat \<circ> weight) l) * MaxLBPrioSlots" for l
  proof (induction l)
    case (Cons e l)
    have "share e * 100 \<le> unat (weight e) * MaxLBPrioSlots" by (simp add: share_def)
    then show ?case using Cons by (simp add: algebra_simps)
  qed simp
  from this [of "filter ep_active eps"] have "shares eps * 100 \<le> 100 * MaxLBPrioSlots"
    using assms unfolding shares_def by (meson mult_le_mono1 order_trans)
  then show ?thesis by simp
qed

text \<open>Closed form of the slot table when the shares fit.\<close>

lemma prio_slots_form:
  assumes ne: "eps \<noteq> []" and n: "length eps \<le> MaxLBEndPoints" and fit: "shares eps \<le> MaxLBPrioSlots"
  obtains small k where "set small = {j. j < length eps \<and> ep_active (eps ! j) \<and> share (eps ! j) \<le> 1}"
    "k = (if small = [] then length eps else length small)" "0 < k"
    "prio_slots eps = Some (raw_slots 0 eps @ spare (MaxLBPrioSlots - shares eps) 0 k small)"
proof -
  obtain small where sm: "snd (prio_fill 0 eps ([], [])) = small" "length small \<le> length eps"
    "set small = {j. j < length eps \<and> ep_active (eps ! j) \<and> share (eps ! j) \<le> 1}"
    using prio_fill_small [of "[]" eps 0 "[]"] fit by auto
  have sl: "fst (prio_fill 0 eps ([], [])) = raw_slots 0 eps"
    using prio_fill_slots [of "[]" 0 eps "[]"] fit by (simp add: length_raw_slots)
  define k where "k = (if small = [] then length eps else length small)"
  have k0: "0 < k" using ne by (simp add: k_def)
  have "prio_fill 0 eps ([], []) = (raw_slots 0 eps, small)" using sl sm(1) by (metis prod.collapse)
  then have "prio_slots eps = Some (raw_slots 0 eps @ spare (MaxLBPrioSlots - shares eps) 0 k small)"
    using sm(2) n k0 fit by (auto simp: prio_slots_def k_def [symmetric] length_raw_slots Let_def)
  then show ?thesis using that [OF sm(3) k_def k0] by blast
qed

lemma spare_slots:
  assumes "eps \<noteq> []" "0 < k" "k = (if small = [] then length eps else length small)"
    "set small = {j. j < length eps \<and> ep_active (eps ! j) \<and> share (eps ! j) \<le> 1}"
  shows "length (spare n 0 k small) = n" "\<forall>s \<in> set (spare n 0 k small). s < length eps"
    "small \<noteq> [] \<or> n = 0 \<Longrightarrow> \<forall>s \<in> set (spare n 0 k small). ep_active (eps ! s)"
    "small = [] \<Longrightarrow> spare n 0 k small = replicate n 0"
    "small \<noteq> [] \<longleftrightarrow> (\<exists>e \<in> set eps. ep_active e \<and> share e \<le> 1)"
proof -
  note sp = spare_props [OF assms(2), where v = 0 and small = small and n = n]
  show "length (spare n 0 k small) = n" by (rule sp(1))
  show z: "small = [] \<Longrightarrow> spare n 0 k small = replicate n 0" by (rule sp(3))
  have sub: "set (spare n 0 k small) \<subseteq> set small" if "small \<noteq> []" using sp(2) assms(3) that by simp
  show "\<forall>s \<in> set (spare n 0 k small). s < length eps"
    using sub z assms(1) unfolding assms(4) by (cases "small = []") auto
  show "\<forall>s \<in> set (spare n 0 k small). ep_active (eps ! s)" if "small \<noteq> [] \<or> n = 0"
    using sub z that unfolding assms(4) by (cases "small = []") auto
  have "small \<noteq> [] \<longleftrightarrow> (\<exists>j. j < length eps \<and> ep_active (eps ! j) \<and> share (eps ! j) \<le> 1)"
    using assms(4) by (auto simp flip: set_empty)
  then show "small \<noteq> [] \<longleftrightarrow> (\<exists>e \<in> set eps. ep_active e \<and> share e \<le> 1)" by (metis in_set_conv_nth)
qed



subsection \<open>Counters\<close>

text \<open>The data path reads counters by a mark made of the rule number and a slot number.
\<open>rd\<close> stands for the synchronous read of the data path: the bytes and packets it
stores for a mark.\<close>

definition stat_mark :: "u64 \<Rightarrow> nat \<Rightarrow> u32" where
  "stat_mark rn s = push_bit 4 ((ucast rn :: u32) AND 0xfff) OR (of_nat s AND 0xf)"

type_synonym stat_reader = "u32 \<Rightarrow> u64 \<times> u64"

fun fold_slots :: "stat_reader \<Rightarrow> u64 \<Rightarrow> nat \<Rightarrow> nat list \<Rightarrow> (u64 \<times> u64 \<times> bool) list \<Rightarrow> (u64 \<times> u64 \<times> bool) list" where
  "fold_slots rd rn s [] t = t"
| "fold_slots rd rn s (epi # es) t = fold_slots rd rn (Suc s) es
     (if epi \<ge> length t then t
      else t [epi := (fst (t ! epi) + fst (rd (stat_mark rn s)), fst (snd (t ! epi)) + snd (rd (stat_mark rn s)), True)])"

definition wrr_stats :: "stat_reader \<Rightarrow> u64 \<Rightarrow> nat list \<Rightarrow> ruleLBEp list \<Rightarrow> ruleLBEp list" where
  "wrr_stats rd rn slotOf eps =
    map2 (\<lambda>(b, p, h) e. if h then e \<lparr> st_bytes := b, st_packets := p \<rparr> else e)
      (fold_slots rd rn 0 slotOf (replicate (length eps) (0, 0, False))) eps"

text \<open>Without weights, an end-point has one slot, or one for each end-point folded into it.\<close>

fun read_sum :: "stat_reader \<Rightarrow> u64 \<Rightarrow> nat \<Rightarrow> nat \<Rightarrow> u64 \<times> u64" where
  "read_sum rd rn s 0 = (0, 0)"
| "read_sum rd rn s (Suc n) = (let (b, p) = read_sum rd rn (Suc s) n; (b0, p0) = rd (stat_mark rn s) in (b0 + b, p0 + p))"

fun plain_stats :: "(ruleLBEp \<Rightarrow> ruleLBEp list) \<Rightarrow> stat_reader \<Rightarrow> u64 \<Rightarrow> nat \<Rightarrow> ruleLBEp list \<Rightarrow> ruleLBEp list" where
  "plain_stats folds rd rn s [] = []"
| "plain_stats folds rd rn s (e # es) =
     (let n = (if folds e \<noteq> [] then length (folds e) else 1);
          (b, p) = read_sum rd rn s n
      in e \<lparr> st_bytes := b, st_packets := p \<rparr> # plain_stats folds rd rn (s + n) es)"

definition rule_stats :: "(ruleLBEp \<Rightarrow> ruleLBEp list) \<Rightarrow> stat_reader \<Rightarrow> u64 \<Rightarrow> bool \<Rightarrow> nat list option \<Rightarrow> ruleLBEp list \<Rightarrow> ruleLBEp list" where
  "rule_stats folds rd rn prio slotOf eps = (case (prio, slotOf) of
      (True, Some sl) \<Rightarrow> wrr_stats rd rn sl eps
    | _ \<Rightarrow> plain_stats folds rd rn 0 eps)"

lemma length_fold_slots [simp]: "length (fold_slots rd rn s sl t) = length t"
  by (induction sl arbitrary: s t) auto

definition slot_sum :: "(nat \<Rightarrow> u64) \<Rightarrow> nat \<Rightarrow> nat list \<Rightarrow> nat \<Rightarrow> u64" where
  "slot_sum f s sl i = sum_list (map (\<lambda>(x, j). if x = i then f j else 0) (zip sl [s..<s + length sl]))"

lemma slot_sum_simps [simp]:
  "slot_sum f s [] i = 0"
  "slot_sum f s (x # sl) i = (if x = i then f s else 0) + slot_sum f (Suc s) sl i"
  by (simp_all add: slot_sum_def upt_conv_Cons del: upt_Suc)

lemma fold_slots_nth:
  "i < length t \<Longrightarrow> fold_slots rd rn s sl t ! i =
    (fst (t ! i) + slot_sum (\<lambda>j. fst (rd (stat_mark rn j))) s sl i,
     fst (snd (t ! i)) + slot_sum (\<lambda>j. snd (rd (stat_mark rn j))) s sl i,
     snd (snd (t ! i)) \<or> i \<in> set sl)"
proof (induction sl arbitrary: s t)
  case (Cons x sl)
  then show ?case by (auto simp: nth_list_update add.assoc)
qed simp

lemma slot_sum_total:
  "\<forall>x \<in> set sl. x < n \<Longrightarrow> (\<Sum>i<n. slot_sum f s sl i) = (\<Sum>j = s..<s + length sl. f j)"
proof (induction sl arbitrary: s)
  case (Cons x sl)
  have "(\<Sum>i<n. if x = i then f s else 0) = f s" using Cons.prems by simp
  then show ?case
    using Cons by (simp add: sum.distrib sum.atLeast_Suc_lessThan)
qed simp

lemma prio_fill_small_bound:
  "set (snd (prio_fill i eps (slots, small))) \<subseteq> set small \<union> {i..<i + length eps}"
proof (induction eps arbitrary: i slots small)
  case (Cons e es)
  show ?case using Cons.IH [of "Suc i"] by (auto simp: Let_def) fastforce+
qed simp

lemma spare_bound: "set (spare n v k small) \<subseteq> insert 0 (set small)"
  by (induction n arbitrary: v) (auto simp: Let_def)

lemma prio_slots_bound:
  assumes "prio_slots eps = Some sl"
  shows "\<forall>s \<in> set sl. s < length eps"
proof -
  obtain slots small where pf: "prio_fill 0 eps ([], []) = (slots, small)" by fastforce
  have sl: "set slots \<subseteq> {0..<length eps}"
    using prio_fill_slots [of "[]" 0 eps "[]"] pf raw_slots_mem [of _ 0 eps] by (auto dest: in_set_takeD)
  have sm: "set small \<subseteq> {0..<length eps}" using prio_fill_small_bound [of 0 eps "[]" "[]"] pf by simp
  show ?thesis
  proof (cases "eps = []")
    case True
    then show ?thesis using assms by (simp add: prio_slots_def go_consts)
  next
    case False
    then show ?thesis
      using assms pf sl sm spare_bound [of "MaxLBPrioSlots - length slots" 0 _ small]
      by (fastforce simp: prio_slots_def Let_def split: if_splits)
  qed
qed

lemma slot_sum_unused: "i \<notin> set sl \<Longrightarrow> slot_sum f s sl i = 0"
  by (induction sl arbitrary: s) auto

text \<open>C20. Counter folding conserves traffic: with the slot table the weighted round robin
built, every end-point that owns a slot shows the sum of the readings of its own slots, an
end-point without a slot keeps its last reading, and the bytes over all end-points with a slot add
up to the bytes of the sixteen slots.\<close>

theorem wrr_stats_conserve:
  assumes "prio_slots eps = Some sl"
  shows "length (rule_stats folds rd rn True (Some sl) eps) = length eps \<and>
    (\<forall>i < length eps. rule_stats folds rd rn True (Some sl) eps ! i =
       (if i \<in> set sl then (eps ! i) \<lparr> st_bytes := slot_sum (\<lambda>s. fst (rd (stat_mark rn s))) 0 sl i,
          st_packets := slot_sum (\<lambda>s. snd (rd (stat_mark rn s))) 0 sl i \<rparr> else eps ! i)) \<and>
    (\<Sum>i \<in> set sl. st_bytes (rule_stats folds rd rn True (Some sl) eps ! i)) =
      (\<Sum>s < length sl. fst (rd (stat_mark rn s)))"
proof -
  have bnd: "\<forall>s \<in> set sl. s < length eps" using prio_slots_bound [OF assms] .
  have nth: "rule_stats folds rd rn True (Some sl) eps ! i =
       (if i \<in> set sl then (eps ! i) \<lparr> st_bytes := slot_sum (\<lambda>s. fst (rd (stat_mark rn s))) 0 sl i,
          st_packets := slot_sum (\<lambda>s. snd (rd (stat_mark rn s))) 0 sl i \<rparr> else eps ! i)"
    if "i < length eps" for i
    using that by (simp add: rule_stats_def wrr_stats_def fold_slots_nth)
  let ?f = "\<lambda>s. fst (rd (stat_mark rn s))"
  have "(\<Sum>i \<in> set sl. st_bytes (rule_stats folds rd rn True (Some sl) eps ! i)) = (\<Sum>i \<in> set sl. slot_sum ?f 0 sl i)"
    using bnd by (intro sum.cong) (simp_all add: nth)
  also have "\<dots> = (\<Sum>i < length eps. slot_sum ?f 0 sl i)"
    using bnd by (intro sum.mono_neutral_left) (auto simp: slot_sum_unused)
  also have "\<dots> = (\<Sum>s < length sl. ?f s)"
    using slot_sum_total [OF bnd, of ?f 0] by (simp add: atLeast0LessThan)
  finally show ?thesis
    using nth by (simp add: rule_stats_def wrr_stats_def)
qed

theorem wrr_stats_conserve_witness:
  "\<exists>sl. prio_slots [new_ep (IPv4 10 0 0 1) 80 40, new_ep (IPv4 10 0 0 2) 80 60] = Some sl \<and>
    (\<Sum>i \<in> set sl. st_bytes (rule_stats (\<lambda>_. []) (\<lambda>m. (100, 1)) 3 True (Some sl)
        [new_ep (IPv4 10 0 0 1) 80 40, new_ep (IPv4 10 0 0 2) 80 60] ! i)) = 1600"
proof -
  define eps where "eps = [new_ep (IPv4 10 0 0 1) 80 40, new_ep (IPv4 10 0 0 2) 80 60]"
  obtain sl where sl: "prio_slots eps = Some sl" "length sl = 16"
  proof
    show "prio_slots eps = Some [0,0,0,0,0,0,1,1,1,1,1,1,1,1,1,0]" unfolding eps_def by code_simp
  qed simp
  have "(\<Sum>i \<in> set sl. st_bytes (rule_stats (\<lambda>_. []) (\<lambda>m. (100, 1)) 3 True (Some sl) eps ! i)) = 1600"
    using wrr_stats_conserve [OF sl(1), of "\<lambda>_. []" "\<lambda>m. (100, 1)" 3] sl(2) by simp
  then show ?thesis using sl(1) unfolding eps_def by blast
qed

lemma stat_mark_bits: "stat_mark rn s = push_bit 4 (take_bit 12 (ucast rn)) OR take_bit 4 (of_nat s)"
proof -
  have "(0xfff :: u32) = mask 12" "(0xf :: u32) = mask 4" by (simp_all add: mask_eq_exp_minus_1)
  then show ?thesis unfolding stat_mark_def by (simp only: take_bit_eq_mask)
qed

lemma stat_mark_parts:
  "unat rn < 4096 \<Longrightarrow> unat (drop_bit 4 (stat_mark rn s)) = unat rn"
  "s < 16 \<Longrightarrow> unat (take_bit 4 (stat_mark rn s)) = s"
proof -
  assume r: "unat rn < 4096"
  have "drop_bit 4 (stat_mark rn s) = take_bit 12 (ucast rn :: u32)"
    by (rule bit_word_eqI) (auto simp: stat_mark_bits bit_simps)
  then show "unat (drop_bit 4 (stat_mark rn s)) = unat rn"
    using r by (simp add: unsigned_take_bit_eq unsigned_ucast_eq take_bit_nat_eq_self)
next
  assume r: "s < 16"
  have "take_bit 4 (stat_mark rn s) = take_bit 4 (of_nat s :: u32)"
    by (rule bit_word_eqI) (auto simp: stat_mark_bits bit_simps)
  then show "unat (take_bit 4 (stat_mark rn s)) = s"
    using r by (simp add: unsigned_take_bit_eq unsigned_of_nat take_bit_nat_eq_self)
qed



subsection \<open>Selective session reset\<close>

definition mask_key :: "ruleLBEp \<Rightarrow> string" where
  "mask_key e = IP_String (xIP e) @ '':'' @ dec (unat (xPort e))"

definition createEndpointMask :: "ruleLBEp list \<Rightarrow> ruleLBEp list \<Rightarrow> ruleLBEp list \<Rightarrow> bool list" where
  "createEndpointMask oldEps newEps delEps =
    (let newEpMap = map mask_key newEps; delEpMap = map mask_key delEps in
     map (\<lambda>oldEp. if mask_key oldEp \<in> set delEpMap then True
       else if mask_key oldEp \<in> set newEpMap then False else True) oldEps)"

text \<open>The request sent to the data path, if any.\<close>

definition applySelectiveSessionReset ::
  "(LBSessionResetWorkQ \<Rightarrow> int) \<Rightarrow> u64 option \<Rightarrow> ruleLBEp list \<Rightarrow> ruleLBEp list \<Rightarrow> ruleLBEp list
    \<Rightarrow> LBSessionResetWorkQ option \<times> go_ret" where
  "applySelectiveSessionReset hook rule oldEps newEps delEps = (case rule of
      None \<Rightarrow> (None, Err 0 ''rule is nil'')
    | Some ruleNum \<Rightarrow>
        if delEps = [] \<and> length oldEps = length newEps then (None, Ok)
        else (let w = \<lparr> lsr_Mark = sint ruleNum, lsr_EndpointIdx = -1,
                        lsr_EndpointMask = createEndpointMask oldEps newEps delEps \<rparr>
              in if hook w \<noteq> 0 then (Some w, Err (hook w) ''selective session reset failed'')
                 else (Some w, Ok)))"

definition ep_v4 :: "ruleLBEp \<Rightarrow> bool" where
  "ep_v4 e \<longleftrightarrow> (\<exists>a b c d. xIP e = IPv4 a b c d)"

lemma mask_key_inj: "ep_v4 e \<Longrightarrow> ep_v4 f \<Longrightarrow> mask_key e = mask_key f \<longleftrightarrow> ep_key e = ep_key f"
proof -
  assume "ep_v4 e" "ep_v4 f"
  then obtain x1 x2 x3 x4 y1 y2 y3 y4 where xy: "xIP e = IPv4 x1 x2 x3 x4" "xIP f = IPv4 y1 y2 y3 y4"
    unfolding ep_v4_def by blast
  define b b' where "b = [x1, x2, x3, x4]" and "b' = [y1, y2, y3, y4]"
  have b: "length b = 4" "xIP e = v4InV6Prefix @ b" "length b' = 4" "xIP f = v4InV6Prefix @ b'"
    by (simp_all add: b_def b'_def xy IPv4_def)
  have col: "CHR '':'' \<notin> set (dec n)" for n by (simp add: char_digit_def)
  have me: "mask_key e = ip4_string b @ CHR '':'' # dec (unat (xPort e))"
    "mask_key f = ip4_string b' @ CHR '':'' # dec (unat (xPort f))"
    using b by (simp_all add: mask_key_def IP_String_v4)
  have "mask_key e = mask_key f \<longleftrightarrow> ip4_string b = ip4_string b' \<and> dec (unat (xPort e)) = dec (unat (xPort f))"
    unfolding me using split_last [OF _ col col] by metis
  also have "\<dots> \<longleftrightarrow> b = b' \<and> xPort e = xPort f"
    using ip4_string_inj [OF b(1,3)] by (auto dest: unsigned_word_eqI)
  finally show ?thesis using b by (simp add: ep_key_def)
qed

lemma mask_key_cong: "ep_key e = ep_key f \<Longrightarrow> mask_key e = mask_key f"
  by (simp add: mask_key_def ep_key_def)

lemma ep_v4_cong: "ep_key e = ep_key f \<Longrightarrow> ep_v4 e = ep_v4 f"
  by (simp add: ep_v4_def ep_key_def)

lemma mask_nth:
  "i < length olds \<Longrightarrow> createEndpointMask olds ret del ! i \<longleftrightarrow>
    mask_key (olds ! i) \<in> mask_key ` set del \<or> mask_key (olds ! i) \<notin> mask_key ` set ret"
  by (simp add: createEndpointMask_def)

lemma mask_key_in:
  "ep_v4 e \<Longrightarrow> \<forall>f \<in> A. ep_v4 f \<Longrightarrow> mask_key e \<in> mask_key ` A \<longleftrightarrow> ep_key e \<in> ep_key ` A"
  using mask_key_inj by (auto simp: image_iff)

lemma distinct_key_nth:
  "distinct (map ep_key olds) \<Longrightarrow> i < length olds \<Longrightarrow>
    ep_key (olds ! i) \<in> ep_key ` {e \<in> set olds. P e} \<longleftrightarrow> P (olds ! i)"
  by (auto simp: in_set_conv_nth distinct_conv_nth image_iff)

lemma mask_add:
  assumes "list_all ep_wf olds" "list_all ep_wf news" "list_all ep_active news" "list_all ep_v4 olds" "distinct (map ep_key olds)"
    and r: "getLBConsolidatedEPs olds news LBOPAdd = (chg, ret, del)" and i: "i < length olds"
  shows "createEndpointMask olds ret del ! i \<longleftrightarrow> ep_active (olds ! i) \<and> ep_key (olds ! i) \<notin> ep_key ` set news"
proof -
  have v: "ep_v4 (olds ! i)" "\<forall>e \<in> set olds. ep_v4 e" using assms(4) i by (simp_all add: list_all_iff)
  have "del = filter (\<lambda>e. ep_active e \<and> ep_key e \<notin> ep_key ` set news) olds"
    and m: "map ep_key (take (length olds) ret) = map ep_key olds"
    using consolidated_active(1,3) [OF assms(1-3) _ r] by simp_all
  then have del: "set del = {e \<in> set olds. ep_active e \<and> ep_key e \<notin> ep_key ` set news}" by simp
  have "ep_key ` set olds \<subseteq> ep_key ` set ret"
    using arg_cong [OF m, of set] set_take_subset [of "length olds" ret] by (metis image_mono set_map)
  then obtain e where e: "e \<in> set ret" "ep_key (olds ! i) = ep_key e" using nth_mem [OF i] by blast
  have "mask_key (olds ! i) \<in> mask_key ` set ret" unfolding mask_key_cong [OF e(2)] using e(1) by (rule imageI)
  then show ?thesis
    using v mask_key_in [OF v(1), of "set del"] distinct_key_nth [OF assms(5) i] by (simp add: mask_nth [OF i] del)
qed

lemma mask_detach:
  assumes "list_all ep_wf olds" "list_all ep_wf news" "list_all ep_v4 olds" "distinct (map ep_key olds)"
    and r: "getLBConsolidatedEPs olds news LBOPDetach = (chg, ret, del)" and i: "i < length olds"
  shows "createEndpointMask olds ret del ! i \<longleftrightarrow> ep_key (olds ! i) \<in> ep_key ` set news"
proof -
  have v: "ep_v4 (olds ! i)" "\<forall>e \<in> set olds. ep_v4 e" using assms(3) i by (simp_all add: list_all_iff)
  have ret: "ret = filter (\<lambda>e. ep_key e \<notin> ep_key ` set news) olds"
    and m: "map ep_key del = map ep_key (filter (\<lambda>e. ep_key e \<in> ep_key ` set news) olds)"
    using consolidated_detach_ret [OF assms(1,2)] r by blast+
  have del: "ep_key ` set del = ep_key ` {e \<in> set olds. ep_key e \<in> ep_key ` set news}"
    using arg_cong [OF m, of set] by simp
  have "ep_v4 e" if "e \<in> set del" for e
  proof -
    have "ep_key e \<in> ep_key ` {e \<in> set olds. ep_key e \<in> ep_key ` set news}" unfolding del [symmetric] using that by (rule imageI)
    then obtain f where "f \<in> set olds" "ep_key e = ep_key f" by blast
    then show ?thesis using v(2) ep_v4_cong by blast
  qed
  then have "mask_key (olds ! i) \<in> mask_key ` set del \<longleftrightarrow> ep_key (olds ! i) \<in> ep_key ` set news"
    using mask_key_in [OF v(1), of "set del"] del i distinct_key_nth [OF assms(4) i] by simp
  moreover have "mask_key (olds ! i) \<in> mask_key ` set ret \<longleftrightarrow> ep_key (olds ! i) \<notin> ep_key ` set news"
    using mask_key_in [OF v(1), of "set ret"] v(2) i distinct_key_nth [OF assms(4) i] by (simp add: ret)
  ultimately show ?thesis by (simp add: mask_nth [OF i])
qed



end
