(* ===== verification/XSync.thy ===== *)
theory XSync
  imports DpBroker
begin

text \<open>Connection-tracking entries and their synchronisation with the cluster peers
(\<open>DpXsyncRPC\<close> of \<open>dpbroker.go\<close>).\<close>

subsection \<open>Connection entries\<close>

record DpCtInfo =
  ct_DIP :: IP
  ct_SIP :: IP
  ct_Dport :: u16
  ct_Sport :: u16
  ct_Proto :: string
  ct_Ident :: u32
  ct_IdType :: u32
  ct_CState :: string
  ct_CAct :: string
  ct_CI :: string
  ct_Packets :: u64
  ct_Bytes :: u64
  ct_Deleted :: int
  ct_PKey :: "u8 list"
  ct_PVal :: "u8 list"
  ct_LTs :: int
  ct_NTs :: int
  ct_XSync :: bool
  ct_SyncRetries :: int
  ct_ServiceIP :: IP
  ct_ServProto :: string
  ct_L4ServPort :: u16
  ct_L4ServPortMax :: u16
  ct_BlockNum :: u32
  ct_RuleID :: u32

definition ct_Key :: "DpCtInfo \<Rightarrow> string" where
  "ct_Key ct = IP_String (ct_DIP ct) @ IP_String (ct_SIP ct) @ dec (unat (ct_Dport ct)) @
     dec (unat (ct_Sport ct)) @ ct_Proto ct @ dec (unat (ct_IdType ct)) @ dec (unat (ct_Ident ct))"

definition ct_KeyState :: "DpCtInfo \<Rightarrow> string" where
  "ct_KeyState ct = ct_Key ct @ ''-'' @ ct_CState ct"

datatype DpSyncOpT = DpSyncAdd | DpSyncDelete | DpSyncGet | DpSyncBcast | DpSyncUnknown

text \<open>The remote procedure calls are the parameter \<open>rpc_env\<close>: the result of the
n-th call, with the reply and whether an error came back.  A connect that returns zero leaves the
peer with a client.\<close>

record rpc_env =
  rpc_connect :: "nat \<Rightarrow> IP \<Rightarrow> int"
  rpc_send :: "nat \<Rightarrow> IP \<Rightarrow> string \<Rightarrow> int \<times> bool"

definition rpc_call :: "DpSyncOpT \<Rightarrow> bool \<Rightarrow> string option" where
  "rpc_call op blk = (case op of
      DpSyncAdd \<Rightarrow> Some (if blk then ''XSync.DpWorkOnBlockCtAdd'' else ''XSync.DpWorkOnCtAdd'')
    | DpSyncBcast \<Rightarrow> Some (if blk then ''XSync.DpWorkOnBlockCtAdd'' else ''XSync.DpWorkOnCtAdd'')
    | DpSyncDelete \<Rightarrow> Some (if blk then ''XSync.DpWorkOnBlockCtDelete'' else ''XSync.DpWorkOnCtDelete'')
    | DpSyncGet \<Rightarrow> Some ''XSync.DpWorkOnCtGet''
    | DpSyncUnknown \<Rightarrow> None)"

text \<open>What happens once a peer is connected: an early return or the call to make.
\<open>ciState\<close> is the cluster state of an instance.\<close>

definition xsync_plan ::
  "(string \<Rightarrow> string) \<Rightarrow> DpSyncOpT \<Rightarrow> DpCtInfo option \<Rightarrow> DpCtInfo list \<Rightarrow> int + string" where
  "xsync_plan ciState op cti blk = (case rpc_call op (blk \<noteq> []) of
      None \<Rightarrow> Inl (-1)
    | Some s \<Rightarrow>
        if op = DpSyncAdd \<or> op = DpSyncDelete then
          (case (cti, blk) of
             (None, []) \<Rightarrow> Inl (-1)
           | (Some c, _) \<Rightarrow> if ciState (ct_CI c) \<noteq> ''MASTER'' then Inl 0 else Inr s
           | (None, c # _) \<Rightarrow> if ciState (ct_CI c) \<noteq> ''MASTER'' then Inl 0 else Inr s)
        else Inr s)"

type_synonym rpc_log = "(IP \<times> string) list"

definition keep_peer :: "DpPeer \<Rightarrow> int \<times> DpPeer list \<times> rpc_log \<Rightarrow> int \<times> DpPeer list \<times> rpc_log" where
  "keep_peer pe r = (fst r, pe # fst (snd r), snd (snd r))"

definition note_call :: "IP \<times> string \<Rightarrow> int \<times> DpPeer list \<times> rpc_log \<Rightarrow> int \<times> DpPeer list \<times> rpc_log" where
  "note_call c r = (fst r, fst (snd r), c # snd (snd r))"

text \<open>The loop over the peers with the number of calls made, the retry counter and the error
flag.  A failed send is repeated once for the whole loop, after reconnecting.\<close>

function xsync_peers :: "rpc_env \<Rightarrow> int + string \<Rightarrow> nat \<Rightarrow> nat \<Rightarrow> bool \<Rightarrow> DpPeer list \<Rightarrow> int \<times> DpPeer list \<times> rpc_log" where
  "xsync_peers env plan n retries rpcErr [] = (if rpcErr then -1 else 0, [], [])"
| "xsync_peers env plan n retries rpcErr (pe # ps) =
    (if \<not> Client pe \<and> rpc_connect env n (Peer pe) \<noteq> 0 then
       keep_peer pe (xsync_peers env plan (Suc n) retries True ps)
     else (case plan of
         Inl ret \<Rightarrow> (ret, pe \<lparr> Client := True \<rparr> # ps, [])
       | Inr s \<Rightarrow>
          (let n1 = (if Client pe then n else Suc n);
               reply = fst (rpc_send env n1 (Peer pe) s);
               err = snd (rpc_send env n1 (Peer pe) s) in
           note_call (Peer pe, s)
             (if err \<and> Suc retries < 2 then
                xsync_peers env plan (Suc n1) (Suc retries) True (pe \<lparr> Client := False \<rparr> # ps)
              else
                keep_peer (pe \<lparr> Client := \<not> err \<rparr>)
                  (xsync_peers env plan (Suc n1) (if err then Suc retries else retries)
                    (rpcErr \<or> err \<or> reply \<noteq> 0) ps)))))"
  by pat_completeness auto
termination
  by (relation "measures [\<lambda>(env, plan, n, r, e, ps). length ps, \<lambda>(env, plan, n, r, e, ps). 2 - r]") auto

declare xsync_peers.simps(2) [simp del]

lemmas xsync_step = xsync_peers.simps(2)

lemma peer_log_sel [simp]:
  "fst (keep_peer pe r) = fst r" "fst (note_call c r) = fst r"
  "snd (snd (keep_peer pe r)) = snd (snd r)"
  by (simp_all add: keep_peer_def note_call_def)

definition DpXsyncRPC ::
  "rpc_env \<Rightarrow> nat \<Rightarrow> (string \<Rightarrow> string) \<Rightarrow> DpSyncOpT \<Rightarrow> DpCtInfo option \<Rightarrow> DpCtInfo list \<Rightarrow> DpH \<Rightarrow> int \<times> DpH \<times> rpc_log" where
  "DpXsyncRPC env nodes ciState op cti blk dp =
    (if nodes \<noteq> length (Peers dp) then (-1, dp, [])
     else (let (ret, ps, log) = xsync_peers env (xsync_plan ciState op cti blk) 0 0 False (Peers dp)
           in (ret, dp \<lparr> Peers := ps \<rparr>, log)))"

lemma xsync_err: "fst (xsync_peers env (Inr s) n r True ps) = -1"
proof (induction env "Inr s :: int + string" n r True ps rule: xsync_peers.induct)
  case (2 env n r pe ps)
  let ?n1 = "if Client pe then n else Suc n"
  consider "\<not> Client pe \<and> rpc_connect env n (Peer pe) \<noteq> 0"
    | "Client pe \<or> rpc_connect env n (Peer pe) = 0" "snd (rpc_send env ?n1 (Peer pe) s) \<and> Suc r < 2"
    | "Client pe \<or> rpc_connect env n (Peer pe) = 0" "\<not> (snd (rpc_send env ?n1 (Peer pe) s) \<and> Suc r < 2)"
    by blast
  then show ?case
  proof cases
    case 1
    then show ?thesis using 2(1) by (simp add: xsync_step)
  next
    case b: 2
    then show ?thesis using 2(2) [OF _ refl refl refl refl]
      unfolding xsync_step [of env "Inr s" n r True pe ps] by (auto simp: Let_def)
  next
    case 3
    then show ?thesis using 2(3) [OF _ refl refl refl refl]
      unfolding xsync_step [of env "Inr s" n r True pe ps] by (auto simp: Let_def)
  qed
qed simp

lemma xsync_early: "snd (snd (xsync_peers env (Inl ret) n r e ps)) = []"
proof (induction ps arbitrary: n e)
  case (Cons pe ps)
  then show ?case by (simp add: xsync_step)
qed simp

lemma xsync_zero:
  assumes "xsync_peers env (Inr s) n r e ps = (0, ps', log)"
  shows "\<not> e \<and> log = map (\<lambda>p. (Peer p, s)) ps \<and> ps' = map (\<lambda>p. p \<lparr> Client := True \<rparr>) ps"
  using assms
proof (induction ps arbitrary: n r e ps' log)
  case Nil
  then show ?case by (auto split: if_splits)
next
  case (Cons pe ps)
  let ?x = "xsync_peers env (Inr s) n r e (pe # ps)" and ?n1 = "if Client pe then n else Suc n"
  let ?reply = "fst (rpc_send env ?n1 (Peer pe) s)" and ?err = "snd (rpc_send env ?n1 (Peer pe) s)"
  have z: "fst ?x = 0" using Cons.prems by simp
  have ok: "Client pe \<or> rpc_connect env n (Peer pe) = 0"
  proof (rule ccontr)
    assume "\<not> ?thesis"
    then have "fst ?x = fst (xsync_peers env (Inr s) (Suc n) r True ps)" by (simp add: xsync_step)
    then show False using z by (simp add: xsync_err)
  qed
  have ne: "\<not> ?err"
  proof
    assume ?err
    then have "fst ?x = -1" using ok by (auto simp: xsync_step Let_def xsync_err)
    then show False using z by simp
  qed
  define rec where "rec = xsync_peers env (Inr s) (Suc ?n1) r (e \<or> ?reply \<noteq> 0) ps"
  have x: "?x = note_call (Peer pe, s) (keep_peer (pe \<lparr> Client := True \<rparr>) rec)"
    using ok ne by (auto simp: xsync_step rec_def)
  then have "rec = (0, fst (snd rec), snd (snd rec))" using z by (simp add: prod_eq_iff)
  then have "\<not> (e \<or> ?reply \<noteq> 0)" "snd (snd rec) = map (\<lambda>p. (Peer p, s)) ps"
    "fst (snd rec) = map (\<lambda>p. p \<lparr> Client := True \<rparr>) ps"
    using Cons.IH [of "Suc ?n1" r "e \<or> ?reply \<noteq> 0"] unfolding rec_def by blast+
  moreover have "ps' = pe \<lparr> Client := True \<rparr> # fst (snd rec)" "log = (Peer pe, s) # snd (snd rec)"
    using Cons.prems x by (simp_all add: note_call_def keep_peer_def)
  ultimately show ?case by simp
qed



text \<open>The key of the connection table is ambiguous: two connections with different
addresses on both sides have the same key for all ports, protocols and identifiers, because the
addresses are printed next to each other without a separator.\<close>

theorem ct_key_collision:
  "\<exists>d s d' s'. d \<noteq> d' \<and> s \<noteq> s' \<and> (\<forall>ct. ct_Key (ct \<lparr> ct_DIP := d, ct_SIP := s \<rparr>) = ct_Key (ct \<lparr> ct_DIP := d', ct_SIP := s' \<rparr>))"
proof -
  have "IP_String (IPv4 10 0 0 1) @ IP_String (IPv4 11 0 0 1) = IP_String (IPv4 10 0 0 11) @ IP_String (IPv4 1 0 0 1)"
    by code_simp
  then have "ct_Key (ct \<lparr> ct_DIP := IPv4 10 0 0 1, ct_SIP := IPv4 11 0 0 1 \<rparr>) =
      ct_Key (ct \<lparr> ct_DIP := IPv4 10 0 0 11, ct_SIP := IPv4 1 0 0 1 \<rparr>)" for ct
    by (simp add: ct_Key_def append_assoc [symmetric] del: append_assoc)
  moreover have "IPv4 10 0 0 1 \<noteq> IPv4 10 0 0 11" "IPv4 11 0 0 1 \<noteq> IPv4 1 0 0 1" by simp_all
  ultimately show ?thesis by blast
qed

end
