(* ===== verification/Cluster.thy ===== *)
theory Cluster
  imports Bfd DpBroker NetUtils "HOL-Library.Multiset"
begin

text \<open>Cluster state (\<open>cluster.go\<close>): the instances and their high-availability state,
the mailbox and the sync worker that applies a state to the rules
(\<open>RulesApplyClusterState\<close> of \<open>rules.go\<close>), the cluster nodes and the BFD
sessions.  BGP, the kernel and the cloud hooks are outside; what they are asked to do is part of
the results.\<close>

subsection \<open>State\<close>

definition CIDefault :: string where [go_consts]: "CIDefault = ''llb-inst0''"
definition CIFaultStateString :: string where [go_consts]: "CIFaultStateString = ''FAULT''"
definition CIStopStateString :: string where [go_consts]: "CIStopStateString = ''STOP''"
abbreviation CIStateMaster :: int where "CIStateMaster \<equiv> 1"
abbreviation CIStateBackup :: int where "CIStateBackup \<equiv> 2"
abbreviation CIStateConflict :: int where "CIStateConflict \<equiv> 3"
abbreviation CIStateNotDefined :: int where "CIStateNotDefined \<equiv> 4"

record ClusterInstance =
  ci_State :: int
  ci_StateStr :: string
  ci_Vip :: IP

record ClusterNode =
  cn_Addr :: IP
  cn_Egress :: bool
  cn_Status :: DpStatusT

text \<open>Of the channels, \<open>syncSig\<close> has capacity one and carries no data.\<close>

record CIStateH =
  SpawnKa :: bool
  RemoteIP :: IP
  SourceIP :: IP
  ka_Interval :: int
  ClusterMap :: "(string, ClusterInstance) gomap"
  StateMap :: "(string, int) gomap"
  NodeMap :: "(string, ClusterNode) gomap"
  Bs :: "BFDStruct option"
  syncDirty :: "string list"
  syncSig :: bool

record HASMod =
  hm_Instance :: string
  hm_State :: string
  hm_Vip :: IP

definition undef_instance :: ClusterInstance where
  "undef_instance = \<lparr> ci_State = CIStateNotDefined, ci_StateStr = CIUnDefStateString, ci_Vip = IPv4 0 0 0 0 \<rparr>"

text \<open>\<open>CIInit\<close> without a cluster device.\<close>

definition CIInit :: "bool \<Rightarrow> IP \<Rightarrow> IP \<Rightarrow> int \<Rightarrow> CIStateH" where
  "CIInit spawnKa remote source interval =
    \<lparr> SpawnKa = spawnKa, RemoteIP = remote, SourceIP = source, ka_Interval = interval,
      ClusterMap = [(CIDefault, undef_instance)],
      StateMap = [(CIMasterStateString, CIStateMaster), (CIBackupStateString, CIStateBackup),
        (CIFaultStateString, CIStateConflict), (CIStopStateString, CIStateNotDefined),
        (CIUnDefStateString, CIStateNotDefined)],
      NodeMap = [], Bs = None, syncDirty = [], syncSig = False \<rparr>"

subsection \<open>Reading the state\<close>

definition CIStateGetInst :: "CIStateH \<Rightarrow> string \<Rightarrow> string \<times> go_ret" where
  "CIStateGetInst ch inst = (case gm_get (ClusterMap ch) inst of
      Some ci \<Rightarrow> (ci_StateStr ci, Ok)
    | None \<Rightarrow> (CIUnDefStateString, Err 0 ''not found''))"

definition CIStateVipGetInst :: "CIStateH \<Rightarrow> string \<Rightarrow> string \<times> IP" where
  "CIStateVipGetInst ch inst = (case gm_get (ClusterMap ch) inst of
      Some ci \<Rightarrow> (ci_StateStr ci, ci_Vip ci)
    | None \<Rightarrow> (CIUnDefStateString, IPv4 0 0 0 0))"

definition ciInstExists :: "CIStateH \<Rightarrow> string \<Rightarrow> bool" where
  "ciInstExists ch inst \<longleftrightarrow> gm_get (ClusterMap ch) inst \<noteq> None"

definition CIStateGet :: "CIStateH \<Rightarrow> HASMod list" where
  "CIStateGet ch = map (\<lambda>(i, s). \<lparr> hm_Instance = i, hm_State = ci_StateStr s, hm_Vip = ci_Vip s \<rparr>) (ClusterMap ch)"

definition CIVipGet :: "CIStateH \<Rightarrow> string \<Rightarrow> string + IP" where
  "CIVipGet ch inst = (case gm_get (ClusterMap ch) inst of
      Some ci \<Rightarrow> (if ci_Vip ci \<noteq> [] \<and> \<not> IsUnspecified (ci_Vip ci) then Inr (ci_Vip ci) else Inl ''not found'')
    | None \<Rightarrow> Inl ''not found'')"

subsection \<open>Recording a state change\<close>

text \<open>\<open>CIStateUpdate\<close> up to the point where it releases \<open>mx\<close>: the state
returned, whether an error is returned, whether the worker has to be signalled, and the new
context.\<close>

definition ensure_instance :: "string \<Rightarrow> CIStateH \<Rightarrow> CIStateH" where
  "ensure_instance inst ch = (case gm_get (ClusterMap ch) inst of
      None \<Rightarrow> ch \<lparr> ClusterMap := gm_put inst undef_instance (ClusterMap ch) \<rparr>
    | Some _ \<Rightarrow> ch)"

definition mark_dirty :: "string \<Rightarrow> string list \<Rightarrow> string list" where
  "mark_dirty inst d = (if inst \<in> set d then d else d @ [inst])"

definition ci_record :: "HASMod \<Rightarrow> CIStateH \<Rightarrow> int \<times> go_ret \<times> bool \<times> CIStateH" where
  "ci_record cm ch0 =
    (let ch = ensure_instance (hm_Instance cm) ch0;
         ci = the (gm_get (ClusterMap ch) (hm_Instance cm)) in
     if ci_StateStr ci = hm_State cm then (ci_State ci, Ok, False, ch)
     else (case gm_get (StateMap ch) (hm_State cm) of
         None \<Rightarrow> (ci_State ci, Err 0 ''invalid cluster-state'', False, ch)
       | Some newState \<Rightarrow>
           (newState, Ok, True, ch
             \<lparr> ClusterMap := gm_put (hm_Instance cm)
                 \<lparr> ci_State = newState, ci_StateStr = hm_State cm, ci_Vip = hm_Vip cm \<rparr> (ClusterMap ch),
               syncDirty := mark_dirty (hm_Instance cm) (syncDirty ch) \<rparr>)))"

text \<open>The whole call, with the BGP notification it makes.\<close>

definition CIStateUpdate :: "HASMod \<Rightarrow> CIStateH \<Rightarrow> int \<times> go_ret \<times> HASMod list \<times> CIStateH" where
  "CIStateUpdate cm ch = (case ci_record cm ch of
      (state, ret, sig, ch') \<Rightarrow>
        (state, ret, if sig then [cm] else [], if sig then ch' \<lparr> syncSig := True \<rparr> else ch'))"

definition BFDSessionNotify :: "string \<Rightarrow> string \<Rightarrow> CIStateH \<Rightarrow> int \<times> go_ret \<times> HASMod list \<times> CIStateH" where
  "BFDSessionNotify instance ciState ch =
    CIStateUpdate \<lparr> hm_Instance = instance, hm_State = ciState, hm_Vip = ParseIP ''0.0.0.0'' \<rparr> ch"

subsection \<open>Nodes\<close>

text \<open>What a node asks of the data path: a tunnel peer of the kernel or a peer of the
broker.  \<open>hostAddr\<close> is \<open>IsIPHostAddr\<close>, \<open>addPeer\<close> the result of
the kernel call.\<close>

datatype node_op = AddVxLANPeer string | DelVxLANPeer string | ToDp PeerDpWorkQ

definition node_DP :: "(string \<Rightarrow> bool) \<Rightarrow> (string \<Rightarrow> int) \<Rightarrow> DpWorkT \<Rightarrow> ClusterNode \<Rightarrow> node_op list \<times> ClusterNode" where
  "node_DP hostAddr addPeer work cn =
    (let a = IP_String (cn_Addr cn); q = [ToDp \<lparr> pe_Work = work, pe_PeerIP = cn_Addr cn \<rparr>] in
     if cn_Egress cn then
       (if work = DpCreate then
          (if \<not> hostAddr a then ([AddVxLANPeer a], if addPeer a \<noteq> 0 then cn \<lparr> cn_Status := DpCreateErr \<rparr> else cn)
           else ([], cn))
        else if \<not> hostAddr a then ([DelVxLANPeer a], cn)
        else (q, cn))
     else (q, cn))"

definition ClusterNodeAdd ::
  "(string \<Rightarrow> bool) \<Rightarrow> (string \<Rightarrow> int) \<Rightarrow> IP \<Rightarrow> bool \<Rightarrow> CIStateH \<Rightarrow> go_ret \<times> node_op list \<times> CIStateH" where
  "ClusterNodeAdd hostAddr addPeer addr egress ch = (case gm_get (NodeMap ch) (IP_String addr) of
      Some _ \<Rightarrow> (Err (-1) ''existing cnode'', [], ch)
    | None \<Rightarrow>
        (let (ops, cn) = node_DP hostAddr addPeer DpCreate
               \<lparr> cn_Addr = addr, cn_Egress = egress, cn_Status = DpStatusOk \<rparr>
         in (Ok, ops, ch \<lparr> NodeMap := gm_put (IP_String addr) cn (NodeMap ch) \<rparr>)))"

definition ClusterNodeDelete ::
  "(string \<Rightarrow> bool) \<Rightarrow> (string \<Rightarrow> int) \<Rightarrow> IP \<Rightarrow> CIStateH \<Rightarrow> go_ret \<times> node_op list \<times> CIStateH" where
  "ClusterNodeDelete hostAddr addPeer addr ch = (case gm_get (NodeMap ch) (IP_String addr) of
      None \<Rightarrow> (Err (-1) ''no such cnode'', [], ch)
    | Some cn \<Rightarrow>
        (Ok, fst (node_DP hostAddr addPeer DpRemove cn),
         ch \<lparr> NodeMap := gm_del (IP_String addr) (NodeMap ch) \<rparr>))"

subsection \<open>BFD sessions\<close>

text \<open>The first session is added by a goroutine, which is returned as the pending
\<open>startBFDProto\<close>; later ones are added at once.\<close>

abbreviation BFDPort :: u16 where "BFDPort \<equiv> 3784"

definition bfd_args :: "BFDMod \<Rightarrow> ConfigArgs" where
  "bfd_args bm = \<lparr> ca_RemoteIP = IP_String (bm_RemoteIP bm), ca_SourceIP = IP_String (bm_SourceIP bm),
     ca_Port = BFDPort, ca_Interval = ucast (bm_Interval bm), ca_Multi = bm_RetryCount bm,
     ca_Instance = bm_Instance bm \<rparr>"

definition startBFDProto :: "bfd_env \<Rightarrow> ConfigArgs \<Rightarrow> CIStateH \<Rightarrow> CIStateH" where
  "startBFDProto env args ch = (case Bs ch of
      None \<Rightarrow> ch
    | Some bs \<Rightarrow> ch \<lparr> Bs := Some (snd (BFDAddRemote env args bs)) \<rparr>)"

definition CIBFDSessionAdd :: "bfd_env \<Rightarrow> BFDMod \<Rightarrow> CIStateH \<Rightarrow> go_ret \<times> ConfigArgs option \<times> CIStateH" where
  "CIBFDSessionAdd env bm ch = (case Bs ch of
      None \<Rightarrow> (Err (-1) ''bfd not initialized'', None, ch)
    | Some bs \<Rightarrow>
        if bm_Interval bm \<noteq> 0 \<and> bm_Interval bm < ucast BFDMinSysTXIntervalUs
          then (Err (-1) ''bfd interval too low'', None, ch)
        else if \<not> ciInstExists ch (bm_Instance bm) then (Err (-1) ''cluster instance not found'', None, ch)
        else if ParseIP (IP_String (bm_RemoteIP bm)) = [] then (Err (-1) ''remoteIP address malformed'', None, ch)
        else if \<not> SpawnKa ch then
          (if ParseIP (IP_String (bm_SourceIP bm)) = [] then (Err (-1) ''source address malformed'', None, ch)
           else (Ok, Some (bfd_args bm), ch \<lparr> SpawnKa := True, RemoteIP := bm_RemoteIP bm,
                   SourceIP := bm_SourceIP bm, ka_Interval := sint (bm_Interval bm) \<rparr>))
        else (case BFDAddRemote env (bfd_args bm) bs of
            (Inl e, bs') \<Rightarrow> (Err (-1) e, None, ch \<lparr> Bs := Some bs' \<rparr>)
          | (Inr _, bs') \<Rightarrow> (Ok, None, ch \<lparr> Bs := Some bs' \<rparr>)))"

text \<open>\<open>None\<close> is the nil dereference of a missing session table.\<close>

definition CIBFDSessionDel :: "BFDMod \<Rightarrow> CIStateH \<Rightarrow> (go_ret \<times> CIStateH) option" where
  "CIBFDSessionDel bm ch =
    (if \<not> SpawnKa ch then Some (Err (-1) ''bfd session not running'', ch)
     else if \<not> ciInstExists ch (bm_Instance bm) then Some (Err (-1) ''cluster instance not found'', ch)
     else (case Bs ch of
         None \<Rightarrow> None
       | Some bs \<Rightarrow> (case BFDDeleteRemote ((bfd_args bm) \<lparr> ca_SourceIP := [], ca_Port := 0, ca_Interval := 0,
               ca_Multi := 0, ca_Instance := [] \<rparr>) bs of
             (Inl e, bs') \<Rightarrow> Some (Err (-1) e, ch)
           | (Inr _, bs') \<Rightarrow> Some (Ok, ch \<lparr> Bs := Some bs', SpawnKa := False \<rparr>))))"

definition CIBFDSessionGet :: "CIStateH \<Rightarrow> string + BFDMod list option" where
  "CIBFDSessionGet ch = (case Bs ch of
      None \<Rightarrow> Inl ''bfd session not running''
    | Some bs \<Rightarrow> if \<not> SpawnKa ch then Inl ''bfd session not running'' else Inr (BFDGet bs))"

subsection \<open>The sync worker\<close>

text \<open>Where the worker is: waiting for a signal, signalled, between instances, about to read
the state of an instance for the first time in a try, or about to apply under \<open>mh.mtx\<close>
with the state first read.\<close>

datatype worker = W_idle | W_woken | W_next "string list"
  | W_first string "string list" nat | W_locked string "string list" nat string

text \<open>\<open>upd\<close> says that a caller of \<open>CIStateUpdate\<close> (who holds \<open>mh.mtx\<close>)
has recorded a change and not yet signalled it.  \<open>applied\<close> is the state each instance was
last given by \<open>rulesApplyStateLocked\<close>; \<open>hooked\<close> lists the calls of the hook
script, newest first.\<close>

record sync_sys =
  ch :: CIStateH
  upd :: bool
  wk :: worker
  cloudPrepared :: bool
  lastHooked :: "(string, string) gomap"
  applied :: "(string, string) gomap"
  hooked :: "(string \<times> string) list"

definition ciApplyMaxRestarts :: nat where [go_consts]: "ciApplyMaxRestarts = 3"

definition cur :: "sync_sys \<Rightarrow> string \<Rightarrow> string" where
  "cur S inst = fst (CIStateVipGetInst (ch S) inst)"

definition get_str :: "(string, string) gomap \<Rightarrow> string \<Rightarrow> string" where
  "get_str m k = (case gm_get m k of None \<Rightarrow> [] | Some v \<Rightarrow> v)"

definition must_restart :: "bool \<Rightarrow> string \<Rightarrow> string \<Rightarrow> sync_sys \<Rightarrow> bool" where
  "must_restart cloud inst first S \<longleftrightarrow> cloud \<and> inst = CIDefault \<and> cur S inst = CIMasterStateString \<and>
     first \<noteq> CIMasterStateString \<and> \<not> cloudPrepared S"

definition ci_apply :: "bool \<Rightarrow> string \<Rightarrow> sync_sys \<Rightarrow> sync_sys" where
  "ci_apply cloud inst S =
    (let state = cur S inst in
     S \<lparr> applied := gm_put inst state (applied S),
         cloudPrepared := (if cloud \<and> inst = CIDefault \<and> state = CIBackupStateString then False else cloudPrepared S),
         lastHooked := (if get_str (lastHooked S) inst = state then lastHooked S else gm_put inst state (lastHooked S)),
         hooked := (if get_str (lastHooked S) inst = state then hooked S else (inst, state) # hooked S) \<rparr>)"

inductive worker_step :: "bool \<Rightarrow> sync_sys \<Rightarrow> sync_sys \<Rightarrow> bool" for cloud :: bool where
  wake: "\<lbrakk> wk S = W_idle; syncSig (ch S) \<rbrakk> \<Longrightarrow>
    worker_step cloud S (S \<lparr> ch := (ch S) \<lparr> syncSig := False \<rparr>, wk := W_woken \<rparr>)"
| drain: "\<lbrakk> wk S = W_woken; mset ds = mset (syncDirty (ch S)) \<rbrakk> \<Longrightarrow>
    worker_step cloud S (S \<lparr> ch := (ch S) \<lparr> syncDirty := [] \<rparr>, wk := W_next ds \<rparr>)"
| rest: "wk S = W_next [] \<Longrightarrow> worker_step cloud S (S \<lparr> wk := W_idle \<rparr>)"
| pick: "wk S = W_next (i # is) \<Longrightarrow> worker_step cloud S (S \<lparr> wk := W_first i is 0 \<rparr>)"
| first: "\<lbrakk> wk S = W_first i is n; \<not> upd S;
      b = cloudPrepared S \<or> (cloud \<and> i = CIDefault \<and> cur S i = CIMasterStateString \<and> b) \<rbrakk> \<Longrightarrow>
    worker_step cloud S (S \<lparr> wk := W_locked i is n (cur S i), cloudPrepared := b \<rparr>)"
| restart: "\<lbrakk> wk S = W_locked i is n first; \<not> upd S; must_restart cloud i first S; n < ciApplyMaxRestarts \<rbrakk> \<Longrightarrow>
    worker_step cloud S (S \<lparr> wk := W_first i is (Suc n) \<rparr>)"
| abandon: "\<lbrakk> wk S = W_locked i is n first; \<not> upd S; must_restart cloud i first S; \<not> n < ciApplyMaxRestarts \<rbrakk> \<Longrightarrow>
    worker_step cloud S (S \<lparr> wk := W_next is \<rparr>)"
| do_apply: "\<lbrakk> wk S = W_locked i is n first; \<not> upd S; \<not> must_restart cloud i first S \<rbrakk> \<Longrightarrow>
    worker_step cloud S ((ci_apply cloud i S) \<lparr> wk := W_next is \<rparr>)"

inductive updater_step :: "sync_sys \<Rightarrow> sync_sys \<Rightarrow> bool" where
  do_record: "\<lbrakk> \<not> upd S; ci_record cm (ch S) = (st, r, sig, c') \<rbrakk> \<Longrightarrow>
    updater_step S (S \<lparr> ch := c', upd := sig \<rparr>)"
| do_signal: "upd S \<Longrightarrow> updater_step S (S \<lparr> ch := (ch S) \<lparr> syncSig := True \<rparr>, upd := False \<rparr>)"

definition sync_step :: "bool \<Rightarrow> sync_sys \<Rightarrow> sync_sys \<Rightarrow> bool" where
  "sync_step cloud S S' \<longleftrightarrow> updater_step S S' \<or> worker_step cloud S S'"

inductive_cases worker_stepE: "worker_step cloud S S'"
inductive_cases updater_stepE: "updater_step S S'"

definition sync_init :: "CIStateH \<Rightarrow> sync_sys" where
  "sync_init c = \<lparr> ch = c, upd = False, wk = W_idle, cloudPrepared = False, lastHooked = [], applied = [], hooked = [] \<rparr>"

subsection \<open>No state change is lost\<close>

definition st_of :: "CIStateH \<Rightarrow> string \<Rightarrow> string" where
  "st_of c inst = fst (CIStateVipGetInst c inst)"

lemma st_of_upd [simp]:
  "st_of (c \<lparr> syncSig := b \<rparr>) = st_of c" "st_of (c \<lparr> syncDirty := d \<rparr>) = st_of c"
  by (simp_all add: st_of_def CIStateVipGetInst_def fun_eq_iff)

lemma cur_st: "cur S = st_of (ch S)"
  by (simp add: cur_def st_of_def fun_eq_iff)

lemma mark_dirty_set [simp]: "set (mark_dirty i d) = insert i (set d)"
  by (auto simp: mark_dirty_def)

lemma st_of_ensure: "st_of (ensure_instance inst c) = st_of c"
  by (auto simp: st_of_def ensure_instance_def CIStateVipGetInst_def undef_instance_def fun_eq_iff split: option.splits)

lemma ensure_frame [simp]:
  "syncDirty (ensure_instance inst c) = syncDirty c" "syncSig (ensure_instance inst c) = syncSig c"
  "StateMap (ensure_instance inst c) = StateMap c"
  by (simp_all add: ensure_instance_def split: option.splits)

lemma ci_record_props:
  assumes "ci_record cm c = (st, r, sig, c')"
  shows "syncSig c' = syncSig c" "StateMap c' = StateMap c"
    "sig \<Longrightarrow> set (syncDirty c') = insert (hm_Instance cm) (set (syncDirty c))"
    "\<not> sig \<Longrightarrow> syncDirty c' = syncDirty c \<and> st_of c' = st_of c"
    "sig \<Longrightarrow> st_of c' = (st_of c) (hm_Instance cm := hm_State cm) \<and> gm_get (StateMap c) (hm_State cm) \<noteq> None"
  using assms
  by (auto simp: ci_record_def Let_def st_of_ensure fun_eq_iff split: if_splits option.splits)
    (auto simp: st_of_def CIStateVipGetInst_def ensure_instance_def undef_instance_def split: if_splits option.splits)

fun pending :: "worker \<Rightarrow> string set" where
  "pending W_idle = {}"
| "pending W_woken = {}"
| "pending (W_next is) = set is"
| "pending (W_first i is n) = insert i (set is)"
| "pending (W_locked i is n f) = insert i (set is)"

definition applied_state :: "sync_sys \<Rightarrow> string \<Rightarrow> string" where
  "applied_state S i = (case gm_get (applied S) i of None \<Rightarrow> CIUnDefStateString | Some s \<Rightarrow> s)"

text \<open>A change not yet applied is in the mailbox or in the worker's hands, a mailbox with
content is or will be signalled, and a pass whose state moved since its first read has its
instance in the mailbox again.\<close>

definition mail_inv :: "sync_sys \<Rightarrow> bool" where
  "mail_inv S \<longleftrightarrow> (syncDirty (ch S) \<noteq> [] \<longrightarrow> syncSig (ch S) \<or> upd S \<or> wk S = W_woken)"

definition todo_inv :: "sync_sys \<Rightarrow> bool" where
  "todo_inv S \<longleftrightarrow> (\<forall>i. applied_state S i \<noteq> cur S i \<longrightarrow> i \<in> set (syncDirty (ch S)) \<union> pending (wk S))"

definition read_inv :: "sync_sys \<Rightarrow> bool" where
  "read_inv S \<longleftrightarrow> (\<forall>i is n f. wk S = W_locked i is n f \<longrightarrow> cur S i = f \<or> i \<in> set (syncDirty (ch S)))"

definition hook_inv :: "sync_sys \<Rightarrow> bool" where
  "hook_inv S \<longleftrightarrow> gm_get (lastHooked S) = map_of (hooked S) \<and> (\<forall>i. cur S i \<noteq> []) \<and>
    gm_get (StateMap (ch S)) [] = None \<and>
    (\<forall>i s. gm_get (applied S) i = Some s \<longrightarrow> map_of (hooked S) i = Some s)"

lemma ci_apply_sel [simp]:
  "ch (ci_apply cloud i S) = ch S" "upd (ci_apply cloud i S) = upd S"
  "applied (ci_apply cloud i S) = gm_put i (cur S i) (applied S)"
  by (simp_all add: ci_apply_def Let_def)

lemma worker_mail: "worker_step cloud S S' \<Longrightarrow> mail_inv S \<Longrightarrow> mail_inv S'"
  by (erule worker_stepE) (auto simp: mail_inv_def)

lemma worker_todo:
  assumes "worker_step cloud S S'" "todo_inv S" "read_inv S"
  shows "todo_inv S'"
  using assms(1)
proof (cases rule: worker_step.cases)
  case (drain ds)
  then have "set ds = set (syncDirty (ch S))" using mset_eq_setD by blast
  then show ?thesis using drain assms(2) by (auto simp: todo_inv_def cur_st applied_state_def)
next
  case (abandon i "is" n f)
  then have "cur S i \<noteq> f" by (auto simp: must_restart_def)
  then have "i \<in> set (syncDirty (ch S))" using assms(3) abandon by (auto simp: read_inv_def)
  then show ?thesis using abandon assms(2) by (auto simp: todo_inv_def cur_st applied_state_def)
next
  case (do_apply i "is" n f)
  then show ?thesis using assms(2) by (auto simp: todo_inv_def cur_st applied_state_def)
qed (use assms(2) in \<open>auto simp: todo_inv_def cur_st applied_state_def\<close>)

lemma worker_read: "worker_step cloud S S' \<Longrightarrow> read_inv S \<Longrightarrow> read_inv S'"
  by (erule worker_stepE) (auto simp: read_inv_def cur_st)

lemma worker_hook: "worker_step cloud S S' \<Longrightarrow> hook_inv S \<Longrightarrow> hook_inv S'"
proof (erule worker_stepE)
  fix i "is" n first
  assume inv: "hook_inv S" and S': "S' = ci_apply cloud i S \<lparr> wk := W_next is \<rparr>"
  have "get_str (lastHooked S) i = cur S i \<Longrightarrow> map_of (hooked S) i = Some (cur S i)"
    using inv unfolding hook_inv_def get_str_def by (metis not_Some_eq option.simps(4,5))
  then show ?thesis
    using inv unfolding S' by (auto simp: hook_inv_def ci_apply_def Let_def cur_st fun_eq_iff)
qed (auto simp: hook_inv_def cur_st)

lemma updater_invs:
  assumes "updater_step S S'" "mail_inv S" "todo_inv S" "read_inv S" "hook_inv S"
  shows "mail_inv S' \<and> todo_inv S' \<and> read_inv S' \<and> hook_inv S'"
  using assms(1)
proof cases
  case (do_record cm st r sig c')
  note p = ci_record_props [OF do_record(3)]
  show ?thesis
  proof (cases sig)
    case True
    then have "hm_State cm \<noteq> []" using p(5) assms(5) by (auto simp: hook_inv_def)
    then show ?thesis
      using True p assms(2-5) do_record
      by (auto simp: mail_inv_def todo_inv_def read_inv_def hook_inv_def cur_st applied_state_def)
  next
    case False
    then show ?thesis
      using p assms(2-5) do_record
      by (auto simp: mail_inv_def todo_inv_def read_inv_def hook_inv_def cur_st applied_state_def)
  qed
next
  case do_signal
  then show ?thesis
    using assms(2-5) by (auto simp: mail_inv_def todo_inv_def read_inv_def hook_inv_def cur_st applied_state_def)
qed

definition sync_inv :: "sync_sys \<Rightarrow> bool" where
  "sync_inv S \<longleftrightarrow> mail_inv S \<and> todo_inv S \<and> read_inv S \<and> hook_inv S"

lemma sync_inv_step: "sync_step cloud S S' \<Longrightarrow> sync_inv S \<Longrightarrow> sync_inv S'"
  unfolding sync_step_def sync_inv_def
  using updater_invs worker_mail worker_todo worker_read worker_hook by blast

lemma sync_inv_reach: "(sync_step cloud)\<^sup>*\<^sup>* (sync_init (CIInit ka rem src iv)) S \<Longrightarrow> sync_inv S"
proof (induction rule: rtranclp_induct)
  case base
  show ?case
    by (auto simp: sync_inv_def mail_inv_def todo_inv_def read_inv_def hook_inv_def sync_init_def CIInit_def
        cur_def CIStateVipGetInst_def undef_instance_def applied_state_def go_consts fun_eq_iff split: option.splits)
qed (rule sync_inv_step)

definition settled :: "sync_sys \<Rightarrow> bool" where
  "settled S \<longleftrightarrow> wk S = W_idle \<and> \<not> syncSig (ch S) \<and> \<not> upd S"

text \<open>C26. No state change is lost: whenever the worker waits and nothing is signalled, every
instance has been applied in the state it is in now, whatever transitions overlapped, restarted or
abandoned passes on the way, and the last hook call for it, if any, was made with that state.\<close>

theorem ci_sync_no_lost_update:
  assumes "(sync_step cloud)\<^sup>*\<^sup>* (sync_init (CIInit ka rem src iv)) S" "settled S"
  shows "applied_state S i = cur S i \<and> (gm_get (applied S) i \<noteq> None \<longrightarrow> map_of (hooked S) i = Some (cur S i))"
proof -
  note inv = sync_inv_reach [OF assms(1)]
  have "syncDirty (ch S) = []" using inv assms(2) by (auto simp: sync_inv_def mail_inv_def settled_def)
  then have "applied_state S i = cur S i"
    using inv assms(2) by (auto simp: sync_inv_def todo_inv_def settled_def)
  then show ?thesis
    using inv by (auto simp: sync_inv_def hook_inv_def applied_state_def)
qed

text \<open>The work left: one unit per step the worker can still make.\<close>

fun phase :: "worker \<Rightarrow> nat" where
  "phase W_idle = 0"
| "phase W_woken = 2"
| "phase (W_next is) = 20 * length is + 1"
| "phase (W_first i is n) = 20 * length is + 2 * (4 - n) + 3"
| "phase (W_locked i is n f) = 20 * length is + 2 * (4 - n) + 2"

definition ci_work :: "sync_sys \<Rightarrow> nat" where
  "ci_work S = 20 * length (syncDirty (ch S)) + (if syncSig (ch S) then 5 else 0) + phase (wk S)"

lemma worker_decr: "worker_step cloud S S' \<Longrightarrow> ci_work S' < ci_work S \<and> upd S' = upd S"
proof (erule worker_stepE)
  fix ds
  assume "S' = S \<lparr> ch := ch S \<lparr> syncDirty := [] \<rparr>, wk := W_next ds \<rparr>" "wk S = W_woken"
    "mset ds = mset (syncDirty (ch S))"
  moreover then have "length ds = length (syncDirty (ch S))" by (metis size_mset)
  ultimately show ?thesis by (simp add: ci_work_def)
next
  fix i "is" n first
  assume "S' = S \<lparr> wk := W_first i is (Suc n) \<rparr>" "wk S = W_locked i is n first" "n < ciApplyMaxRestarts"
  then show ?thesis by (simp add: ci_work_def go_consts)
qed (auto simp: ci_work_def ci_apply_def Let_def)

lemma worker_progress:
  assumes "\<not> upd S" "\<not> settled S"
  shows "\<exists>S'. worker_step cloud S S'"
proof (cases "wk S")
  case W_idle
  then show ?thesis using assms by (auto simp: settled_def intro: worker_step.wake)
next
  case W_woken
  then show ?thesis using worker_step.drain [OF _ refl] by blast
next
  case (W_next "is")
  then show ?thesis by (cases "is") (auto intro: worker_step.rest worker_step.pick)
next
  case (W_first i "is" n)
  then show ?thesis using assms(1) worker_step.first [of S i "is" n "cloudPrepared S" cloud] by blast
next
  case (W_locked i "is" n f)
  then show ?thesis using assms(1)
    by (cases "must_restart cloud i f S"; cases "n < ciApplyMaxRestarts")
      (auto intro: worker_step.restart worker_step.abandon worker_step.do_apply)
qed

lemma worker_run_bound:
  "(worker_step cloud ^^ n) S S' \<Longrightarrow> n + ci_work S' \<le> ci_work S \<and> upd S' = upd S"
proof (induction n arbitrary: S')
  case (Suc n)
  then obtain T where "(worker_step cloud ^^ n) S T" "worker_step cloud T S'" by auto
  then show ?case using Suc.IH [of T] worker_decr [of cloud T S'] by auto
qed simp

lemma worker_settles: "\<not> upd S \<Longrightarrow> \<exists>S'. (worker_step cloud)\<^sup>*\<^sup>* S S' \<and> settled S'"
proof (induction "ci_work S" arbitrary: S rule: less_induct)
  case less
  show ?case
  proof (cases "settled S")
    case False
    then obtain T where "worker_step cloud S T" using worker_progress less.prems by blast
    moreover then have "ci_work T < ci_work S" "\<not> upd T" using worker_decr less.prems by auto
    ultimately show ?thesis using less.hyps [of T] by (meson converse_rtranclp_into_rtranclp)
  qed blast
qed

lemma worker_sync_run: "(worker_step cloud)\<^sup>*\<^sup>* S S' \<Longrightarrow> (sync_step cloud)\<^sup>*\<^sup>* S S'"
  by (rule rtranclp_mono [THEN predicate2D, rotated]) (auto simp: sync_step_def)

lemma worker_cur: "(worker_step cloud)\<^sup>*\<^sup>* S S' \<Longrightarrow> cur S' = cur S"
proof (induction rule: rtranclp_induct)
  case (step T U)
  have "cur U = cur T" using step.hyps(2) by (rule worker_stepE) (simp_all add: cur_st)
  then show ?case using step.IH by simp
qed simp

text \<open>A run in which the default instance becomes master.\<close>

lemma master_run:
  "\<exists>S. (sync_step True)\<^sup>*\<^sup>* (sync_init (CIInit False [] [] 0)) S \<and> \<not> upd S \<and> cur S CIDefault = CIMasterStateString"
proof -
  define cm where "cm = \<lparr> hm_Instance = CIDefault, hm_State = CIMasterStateString, hm_Vip = IPv4 0 0 0 0 \<rparr>"
  let ?S0 = "sync_init (CIInit False [] [] 0)"
  obtain st r c where rec: "ci_record cm (CIInit False [] [] 0) = (st, r, True, c)"
    by (simp add: ci_record_def ensure_instance_def CIInit_def undef_instance_def cm_def go_consts Let_def)
  define S1 where "S1 = ?S0 \<lparr> ch := c, upd := True \<rparr>"
  define S2 where "S2 = S1 \<lparr> ch := c \<lparr> syncSig := True \<rparr>, upd := False \<rparr>"
  have "updater_step ?S0 S1"
    unfolding S1_def by (rule updater_step.do_record) (use rec in \<open>simp_all add: sync_init_def\<close>)
  moreover have "updater_step S1 S2" using updater_step.do_signal [of S1] by (simp add: S2_def S1_def)
  ultimately have "(sync_step True)\<^sup>*\<^sup>* ?S0 S2"
    by (meson sync_step_def converse_rtranclp_into_rtranclp rtranclp.rtrancl_refl)
  moreover have "cur S2 CIDefault = CIMasterStateString"
    using ci_record_props(5) [OF rec] by (simp add: cur_st S2_def cm_def)
  ultimately show ?thesis by (auto simp: S2_def)
qed

text \<open>C27. The sync worker always finishes: once no update is under way, every run of the
worker on its own has at most \<open>ci_work\<close> steps, it can always go on until it is settled,
and in the settled state it reaches, every instance is applied in its current state.\<close>

theorem ci_sync_terminates:
  assumes "(sync_step cloud)\<^sup>*\<^sup>* (sync_init (CIInit ka rem src iv)) S" "\<not> upd S"
  shows "(\<forall>n S'. (worker_step cloud ^^ n) S S' \<longrightarrow> n \<le> ci_work S) \<and>
    (\<exists>S'. (worker_step cloud)\<^sup>*\<^sup>* S S' \<and> settled S' \<and> (\<forall>i. applied_state S' i = cur S' i))"
proof
  show "\<forall>n S'. (worker_step cloud ^^ n) S S' \<longrightarrow> n \<le> ci_work S" using worker_run_bound by fastforce
  obtain S' where S': "(worker_step cloud)\<^sup>*\<^sup>* S S'" "settled S'" using worker_settles [OF assms(2)] by blast
  have "(sync_step cloud)\<^sup>*\<^sup>* S S'" using S'(1) by (rule worker_sync_run)
  then have "sync_inv S'" using sync_inv_reach assms(1) by (meson rtranclp_trans)
  then have "\<forall>i. applied_state S' i = cur S' i"
    using S'(2) by (auto simp: sync_inv_def mail_inv_def todo_inv_def settled_def)
  then show "\<exists>S'. (worker_step cloud)\<^sup>*\<^sup>* S S' \<and> settled S' \<and> (\<forall>i. applied_state S' i = cur S' i)"
    using S' by blast
qed

theorem ci_sync_no_lost_update_witness:
  "\<exists>S. (sync_step True)\<^sup>*\<^sup>* (sync_init (CIInit False [] [] 0)) S \<and> settled S \<and>
    applied_state S CIDefault = CIMasterStateString"
proof -
  obtain S where S: "(sync_step True)\<^sup>*\<^sup>* (sync_init (CIInit False [] [] 0)) S" "\<not> upd S"
    "cur S CIDefault = CIMasterStateString" using master_run by blast
  obtain T where T: "(worker_step True)\<^sup>*\<^sup>* S T" "settled T" using worker_settles [OF S(2)] by blast
  then have r: "(sync_step True)\<^sup>*\<^sup>* (sync_init (CIInit False [] [] 0)) T"
    using S(1) worker_sync_run by (meson rtranclp_trans)
  then show ?thesis
    using ci_sync_no_lost_update [OF r T(2), of CIDefault] S(3) worker_cur [OF T(1)] T(2) by auto
qed

theorem ci_sync_terminates_witness:
  "\<exists>S. (sync_step True)\<^sup>*\<^sup>* (sync_init (CIInit False [] [] 0)) S \<and> settled S \<and>
    applied_state S CIDefault = CIMasterStateString"
proof -
  obtain S where S: "(sync_step True)\<^sup>*\<^sup>* (sync_init (CIInit False [] [] 0)) S" "\<not> upd S"
    "cur S CIDefault = CIMasterStateString" using master_run by blast
  obtain T where T: "(worker_step True)\<^sup>*\<^sup>* S T" "settled T" "\<forall>i. applied_state T i = cur T i"
    using ci_sync_terminates [OF S(1,2)] by blast
  then show ?thesis
    using S worker_cur [OF T(1)] worker_sync_run [OF T(1)] by (metis rtranclp_trans)
qed

text \<open>Deleting one BFD session switches off the interface to all: the deletion removes the
named session only, but afterwards the sessions that remain can neither be listed nor deleted, until
another session is added.\<close>

theorem bfd_del_hides_rest:
  assumes "CIBFDSessionDel bm c = Some (Ok, c')" "Bs c = Some bs"
  shows "Bs c' = Some (gm_del (IP_String (bm_RemoteIP bm)) bs) \<and>
    CIBFDSessionGet c' = Inl ''bfd session not running'' \<and>
    CIBFDSessionDel bm' c' = Some (Err (-1) ''bfd session not running'', c')"
  using assms
  by (auto simp: CIBFDSessionDel_def CIBFDSessionGet_def BFDDeleteRemote_def bfd_args_def
      split: if_splits option.splits prod.splits sum.splits)

theorem bfd_del_hides_rest_witness:
  "\<exists>c'. CIBFDSessionDel \<lparr> bm_Instance = CIDefault, bm_RemoteIP = IPv4 10 0 0 1, bm_SourceIP = [], bm_Port = 0,
        bm_Interval = 0, bm_RetryCount = 0, bm_State = [] \<rparr>
      ((CIInit True [] [] 0) \<lparr> Bs := Some [(''10.0.0.1'', zero_session), (''10.0.0.2'', zero_session)] \<rparr>) = Some (Ok, c') \<and>
    Bs c' = Some [(''10.0.0.2'', zero_session)] \<and> CIBFDSessionGet c' = Inl ''bfd session not running''"
proof -
  define c where "c = (CIInit True [] [] 0) \<lparr> Bs := Some [(''10.0.0.1'', zero_session), (''10.0.0.2'', zero_session)] \<rparr>"
  define bm where "bm = \<lparr> bm_Instance = CIDefault, bm_RemoteIP = IPv4 10 0 0 1, bm_SourceIP = [], bm_Port = 0,
        bm_Interval = 0, bm_RetryCount = 0, bm_State = [] \<rparr>"
  have ip: "IP_String (IPv4 10 0 0 1) = ''10.0.0.1''" by code_simp
  obtain c' where d: "CIBFDSessionDel bm c = Some (Ok, c')"
    by (simp add: CIBFDSessionDel_def c_def bm_def CIInit_def ciInstExists_def BFDDeleteRemote_def bfd_args_def ip)
  have "Bs c = Some [(''10.0.0.1'', zero_session), (''10.0.0.2'', zero_session)]" by (simp add: c_def)
  from bfd_del_hides_rest [OF d this] show ?thesis
    using d unfolding c_def bm_def by (simp add: ip)
qed

end
