(* ===== verification/RefTable.thy ===== *)
theory RefTable
  imports Prelude
begin

text \<open>The contract of the reference-counted tables of \<open>rules.go\<close> (virtual addresses,
end-point hosts, allowed sources): an entry is made by its first user, counted up by each further
user and removed with the last one.  The clients of such a table are balanced when they release
only what they hold.\<close>

datatype 'k ref_op = Acquire 'k | Release 'k

fun holders :: "'k ref_op list \<Rightarrow> ('k \<Rightarrow> nat) \<Rightarrow> 'k \<Rightarrow> nat" where
  "holders [] h = h"
| "holders (Acquire k # os) h = holders os (h (k := Suc (h k)))"
| "holders (Release k # os) h = holders os (h (k := h k - 1))"

fun balanced :: "'k ref_op list \<Rightarrow> ('k \<Rightarrow> nat) \<Rightarrow> bool" where
  "balanced [] h = True"
| "balanced (Acquire k # os) h = balanced os (h (k := Suc (h k)))"
| "balanced (Release k # os) h = (h k > 0 \<and> balanced os (h (k := h k - 1)))"

fun ref_run :: "('k \<Rightarrow> 's \<Rightarrow> 's) \<Rightarrow> ('k \<Rightarrow> 's \<Rightarrow> 's) \<Rightarrow> 'k ref_op list \<Rightarrow> 's \<Rightarrow> 's" where
  "ref_run acq rel [] s = s"
| "ref_run acq rel (Acquire k # os) s = ref_run acq rel os (acq k s)"
| "ref_run acq rel (Release k # os) s = ref_run acq rel os (rel k s)"

definition op_key :: "'k ref_op \<Rightarrow> 'k" where
  "op_key x = (case x of Acquire k \<Rightarrow> k | Release k \<Rightarrow> k)"

locale ref_table =
  fixes acquire :: "'k \<Rightarrow> 's \<Rightarrow> 's"
    and release :: "'k \<Rightarrow> 's \<Rightarrow> 's"
    and refs :: "'s \<Rightarrow> 'k \<Rightarrow> int"
    and present :: "'s \<Rightarrow> 'k \<Rightarrow> bool"
    and good :: "'s \<Rightarrow> bool"
    and valid :: "'k \<Rightarrow> bool"
  assumes refs_acquire: "good s \<Longrightarrow> valid k \<Longrightarrow> valid k' \<Longrightarrow> refs (acquire k s) k' = refs s k' + (if k' = k then 1 else 0)"
    and refs_release: "good s \<Longrightarrow> valid k \<Longrightarrow> valid k' \<Longrightarrow> refs s k > 0 \<Longrightarrow> refs (release k s) k' = refs s k' - (if k' = k then 1 else 0)"
    and good_acquire: "good s \<Longrightarrow> valid k \<Longrightarrow> good (acquire k s)"
    and good_release: "good s \<Longrightarrow> valid k \<Longrightarrow> refs s k > 0 \<Longrightarrow> good (release k s)"
    and present_iff: "good s \<Longrightarrow> valid k \<Longrightarrow> present s k \<longleftrightarrow> refs s k > 0"
    and refs_nonneg: "good s \<Longrightarrow> valid k \<Longrightarrow> 0 \<le> refs s k"
begin

lemma ref_run_refs:
  assumes "good s" "\<forall>x \<in> set os. valid (op_key x)" "balanced os h" "\<And>k. valid k \<Longrightarrow> refs s k = int (h k)"
  shows "good (ref_run acquire release os s) \<and> (\<forall>k. valid k \<longrightarrow> refs (ref_run acquire release os s) k = int (holders os h k))"
  using assms
proof (induction os arbitrary: s h)
  case (Cons x os)
  show ?case
  proof (cases x)
    case (Acquire k)
    then have v: "valid k" using Cons.prems(2) by (simp add: op_key_def)
    have "\<And>k'. valid k' \<Longrightarrow> refs (acquire k s) k' = int ((h (k := Suc (h k))) k')"
      using refs_acquire [OF Cons.prems(1) v] Cons.prems(4) by simp
    then show ?thesis
      using Cons.IH [of "acquire k s" "h (k := Suc (h k))"] good_acquire [OF Cons.prems(1) v] Cons.prems Acquire
      by (simp del: fun_upd_apply)
  next
    case (Release k)
    then have v: "valid k" and p: "0 < h k" using Cons.prems(2,3) by (simp_all add: op_key_def)
    then have r: "0 < refs s k" using Cons.prems(4) by simp
    have "\<And>k'. valid k' \<Longrightarrow> refs (release k s) k' = int ((h (k := h k - 1)) k')"
      using refs_release [OF Cons.prems(1) v _ r] Cons.prems(4) p by (simp add: of_nat_diff)
    then show ?thesis
      using Cons.IH [of "release k s" "h (k := h k - 1)"] good_release [OF Cons.prems(1) v r] Cons.prems Release
      by (simp del: fun_upd_apply)
  qed
qed simp

text \<open>An entry exists exactly as long as somebody holds it.\<close>

lemma ref_run_present:
  assumes "good s" "\<forall>x \<in> set os. valid (op_key x)" "balanced os h" "\<And>k. valid k \<Longrightarrow> refs s k = int (h k)" "valid k"
  shows "present (ref_run acquire release os s) k \<longleftrightarrow> holders os h k > 0"
  using ref_run_refs [OF assms(1-4)] present_iff assms(5) by auto

end

end
