(* ===== verification/EpHosts.thy ===== *)
theory EpHosts
  imports Cluster RefTable LbEndpoints
begin

text \<open>End-point hosts and their health checks (\<open>rules.go\<close>): the table of hosts with
its reference counts, the probe state machine, one check of a host, the selection of hosts due for a
check, and how a rule takes over the state of its hosts.  The probes, the interface lookup and the
certificate files are the parameter \<open>probe_env\<close>.\<close>

subsection \<open>Data\<close>

definition HostProbePing :: string where [go_consts]: "HostProbePing = ''ping''"
definition HostProbeConnectTCP :: string where [go_consts]: "HostProbeConnectTCP = ''tcp''"
definition HostProbeConnectUDP :: string where [go_consts]: "HostProbeConnectUDP = ''udp''"
definition HostProbeConnectSCTP :: string where [go_consts]: "HostProbeConnectSCTP = ''sctp''"
definition HostProbeHTTP :: string where [go_consts]: "HostProbeHTTP = ''http''"
definition HostProbeHTTPS :: string where [go_consts]: "HostProbeHTTPS = ''https''"
definition HostProbeNone :: string where [go_consts]: "HostProbeNone = ''none''"

definition HostStateGreen :: string where [go_consts]: "HostStateGreen = ''green''"
definition HostStateYellow :: string where [go_consts]: "HostStateYellow = ''yellow''"
definition HostStateRed :: string where [go_consts]: "HostStateRed = ''red''"

abbreviation MaxDflLbaInactiveTries :: int where "MaxDflLbaInactiveTries \<equiv> 100"
abbreviation MaxHostProbeTime :: u32 where "MaxHostProbeTime \<equiv> 86400"
abbreviation DflHostProbeTimeout :: u32 where "DflHostProbeTimeout \<equiv> 60"
abbreviation InitHostProbeTimeout :: int where "InitHostProbeTimeout \<equiv> 15"
abbreviation MaxEndPointCheckers :: u8 where "MaxEndPointCheckers \<equiv> 4"
abbreviation MaxEndPointSweeps :: nat where "MaxEndPointSweeps \<equiv> 20"
abbreviation EndPointCheckerDuration :: int where "EndPointCheckerDuration \<equiv> 2"

abbreviation RuleEpCountErr :: int where "RuleEpCountErr \<equiv> -6994"
abbreviation RuleArgsErr :: int where "RuleArgsErr \<equiv> -6992"
abbreviation RuleEpNotExistErr :: int where "RuleEpNotExistErr \<equiv> -6991"
abbreviation RuleEpHostUnkErr :: int where "RuleEpHostUnkErr \<equiv> -6990"

record epHostOpts =
  inActTryThr :: int
  probeType :: string
  probeReq :: string
  probeResp :: string
  probeDuration :: u32
  currProbeDuration :: u32
  probePort :: u16
  probeActivated :: bool
  egress :: bool

text \<open>\<open>sT\<close> is \<open>None\<close> before the first check.\<close>

record epHost =
  epKey :: string
  hostName :: string
  hostState :: string
  ruleCount :: int
  inactive :: bool
  initProberOn :: bool
  ep_sT :: "int option"
  avgDelay :: int
  minDelay :: int
  maxDelay :: int
  hID :: u8
  ep_inActTries :: int
  ep_opts :: epHostOpts

record epTable =
  epMap :: "(string, epHost) gomap"
  lepHID :: u8
  rootCAPool :: "string list"

text \<open>Files are absent (\<open>None\<close>), unreadable (\<open>Some None\<close>) or readable.\<close>

record probe_env =
  ca_file :: "string \<Rightarrow> string option option"
  IsIPHost :: "string \<Rightarrow> bool"
  addVxPeer :: "string \<Rightarrow> int"
  pe_IsNetIPv6 :: "string \<Rightarrow> bool"
  srcHint :: "string \<Rightarrow> string"
  L4ServiceProber :: "string \<Rightarrow> string \<Rightarrow> string \<Rightarrow> string \<Rightarrow> string \<Rightarrow> bool"
  ping :: "string \<Rightarrow> int \<Rightarrow> (nat \<times> int \<times> int \<times> int) option"
  HTTPProber :: "string \<Rightarrow> bool"
  HTTPSProber :: "string \<Rightarrow> string list \<Rightarrow> string \<Rightarrow> bool"

subsection \<open>The table\<close>

definition validateEPHostOpts :: "string \<Rightarrow> epHostOpts \<Rightarrow> go_ret" where
  "validateEPHostOpts host args =
    (if ParseIP host = [] then Err RuleArgsErr ''host-parse error''
     else if inActTryThr args > MaxDflLbaInactiveTries \<or> probeDuration args > MaxHostProbeTime
       then Err RuleArgsErr ''host-args error''
     else if probeType args \<noteq> HostProbePing \<and> probeType args \<noteq> HostProbeConnectTCP \<and>
         probeType args \<noteq> HostProbeConnectUDP \<and> probeType args \<noteq> HostProbeConnectSCTP \<and>
         probeType args \<noteq> HostProbeHTTP \<and> probeType args \<noteq> HostProbeHTTPS \<and> probeType args \<noteq> HostProbeNone
       then Err RuleArgsErr ''host-args unknown probe type''
     else if (probeType args = HostProbeConnectTCP \<or> probeType args = HostProbeConnectUDP \<or>
         probeType args = HostProbeConnectSCTP) \<and> probePort args = 0
       then Err RuleArgsErr ''host-args unknown probe port''
     else Ok)"

definition makeEPKey :: "string \<Rightarrow> string \<Rightarrow> u16 \<Rightarrow> string" where
  "makeEPKey host ptype port = host @ ''_'' @ ptype @ ''_'' @ dec (unat port)"

text \<open>Loading a host's own certificate authority for an https probe; \<open>None\<close> is a file
that cannot be read.\<close>

definition load_ca :: "probe_env \<Rightarrow> string \<Rightarrow> epHostOpts \<Rightarrow> epTable \<Rightarrow> epTable option" where
  "load_ca env host args E =
    (if probeType args \<noteq> HostProbeHTTPS then Some E
     else (case ca_file env host of
         None \<Rightarrow> Some E
       | Some None \<Rightarrow> None
       | Some (Some pem) \<Rightarrow> Some (E \<lparr> rootCAPool := rootCAPool E @ [pem] \<rparr>)))"

definition new_epHost :: "bool \<Rightarrow> string \<Rightarrow> string \<Rightarrow> epHostOpts \<Rightarrow> u8 \<Rightarrow> epHost" where
  "new_epHost apiCall host key args hid =
    \<lparr> epKey = key, hostName = host, hostState = [], ruleCount = (if apiCall then 0 else 1), inactive = False,
      initProberOn = True, ep_sT = None, avgDelay = 0, minDelay = 0, maxDelay = 0, hID = hid mod MaxEndPointCheckers,
      ep_inActTries = 0, ep_opts = args \<lparr> currProbeDuration := probeDuration args \<rparr> \<rparr>"

definition AddEPHost ::
  "probe_env \<Rightarrow> bool \<Rightarrow> string \<Rightarrow> string \<Rightarrow> epHostOpts \<Rightarrow> epTable \<times> CIStateH \<Rightarrow> go_ret \<times> epTable \<times> CIStateH" where
  "AddEPHost env apiCall host name args0 st =
    (let (E0, c) = st;
         args = (if apiCall \<and> probeType args0 \<noteq> HostProbeNone then args0 \<lparr> probeActivated := True \<rparr> else args0) in
     case validateEPHostOpts host args of
       Err _ e \<Rightarrow> (Err RuleArgsErr e, E0, c)
     | Ok \<Rightarrow> (case load_ca env host args E0 of
         None \<Rightarrow> (Err RuleArgsErr ''rootca cert load failed'', E0, c)
       | Some E \<Rightarrow>
          (let key = (if name = [] then makeEPKey host (probeType args) (probePort args) else name) in
           case gm_get (epMap E) key of
             Some ep \<Rightarrow>
               (if apiCall then
                  (let o1 = (if egress (ep_opts ep) then args \<lparr> egress := True \<rparr> else args);
                       ep' = ep \<lparr> ep_opts := o1 \<lparr> currProbeDuration := probeDuration o1 \<rparr>, initProberOn := True \<rparr>
                   in (Ok, E \<lparr> epMap := gm_put key ep' (epMap E) \<rparr>, c))
                else (Ok, E \<lparr> epMap := gm_put key (ep \<lparr> ruleCount := ruleCount ep + 1 \<rparr>) (epMap E) \<rparr>, c))
           | None \<Rightarrow>
               (let ep = new_epHost apiCall host key args (lepHID E); E1 = E \<lparr> lepHID := lepHID E + 1 \<rparr> in
                if egress args then
                  (case ClusterNodeAdd (IsIPHost env) (addVxPeer env) (ParseIP host) True c of
                     (Err _ _, _, c') \<Rightarrow> (Err (-1) ''ep-host add failed as cluster node'', E1, c')
                   | (Ok, _, c') \<Rightarrow> (Ok, E1 \<lparr> epMap := gm_put key ep (epMap E1) \<rparr>, c'))
                else (Ok, E1 \<lparr> epMap := gm_put key ep (epMap E1) \<rparr>, c)))))"

definition DeleteEPHost :: "bool \<Rightarrow> string \<Rightarrow> string \<Rightarrow> string \<Rightarrow> u16 \<Rightarrow> epTable \<Rightarrow> go_ret \<times> epTable" where
  "DeleteEPHost apiCall name host ptype port E =
    (let key = (if name = [] then makeEPKey host ptype port else name) in
     case gm_get (epMap E) key of
       None \<Rightarrow> (Err RuleEpNotExistErr ''host-notfound error'', E)
     | Some ep \<Rightarrow>
        (let ep' = (if apiCall then ep else ep \<lparr> ruleCount := ruleCount ep - 1 \<rparr>);
             E' = E \<lparr> epMap := gm_put key ep' (epMap E) \<rparr> in
         if ruleCount ep' > 0 then (Err RuleEpCountErr ''LB Rule-referred'', E')
         else (Ok, E' \<lparr> epMap := gm_del (epKey ep') (epMap E') \<rparr>)))"

definition SetEPHostState :: "string \<Rightarrow> u16 \<Rightarrow> string \<Rightarrow> string \<Rightarrow> epTable \<Rightarrow> go_ret \<times> epTable" where
  "SetEPHostState host port proto state E =
    (if state \<noteq> HostStateGreen \<and> state \<noteq> HostStateYellow \<and> state \<noteq> HostStateRed
       then (Err RuleEpHostUnkErr ''unknown ep-host-state'', E)
     else if (port \<noteq> 0 \<and> proto = []) \<or> (port = 0 \<and> proto \<noteq> [])
       then (Err RuleEpHostUnkErr ''ep-host-state args error'', E)
     else if proto \<noteq> [] then
       (case gm_get (epMap E) (makeEPKey host proto port) of
          None \<Rightarrow> (Err RuleEpNotExistErr ''ephost-notfound error'', E)
        | Some ep \<Rightarrow> (Ok, E \<lparr> epMap := gm_put (makeEPKey host proto port) (ep \<lparr> hostState := state \<rparr>) (epMap E) \<rparr>))
     else (Ok, E \<lparr> epMap := map (\<lambda>(k, ep). (k, if hostName ep = host then ep \<lparr> hostState := state \<rparr> else ep)) (epMap E) \<rparr>))"

definition IsEPHostActive :: "epTable \<Rightarrow> string \<Rightarrow> bool" where
  "IsEPHostActive E key = (case gm_get (epMap E) key of
      None \<Rightarrow> True
    | Some ep \<Rightarrow> hostState ep \<noteq> HostStateRed \<and> \<not> inactive ep)"

record EndPointMod =
  em_HostName :: string
  em_Name :: string
  em_InActTries :: int
  em_ProbeType :: string
  em_ProbeReq :: string
  em_ProbeResp :: string
  em_ProbeDuration :: u32
  em_ProbePort :: u16
  em_Delays :: "(int \<times> int \<times> int) option"
  em_CurrState :: string

definition GetEpHost1 :: "epHost \<Rightarrow> EndPointMod" where
  "GetEpHost1 d =
    (let act = probeActivated (ep_opts d); pt = (if act then probeType (ep_opts d) else HostProbeNone) in
     \<lparr> em_HostName = hostName d, em_Name = epKey d, em_InActTries = (if act then inActTryThr (ep_opts d) else 0),
       em_ProbeType = pt, em_ProbeReq = probeReq (ep_opts d), em_ProbeResp = probeResp (ep_opts d),
       em_ProbeDuration = (if act then probeDuration (ep_opts d) else 0), em_ProbePort = probePort (ep_opts d),
       em_Delays = (if pt = HostProbePing then Some (minDelay d, avgDelay d, maxDelay d) else None),
       em_CurrState = (if hostState d = HostStateRed then ''red'' else if inactive d then ''nok'' else ''ok'') \<rparr>)"

definition GetEpHosts :: "epTable \<Rightarrow> EndPointMod list" where
  "GetEpHosts E = map (\<lambda>(k, d). GetEpHost1 d) (epMap E)"

subsection \<open>Probing\<close>

definition transitionEPState :: "bool \<Rightarrow> int \<Rightarrow> epHost \<Rightarrow> epHost" where
  "transitionEPState currState thr ep =
    (if currState then
       (let ep1 = ep \<lparr> ep_inActTries := 0 \<rparr> in
        if inactive ep1 then ep1 \<lparr> inactive := False,
          ep_opts := (ep_opts ep1) \<lparr> currProbeDuration := probeDuration (ep_opts ep1) \<rparr> \<rparr> else ep1)
     else if ep_inActTries ep < thr then
       (let ep1 = ep \<lparr> ep_inActTries := ep_inActTries ep + 1 \<rparr> in
        if ep_inActTries ep1 \<ge> thr then ep1 \<lparr> inactive := True \<rparr> else ep1)
     else
       (let ep1 = ep \<lparr> ep_inActTries := ep_inActTries ep + 1 \<rparr> in
        if currProbeDuration (ep_opts ep1) < 3 * DflHostProbeTimeout
        then ep1 \<lparr> ep_opts := (ep_opts ep1) \<lparr> currProbeDuration := currProbeDuration (ep_opts ep1) + 20 \<rparr> \<rparr>
        else ep1))"

definition epCheckNow :: "probe_env \<Rightarrow> string list \<Rightarrow> epHost \<Rightarrow> epHost" where
  "epCheckNow env pool ep0 =
    (let thr = (if initProberOn ep0 then 1 else inActTryThr (ep_opts ep0));
         ep = ep0 \<lparr> initProberOn := False \<rparr>; opt = ep_opts ep; pt = probeType opt;
         port = dec (unat (probePort opt));
         sName = (if pe_IsNetIPv6 env (hostName ep) then ''['' @ hostName ep @ '']:'' @ port else hostName ep @ '':'' @ port);
         addr = ParseIP (hostName ep) in
     if \<not> probeActivated opt then ep \<lparr> inactive := False, ep_inActTries := 0 \<rparr>
     else if pt = HostProbeConnectTCP \<or> pt = HostProbeConnectUDP \<or> pt = HostProbeConnectSCTP then
       transitionEPState (L4ServiceProber env pt sName (srcHint env (hostName ep)) (probeReq opt) (probeResp opt)) thr ep
     else if pt = HostProbePing then
       (case ping env (hostName ep) (inActTryThr opt) of
          None \<Rightarrow> ep
        | Some (recv, a, mi, ma) \<Rightarrow>
           if recv \<noteq> 0 then transitionEPState True 1 (ep \<lparr> avgDelay := a, minDelay := mi, maxDelay := ma \<rparr>)
           else transitionEPState False 1 (ep \<lparr> avgDelay := 0, minDelay := 0, maxDelay := 0 \<rparr>))
     else if pt = HostProbeHTTP then
       (if addr = [] then ep
        else transitionEPState (HTTPProber env (''http://'' @ IP_String addr @ '':'' @ port @ ''/'' @ probeReq opt)) thr ep)
     else if pt = HostProbeHTTPS then
       (if addr = [] then ep
        else transitionEPState (HTTPSProber env (''https://'' @ IP_String addr @ '':'' @ port @ ''/'' @ probeReq opt)
               pool (probeResp opt)) thr ep)
     else ep \<lparr> inactive := False, ep_inActTries := 0 \<rparr>)"

subsection \<open>The checker goroutines\<close>

text \<open>Whether at least \<open>n\<close> whole seconds have passed; a host that was never checked
has the zero time, which is always long ago.\<close>

definition since_ge :: "int \<Rightarrow> int option \<Rightarrow> int \<Rightarrow> bool" where
  "since_ge t sT n = (case sT of None \<Rightarrow> True | Some s \<Rightarrow> (t - s) div 1000000000 \<ge> n)"

definition ep_due :: "u32 \<Rightarrow> int \<Rightarrow> epHost \<Rightarrow> bool" where
  "ep_due run t h =
    (let initDue = initProberOn h \<and> since_ge t (ep_sT h) InitHostProbeTimeout in
     if run mod 2 = 0 then (probeType (ep_opts h) = HostProbePing \<and> avgDelay h = 0) \<or> inactive h \<or> initDue
     else initDue \<or> since_ge t (ep_sT h) (uint (currProbeDuration (ep_opts h))))"

fun ep_sweep :: "u8 \<Rightarrow> u32 \<Rightarrow> int \<Rightarrow> nat \<Rightarrow> (string, epHost) gomap \<Rightarrow> string list \<Rightarrow> nat \<times> string list" where
  "ep_sweep helper run t tidx [] acc = (0, acc)"
| "ep_sweep helper run t tidx ((k, h) # r) acc =
    (if hID h = helper then
       (let acc' = (if ep_due run t h then acc @ [k] else acc) in
        if length acc' \<ge> MaxEndPointSweeps then (Suc tidx, acc') else ep_sweep helper run t (Suc tidx) r acc')
     else ep_sweep helper run t (Suc tidx) r acc)"

record ticker =
  tk_idx :: nat
  tk_len :: nat
  tk_run :: u32

definition ep_tick :: "u8 \<Rightarrow> int \<Rightarrow> epTable \<Rightarrow> ticker \<Rightarrow> ticker \<times> string list" where
  "ep_tick helper t E T =
    (let n = length (epMap E);
         T1 = (if tk_len T \<noteq> n \<or> tk_idx T \<ge> n then T \<lparr> tk_idx := 0, tk_len := n \<rparr> else T) in
     if tk_idx T1 > 0 then (T1 \<lparr> tk_idx := 0 \<rparr>, [])
     else (let (i, keys) = ep_sweep helper (tk_run T1) t 0 (epMap E) []
           in (T1 \<lparr> tk_idx := i, tk_run := tk_run T1 + 1 \<rparr>, keys)))"

text \<open>The checks of one tick; \<open>clock n\<close> is the time after the n-th check.\<close>

fun check_hosts :: "probe_env \<Rightarrow> (nat \<Rightarrow> int) \<Rightarrow> int \<Rightarrow> nat \<Rightarrow> string list \<Rightarrow> epTable \<Rightarrow> epTable" where
  "check_hosts env clock beg n [] E = E"
| "check_hosts env clock beg n (k # ks) E = (case gm_get (epMap E) k of
      None \<Rightarrow> check_hosts env clock beg (Suc n) ks E
    | Some ep \<Rightarrow>
        (let ep' = (epCheckNow env (rootCAPool E) ep) \<lparr> ep_sT := Some (clock n) \<rparr>;
             E' = E \<lparr> epMap := gm_put k ep' (epMap E) \<rparr> in
         if (clock n - beg) div 1000000000 \<ge> EndPointCheckerDuration then E'
         else check_hosts env clock beg (Suc n) ks E'))"

subsection \<open>End-points of a rule\<close>

record ruleProbe =
  actChk :: bool
  prbType :: string
  prbPort :: u16
  prbReq :: string
  prbResp :: string
  prbTimeo :: u32
  prbRetries :: int

abbreviation DflLbaInactiveTries :: int where "DflLbaInactiveTries \<equiv> 2"

definition ep_probe :: "u8 \<Rightarrow> u16 \<Rightarrow> string \<times> u16" where
  "ep_probe prot port =
    (if prot = 6 then (HostProbeConnectTCP, port)
     else if prot = 17 then (HostProbeConnectUDP, port)
     else if prot = 132 then (HostProbeConnectSCTP, port)
     else (HostProbePing, 0))"

definition nep_key :: "u8 \<Rightarrow> ruleLBEp \<Rightarrow> string" where
  "nep_key prot nep = (let (pt, pp) = ep_probe prot (xPort nep) in makeEPKey (IP_String (xIP nep)) pt pp)"

definition nep_opts :: "bool \<Rightarrow> ruleProbe \<Rightarrow> u8 \<Rightarrow> bool \<Rightarrow> bool \<Rightarrow> ruleLBEp \<Rightarrow> epHostOpts" where
  "nep_opts pProbe h prot liveCheckEn egressEps nep =
    (let (pt, pp) = ep_probe prot (xPort nep); ovr = (prbType h \<noteq> []) in
     \<lparr> inActTryThr = (if prbRetries h = 0 then DflLbaInactiveTries else prbRetries h),
       probeType = (if ovr then prbType h else pt), probeReq = (if ovr then prbReq h else []),
       probeResp = (if ovr then prbResp h else []),
       probeDuration = (if prbTimeo h = 0 then DflHostProbeTimeout else prbTimeo h),
       currProbeDuration = 0, probePort = (if ovr then prbPort h else pp),
       probeActivated = (pProbe \<or> liveCheckEn), egress = egressEps \<rparr>)"

text \<open>One end-point of \<open>modNatEpHost\<close>; the loop threads the table and the cluster.\<close>

definition mod_ep ::
  "probe_env \<Rightarrow> bool \<Rightarrow> ruleProbe \<Rightarrow> u8 \<Rightarrow> bool \<Rightarrow> bool \<Rightarrow> bool \<Rightarrow> ruleLBEp \<Rightarrow> epTable \<times> CIStateH
    \<Rightarrow> ruleLBEp \<times> epTable \<times> CIStateH" where
  "mod_ep env pProbe h prot doAddOp liveCheckEn egressEps nep st =
    (let key = nep_key prot nep; opts = nep_opts pProbe h prot liveCheckEn egressEps nep; ip = IP_String (xIP nep) in
     if doAddOp then
       (if \<not> inActiveEP nep \<and> \<not> epCreated nep then
          (case AddEPHost env False ip key opts st of
             (Ok, st') \<Rightarrow> (nep \<lparr> epCreated := True \<rparr>, st')
           | (Err _ _, st') \<Rightarrow> (nep, st'))
        else if inActiveEP nep then (nep \<lparr> epCreated := False \<rparr>, st)
        else (nep, st))
     else if epCreated nep then
       (case DeleteEPHost False key ip (probeType opts) (probePort opts) (fst st) of
          (Ok, E) \<Rightarrow> (nep \<lparr> epCreated := False \<rparr>, E, snd st)
        | (Err _ _, E) \<Rightarrow> (nep, E, snd st))
     else (nep, st))"

fun modNatEpHost ::
  "probe_env \<Rightarrow> bool \<Rightarrow> ruleProbe \<Rightarrow> u8 \<Rightarrow> bool \<Rightarrow> bool \<Rightarrow> bool \<Rightarrow> ruleLBEp list \<Rightarrow> epTable \<times> CIStateH
    \<Rightarrow> ruleLBEp list \<times> epTable \<times> CIStateH" where
  "modNatEpHost env pProbe h prot doAddOp liveCheckEn egressEps [] st = ([], st)"
| "modNatEpHost env pProbe h prot doAddOp liveCheckEn egressEps (nep # neps) st =
    (let (nep', st') = mod_ep env pProbe h prot doAddOp liveCheckEn egressEps nep st;
         (neps', st'') = modNatEpHost env pProbe h prot doAddOp liveCheckEn egressEps neps st'
     in (nep' # neps', st''))"

fun activateEPHostsProbe :: "u8 \<Rightarrow> ruleLBEp list \<Rightarrow> epTable \<Rightarrow> epTable" where
  "activateEPHostsProbe prot [] E = E"
| "activateEPHostsProbe prot (nep # neps) E = activateEPHostsProbe prot neps
    (case gm_get (epMap E) (nep_key prot nep) of
       Some ep \<Rightarrow> if \<not> probeActivated (ep_opts ep)
         then E \<lparr> epMap := gm_put (nep_key prot nep)
           (ep \<lparr> ep_opts := (ep_opts ep) \<lparr> probeActivated := True \<rparr>, initProberOn := True \<rparr>) (epMap E) \<rparr>
         else E
     | None \<Rightarrow> E)"

definition sync_ep :: "epTable \<Rightarrow> string \<Rightarrow> ruleLBEp \<Rightarrow> bool \<times> ruleLBEp" where
  "sync_ep E sType n =
    (let sOk = IsEPHostActive E (makeEPKey (IP_String (xIP n)) sType (xPort n)) in
     if \<not> sOk then (if \<not> noService n then (True, n \<lparr> noService := True \<rparr>) else (False, n))
     else if noService n then (True, n \<lparr> noService := False, inActTries := 0 \<rparr>)
     else (False, n))"

text \<open>\<open>due\<close> is the condition on the rule's timer; the last component says whether the
timer is restarted.\<close>

definition syncEPHostState2Rule :: "bool \<Rightarrow> epTable \<Rightarrow> u8 \<Rightarrow> ruleLBEp list \<Rightarrow> bool \<times> ruleLBEp list \<times> bool" where
  "syncEPHostState2Rule due E prot eps =
    (if \<not> due then (False, eps, False)
     else if prot \<notin> {6, 17, 1, 132} then (False, eps, False)
     else (let sType = fst (ep_probe prot 0); rs = map (sync_ep E sType) eps
           in (list_ex fst rs, map snd rs, True)))"

subsection \<open>Health of a host\<close>

definition trailing_fails :: "bool list \<Rightarrow> nat" where
  "trailing_fails rs = length (takeWhile Not (rev rs))"

lemma trailing_fails_snoc [simp]:
  "trailing_fails [] = 0" "trailing_fails (rs @ [True]) = 0"
  "trailing_fails (rs @ [False]) = Suc (trailing_fails rs)"
  by (simp_all add: trailing_fails_def)

definition run_probes :: "int \<Rightarrow> bool list \<Rightarrow> epHost \<Rightarrow> epHost" where
  "run_probes thr rs ep = fold (\<lambda>r. transitionEPState r thr) rs ep"

lemma run_probes_snoc [simp]:
  "run_probes thr [] ep = ep" "run_probes thr (rs @ [r]) ep = transitionEPState r thr (run_probes thr rs ep)"
  by (simp_all add: run_probes_def)

lemma unat_add_20: "(c :: u32) < 180 \<Longrightarrow> unat (c + 20) \<le> 199"
proof -
  assume "c < 180"
  then have "unat c < 180" by (simp add: word_less_nat_alt)
  then show ?thesis by (simp add: unat_word_ariths)
qed

lemma transition_duration:
  "unat (currProbeDuration (ep_opts ep)) \<le> b \<Longrightarrow> unat (probeDuration (ep_opts ep)) \<le> b \<Longrightarrow> 199 \<le> b \<Longrightarrow>
    unat (currProbeDuration (ep_opts (transitionEPState r thr ep))) \<le> b \<and>
    probeDuration (ep_opts (transitionEPState r thr ep)) = probeDuration (ep_opts ep)"
  using unat_add_20 [of "currProbeDuration (ep_opts ep)"]
  by (auto simp: transitionEPState_def Let_def go_consts)


definition sample_opts :: epHostOpts where
  "sample_opts = \<lparr> inActTryThr = 2, probeType = HostProbePing, probeReq = [], probeResp = [], probeDuration = 60,
     currProbeDuration = 60, probePort = 0, probeActivated = True, egress = False \<rparr>"


subsection \<open>References\<close>

text \<open>A rule's use of a host, for keys whose arguments the table accepts.\<close>

definition ep_acquire ::
  "probe_env \<Rightarrow> (string \<Rightarrow> string) \<Rightarrow> (string \<Rightarrow> epHostOpts) \<Rightarrow> string \<Rightarrow> epTable \<times> CIStateH \<Rightarrow> epTable \<times> CIStateH" where
  "ep_acquire env host opts k st = snd (AddEPHost env False (host k) k (opts k) st)"

definition ep_release ::
  "(string \<Rightarrow> string) \<Rightarrow> (string \<Rightarrow> epHostOpts) \<Rightarrow> string \<Rightarrow> epTable \<times> CIStateH \<Rightarrow> epTable \<times> CIStateH" where
  "ep_release host opts k st =
    (snd (DeleteEPHost False k (host k) (probeType (opts k)) (probePort (opts k)) (fst st)), snd st)"

definition ep_refs :: "epTable \<times> CIStateH \<Rightarrow> string \<Rightarrow> int" where
  "ep_refs st k = (case gm_get (epMap (fst st)) k of None \<Rightarrow> 0 | Some ep \<Rightarrow> ruleCount ep)"

definition ep_present :: "epTable \<times> CIStateH \<Rightarrow> string \<Rightarrow> bool" where
  "ep_present st k \<longleftrightarrow> gm_get (epMap (fst st)) k \<noteq> None"

definition ep_good :: "epTable \<times> CIStateH \<Rightarrow> bool" where
  "ep_good st \<longleftrightarrow> (\<forall>k ep. gm_get (epMap (fst st)) k = Some ep \<longrightarrow> epKey ep = k \<and> 0 < ruleCount ep)"

definition ep_valid :: "(string \<Rightarrow> string) \<Rightarrow> (string \<Rightarrow> epHostOpts) \<Rightarrow> string \<Rightarrow> bool" where
  "ep_valid host opts k \<longleftrightarrow> k \<noteq> [] \<and> validateEPHostOpts (host k) (opts k) = Ok \<and> \<not> egress (opts k) \<and>
     probeType (opts k) \<noteq> HostProbeHTTPS"

lemma ep_acquire_map:
  assumes "ep_valid host opts k"
  shows "epMap (fst (ep_acquire env host opts k st)) = (case gm_get (epMap (fst st)) k of
      Some ep \<Rightarrow> gm_put k (ep \<lparr> ruleCount := ruleCount ep + 1 \<rparr>) (epMap (fst st))
    | None \<Rightarrow> gm_put k (new_epHost False (host k) k (opts k) (lepHID (fst st))) (epMap (fst st)))"
  using assms
  by (cases st) (simp add: ep_acquire_def ep_valid_def AddEPHost_def load_ca_def Let_def split: option.splits)

lemma ep_release_map:
  assumes "k \<noteq> []" "ep_good st" "gm_get (epMap (fst st)) k = Some ep"
  shows "gm_get (epMap (fst (ep_release host opts k st))) k' =
    (if k' = k then if ruleCount ep > 1 then Some (ep \<lparr> ruleCount := ruleCount ep - 1 \<rparr>) else None
     else gm_get (epMap (fst st)) k')"
  using assms by (auto simp: ep_release_def DeleteEPHost_def ep_good_def Let_def)

interpretation eph: ref_table "ep_acquire env host opts" "ep_release host opts" ep_refs ep_present ep_good
  "ep_valid host opts" for env host opts
proof unfold_locales
  fix st k k'
  assume g: "ep_good st" and v: "ep_valid host opts k"
  show "ep_refs (ep_acquire env host opts k st) k' = ep_refs st k' + (if k' = k then 1 else 0)"
    by (simp add: ep_refs_def ep_acquire_map [OF v] new_epHost_def split: option.splits)
  show "ep_good (ep_acquire env host opts k st)"
    using g by (auto simp: ep_good_def ep_acquire_map [OF v] new_epHost_def split: option.splits if_splits)
      fastforce+
  have k: "k \<noteq> []" using v by (simp add: ep_valid_def)
  show "ep_refs (ep_release host opts k st) k' = ep_refs st k' - (if k' = k then 1 else 0)" if "0 < ep_refs st k"
    using that g ep_release_map [OF k g] by (fastforce simp: ep_refs_def ep_good_def split: option.splits if_splits)
  show "ep_good (ep_release host opts k st)" if "0 < ep_refs st k"
    using that g ep_release_map [OF k g] by (fastforce simp: ep_refs_def ep_good_def split: option.splits if_splits)
  show "ep_present st k \<longleftrightarrow> 0 < ep_refs st k" "0 \<le> ep_refs st k"
    using g by (fastforce simp: ep_present_def ep_refs_def ep_good_def split: option.splits)+
qed

definition empty_eps :: epTable where
  "empty_eps = \<lparr> epMap = [], lepHID = 0, rootCAPool = [] \<rparr>"


definition quiet_env :: probe_env where
  "quiet_env = \<lparr> ca_file = \<lambda>_. None, IsIPHost = \<lambda>_. False, addVxPeer = \<lambda>_. 0, pe_IsNetIPv6 = \<lambda>_. False,
     srcHint = \<lambda>_. [], L4ServiceProber = \<lambda>_ _ _ _ _. True, ping = \<lambda>_ _. None, HTTPProber = \<lambda>_. True,
     HTTPSProber = \<lambda>_ _ _. True \<rparr>"


text \<open>A deleted egress host cannot be added again: adding a new egress host registers it as
a cluster node, deleting the host leaves the node behind, and the next addition of the same host is
refused because the node exists.\<close>

theorem ep_egress_readd_fails:
  assumes "AddEPHost env api host name args (E, c) = (Ok, E1, c1)" "egress args" "name \<noteq> []"
    "gm_get (epMap E) name = None" "DeleteEPHost True name host pt port E1 = (Ok, E2)"
  shows "gm_get (epMap E2) name = None \<and>
    fst (AddEPHost env api host name args (E2, c1)) = Err (-1) ''ep-host add failed as cluster node''"
proof -
  define a where "a = (if api \<and> probeType args \<noteq> HostProbeNone then args \<lparr> probeActivated := True \<rparr> else args)"
  have eg: "egress a" using assms(2) by (simp add: a_def)
  have ok: "validateEPHostOpts host a = Ok"
    using assms(1) by (auto simp: AddEPHost_def a_def [symmetric] Let_def split: go_ret.splits)
  obtain E' where ca: "load_ca env host a E = Some E'"
    using assms(1) ok by (auto simp: AddEPHost_def a_def [symmetric] Let_def split: option.splits)
  have m: "epMap E' = epMap E" using ca by (auto simp: load_ca_def split: if_splits option.splits)
  have E1: "gm_get (epMap E1) name = Some (new_epHost api host name a (lepHID E'))"
    and node: "gm_get (NodeMap c1) (IP_String (ParseIP host)) \<noteq> None"
    using assms(1,3,4) ok ca m eg
    by (auto simp: AddEPHost_def a_def [symmetric] Let_def ClusterNodeAdd_def split: option.splits go_ret.splits prod.splits)
  have E2: "gm_get (epMap E2) name = None"
    using assms(3,5) E1 by (auto simp: DeleteEPHost_def Let_def new_epHost_def split: if_splits)
  obtain E'' where ca2: "load_ca env host a E2 = Some E''"
    using ca by (auto simp: load_ca_def split: if_splits option.splits)
  have "epMap E'' = epMap E2" using ca2 by (auto simp: load_ca_def split: if_splits option.splits)
  then show ?thesis
    using E2 ok ca2 eg node assms(3)
    by (auto simp: AddEPHost_def a_def [symmetric] Let_def ClusterNodeAdd_def split: option.splits)
qed

theorem ep_egress_readd_fails_witness:
  "\<exists>E1 c1 E2. AddEPHost quiet_env True ''10.0.0.1'' ''k'' (sample_opts \<lparr> egress := True \<rparr>) (empty_eps, CIInit False [] [] 0) = (Ok, E1, c1) \<and>
    DeleteEPHost True ''k'' ''10.0.0.1'' [] 0 E1 = (Ok, E2) \<and>
    fst (AddEPHost quiet_env True ''10.0.0.1'' ''k'' (sample_opts \<lparr> egress := True \<rparr>) (E2, c1)) =
      Err (-1) ''ep-host add failed as cluster node''"
proof -
  have ip: "ParseIP ''10.0.0.1'' \<noteq> []" by code_simp
  obtain ops cn where nd: "node_DP (IsIPHost quiet_env) (addVxPeer quiet_env) DpCreate
      \<lparr> cn_Addr = ParseIP ''10.0.0.1'', cn_Egress = True, cn_Status = DpStatusOk \<rparr> = (ops, cn)" by fastforce
  obtain E1 c1 where a: "AddEPHost quiet_env True ''10.0.0.1'' ''k'' (sample_opts \<lparr> egress := True \<rparr>)
      (empty_eps, CIInit False [] [] 0) = (Ok, E1, c1)" "epMap E1 = [(''k'', new_epHost True ''10.0.0.1'' ''k'' (sample_opts \<lparr> egress := True \<rparr>) 0)]"
    using ip nd by (auto simp: AddEPHost_def validateEPHostOpts_def load_ca_def sample_opts_def empty_eps_def CIInit_def
        ClusterNodeAdd_def go_consts Let_def split: prod.splits)
  obtain E2 where d: "DeleteEPHost True ''k'' ''10.0.0.1'' [] 0 E1 = (Ok, E2)"
    by (simp add: DeleteEPHost_def a(2) new_epHost_def)
  have "egress (sample_opts \<lparr> egress := True \<rparr>)" "''k'' \<noteq> ([] :: string)" "gm_get (epMap empty_eps) ''k'' = None"
    by (simp_all add: empty_eps_def)
  from ep_egress_readd_fails [OF a(1) this d] a d show ?thesis by blast
qed

end
