(* ===== verification/Layer3.thy ===== *)
theory Layer3
  imports DpBroker NetUtils
begin

text \<open>Interface addresses (\<open>layer3.go\<close>): addition and deletion of addresses with
their self-routes, selection of a source address, and what is sent to the data path.  The ports, the
routes and the address family tests of the library are the parameter \<open>l3_env\<close>; the route
table is a state of its own type.\<close>

subsection \<open>State\<close>

abbreviation L3AddrErr :: int where "L3AddrErr \<equiv> -7999"
abbreviation L3ObjErr :: int where "L3ObjErr \<equiv> -7998"

record IfaEnt =
  IfaAddr :: IP
  IfaNet :: IPNet
  Secondary :: bool

record Ifa =
  ifa_Obj :: string
  ifa_Sync :: DpStatusT
  Ifas :: "IfaEnt list"

type_synonym L3H = "(string, Ifa) gomap"

text \<open>What the code reads of a port; \<open>pv_Real\<close> is the MAC address and number of the
port under a VxLAN bridge.\<close>

record port_view =
  pv_OsID :: int
  pv_Mac :: "u8 list"
  pv_PortNo :: int
  pv_VxlanBr :: bool
  pv_Real :: "(u8 list \<times> int) option"
  pv_TunID :: u32
  pv_Vid :: int

text \<open>\<open>rt_add\<close> and \<open>rt_del\<close> return whether they succeeded; the routes read the
address table they are given;
\<open>trieFind\<close> is the longest match of the route trie for an address: its prefix length and
the name of the port it leads to, empty if there is none.\<close>

record 'r l3_env =
  findPort :: "string \<Rightarrow> port_view option"
  l2match :: "string \<Rightarrow> string \<Rightarrow> bool"
  l3_host :: host_env
  rt_add :: "L3H \<Rightarrow> IPNet \<Rightarrow> int \<Rightarrow> 'r \<Rightarrow> bool \<times> 'r"
  rt_del :: "L3H \<Rightarrow> IPNet \<Rightarrow> 'r \<Rightarrow> bool \<times> 'r"
  trieFind :: "IP \<Rightarrow> 'r \<Rightarrow> (nat \<times> string) option"

abbreviation isV4 :: "'r l3_env \<Rightarrow> string \<Rightarrow> bool" where "isV4 env \<equiv> IsNetIPv4 (l3_host env)"
abbreviation isV6 :: "'r l3_env \<Rightarrow> string \<Rightarrow> bool" where "isV6 env \<equiv> IsNetIPv6 (l3_host env)"

definition mask_ones :: "IPNet \<Rightarrow> nat" where
  "mask_ones n = fst (Mask_Size (net_Mask n))"

definition zero_ip :: IP where "zero_ip = IPv4 0 0 0 0"

subsection \<open>Data path\<close>

definition Ifa_DP :: "'r l3_env \<Rightarrow> L3H \<Rightarrow> DpWorkT \<Rightarrow> Ifa \<Rightarrow> int \<times> RouterMacDpWorkQ list \<times> Ifa" where
  "Ifa_DP env l3 work ifa = (case findPort env (ifa_Obj ifa) of
      None \<Rightarrow> (-1, [], if ifa_Obj ifa \<noteq> ''lo'' \<and> \<not> sublist ''llb-rule'' (ifa_Obj ifa)
                       then ifa \<lparr> ifa_Sync := DpCreateErr \<rparr> else ifa)
    | Some port \<Rightarrow>
        if work = DpRemove \<and> list_ex (\<lambda>(k, ent). l2match env (ifa_Obj ent) (ifa_Obj ifa)) l3 then (0, [], ifa)
        else if pv_VxlanBr port \<and> pv_Real port = None then (-1, [], ifa \<lparr> ifa_Sync := DpCreateErr \<rparr>)
        else (0, \<lparr> rm_Work = work, rm_L2Addr = pv_Mac port, rm_PortNum = pv_PortNo port, rm_BD = 0, rm_TunID = 0,
                   rm_TunType = DpTunNone, rm_NhNum = 0 \<rparr> #
               (case (pv_VxlanBr port, pv_Real port) of
                  (True, Some (mac, no)) \<Rightarrow> [\<lparr> rm_Work = work, rm_L2Addr = mac, rm_PortNum = no, rm_BD = pv_Vid port,
                      rm_TunID = pv_TunID port, rm_TunType = DpTunVxlan, rm_NhNum = 0 \<rparr>]
                | _ \<Rightarrow> []), ifa))"

subsection \<open>Lookup\<close>

definition family_clash :: "'r l3_env \<Rightarrow> IP \<Rightarrow> IfaEnt \<Rightarrow> bool" where
  "family_clash env addr e \<longleftrightarrow>
    (isV6 env (IP_String addr) \<and> isV4 env (IP_String (net_IP (IfaNet e)))) \<or>
    (isV4 env (IP_String addr) \<and> isV6 env (IP_String (net_IP (IfaNet e))))"

definition family_same :: "'r l3_env \<Rightarrow> IP \<Rightarrow> IfaEnt \<Rightarrow> bool" where
  "family_same env addr e \<longleftrightarrow>
    (isV4 env (IP_String addr) \<and> isV4 env (IP_String (net_IP (IfaNet e)))) \<or>
    (isV6 env (IP_String addr) \<and> isV6 env (IP_String (net_IP (IfaNet e))))"

definition IfaFindAddr :: "'r l3_env \<Rightarrow> L3H \<Rightarrow> string \<Rightarrow> IP \<Rightarrow> int \<times> IP" where
  "IfaFindAddr env l3 obj addr = (case gm_get l3 obj of
      None \<Rightarrow> (L3ObjErr, zero_ip)
    | Some ifa \<Rightarrow> (case find (\<lambda>e. \<not> family_clash env addr e \<and> IP_Equal (IfaAddr e) addr) (Ifas ifa) of
          Some e \<Rightarrow> (0, IfaAddr e)
        | None \<Rightarrow> (L3AddrErr, zero_ip)))"

fun addr_local :: "'r l3_env \<Rightarrow> L3H \<Rightarrow> (string, Ifa) gomap \<Rightarrow> IP \<Rightarrow> int \<times> IP" where
  "addr_local env l3 [] addr = (L3AddrErr, [])"
| "addr_local env l3 ((k, _) # r) addr =
    (if fst (IfaFindAddr env l3 k addr) = 0 then (0, snd (IfaFindAddr env l3 k addr)) else addr_local env l3 r addr)"

definition IfaAddrLocal :: "'r l3_env \<Rightarrow> L3H \<Rightarrow> IP \<Rightarrow> int \<times> IP" where
  "IfaAddrLocal env l3 addr = addr_local env l3 l3 addr"

text \<open>The first address of the wanted family, or the first address at all.\<close>

definition pick_family :: "'r l3_env \<Rightarrow> IP \<Rightarrow> IfaEnt list \<Rightarrow> IP option" where
  "pick_family env addr es = (case es of
      [] \<Rightarrow> None
    | e0 # _ \<Rightarrow> (case find (family_same env addr) es of Some e \<Rightarrow> Some (IfaAddr e) | None \<Rightarrow> Some (IfaAddr e0)))"

fun any_ifa :: "'r l3_env \<Rightarrow> IP \<Rightarrow> (string, Ifa) gomap \<Rightarrow> IP option" where
  "any_ifa env addr [] = None"
| "any_ifa env addr ((k, ifa) # r) =
    (if ifa_Obj ifa = ''lo'' then any_ifa env addr r
     else (case pick_family env addr (Ifas ifa) of Some ip \<Rightarrow> Some ip | None \<Rightarrow> any_ifa env addr r))"

definition IfaSelect :: "'r l3_env \<Rightarrow> L3H \<Rightarrow> string \<Rightarrow> IP \<Rightarrow> bool \<Rightarrow> int \<times> IP \<times> string" where
  "IfaSelect env l3 obj addr findAny = (case gm_get l3 obj of
      None \<Rightarrow> (case (if findAny then any_ifa env addr l3 else None) of
          Some ip \<Rightarrow> (0, ip, obj)
        | None \<Rightarrow> (L3ObjErr, zero_ip, []))
    | Some ifa \<Rightarrow>
        (case find (\<lambda>e. \<not> Secondary e \<and> \<not> family_clash env addr e \<and> IPNet_Contains (IfaNet e) addr) (Ifas ifa) of
           Some e \<Rightarrow> (0, IfaAddr e, obj)
         | None \<Rightarrow> if \<not> findAny then (L3AddrErr, zero_ip, [])
             else (case pick_family env addr (Ifas ifa) of
                 Some ip \<Rightarrow> (0, ip, obj)
               | None \<Rightarrow> (L3AddrErr, zero_ip, []))))"

definition usable :: "'r l3_env \<Rightarrow> bool \<Rightarrow> IfaEnt \<Rightarrow> bool" where
  "usable env v6 e \<longleftrightarrow> \<not> Secondary e \<and>
    \<not> ((v6 \<and> isV4 env (IP_String (net_IP (IfaNet e)))) \<or> (\<not> v6 \<and> isV6 env (IP_String (net_IP (IfaNet e)))))"

text \<open>All addresses that may be used, with their interface, in iteration order.\<close>

definition usable_ifas :: "'r l3_env \<Rightarrow> bool \<Rightarrow> L3H \<Rightarrow> (IfaEnt \<times> string) list" where
  "usable_ifas env v6 l3 = concat (map (\<lambda>(k, ifa). if ifa_Obj ifa = ''lo'' then []
     else map (\<lambda>e. (e, ifa_Obj ifa)) (filter (usable env v6) (Ifas ifa))) l3)"

definition IfaSelectAny :: "'r l3_env \<Rightarrow> L3H \<Rightarrow> 'r \<Rightarrow> IP \<Rightarrow> bool \<Rightarrow> int \<times> IP \<times> string" where
  "IfaSelectAny env l3 r addr findAny =
    (let v6 = (\<not> isV4 env (IP_String addr)); ifObj = (case trieFind env addr r of None \<Rightarrow> [] | Some (_, name) \<Rightarrow> name); us = usable_ifas env v6 l3 in
     if ifObj \<noteq> [] \<and> ifObj \<noteq> ''lo'' then IfaSelect env l3 ifObj addr findAny
     else (case find (\<lambda>(e, ob). IPNet_Contains (IfaNet e) addr) us of
         Some (e, ob) \<Rightarrow> (0, IfaAddr e, ob)
       | None \<Rightarrow> if \<not> findAny then (L3AddrErr, zero_ip, [])
           else (case us of (e, ob) # _ \<Rightarrow> (0, IfaAddr e, ob) | [] \<Rightarrow> (L3AddrErr, zero_ip, []))))"

subsection \<open>Deletion\<close>

fun ifa_index :: "IP \<Rightarrow> IPNet \<Rightarrow> IfaEnt list \<Rightarrow> nat option" where
  "ifa_index addr net [] = None"
| "ifa_index addr net (e # es) =
    (if IP_Equal (IfaAddr e) addr \<and> IP_Equal (net_IP (IfaNet e)) (net_IP net) \<and> mask_ones (IfaNet e) = mask_ones net
     then Some 0 else map_option Suc (ifa_index addr net es))"

definition del_self_routes :: "'r l3_env \<Rightarrow> L3H \<Rightarrow> IP \<Rightarrow> IPNet \<Rightarrow> 'r \<Rightarrow> 'r" where
  "del_self_routes env l3 addr net r =
    (let r1 = snd (rt_del env l3 net r) in
     if mask_ones net \<noteq> 32 \<and> mask_ones net \<noteq> 128
     then (case ParseCIDR (IP_String addr @ ''/32'') of None \<Rightarrow> r1 | Some (_, myNet) \<Rightarrow> snd (rt_del env l3 myNet r1))
     else r1)"

type_synonym 'r l3_st = "L3H \<times> 'r \<times> RouterMacDpWorkQ list"

definition IfaDelete :: "'r l3_env \<Rightarrow> string \<Rightarrow> string \<Rightarrow> 'r l3_st \<Rightarrow> go_ret \<times> 'r l3_st" where
  "IfaDelete env obj cidr st = (let (l3, r, q) = st in
    case ParseCIDR cidr of
      None \<Rightarrow> (Err L3AddrErr ''ip address parse error'', st)
    | Some (addr, net) \<Rightarrow> (case gm_get l3 obj of
        None \<Rightarrow> (Err L3AddrErr ''no such ip address'', st)
      | Some ifa \<Rightarrow> (case ifa_index addr net (Ifas ifa) of
          None \<Rightarrow> (Err L3AddrErr ''no such ifa'', st)
        | Some i \<Rightarrow>
            (let ifa' = ifa \<lparr> Ifas := take i (Ifas ifa) @ drop (Suc i) (Ifas ifa) \<rparr>;
                 l3' = gm_put obj ifa' l3;
                 r' = del_self_routes env l3' addr net r in
             if Ifas ifa' = [] then
               (let l3'' = gm_del (ifa_Obj ifa') l3' in (Ok, l3'', r', q @ fst (snd (Ifa_DP env l3'' DpRemove ifa'))))
             else (Ok, l3', r', q)))))"

text \<open>\<open>IfaDeleteAll\<close> ranges over the slice that \<open>IfaDelete\<close> shifts in place: the
loop reads the backing array \<open>arr\<close>, of which the slice is the first \<open>m\<close> elements.\<close>

fun del_all :: "'r l3_env \<Rightarrow> string \<Rightarrow> nat \<Rightarrow> nat \<Rightarrow> IfaEnt list \<Rightarrow> nat \<Rightarrow> 'r l3_st \<Rightarrow> 'r l3_st" where
  "del_all env obj 0 i arr m st = st"
| "del_all env obj (Suc n) i arr m st =
    (let e = arr ! i; cidr = IP_String (IfaAddr e) @ ''/'' @ dec (mask_ones (IfaNet e));
         st' = snd (IfaDelete env obj cidr st) in
     case (ParseCIDR cidr, gm_get (fst st) obj) of
       (Some (addr, net), Some _) \<Rightarrow> (case ifa_index addr net (take m arr) of
           Some j \<Rightarrow> del_all env obj n (Suc i)
             (take j arr @ drop (Suc j) (take m arr) @ drop (m - 1) arr) (m - 1) st'
         | None \<Rightarrow> del_all env obj n (Suc i) arr m st')
     | _ \<Rightarrow> del_all env obj n (Suc i) arr m st')"

definition IfaDeleteAll :: "'r l3_env \<Rightarrow> string \<Rightarrow> 'r l3_st \<Rightarrow> 'r l3_st" where
  "IfaDeleteAll env obj st = (case gm_get (fst st) obj of
      None \<Rightarrow> st
    | Some ifa \<Rightarrow>
        (let (l3, r, q) = del_all env obj (length (Ifas ifa)) 0 (Ifas ifa) (length (Ifas ifa)) st
         in (gm_del obj l3, r, q)))"

subsection \<open>Addition\<close>

definition add_self_routes :: "'r l3_env \<Rightarrow> L3H \<Rightarrow> IP \<Rightarrow> IPNet \<Rightarrow> int \<Rightarrow> 'r \<Rightarrow> string option \<times> 'r" where
  "add_self_routes env l3 addr net ifi r =
    (let (ok, r1) = rt_add env l3 net ifi r in
     if \<not> ok then (Some ''subnet-route add error'', r1)
     else if mask_ones net \<noteq> 32 \<and> mask_ones net \<noteq> 128 then
       (case ParseCIDR (IP_String addr @ ''/32'') of
          None \<Rightarrow> (Some ''myip address parse error'', r1)
        | Some (_, myNet) \<Rightarrow> (let (ok2, r2) = rt_add env l3 myNet ifi r1 in
            if \<not> ok2 then (Some ''my-self-route add error'', r2) else (None, r2)))
     else (None, r1))"

definition same_net :: "IPNet \<Rightarrow> IfaEnt \<Rightarrow> bool" where
  "same_net net e \<longleftrightarrow> IP_Equal (net_IP (IfaNet e)) (net_IP net) \<and> mask_ones (IfaNet e) = mask_ones net"

text \<open>An address that is added to an interface first leaves the interface of the load balancer rule
it may belong to; then it is inserted with its self-routes.\<close>

definition ifa_insert :: "'r l3_env \<Rightarrow> string \<Rightarrow> IP \<Rightarrow> IPNet \<Rightarrow> 'r l3_st \<Rightarrow> go_ret \<times> 'r l3_st" where
  "ifa_insert env obj addr net st =
       (let (l3, r, q) = st;
            ifi = (case findPort env obj of None \<Rightarrow> -1 | Some p \<Rightarrow> pv_OsID p);
            old = (case gm_get l3 obj of None \<Rightarrow> \<lparr> ifa_Obj = obj, ifa_Sync = DpStatusOk, Ifas = [] \<rparr> | Some ifa \<Rightarrow> ifa) in
        if list_ex (\<lambda>e. IP_Equal (IfaAddr e) addr) (Ifas old) then (Err L3AddrErr ''ip address exists'', st)
        else
          (let ifa = old \<lparr> Ifas := Ifas old @ [\<lparr> IfaAddr = addr, IfaNet = net, Secondary = list_ex (same_net net) (Ifas old) \<rparr>] \<rparr>;
               l3' = gm_put obj ifa l3;
               (err, r') = add_self_routes env l3' addr net ifi r in
           case err of
             Some e \<Rightarrow> (Err L3AddrErr e, l3', r', q)
           | None \<Rightarrow> (let (ret, ws, ifa') = Ifa_DP env l3' DpCreate ifa in (Ok, gm_put obj ifa' l3', r', q @ ws))))"

definition rule_dev :: "IP \<Rightarrow> string" where "rule_dev addr = ''llb-rule-'' @ IP_String addr"

definition drop_rule_ifa :: "'r l3_env \<Rightarrow> string \<Rightarrow> IP \<Rightarrow> 'r l3_st \<Rightarrow> 'r l3_st" where
  "drop_rule_ifa env obj addr st =
    (if obj \<noteq> rule_dev addr \<and> fst (IfaFindAddr env (fst st) (rule_dev addr) addr) = 0
     then snd (IfaDelete env (rule_dev addr) (IP_String addr @ ''/32'') st) else st)"

definition IfaAdd :: "'r l3_env \<Rightarrow> string \<Rightarrow> string \<Rightarrow> 'r l3_st \<Rightarrow> go_ret \<times> 'r l3_st" where
  "IfaAdd env obj cidr st = (case ParseCIDR cidr of
      None \<Rightarrow> (Err L3AddrErr ''ip address parse error'', st)
    | Some (addr, net) \<Rightarrow> ifa_insert env obj addr net (drop_rule_ifa env obj addr st))"

subsection \<open>Listing and resync\<close>

definition IfaMkString :: "'r l3_env \<Rightarrow> Ifa \<Rightarrow> bool \<Rightarrow> string" where
  "IfaMkString env ifa v4 =
    (case find (\<lambda>e. \<not> (\<not> v4 \<and> isV4 env (IP_String (IfaAddr e))) \<and> \<not> (v4 \<and> isV6 env (IP_String (IfaAddr e)))) (Ifas ifa) of
       None \<Rightarrow> []
     | Some e \<Rightarrow> IP_String (IfaAddr e) @ ''/'' @ dec (mask_ones (IfaNet e)) @ '' ('' @ (if Secondary e then ''S'' else ''P'') @ '') '')"

definition IfObjMkString :: "'r l3_env \<Rightarrow> L3H \<Rightarrow> string \<Rightarrow> bool \<Rightarrow> string" where
  "IfObjMkString env l3 obj v4 = (case gm_get l3 obj of None \<Rightarrow> [] | Some ifa \<Rightarrow> IfaMkString env ifa v4)"

definition IfaGet :: "L3H \<Rightarrow> (string \<times> DpStatusT \<times> string list) list" where
  "IfaGet l3 = map (\<lambda>(k, ifa). (k, ifa_Sync ifa,
     map (\<lambda>e. IP_String (IfaAddr e) @ ''/'' @ dec (mask_ones (IfaNet e))) (Ifas ifa))) l3"

definition can_sync :: "(string \<Rightarrow> bool) \<Rightarrow> bool \<Rightarrow> Ifa \<Rightarrow> bool" where
  "can_sync blackListed fsync ifa \<longleftrightarrow> ifa_Obj ifa \<noteq> ''lo'' \<and>
     list_ex (\<lambda>e. \<not> (blackListed (ifa_Obj ifa) \<or> Secondary e)) (Ifas ifa) \<and> (ifa_Sync ifa \<noteq> DpStatusOk \<or> fsync)"

definition IfasTicker :: "'r l3_env \<Rightarrow> (string \<Rightarrow> bool) \<Rightarrow> bool \<Rightarrow> L3H \<Rightarrow> L3H \<times> RouterMacDpWorkQ list" where
  "IfasTicker env blackListed fsync l3 =
    (map (\<lambda>(k, ifa). (k, if can_sync blackListed fsync ifa then snd (snd (Ifa_DP env l3 DpCreate ifa)) else ifa)) l3,
     concat (map (\<lambda>(k, ifa). if can_sync blackListed fsync ifa then fst (snd (Ifa_DP env l3 DpCreate ifa)) else []) l3))"

subsection \<open>Histories\<close>

datatype ifa_op = AddIfa string string | DelIfa string string | DelAllIfa string

fun ifa_run :: "'r l3_env \<Rightarrow> ifa_op list \<Rightarrow> 'r l3_st \<Rightarrow> 'r l3_st" where
  "ifa_run env [] st = st"
| "ifa_run env (AddIfa ob cidr # ops) st = ifa_run env ops (snd (IfaAdd env ob cidr st))"
| "ifa_run env (DelIfa ob cidr # ops) st = ifa_run env ops (snd (IfaDelete env ob cidr st))"
| "ifa_run env (DelAllIfa ob # ops) st = ifa_run env ops (IfaDeleteAll env ob st)"

text \<open>An interface in the table has at least one address, is stored under its own name, and no
two of its addresses are equal.\<close>

definition ifa_good :: "string \<Rightarrow> Ifa \<Rightarrow> bool" where
  "ifa_good k ifa \<longleftrightarrow> ifa_Obj ifa = k \<and> Ifas ifa \<noteq> [] \<and>
     sorted_wrt (\<lambda>a b. \<not> IP_Equal (IfaAddr a) (IfaAddr b)) (Ifas ifa)"

definition l3_wf :: "L3H \<Rightarrow> bool" where
  "l3_wf l3 \<longleftrightarrow> gm_ok l3 \<and> list_all (\<lambda>(k, ifa). ifa_good k ifa) l3"

lemma l3_wf_iff: "l3_wf l3 \<longleftrightarrow> gm_ok l3 \<and> (\<forall>k ifa. gm_get l3 k = Some ifa \<longrightarrow> ifa_good k ifa)"
  unfolding l3_wf_def by (auto simp: list_all_iff gm_ok_in)

lemma l3_wf_put: "l3_wf l3 \<Longrightarrow> ifa_good k ifa \<Longrightarrow> l3_wf (gm_put k ifa l3)"
  by (simp add: l3_wf_iff)

lemma l3_wf_del: "l3_wf l3 \<Longrightarrow> l3_wf (gm_del k l3)"
  by (simp add: l3_wf_iff)

lemma l3_wf_get: "l3_wf l3 \<Longrightarrow> gm_get l3 k = Some ifa \<Longrightarrow> ifa_good k ifa"
  by (simp add: l3_wf_iff)

lemma sorted_wrt_drop_nth:
  assumes "sorted_wrt P xs"
  shows "sorted_wrt P (take i xs @ drop (Suc i) xs)"
proof -
  have "sorted_wrt P (take i xs @ drop i xs)" using assms by simp
  moreover have "set (drop (Suc i) xs) \<subseteq> set (drop i xs)" by (simp add: set_drop_subset_set_drop)
  moreover have "sorted_wrt P (drop (Suc i) xs)" using assms by (rule sorted_wrt_drop)
  ultimately show ?thesis unfolding sorted_wrt_append by blast
qed

lemma Ifa_DP_keeps [simp]:
  "ifa_Obj (snd (snd (Ifa_DP env l3 w ifa))) = ifa_Obj ifa"
  "Ifas (snd (snd (Ifa_DP env l3 w ifa))) = Ifas ifa"
  by (simp_all add: Ifa_DP_def split: option.split)

lemma ifa_good_DP [simp]: "ifa_good k (snd (snd (Ifa_DP env l3 w ifa))) = ifa_good k ifa"
  by (simp add: ifa_good_def)

lemma IfaDelete_wf:
  assumes "l3_wf (fst st)"
  shows "l3_wf (fst (snd (IfaDelete env ob cidr st)))"
proof -
  obtain l3 r q where st: "st = (l3, r, q)" by (cases st) auto
  have "l3_wf (gm_put ob (ifa \<lparr> Ifas := xs \<rparr>) l3)"
    if "gm_get l3 ob = Some ifa" "xs = take i (Ifas ifa) @ drop (Suc i) (Ifas ifa)" "xs \<noteq> []" for ifa xs i
    using that assms l3_wf_get [OF _ that(1)] sorted_wrt_drop_nth [of _ "Ifas ifa" i]
    by (auto intro!: l3_wf_put simp: st ifa_good_def)
  moreover have "l3_wf (gm_del (ifa_Obj ifa) (gm_put ob x l3))" if "gm_get l3 ob = Some ifa" for ifa x
    using that assms l3_wf_get [OF _ that] by (auto simp: st l3_wf_iff ifa_good_def)
  ultimately show ?thesis
    using assms by (auto simp: IfaDelete_def st Let_def split: option.split)
qed

lemma del_all_wf: "l3_wf (fst st) \<Longrightarrow> l3_wf (fst (del_all env ob n i arr m st))"
  by (induction n arbitrary: i arr m st) (auto simp: Let_def IfaDelete_wf split: option.split prod.split)

lemma IfaDeleteAll_wf: "l3_wf (fst st) \<Longrightarrow> l3_wf (fst (IfaDeleteAll env ob st))"
  using del_all_wf [of st env ob]
  by (auto simp: IfaDeleteAll_def Let_def split: option.split prod.split intro!: l3_wf_del) (metis fst_conv)

definition old_ifas :: "L3H \<Rightarrow> string \<Rightarrow> IfaEnt list" where
  "old_ifas l3 obj = (case gm_get l3 obj of None \<Rightarrow> [] | Some ifa \<Rightarrow> Ifas ifa)"

text \<open>What an insertion leaves, whatever the route table answers.\<close>

lemma ifa_insert_old:
  assumes "list_ex (\<lambda>e. IP_Equal (IfaAddr e) addr) (old_ifas (fst st) obj)"
  shows "ifa_insert env obj addr net st = (Err L3AddrErr ''ip address exists'', st)"
  using assms by (cases st) (auto simp: ifa_insert_def old_ifas_def Let_def split: option.splits)

lemma ifa_insert_new:
  assumes "\<not> list_ex (\<lambda>e. IP_Equal (IfaAddr e) addr) (old_ifas (fst st) obj)"
  shows "\<exists>ifa l3. fst (snd (ifa_insert env obj addr net st)) = gm_put obj ifa l3 \<and>
    (l3 = fst st \<or> (\<exists>x. l3 = gm_put obj x (fst st))) \<and>
    ifa_Obj ifa = (case gm_get (fst st) obj of None \<Rightarrow> obj | Some i \<Rightarrow> ifa_Obj i) \<and>
    Ifas ifa = old_ifas (fst st) obj @
      [\<lparr> IfaAddr = addr, IfaNet = net, Secondary = list_ex (same_net net) (old_ifas (fst st) obj) \<rparr>]"
proof -
  obtain l3 r q where st: "st = (l3, r, q)" by (cases st) auto
  define old where "old = (case gm_get l3 obj of None \<Rightarrow> \<lparr> ifa_Obj = obj, ifa_Sync = DpStatusOk, Ifas = [] \<rparr> | Some ifa \<Rightarrow> ifa)"
  define ifa where "ifa = old \<lparr> Ifas := Ifas old @ [\<lparr> IfaAddr = addr, IfaNet = net, Secondary = list_ex (same_net net) (Ifas old) \<rparr>] \<rparr>"
  define ifi where "ifi = (case findPort env obj of None \<Rightarrow> -1 | Some p \<Rightarrow> pv_OsID p)"
  have old: "old_ifas (fst st) obj = Ifas old" "ifa_Obj old = (case gm_get (fst st) obj of None \<Rightarrow> obj | Some i \<Rightarrow> ifa_Obj i)"
    by (simp_all add: old_def old_ifas_def st split: option.split)
  have eq: "fst (snd (ifa_insert env obj addr net st)) =
      (if fst (add_self_routes env (gm_put obj ifa l3) addr net ifi r) = None
       then gm_put obj (snd (snd (Ifa_DP env (gm_put obj ifa l3) DpCreate ifa))) (gm_put obj ifa l3)
       else gm_put obj ifa l3)"
    using assms unfolding old
    by (simp add: ifa_insert_def st Let_def old_def [symmetric] ifa_def [symmetric] ifi_def [symmetric] split: prod.split option.split)
  show ?thesis
  proof (cases "fst (add_self_routes env (gm_put obj ifa l3) addr net ifi r) = None")
    case True
    then show ?thesis unfolding eq old
      by (intro exI [of _ "snd (snd (Ifa_DP env (gm_put obj ifa l3) DpCreate ifa))"] exI [of _ "gm_put obj ifa l3"])
        (auto simp: st ifa_def old(2) [unfolded st])
  next
    case False
    then show ?thesis unfolding eq old
      by (intro exI [of _ ifa] exI [of _ l3]) (auto simp: st ifa_def old(2) [unfolded st])
  qed
qed

lemma ifa_good_snoc:
  assumes "l3_wf l3" "\<not> list_ex (\<lambda>e. IP_Equal (IfaAddr e) addr) (old_ifas l3 obj)"
    "ifa_Obj ifa = (case gm_get l3 obj of None \<Rightarrow> obj | Some i \<Rightarrow> ifa_Obj i)"
    "Ifas ifa = old_ifas l3 obj @ [e]" "IfaAddr e = addr"
  shows "ifa_good obj ifa"
  using assms l3_wf_get [OF assms(1), of obj]
  by (auto simp: ifa_good_def old_ifas_def sorted_wrt_append list_ex_iff split: option.splits)

lemma ifa_insert_wf:
  assumes wf: "l3_wf (fst st)"
  shows "l3_wf (fst (snd (ifa_insert env obj addr net st)))"
proof (cases "list_ex (\<lambda>e. IP_Equal (IfaAddr e) addr) (old_ifas (fst st) obj)")
  case True
  then show ?thesis using wf by (simp add: ifa_insert_old)
next
  case False
  from ifa_insert_new [OF this, of env net] obtain ifa l3 where
    r: "fst (snd (ifa_insert env obj addr net st)) = gm_put obj ifa l3" "l3 = fst st \<or> (\<exists>x. l3 = gm_put obj x (fst st))"
      "ifa_Obj ifa = (case gm_get (fst st) obj of None \<Rightarrow> obj | Some i \<Rightarrow> ifa_Obj i)"
      "Ifas ifa = old_ifas (fst st) obj @
        [\<lparr> IfaAddr = addr, IfaNet = net, Secondary = list_ex (same_net net) (old_ifas (fst st) obj) \<rparr>]" by blast
  have "ifa_good obj ifa" using ifa_good_snoc [OF wf False r(3) r(4)] by simp
  with r(2) wf show ?thesis unfolding r(1) by (auto simp: l3_wf_iff)
qed

lemma IfaAdd_wf: "l3_wf (fst st) \<Longrightarrow> l3_wf (fst (snd (IfaAdd env ob cidr st)))"
  by (auto simp: IfaAdd_def drop_rule_ifa_def split: option.split intro!: ifa_insert_wf IfaDelete_wf)

text \<open>C30. Whatever addresses are added, deleted one by one or deleted by interface, and whatever
the route table answers meanwhile, the interface table stays well-formed: every interface is listed
once, under its own name, with at least one address, and with no address twice.\<close>

theorem ifa_run_wf:
  assumes "l3_wf (fst st)"
  shows "l3_wf (fst (ifa_run env ops st))"
  using assms by (induction env ops st rule: ifa_run.induct) (simp_all add: IfaAdd_wf IfaDelete_wf IfaDeleteAll_wf)

subsection \<open>Round trip\<close>

lemma ifa_index_snoc:
  assumes "\<not> list_ex (\<lambda>e. IP_Equal (IfaAddr e) addr) es"
  shows "ifa_index addr net (es @ [\<lparr> IfaAddr = addr, IfaNet = net, Secondary = s \<rparr>]) = Some (length es)"
  using assms by (induction es) auto

lemma IfaDelete_other:
  assumes "l3_wf (fst st)" "ob \<noteq> obj"
  shows "gm_get (fst (snd (IfaDelete env ob cidr st))) obj = gm_get (fst st) obj"
proof -
  obtain l3 r q where st: "st = (l3, r, q)" by (cases st) auto
  have "ifa_Obj ifa = ob" if "gm_get l3 ob = Some ifa" for ifa
    using l3_wf_get [OF assms(1)] that by (simp add: st ifa_good_def)
  then show ?thesis using assms(2)
    by (auto simp: IfaDelete_def st Let_def split: option.split)
qed

lemma old_ifas_after_delete:
  assumes "ParseCIDR cidr = Some (addr, net)" "l3_wf (fst st)" "ifa_index addr net (old_ifas (fst st) ob) = Some i"
  shows "fst (IfaDelete env ob cidr st) = Ok"
    and "old_ifas (fst (snd (IfaDelete env ob cidr st))) ob =
      take i (old_ifas (fst st) ob) @ drop (Suc i) (old_ifas (fst st) ob)"
proof -
  obtain l3 r q where st: "st = (l3, r, q)" by (cases st) auto
  obtain ifa where g: "gm_get l3 ob = Some ifa" using assms(3) by (cases "gm_get l3 ob") (auto simp: st old_ifas_def)
  have o: "ifa_Obj ifa = ob" using l3_wf_get [OF assms(2)] g by (simp add: st ifa_good_def)
  show "fst (IfaDelete env ob cidr st) = Ok"
    "old_ifas (fst (snd (IfaDelete env ob cidr st))) ob =
      take i (old_ifas (fst st) ob) @ drop (Suc i) (old_ifas (fst st) ob)"
    using assms g o by (auto simp: IfaDelete_def st Let_def old_ifas_def)
qed

lemma drop_rule_ifa_other:
  "l3_wf (fst st) \<Longrightarrow> gm_get (fst (drop_rule_ifa env obj addr st)) obj = gm_get (fst st) obj"
  using IfaDelete_other [of st "rule_dev addr" obj] by (auto simp: drop_rule_ifa_def)

text \<open>C31. An address that is not yet on an interface can be added and deleted again: the addition
stores it even when a self-route is refused, the deletion finds exactly it, and the addresses of the
interface are those from before.\<close>

theorem ifa_add_delete:
  assumes "l3_wf (fst st)" "ParseCIDR cidr = Some (addr, net)"
    and "\<not> list_ex (\<lambda>e. IP_Equal (IfaAddr e) addr) (old_ifas (fst st) obj)"
  shows "fst (IfaDelete env obj cidr (snd (IfaAdd env obj cidr st))) = Ok \<and>
    old_ifas (fst (snd (IfaAdd env obj cidr st))) obj \<noteq> old_ifas (fst st) obj \<and>
    old_ifas (fst (snd (IfaDelete env obj cidr (snd (IfaAdd env obj cidr st))))) obj = old_ifas (fst st) obj"
proof (intro conjI)
  let ?st = "drop_rule_ifa env obj addr st"
  have o: "old_ifas (fst ?st) obj = old_ifas (fst st) obj"
    using drop_rule_ifa_other [OF assms(1), of env obj addr] by (simp add: old_ifas_def)
  have a: "snd (IfaAdd env obj cidr st) = snd (ifa_insert env obj addr net ?st)" by (simp add: IfaAdd_def assms(2))
  have e: "old_ifas (fst (snd (IfaAdd env obj cidr st))) obj = old_ifas (fst st) obj @
      [\<lparr> IfaAddr = addr, IfaNet = net, Secondary = list_ex (same_net net) (old_ifas (fst st) obj) \<rparr>]"
    using ifa_insert_new [of addr ?st obj env net] assms(3) unfolding o a by (auto simp: old_ifas_def)
  have i: "ifa_index addr net (old_ifas (fst (snd (IfaAdd env obj cidr st))) obj) = Some (length (old_ifas (fst st) obj))"
    unfolding e by (rule ifa_index_snoc [OF assms(3)])
  have w: "l3_wf (fst (snd (IfaAdd env obj cidr st)))" by (rule IfaAdd_wf [OF assms(1)])
  show "fst (IfaDelete env obj cidr (snd (IfaAdd env obj cidr st))) = Ok" by (rule old_ifas_after_delete(1) [OF assms(2) w i])
  show "old_ifas (fst (snd (IfaAdd env obj cidr st))) obj \<noteq> old_ifas (fst st) obj" unfolding e by simp
  show "old_ifas (fst (snd (IfaDelete env obj cidr (snd (IfaAdd env obj cidr st))))) obj = old_ifas (fst st) obj"
    unfolding old_ifas_after_delete(2) [OF assms(2) w i] unfolding e by simp
qed

definition quiet_host :: host_env where
  "quiet_host = \<lparr> InterfaceByName = (\<lambda>_. None), InterfaceByIndex = (\<lambda>_. None), InterfaceAddrs = Some [],
     IsNetIPv4 = (\<lambda>_. True), IsNetIPv6 = (\<lambda>_. False), sock_open = (\<lambda>_. None), sock_send = (\<lambda>_ _. None) \<rparr>"

definition quiet_l3 :: "IPNet list l3_env" where
  "quiet_l3 = \<lparr> findPort = (\<lambda>_. None), l2match = (\<lambda>_ _. False), l3_host = quiet_host,
     rt_add = (\<lambda>_ n i r. (n \<notin> set r, if n \<in> set r then r else n # r)), rt_del = (\<lambda>_ n r. (n \<in> set r, remove1 n r)),
     trieFind = (\<lambda>_ _. None) \<rparr>"

lemma cidr_sample: "ParseCIDR ''10.0.1.1/24'' =
    Some (IPv4 10 0 1 1, \<lparr> net_IP = [10, 0, 1, 0], net_Mask = [255, 255, 255, 0] \<rparr>)"
  by code_simp

theorem ifa_run_wf_witness:
  "l3_wf (fst (ifa_run quiet_l3 [AddIfa ''eth0'' ''10.0.1.1/24'', DelIfa ''eth0'' ''10.0.1.1/24'', DelAllIfa ''eth0''] ([], [], [])))"
  by (rule ifa_run_wf) (simp add: l3_wf_def)

theorem ifa_add_delete_witness:
  "old_ifas (fst (snd (IfaDelete quiet_l3 ''eth0'' ''10.0.1.1/24'' (snd (IfaAdd quiet_l3 ''eth0'' ''10.0.1.1/24'' ([], [], [])))))) ''eth0'' = []"
  using ifa_add_delete [of "([], [], [])" "''10.0.1.1/24''" _ _ "''eth0''" quiet_l3, OF _ cidr_sample]
  by (simp add: l3_wf_def old_ifas_def)

subsection \<open>Deleting all addresses of an interface\<close>

definition ent_cidr :: "IfaEnt \<Rightarrow> string" where
  "ent_cidr e = IP_String (IfaAddr e) @ ''/'' @ dec (mask_ones (IfaNet e))"

lemma IfaDelete_found:
  assumes "ParseCIDR c = Some (a, n)" "gm_get l3 obj = Some ifa" "ifa_index a n (Ifas ifa) = Some i"
    "take i (Ifas ifa) @ drop (Suc i) (Ifas ifa) \<noteq> []"
  shows "IfaDelete env obj c (l3, r, q) =
    (Ok, gm_put obj (ifa \<lparr> Ifas := take i (Ifas ifa) @ drop (Suc i) (Ifas ifa) \<rparr>) l3,
      del_self_routes env (gm_put obj (ifa \<lparr> Ifas := take i (Ifas ifa) @ drop (Suc i) (Ifas ifa) \<rparr>) l3) a n r, q)"
  using assms by (auto simp: IfaDelete_def Let_def)

lemma IfaDelete_missing:
  assumes "ParseCIDR c = Some (a, n)" "gm_get l3 obj = Some ifa" "ifa_index a n (Ifas ifa) = None"
  shows "snd (IfaDelete env obj c (l3, r, q)) = (l3, r, q)"
  using assms by (simp add: IfaDelete_def Let_def)

text \<open>An interface with three different addresses is not cleaned up by \<open>IfaDeleteAll\<close>:
the loop ranges over the slice that each \<open>IfaDelete\<close> shifts, so the second address is never
visited.  Its subnet route and its self-route stay, and since the slice never becomes empty the
router MAC entry is not removed from the data path either, although the interface leaves the table.\<close>

theorem ifa_delete_all_leak:
  assumes "gm_get l3 obj = Some ifa" "Ifas ifa = [e0, e1, e2]"
    and "ParseCIDR (ent_cidr e0) = Some (IfaAddr e0, IfaNet e0)" "ParseCIDR (ent_cidr e2) = Some (IfaAddr e2, IfaNet e2)"
    and "\<not> IP_Equal (IfaAddr e1) (IfaAddr e2)"
  shows "\<exists>l1 l2 l3'. IfaDeleteAll env obj (l3, r, q) =
      (l3', del_self_routes env l2 (IfaAddr e2) (IfaNet e2) (del_self_routes env l1 (IfaAddr e0) (IfaNet e0) r), q) \<and>
    gm_get l3' obj = None"
proof -
  note c = assms(3,4) [unfolded ent_cidr_def, simplified]
  have 0: "ifa_index (IfaAddr e0) (IfaNet e0) [e0, e1, e2] = Some 0" by simp
  have 1: "ifa_index (IfaAddr e2) (IfaNet e2) [e1, e2] = Some 1" using assms(5) by simp
  have 2: "ifa_index (IfaAddr e2) (IfaNet e2) [e1] = None" using assms(5) by simp
  define l1 where "l1 = gm_put obj (ifa \<lparr> Ifas := [e1, e2] \<rparr>) l3"
  define l2 where "l2 = gm_put obj (ifa \<lparr> Ifas := [e1] \<rparr>) l1"
  define r1 where "r1 = del_self_routes env l1 (IfaAddr e0) (IfaNet e0) r"
  define r2 where "r2 = del_self_routes env l2 (IfaAddr e2) (IfaNet e2) r1"
  have g: "gm_get l1 obj = Some (ifa \<lparr> Ifas := [e1, e2] \<rparr>)" "gm_get l2 obj = Some (ifa \<lparr> Ifas := [e1] \<rparr>)"
    by (simp_all add: l1_def l2_def)
  have d0: "snd (IfaDelete env obj (IP_String (IfaAddr e0) @ ''/'' @ dec (mask_ones (IfaNet e0))) (l3, r, q)) = (l1, r1, q)"
    using IfaDelete_found [OF assms(3,1), of 0 env r q] assms(2) by (simp add: ent_cidr_def l1_def r1_def)
  have d1: "snd (IfaDelete env obj (IP_String (IfaAddr e2) @ ''/'' @ dec (mask_ones (IfaNet e2))) (l1, r1, q)) = (l2, r2, q)"
    using IfaDelete_found [OF assms(4) g(1), of 1 env r1 q] 1 by (simp add: ent_cidr_def l2_def r2_def)
  have d2: "snd (IfaDelete env obj (IP_String (IfaAddr e2) @ ''/'' @ dec (mask_ones (IfaNet e2))) (l2, r2, q)) = (l2, r2, q)"
    using IfaDelete_missing [OF assms(4) g(2)] 2 by (simp add: ent_cidr_def)
  have "del_all env obj 3 0 [e0, e1, e2] 3 (l3, r, q) = (l2, r2, q)"
    using d0 d1 d2 by (simp add: numeral_3_eq_3 Let_def c assms(1) g 0 1 2 del: ifa_index.simps)
  then have "IfaDeleteAll env obj (l3, r, q) = (gm_del obj l2, r2, q)"
    by (simp add: IfaDeleteAll_def assms(1,2) numeral_3_eq_3)
  then show ?thesis by (intro exI [of _ l1] exI [of _ l2] exI [of _ "gm_del obj l2"]) (simp add: r1_def r2_def)
qed

definition sample_ent :: "u8 \<Rightarrow> IfaEnt" where
  "sample_ent k = \<lparr> IfaAddr = IPv4 10 0 k 1, IfaNet = \<lparr> net_IP = [10, 0, k, 0], net_Mask = [255, 255, 255, 0] \<rparr>, Secondary = False \<rparr>"

lemma sample_ent_cidr:
  "ParseCIDR (ent_cidr (sample_ent 1)) = Some (IfaAddr (sample_ent 1), IfaNet (sample_ent 1))"
  "ParseCIDR (ent_cidr (sample_ent 3)) = Some (IfaAddr (sample_ent 3), IfaNet (sample_ent 3))"
  by code_simp+

lemma sample_ent_differ: "\<not> IP_Equal (IfaAddr (sample_ent 2)) (IfaAddr (sample_ent 3))"
  by code_simp

lemma quiet_routes:
  "del_self_routes quiet_l3 l2 (IfaAddr (sample_ent 3)) (IfaNet (sample_ent 3))
    (del_self_routes quiet_l3 l1 (IfaAddr (sample_ent 1)) (IfaNet (sample_ent 1)) (map (IfaNet \<circ> sample_ent) [1, 2, 3])) =
   [IfaNet (sample_ent 2)]"
proof -
  have d: "rt_del quiet_l3 l = rt_del quiet_l3 []" for l by (simp add: quiet_l3_def)
  have r: "del_self_routes quiet_l3 l a n r = del_self_routes quiet_l3 [] a n r" for l a n r
    unfolding del_self_routes_def by (simp only: d [of l])
  have "del_self_routes quiet_l3 [] (IfaAddr (sample_ent 3)) (IfaNet (sample_ent 3))
      (del_self_routes quiet_l3 [] (IfaAddr (sample_ent 1)) (IfaNet (sample_ent 1)) (map (IfaNet \<circ> sample_ent) [1, 2, 3])) =
      [IfaNet (sample_ent 2)]" by code_simp
  then show ?thesis by (simp only: r [of l1] r [of l2])
qed

theorem ifa_delete_all_leak_witness:
  "\<exists>l3'. IfaDeleteAll quiet_l3 ''e'' ([(''e'', \<lparr> ifa_Obj = ''e'', ifa_Sync = DpStatusOk, Ifas = [sample_ent 1, sample_ent 2, sample_ent 3] \<rparr>)],
        map (IfaNet \<circ> sample_ent) [1, 2, 3], []) =
     (l3', [IfaNet (sample_ent 2)], []) \<and> gm_get l3' ''e'' = None"
  using ifa_delete_all_leak [of "[(''e'', \<lparr> ifa_Obj = ''e'', ifa_Sync = DpStatusOk, Ifas = [sample_ent 1, sample_ent 2, sample_ent 3] \<rparr>)]"
      "''e''" _ "sample_ent 1" "sample_ent 2" "sample_ent 3" quiet_l3 "map (IfaNet \<circ> sample_ent) [1, 2, 3]" "[]",
      OF _ _ sample_ent_cidr sample_ent_differ] by (simp add: quiet_routes del: list.map)

end
