(* ===== verification/Vips.thy ===== *)
theory Vips
  imports Layer3 Cluster RefTable
begin

text \<open>Virtual addresses of load balancer rules (\<open>vipadv.go\<close> and the VIP part of
\<open>rules.go\<close>): the reference-counted VIP table, the choice of the interface a VIP is advertised
on, and binding, advertising and releasing VIPs as the state of their cluster instance demands.
Calls to the kernel and to the cloud hook are recorded as actions.\<close>

subsection \<open>State\<close>

record vipElem =
  vip_ref :: int
  pVIP :: IP
  vip_inst :: string
  egr :: bool
  advIf :: string
  advIfSet :: bool

datatype vip_act =
    CloudUpdatePrivateIP IP IP bool
  | AddAddrNoHook string string
  | DelNeighNoHook string
  | vipAdvSend IP string
  | CIAddClusterRoute string bool
  | DelAddrNoHook string string

text \<open>\<open>cloudHook\<close> returns the error, if any; \<open>dumpMainRoutes\<close> is a dump of the
kernel's main routing table, for IPv6 if its argument is true.\<close>

record 'r vip_env =
  vl3 :: "'r l3_env"
  cloudHook :: "(IP \<Rightarrow> IP \<Rightarrow> bool \<Rightarrow> string option) option"
  VIPAdvDev :: string
  VIPAdvRepeat :: int
  portByOSID :: "int \<Rightarrow> string option"
  dumpMainRoutes :: "bool \<Rightarrow> nl_Route list"

record 'r vip_st =
  vipMap :: "(string, vipElem) gomap"
  v_l3 :: "'r l3_st"
  v_acts :: "vip_act list"

abbreviation vhost :: "'r vip_env \<Rightarrow> host_env" where "vhost env \<equiv> l3_host (vl3 env)"

subsection \<open>The interface of a VIP\<close>

text \<open>The dumps one pass shares, per family; a context may be absent.\<close>

record vipAdvCtx =
  dump4 :: "nl_Route list option"
  dump6 :: "nl_Route list option"

definition new_ctx :: vipAdvCtx where "new_ctx = \<lparr> dump4 = None, dump6 = None \<rparr>"

definition mainRoutes :: "'r vip_env \<Rightarrow> vipAdvCtx option \<Rightarrow> bool \<Rightarrow> nl_Route list \<times> vipAdvCtx option" where
  "mainRoutes env ctx v6 = (case ctx of
      None \<Rightarrow> (dumpMainRoutes env v6, None)
    | Some c \<Rightarrow> (case (if v6 then dump6 c else dump4 c) of
        Some rs \<Rightarrow> (rs, Some c)
      | None \<Rightarrow> (let rs = dumpMainRoutes env v6 in
          (rs, Some (if v6 then c \<lparr> dump6 := Some rs \<rparr> else c \<lparr> dump4 := Some rs \<rparr>)))))"

definition ifa_holds :: "host_env \<Rightarrow> IP \<Rightarrow> IfaEnt \<Rightarrow> bool" where
  "ifa_holds h ip e \<longleftrightarrow> \<not> Secondary e \<and>
     (\<not> IsNetIPv4 h (IP_String ip)) = IsNetIPv6 h (IP_String (net_IP (IfaNet e))) \<and> IPNet_Contains (IfaNet e) ip"

definition vipAdvIfaIf :: "'r vip_env \<Rightarrow> L3H \<Rightarrow> IP \<Rightarrow> string" where
  "vipAdvIfaIf env l3 ip =
    (case find (\<lambda>(k, ifa). ifa_Obj ifa \<noteq> ''lo'' \<and> list_ex (ifa_holds (vhost env) ip) (Ifas ifa)) l3 of
       None \<Rightarrow> [] | Some (k, ifa) \<Rightarrow> ifa_Obj ifa)"

definition vipAdvTrieIf :: "'r vip_env \<Rightarrow> 'r \<Rightarrow> IP \<Rightarrow> string" where
  "vipAdvTrieIf env r ip = (case trieFind (vl3 env) ip r of
      None \<Rightarrow> []
    | Some (ones, name) \<Rightarrow> if ones = 0 then [] else name)"

definition beats :: "EgressCand \<Rightarrow> EgressCand \<Rightarrow> bool" where
  "beats c b \<longleftrightarrow> PrefixLen c > PrefixLen b \<or> (PrefixLen c = PrefixLen b \<and> Priority c < Priority b)"

fun pick_from :: "EgressCand list \<Rightarrow> (int \<Rightarrow> bool) \<Rightarrow> nat \<Rightarrow> nat option \<Rightarrow> nat \<Rightarrow> nat option" where
  "pick_from cands isPort i best 0 = best"
| "pick_from cands isPort i best (Suc n) =
    (if \<not> isPort (IfIndex (cands ! i)) then pick_from cands isPort (Suc i) best n
     else (case best of
         None \<Rightarrow> pick_from cands isPort (Suc i) (Some i) n
       | Some b \<Rightarrow> pick_from cands isPort (Suc i) (if beats (cands ! i) (cands ! b) then Some i else best) n))"

text \<open>\<open>None\<close> is the index -1.\<close>

definition pickEgressCand :: "EgressCand list \<Rightarrow> (int \<Rightarrow> bool) \<Rightarrow> nat option" where
  "pickEgressCand cands isPort = pick_from cands isPort 0 None (length cands)"

definition vipAdvMainTableIf :: "'r vip_env \<Rightarrow> IP \<Rightarrow> vipAdvCtx option \<Rightarrow> string \<times> vipAdvCtx option" where
  "vipAdvMainTableIf env ip ctx =
    (let v6 = (\<not> IsNetIPv4 (vhost env) (IP_String ip)); (rs, ctx') = mainRoutes env ctx v6;
         cands = MainTableEgressCands ip rs (InterfaceByIndex (vhost env)) in
     case pickEgressCand cands (\<lambda>i. portByOSID env i \<noteq> None) of
       None \<Rightarrow> ([], ctx') | Some b \<Rightarrow> (IfName (cands ! b), ctx'))"

definition vipAdvConfIf :: "'r vip_env \<Rightarrow> string" where
  "vipAdvConfIf env =
    (if VIPAdvDev env = [] then []
     else if findPort (vl3 env) (VIPAdvDev env) = None then []
     else if \<not> AdvIfUsableByName (vhost env) (VIPAdvDev env) then []
     else VIPAdvDev env)"

text \<open>Resolution without the configured device and the final check.\<close>

definition resolve_if :: "'r vip_env \<Rightarrow> L3H \<Rightarrow> 'r \<Rightarrow> IP \<Rightarrow> vipAdvCtx option \<Rightarrow> string \<times> vipAdvCtx option" where
  "resolve_if env l3 r ip ctx =
    (let v6 = (\<not> IsNetIPv4 (vhost env) (IP_String ip));
         n1 = (if v6 then vipAdvIfaIf env l3 ip else []);
         n2 = (if n1 = [] then vipAdvTrieIf env r ip else n1);
         n3 = (if n2 = [] \<and> \<not> v6 then vipAdvIfaIf env l3 ip else n2) in
     if n3 = [] then vipAdvMainTableIf env ip ctx else (n3, ctx))"

definition VipAdvIf :: "'r vip_env \<Rightarrow> L3H \<Rightarrow> 'r \<Rightarrow> IP \<Rightarrow> vipAdvCtx option \<Rightarrow> string \<times> vipAdvCtx option" where
  "VipAdvIf env l3 r ip ctx =
    (if vipAdvConfIf env \<noteq> [] then (vipAdvConfIf env, ctx)
     else (let (n, ctx') = resolve_if env l3 r ip ctx in
       if n = [] \<or> n = ''lo'' then ([], ctx')
       else if \<not> AdvIfUsableByName (vhost env) n then ([], ctx')
       else (n, ctx')))"

subsection \<open>Binding and advertising\<close>

definition vact :: "vip_act list \<Rightarrow> 'r vip_st \<Rightarrow> 'r vip_st" where
  "vact as st = st \<lparr> v_acts := v_acts st @ as \<rparr>"

definition logVipAdvIf :: "IP \<Rightarrow> string \<Rightarrow> 'r vip_st \<Rightarrow> 'r vip_st" where
  "logVipAdvIf eIP iface st =
    (if eIP = [] then st
     else (case gm_get (vipMap st) (IP_String eIP) of
         None \<Rightarrow> st
       | Some v \<Rightarrow> if advIfSet v \<and> advIf v = iface then st
           else st \<lparr> vipMap := gm_put (IP_String eIP) (v \<lparr> advIf := iface, advIfSet := True \<rparr>) (vipMap st) \<rparr>))"

definition drop_rule_addr :: "'r vip_env \<Rightarrow> IP \<Rightarrow> 'r vip_st \<Rightarrow> 'r vip_st" where
  "drop_rule_addr env ip st =
    (if fst (IfaFindAddr (vl3 env) (fst (v_l3 st)) (rule_dev ip) ip) = 0
     then st \<lparr> v_l3 := snd (IfaDelete (vl3 env) (rule_dev ip) (IPHostCIDRString (vhost env) ip) (v_l3 st)) \<rparr> else st)"

text \<open>The master's part: returns the error of the cloud hook, if any.\<close>

definition adv_master :: "'r vip_env \<Rightarrow> IP \<Rightarrow> IP \<Rightarrow> bool \<Rightarrow> vipAdvCtx option \<Rightarrow> 'r vip_st \<Rightarrow>
    string option \<times> vipAdvCtx option \<times> 'r vip_st" where
  "adv_master env ip eIP egress ctx st =
    (let st1 = drop_rule_addr env ip st;
         (iface, ctx') = VipAdvIf env (fst (v_l3 st1)) (fst (snd (v_l3 st1))) ip ctx;
         st2 = logVipAdvIf eIP iface st1;
         ifname = (if IsNetIPv6 (vhost env) (IP_String ip) then iface else ''lo'');
         bind = (\<not> IsIPHostAddr (vhost env) (IP_String ip) \<and> ifname \<noteq> []);
         err = (if bind then (case cloudHook env of None \<Rightarrow> None | Some h \<Rightarrow> h ip eIP True) else None);
         st3 = (if bind \<and> cloudHook env \<noteq> None then vact [CloudUpdatePrivateIP ip eIP True] st2 else st2) in
     if err \<noteq> None then (err, ctx', st3)
     else (None, ctx', vact
       ((if bind then [AddAddrNoHook (IPHostCIDRString (vhost env) ip) ifname, DelNeighNoHook (IP_String ip)] else []) @
        (if iface \<noteq> [] then [vipAdvSend ip iface] else []) @
        (if egress then [CIAddClusterRoute (IP_String ip) False] else [])) st3))"

definition adv_backup :: "'r vip_env \<Rightarrow> IP \<Rightarrow> bool \<Rightarrow> 'r vip_st \<Rightarrow> 'r vip_st" where
  "adv_backup env ip egress st = vact
     ((if IsIPHostAddr (vhost env) (IP_String ip)
       then [DelAddrNoHook (IPHostCIDRString (vhost env) ip) (if IsNetIPv6 (vhost env) (IP_String ip) then [] else ''lo'')]
       else []) @
      (if egress then [CIAddClusterRoute (IP_String ip) True] else [])) st"

definition adv_undef :: "'r vip_env \<Rightarrow> IP \<Rightarrow> bool \<Rightarrow> 'r vip_st \<Rightarrow> 'r vip_st" where
  "adv_undef env ip egress st =
    (let l3 = fst (v_l3 st);
         st1 = (if snd (IfaAddrLocal (vl3 env) l3 ip) = [] \<and> fst (IfaFindAddr (vl3 env) l3 (rule_dev ip) ip) \<noteq> 0
                then st \<lparr> v_l3 := snd (IfaAdd (vl3 env) (rule_dev ip) (IPHostCIDRString (vhost env) ip) (v_l3 st)) \<rparr>
                else st) in
     vact (if egress then [CIAddClusterRoute (IP_String ip) False] else []) st1)"

definition ci_state :: "CIStateH \<Rightarrow> string \<Rightarrow> string" where
  "ci_state has inst = fst (CIStateGetInst has (if inst = [] then CIDefault else inst))"

definition AdvRuleVIP :: "'r vip_env \<Rightarrow> CIStateH \<Rightarrow> IP \<Rightarrow> IP \<Rightarrow> string \<Rightarrow> bool \<Rightarrow> vipAdvCtx option \<Rightarrow> 'r vip_st \<Rightarrow>
    string option \<times> vipAdvCtx option \<times> 'r vip_st" where
  "AdvRuleVIP env has ip eIP inst egress ctx st =
    (if IP_String ip = ''0.0.0.0'' \<or> IP_String ip = ''::'' then (None, ctx, st)
     else if ci_state has inst = CIMasterStateString then adv_master env ip eIP egress ctx st
     else if ci_state has inst \<noteq> CIUnDefStateString then (None, ctx, adv_backup env ip egress st)
     else (None, ctx, adv_undef env ip egress st))"

subsection \<open>The VIP table\<close>

definition AddRuleVIP :: "'r vip_env \<Rightarrow> CIStateH \<Rightarrow> IP \<Rightarrow> IP \<Rightarrow> string \<Rightarrow> bool \<Rightarrow> 'r vip_st \<Rightarrow> 'r vip_st" where
  "AddRuleVIP env has VIP pvip inst egress st =
    (let v = (case gm_get (vipMap st) (IP_String VIP) of
          None \<Rightarrow> \<lparr> vip_ref = 1, pVIP = pvip, vip_inst = inst, egr = egress, advIf = [], advIfSet = False \<rparr>
        | Some v \<Rightarrow> v \<lparr> vip_ref := vip_ref v + 1 \<rparr>);
         st1 = st \<lparr> vipMap := gm_put (IP_String VIP) v (vipMap st) \<rparr> in
     if vip_ref v = 1 then snd (snd (AdvRuleVIP env has (if pvip = [] then VIP else pvip) VIP inst (egr v) None st1))
     else st1)"

definition DeleteRuleVIP :: "'r vip_env \<Rightarrow> IP \<Rightarrow> 'r vip_st \<Rightarrow> 'r vip_st" where
  "DeleteRuleVIP env VIP st = (case gm_get (vipMap st) (IP_String VIP) of
      None \<Rightarrow> st
    | Some v0 \<Rightarrow>
        (let v = v0 \<lparr> vip_ref := vip_ref v0 - 1 \<rparr>; st1 = st \<lparr> vipMap := gm_put (IP_String VIP) v (vipMap st) \<rparr> in
         if vip_ref v \<noteq> 0 then st1
         else
           (let x = (if pVIP v \<noteq> [] then pVIP v else VIP);
                st2 = (if IsIPHostAddr (vhost env) (IP_String x)
                  then vact (DelAddrNoHook (IPHostCIDRString (vhost env) x) (if IsNetIPv6 (vhost env) (IP_String x) then [] else ''lo'') #
                    (if cloudHook env \<noteq> None then [CloudUpdatePrivateIP x VIP False] else [])) st1
                  else st1);
                st3 = drop_rule_addr env x st2 in
            st3 \<lparr> vipMap := gm_del (IP_String VIP) (vipMap st3) \<rparr>)))"

definition IsIPRuleVIP :: "'r vip_st \<Rightarrow> IP \<Rightarrow> bool" where
  "IsIPRuleVIP st ip \<longleftrightarrow> gm_get (vipMap st) (IP_String ip) \<noteq> None"

text \<open>The address a VIP is bound as, nil if its key does not parse.\<close>

definition vip_addr :: "string \<Rightarrow> vipElem \<Rightarrow> IP" where
  "vip_addr k v = (if pVIP v = [] then ParseIP k else pVIP v)"

text \<open>One pass over VIPs that were read from the table, sharing the context.\<close>

fun adv_vips :: "'r vip_env \<Rightarrow> CIStateH \<Rightarrow> (string \<times> vipElem) list \<Rightarrow> vipAdvCtx option \<Rightarrow> 'r vip_st \<Rightarrow> 'r vip_st" where
  "adv_vips env has [] ctx st = st"
| "adv_vips env has ((k, v) # vs) ctx st =
    (if vip_addr k v = [] then adv_vips env has vs ctx st
     else (let (_, ctx', st') = AdvRuleVIP env has (vip_addr k v) (ParseIP k) (vip_inst v) (egr v) ctx st
           in adv_vips env has vs ctx' st'))"

abbreviation VIPSweepDuration :: int where "VIPSweepDuration \<equiv> 30"

text \<open>The sweep of \<open>RulesSync\<close>, if the last one is more than \<open>VIPSweepDuration\<close> seconds old.\<close>

definition vip_sweep :: "'r vip_env \<Rightarrow> CIStateH \<Rightarrow> int \<Rightarrow> 'r vip_st \<Rightarrow> bool \<times> 'r vip_st" where
  "vip_sweep env has since st =
    (if since > VIPSweepDuration then (True, adv_vips env has (vipMap st) (Some new_ctx) st) else (False, st))"

fun burst_targets :: "'r vip_env \<Rightarrow> string \<Rightarrow> 'r vip_st \<Rightarrow> (string \<times> vipElem) list \<Rightarrow> vipAdvCtx option \<Rightarrow> (IP \<times> string) list" where
  "burst_targets env inst st [] ctx = []"
| "burst_targets env inst st ((k, v) # vs) ctx =
    (let ip = vip_addr k v in
     if vip_inst v \<noteq> inst \<or> ip = [] \<or> IsUnspecified ip then burst_targets env inst st vs ctx
     else (let (iface, ctx') = VipAdvIf env (fst (v_l3 st)) (fst (snd (v_l3 st))) ip ctx in
       if iface = [] then burst_targets env inst st vs ctx' else (ip, iface) # burst_targets env inst st vs ctx'))"

definition vipAdvBurstTargets :: "'r vip_env \<Rightarrow> CIStateH \<Rightarrow> string \<Rightarrow> 'r vip_st \<Rightarrow> (IP \<times> string) list" where
  "vipAdvBurstTargets env has inst st =
    (if fst (CIStateGetInst has inst) \<noteq> CIMasterStateString then []
     else burst_targets env inst st (vipMap st) (Some new_ctx))"

text \<open>What a burst does on a state: stop the running one, or replace it.\<close>

definition vipAdvBurstOnStateLocked :: "'r vip_env \<Rightarrow> CIStateH \<Rightarrow> string \<Rightarrow> nat option" where
  "vipAdvBurstOnStateLocked env has inst =
    (if fst (CIStateGetInst has inst) \<noteq> CIMasterStateString \<or> VIPAdvRepeat env \<le> 0 then None
     else Some (nat (VIPAdvRepeat env)))"

text \<open>The firewall entries are a parameter here: \<open>onDflt\<close> selects those that follow the
default instance; the result lists what is to be done with them.\<close>

definition rulesApplyStateLocked :: "'r vip_env \<Rightarrow> CIStateH \<Rightarrow> string \<Rightarrow> string \<Rightarrow> ('f \<Rightarrow> bool) \<Rightarrow> 'f list \<Rightarrow> 'r vip_st \<Rightarrow>
    (DpWorkT \<times> 'f) list \<times> nat option \<times> 'r vip_st" where
  "rulesApplyStateLocked env has inst state onDflt fws st =
    ((if inst = CIDefault
      then map (Pair (if state \<noteq> CIBackupStateString then DpCreate else DpRemove)) (filter onDflt fws) else []),
     vipAdvBurstOnStateLocked env has inst,
     adv_vips env has (filter (\<lambda>(k, v). vip_inst v = inst) (vipMap st)) (Some new_ctx) st)"

subsection \<open>Choice of an egress\<close>

lemma beats_over:
  assumes "\<not> beats c b" "beats d b"
  shows "\<not> beats c d \<and> beats d c"
  using assms unfolding beats_def by arith

definition best_upto :: "EgressCand list \<Rightarrow> (int \<Rightarrow> bool) \<Rightarrow> nat \<Rightarrow> nat option \<Rightarrow> bool" where
  "best_upto cands isPort i best \<longleftrightarrow> (\<forall>b. best = Some b \<longrightarrow> b < i \<and> isPort (IfIndex (cands ! b))) \<and>
     (\<forall>j < i. isPort (IfIndex (cands ! j)) \<longrightarrow>
        (\<exists>b. best = Some b \<and> \<not> beats (cands ! j) (cands ! b) \<and> (j < b \<longrightarrow> beats (cands ! b) (cands ! j))))"

lemma beats_irrefl: "\<not> beats c c"
  by (simp add: beats_def)

lemma best_upto_skip: "best_upto cands isPort i best \<Longrightarrow> \<not> isPort (IfIndex (cands ! i)) \<Longrightarrow> best_upto cands isPort (Suc i) best"
  by (auto simp: best_upto_def less_Suc_eq)

lemma best_upto_first: "best_upto cands isPort i None \<Longrightarrow> isPort (IfIndex (cands ! i)) \<Longrightarrow> best_upto cands isPort (Suc i) (Some i)"
  by (auto simp: best_upto_def less_Suc_eq beats_irrefl)

lemma best_upto_next:
  assumes "best_upto cands isPort i (Some b)" "isPort (IfIndex (cands ! i))"
  shows "best_upto cands isPort (Suc i) (if beats (cands ! i) (cands ! b) then Some i else Some b)"
proof (cases "beats (cands ! i) (cands ! b)")
  case True
  have "\<not> beats (cands ! j) (cands ! i) \<and> beats (cands ! i) (cands ! j)" if "j < i" "isPort (IfIndex (cands ! j))" for j
    using beats_over [OF _ True] assms(1) that by (auto simp: best_upto_def)
  then show ?thesis using True assms(2) by (auto simp: best_upto_def less_Suc_eq beats_irrefl)
qed (use assms in \<open>auto simp: best_upto_def less_Suc_eq\<close>)

lemma pick_from_best: "best_upto cands isPort i best \<Longrightarrow> best_upto cands isPort (i + n) (pick_from cands isPort i best n)"
proof (induction n arbitrary: i best)
  case (Suc n)
  show ?case using Suc.IH [of "Suc i"] Suc.prems best_upto_skip best_upto_first best_upto_next
    by (cases best) (simp_all del: not_less)
qed simp

text \<open>C34. The egress candidate chosen for a VIP is on a registered port and is the best one there
is: no other candidate on a port has a longer prefix, or the same prefix and a lower priority, and
among equals the first wins.  Nothing is chosen only when no candidate is on a port.\<close>

theorem pick_egress_best:
  "case pickEgressCand cands isPort of
      None \<Rightarrow> filter (isPort \<circ> IfIndex) cands = []
    | Some b \<Rightarrow> b < length cands \<and> isPort (IfIndex (cands ! b)) \<and>
       (\<forall>j < length cands. isPort (IfIndex (cands ! j)) \<longrightarrow>
          \<not> beats (cands ! j) (cands ! b) \<and> (j < b \<longrightarrow> beats (cands ! b) (cands ! j)))"
  using pick_from_best [of cands isPort 0 None "length cands"]
  by (auto simp: pickEgressCand_def best_upto_def filter_empty_conv in_set_conv_nth split: option.splits)

definition sample_cand :: "nat \<Rightarrow> int \<Rightarrow> int \<Rightarrow> EgressCand" where
  "sample_cand l p i = \<lparr> PrefixLen = l, Priority = p, IfIndex = i, IfName = ''eth'' \<rparr>"

theorem pick_egress_best_witness:
  "case pickEgressCand [sample_cand 8 1 3, sample_cand 24 5 2, sample_cand 24 1 3, sample_cand 32 0 9] (\<lambda>i. i < 5) of
     None \<Rightarrow> False | Some b \<Rightarrow> b = 2 \<and> \<not> beats (sample_cand 24 5 2) (sample_cand 24 1 3)"
proof -
  have "pickEgressCand [sample_cand 8 1 3, sample_cand 24 5 2, sample_cand 24 1 3, sample_cand 32 0 9] (\<lambda>i. i < 5) = Some 2"
    by code_simp
  then show ?thesis
    using pick_egress_best [of "\<lambda>i. i < 5" "[sample_cand 8 1 3, sample_cand 24 5 2, sample_cand 24 1 3, sample_cand 32 0 9]"]
    by (auto dest!: spec [of _ 1] simp: sample_cand_def)
qed

subsection \<open>Reference counts\<close>

lemma vact_simps [simp]:
  "vipMap (vact as st) = vipMap st" "v_l3 (vact as st) = v_l3 st" "v_acts (vact as st) = v_acts st @ as"
  by (simp_all add: vact_def)

lemma drop_rule_addr_simps [simp]:
  "vipMap (drop_rule_addr env ip st) = vipMap st" "v_acts (drop_rule_addr env ip st) = v_acts st"
  by (simp_all add: drop_rule_addr_def)

definition vip_refs :: "'r vip_st \<Rightarrow> string \<Rightarrow> int" where
  "vip_refs st k = (case gm_get (vipMap st) k of None \<Rightarrow> 0 | Some v \<Rightarrow> vip_ref v)"

definition vip_present :: "'r vip_st \<Rightarrow> string \<Rightarrow> bool" where
  "vip_present st k \<longleftrightarrow> gm_get (vipMap st) k \<noteq> None"

definition vip_good :: "'r vip_st \<Rightarrow> bool" where
  "vip_good st \<longleftrightarrow> (\<forall>k v. gm_get (vipMap st) k = Some v \<longrightarrow> vip_ref v > 0)"

lemma logVipAdvIf_acts [simp]: "v_acts (logVipAdvIf e i st) = v_acts st"
  by (simp add: logVipAdvIf_def split: option.split)

definition vref_of :: "'r vip_st \<Rightarrow> string \<Rightarrow> int option" where
  "vref_of st k = map_option vip_ref (gm_get (vipMap st) k)"

lemma vref_of_put: "vref_of (st \<lparr> vipMap := gm_put k0 v m \<rparr>) k = (if k = k0 then Some (vip_ref v) else map_option vip_ref (gm_get m k))"
  by (simp add: vref_of_def)

lemma vref_of_same [simp]:
  "vref_of (vact as st) k = vref_of st k" "vref_of (drop_rule_addr env ip st) k = vref_of st k"
  "vref_of (st \<lparr> v_l3 := l \<rparr>) k = vref_of st k"
  by (simp_all add: vref_of_def)

lemma logVipAdvIf_ref [simp]: "vref_of (logVipAdvIf e i st) k = vref_of st k"
  by (auto simp: logVipAdvIf_def vref_of_def split: option.split)

lemma AdvRuleVIP_ref [simp]: "vref_of (snd (snd (AdvRuleVIP env has ip e inst eg ctx st))) k = vref_of st k"
  by (simp add: AdvRuleVIP_def adv_master_def adv_backup_def adv_undef_def Let_def split: prod.split)

lemma vip_refs_alt: "vip_refs st k = (case vref_of st k of None \<Rightarrow> 0 | Some r \<Rightarrow> r)"
  by (simp add: vip_refs_def vref_of_def split: option.split)

lemma vip_good_alt: "vip_good st \<longleftrightarrow> (\<forall>k r. vref_of st k = Some r \<longrightarrow> r > 0)"
  by (auto simp: vip_good_def vref_of_def)

lemma vip_present_alt: "vip_present st k \<longleftrightarrow> vref_of st k \<noteq> None"
  by (simp add: vip_present_def vref_of_def)

lemma AddRuleVIP_ref:
  "vref_of (AddRuleVIP env has VIP p inst eg st) k =
    (if k = IP_String VIP then Some (case vref_of st k of None \<Rightarrow> 1 | Some r \<Rightarrow> r + 1) else vref_of st k)"
  by (simp add: AddRuleVIP_def Let_def vref_of_put split: option.split) (auto simp: vref_of_def)

lemma DeleteRuleVIP_ref:
  "vref_of (DeleteRuleVIP env VIP st) k =
    (if k = IP_String VIP then (case vref_of st k of None \<Rightarrow> None | Some r \<Rightarrow> if r = 1 then None else Some (r - 1))
     else vref_of st k)"
  by (simp add: DeleteRuleVIP_def Let_def vref_of_def split: option.split)

text \<open>Users name a VIP by its key; \<open>ip_of\<close> is the address they pass, whose text is the key.\<close>

definition vip_valid :: "(string \<Rightarrow> IP) \<Rightarrow> string \<Rightarrow> bool" where
  "vip_valid ip_of k \<longleftrightarrow> IP_String (ip_of k) = k"

definition vip_acquire :: "'r vip_env \<Rightarrow> CIStateH \<Rightarrow> (string \<Rightarrow> IP) \<Rightarrow> IP \<Rightarrow> string \<Rightarrow> bool \<Rightarrow> string \<Rightarrow> 'r vip_st \<Rightarrow> 'r vip_st" where
  "vip_acquire env has ip_of p inst eg k st = AddRuleVIP env has (ip_of k) p inst eg st"

definition vip_release :: "'r vip_env \<Rightarrow> (string \<Rightarrow> IP) \<Rightarrow> string \<Rightarrow> 'r vip_st \<Rightarrow> 'r vip_st" where
  "vip_release env ip_of k st = DeleteRuleVIP env (ip_of k) st"

interpretation vips: ref_table "vip_acquire env has ip_of p inst eg" "vip_release env ip_of" vip_refs vip_present vip_good
  "vip_valid ip_of" for env has ip_of p inst eg
proof unfold_locales
  fix st :: "'a vip_st" and k k'
  assume g: "vip_good st" and v: "vip_valid ip_of k"
  have acq: "vref_of (vip_acquire env has ip_of p inst eg k st) k' =
      (if k' = k then Some (vip_refs st k + 1) else vref_of st k')" for k'
    using v by (simp add: vip_acquire_def AddRuleVIP_ref vip_valid_def vip_refs_alt split: option.split)
  have rel: "vref_of (vip_release env ip_of k st) k' =
      (if k' = k then (if vip_refs st k = 1 then None else Some (vip_refs st k - 1)) else vref_of st k')"
    if "0 < vip_refs st k" for k'
    using that v by (simp add: vip_release_def DeleteRuleVIP_ref vip_valid_def vip_refs_alt split: option.splits)
  show nn: "0 \<le> vip_refs st k" using g by (simp add: vip_refs_alt vip_good_alt order_less_imp_le split: option.split)
  show "vip_refs (vip_acquire env has ip_of p inst eg k st) k' = vip_refs st k' + (if k' = k then 1 else 0)"
    using acq by (simp add: vip_refs_alt)
  show "vip_good (vip_acquire env has ip_of p inst eg k st)"
    using g nn by (simp add: vip_good_alt acq)
  show "vip_refs (vip_release env ip_of k st) k' = vip_refs st k' - (if k' = k then 1 else 0)" if "0 < vip_refs st k"
    using rel [OF that] by (simp add: vip_refs_alt)
  show "vip_good (vip_release env ip_of k st)" if "0 < vip_refs st k"
    using g that rel [OF that] by (simp add: vip_good_alt)
  show "vip_present st k \<longleftrightarrow> 0 < vip_refs st k"
    using g by (auto simp: vip_present_alt vip_refs_alt vip_good_alt split: option.splits)
qed

definition no_vips :: "'r l3_st \<Rightarrow> 'r vip_st" where
  "no_vips l = \<lparr> vipMap = [], v_l3 = l, v_acts = [] \<rparr>"


definition quiet_vips :: "IPNet list vip_env" where
  "quiet_vips = \<lparr> vl3 = quiet_l3, cloudHook = None, VIPAdvDev = [], VIPAdvRepeat = 0, portByOSID = (\<lambda>_. None),
     dumpMainRoutes = (\<lambda>_. []) \<rparr>"


subsection \<open>Who claims a VIP\<close>

definition claims :: "'r vip_env \<Rightarrow> IP \<Rightarrow> vip_act \<Rightarrow> bool" where
  "claims env ip a = (case a of
      vipAdvSend x i \<Rightarrow> x = ip
    | AddAddrNoHook c i \<Rightarrow> c = IPHostCIDRString (vhost env) ip
    | CloudUpdatePrivateIP x e add \<Rightarrow> x = ip \<and> add
    | _ \<Rightarrow> False)"

definition claiming :: "vip_act \<Rightarrow> bool" where
  "claiming a = (case a of vipAdvSend x i \<Rightarrow> True | AddAddrNoHook c i \<Rightarrow> True | CloudUpdatePrivateIP x e add \<Rightarrow> add | _ \<Rightarrow> False)"

lemma AdvRuleVIP_acts:
  "\<exists>as. v_acts (snd (snd (AdvRuleVIP env has ip e inst eg ctx st))) = v_acts st @ as \<and>
    (\<forall>a \<in> set as. claiming a \<longrightarrow> claims env ip a \<and> ci_state has inst = CIMasterStateString)"
  by (auto simp: AdvRuleVIP_def adv_master_def adv_backup_def adv_undef_def Let_def claiming_def claims_def
      split: prod.split)

lemma AdvRuleVIP_binds:
  assumes "ci_state has inst = CIMasterStateString" "cloudHook env = None" "\<not> IsNetIPv6 (vhost env) (IP_String ip)"
    "\<not> IsIPHostAddr (vhost env) (IP_String ip)" "IP_String ip \<noteq> ''0.0.0.0''" "IP_String ip \<noteq> ''::''"
  shows "AddAddrNoHook (IPHostCIDRString (vhost env) ip) ''lo'' \<in> set (v_acts (snd (snd (AdvRuleVIP env has ip e inst eg ctx st))))"
  using assms by (simp add: AdvRuleVIP_def adv_master_def Let_def split: prod.split)

lemma adv_vips_acts:
  "\<exists>as. v_acts (adv_vips env has vs ctx st) = v_acts st @ as \<and>
    (\<forall>a \<in> set as. claiming a \<longrightarrow>
      (\<exists>(k, v) \<in> set vs. claims env (vip_addr k v) a \<and> ci_state has (vip_inst v) = CIMasterStateString))"
proof (induction vs arbitrary: ctx st)
  case (Cons x vs)
  obtain k v where x: "x = (k, v)" by (cases x)
  show ?case
  proof (cases "vip_addr k v = []")
    case True
    then show ?thesis using Cons.IH [of ctx st] by (simp add: x) fastforce
  next
    case False
    define r where "r = AdvRuleVIP env has (vip_addr k v) (ParseIP k) (vip_inst v) (egr v) ctx st"
    obtain as where as: "v_acts (snd (snd r)) = v_acts st @ as"
      "\<forall>a \<in> set as. claiming a \<longrightarrow> claims env (vip_addr k v) a \<and> ci_state has (vip_inst v) = CIMasterStateString"
      using AdvRuleVIP_acts unfolding r_def by meson
    obtain bs where bs: "v_acts (adv_vips env has vs (fst (snd r)) (snd (snd r))) = v_acts (snd (snd r)) @ bs"
      "\<forall>a \<in> set bs. claiming a \<longrightarrow>
        (\<exists>(k, v) \<in> set vs. claims env (vip_addr k v) a \<and> ci_state has (vip_inst v) = CIMasterStateString)"
      using Cons.IH by meson
    have "adv_vips env has (x # vs) ctx st = adv_vips env has vs (fst (snd r)) (snd (snd r))"
      using False by (simp add: x r_def [symmetric] split: prod.split)
    then have e: "v_acts (adv_vips env has (x # vs) ctx st) = v_acts st @ as @ bs" using bs(1) as(1) by simp
    have "\<exists>(k, v) \<in> set (x # vs). claims env (vip_addr k v) a \<and> ci_state has (vip_inst v) = CIMasterStateString"
      if "a \<in> set (as @ bs)" "claiming a" for a
      using that as(2) bs(2) unfolding x by auto
    with e show ?thesis by blast
  qed
qed simp

lemma adv_vips_binds:
  assumes "(k, v) \<in> set vs" "vip_addr k v = ip" "ip \<noteq> []"
    "ci_state has (vip_inst v) = CIMasterStateString" "cloudHook env = None" "\<not> IsNetIPv6 (vhost env) (IP_String ip)"
    "\<not> IsIPHostAddr (vhost env) (IP_String ip)" "IP_String ip \<noteq> ''0.0.0.0''" "IP_String ip \<noteq> ''::''"
  shows "AddAddrNoHook (IPHostCIDRString (vhost env) ip) ''lo'' \<in> set (v_acts (adv_vips env has vs ctx st))"
  using assms(1)
proof (induction vs arbitrary: ctx st)
  case (Cons x vs)
  obtain k' v' where x: "x = (k', v')" by (cases x)
  define r where "r = AdvRuleVIP env has (vip_addr k' v') (ParseIP k') (vip_inst v') (egr v') ctx st"
  have e: "adv_vips env has (x # vs) ctx st =
      (if vip_addr k' v' = [] then adv_vips env has vs ctx st else adv_vips env has vs (fst (snd r)) (snd (snd r)))"
    by (simp add: x r_def [symmetric] split: prod.split)
  show ?case
  proof (cases "x = (k, v)")
    case True
    then have "AddAddrNoHook (IPHostCIDRString (vhost env) ip) ''lo'' \<in> set (v_acts (snd (snd r)))"
      using AdvRuleVIP_binds [OF assms(4-9)] assms(2) x unfolding r_def by simp
    then show ?thesis using adv_vips_acts [of env has vs "fst (snd r)" "snd (snd r)"] e True x assms(2,3) by auto
  next
    case False
    then show ?thesis using Cons.IH Cons.prems unfolding e by simp
  qed
qed simp

text \<open>C33. Applying a cluster state claims VIPs for masters only, and for masters it does: whatever a
pass over the VIPs of an instance binds, advertises or requests from the cloud belongs to a VIP of
that instance whose instance is master; and when the instance is master and there is no cloud hook,
every IPv4 VIP of it that the host does not have yet is bound to the loopback interface.  The burst of
repeated advertisements is armed only for a master.\<close>

theorem vip_claims_master:
  assumes "rulesApplyStateLocked env has inst state onDflt fws st = (ws, burst, st')" "inst \<noteq> []"
  shows "(\<exists>as. v_acts st' = v_acts st @ as \<and>
      (\<forall>a \<in> set as. claiming a \<longrightarrow> fst (CIStateGetInst has inst) = CIMasterStateString \<and>
        (\<exists>(k, v) \<in> set (vipMap st). claims env (vip_addr k v) a \<and> vip_inst v = inst))) \<and>
    (burst \<noteq> None \<longrightarrow> fst (CIStateGetInst has inst) = CIMasterStateString) \<and>
    (\<forall>(k, v) \<in> set (vipMap st). vip_inst v = inst \<and> vip_addr k v = ip \<and> ip \<noteq> [] \<and>
      fst (CIStateGetInst has inst) = CIMasterStateString \<and> cloudHook env = None \<and>
      \<not> IsNetIPv6 (vhost env) (IP_String ip) \<and> \<not> IsIPHostAddr (vhost env) (IP_String ip) \<and>
      IP_String ip \<noteq> ''0.0.0.0'' \<and> IP_String ip \<noteq> ''::'' \<longrightarrow>
      AddAddrNoHook (IPHostCIDRString (vhost env) ip) ''lo'' \<in> set (v_acts st'))"
proof -
  let ?vs = "filter (\<lambda>(k, v). vip_inst v = inst) (vipMap st)"
  have st': "st' = adv_vips env has ?vs (Some new_ctx) st" and b: "burst = vipAdvBurstOnStateLocked env has inst"
    using assms(1) by (simp_all add: rulesApplyStateLocked_def)
  have ci: "ci_state has inst = fst (CIStateGetInst has inst)" using assms(2) by (simp add: ci_state_def)
  obtain as where as: "v_acts st' = v_acts st @ as" "\<forall>a \<in> set as. claiming a \<longrightarrow>
      (\<exists>(k, v) \<in> set ?vs. claims env (vip_addr k v) a \<and> ci_state has (vip_inst v) = CIMasterStateString)"
    using adv_vips_acts [of env has ?vs "Some new_ctx" st] unfolding st' by blast
  have "fst (CIStateGetInst has inst) = CIMasterStateString \<and>
      (\<exists>(k, v) \<in> set (vipMap st). claims env (vip_addr k v) a \<and> vip_inst v = inst)"
    if "a \<in> set as" "claiming a" for a
    using as(2) that ci by fastforce
  moreover have "burst \<noteq> None \<longrightarrow> fst (CIStateGetInst has inst) = CIMasterStateString"
    by (simp add: b vipAdvBurstOnStateLocked_def)
  moreover have "AddAddrNoHook (IPHostCIDRString (vhost env) ip) ''lo'' \<in> set (v_acts st')"
    if "(k, v) \<in> set (vipMap st)" "vip_inst v = inst" "vip_addr k v = ip" "ip \<noteq> []"
      "fst (CIStateGetInst has inst) = CIMasterStateString" "cloudHook env = None"
      "\<not> IsNetIPv6 (vhost env) (IP_String ip)" "\<not> IsIPHostAddr (vhost env) (IP_String ip)"
      "IP_String ip \<noteq> ''0.0.0.0''" "IP_String ip \<noteq> ''::''" for k v
    unfolding st' by (rule adv_vips_binds [of k v]) (use that ci in auto)
  ultimately show ?thesis using as(1) by blast
qed

definition master_has :: CIStateH where
  "master_has = snd (snd (snd (CIStateUpdate \<lparr> hm_Instance = CIDefault, hm_State = CIMasterStateString, hm_Vip = [] \<rparr> (CIInit False [] [] 0))))"

definition sample_vip :: "IPNet list vip_st" where
  "sample_vip = \<lparr> vipMap = [(''20.0.0.1'', \<lparr> vip_ref = 1, pVIP = [], vip_inst = CIDefault, egr = False, advIf = [], advIfSet = False \<rparr>)],
     v_l3 = ([], [], []), v_acts = [] \<rparr>"

theorem vip_claims_master_witness:
  "AddAddrNoHook ''20.0.0.1/32'' ''lo'' \<in> set (v_acts (snd (snd (rulesApplyStateLocked quiet_vips master_has CIDefault
     CIMasterStateString (\<lambda>_. False) ([] :: nat list) sample_vip))))"
proof -
  obtain ws b st' where r: "rulesApplyStateLocked quiet_vips master_has CIDefault CIMasterStateString (\<lambda>_. False) ([] :: nat list) sample_vip = (ws, b, st')"
    by (metis prod_cases3)
  have m: "fst (CIStateGetInst master_has CIDefault) = CIMasterStateString" by code_simp
  have a: "ParseIP ''20.0.0.1'' = IPv4 20 0 0 1" "IP_String (IPv4 20 0 0 1) = ''20.0.0.1''" "IPv4 20 0 0 1 \<noteq> []"
    "IPHostCIDRString quiet_host (IPv4 20 0 0 1) = ''20.0.0.1/32''"
    by code_simp+
  have h: "cloudHook quiet_vips = None" "vhost quiet_vips = quiet_host" "\<not> IsNetIPv6 quiet_host x" "\<not> IsIPHostAddr quiet_host x" for x
    by (simp_all add: quiet_vips_def quiet_l3_def quiet_host_def IsIPHostAddr_def)
  show ?thesis unfolding r
    using vip_claims_master [OF r, of "IPv4 20 0 0 1"] m a h by (simp add: sample_vip_def vip_addr_def CIDefault_def)
qed

end
