(* ===== verification/VipBurst.thy ===== *)
theory VipBurst
  imports Vips
begin

text \<open>Repeated advertisements of a master (\<open>vipadv.go\<close>, \<open>vipAdvBurstSched\<close>):
every observation of the state of a cluster instance replaces the burst that runs for it.  A burst is
a goroutine of its own; the steps below interleave the observations with the steps of all bursts.\<close>

subsection \<open>State\<close>

record burst =
  b_inst :: string
  b_left :: nat
  b_queue :: "(IP \<times> string) list"
  b_cancelled :: bool
  b_done :: bool

text \<open>A burst is named by its index in \<open>b_procs\<close>.  \<open>b_seen\<close> is the state of an
instance at its last observation (is it master), and \<open>b_sent\<close> the advertisements sent, for
the statements only.\<close>

record burst_sys =
  b_active :: "(string, nat) gomap"
  b_procs :: "burst list"
  b_seen :: "string \<Rightarrow> bool"
  b_sent :: "(nat \<times> IP \<times> string) list"

definition no_bursts :: burst_sys where
  "no_bursts = \<lparr> b_active = [], b_procs = [], b_seen = (\<lambda>_. False), b_sent = [] \<rparr>"

definition cancel :: "nat \<Rightarrow> burst_sys \<Rightarrow> burst_sys" where
  "cancel i s = s \<lparr> b_procs := (b_procs s)[i := (b_procs s ! i) \<lparr> b_cancelled := True \<rparr>] \<rparr>"

definition stop_old :: "string \<Rightarrow> burst_sys \<Rightarrow> burst_sys" where
  "stop_old inst s = (case gm_get (b_active s) inst of
      None \<Rightarrow> s
    | Some i \<Rightarrow> (cancel i s) \<lparr> b_active := gm_del inst (b_active s) \<rparr>)"

text \<open>\<open>run\<close> is the number of repeats of the burst to start, if any.\<close>

definition arm :: "string \<Rightarrow> nat option \<Rightarrow> burst_sys \<Rightarrow> burst_sys" where
  "arm inst run s0 = (let s = stop_old inst s0 in
     case run of
       None \<Rightarrow> s
     | Some n \<Rightarrow> s \<lparr> b_active := gm_put inst (length (b_procs s)) (b_active s),
         b_procs := b_procs s @ [\<lparr> b_inst = inst, b_left = n, b_queue = [], b_cancelled = False, b_done = False \<rparr>] \<rparr>)"

text \<open>The deferred clean-up when the goroutine returns.\<close>

definition finish :: "nat \<Rightarrow> burst_sys \<Rightarrow> burst_sys" where
  "finish i s =
    (let p = b_procs s ! i in
     s \<lparr> b_procs := (b_procs s)[i := p \<lparr> b_cancelled := True, b_done := True \<rparr>],
         b_active := (if gm_get (b_active s) (b_inst p) = Some i then gm_del (b_inst p) (b_active s) else b_active s) \<rparr>)"

definition runs :: "burst_sys \<Rightarrow> nat \<Rightarrow> bool" where
  "runs s i \<longleftrightarrow> i < length (b_procs s) \<and> \<not> b_done (b_procs s ! i)"

text \<open>The steps: an observation under the lock; a timer that fires, upon which the targets are
resolved under the lock (when a burst is cancelled and its timer has fired, either may be taken); a
send, which first tests for cancellation; and the end of the loop.\<close>

inductive burst_step :: "'r vip_env \<Rightarrow> burst_sys \<Rightarrow> burst_sys \<Rightarrow> bool" for env :: "'r vip_env" where
  observe: "burst_step env s ((arm inst (vipAdvBurstOnStateLocked env has inst) s)
     \<lparr> b_seen := (b_seen s) (inst := (fst (CIStateGetInst has inst) = CIMasterStateString)) \<rparr>)"
| tick: "runs s i \<Longrightarrow> p = b_procs s ! i \<Longrightarrow> b_queue p = [] \<Longrightarrow> b_left p = Suc n \<Longrightarrow>
    ts = vipAdvBurstTargets env has (b_inst p) st \<Longrightarrow>
    burst_step env s (if ts = [] then finish i s
      else s \<lparr> b_procs := (b_procs s)[i := p \<lparr> b_queue := ts, b_left := n \<rparr>] \<rparr>)"
| send: "runs s i \<Longrightarrow> p = b_procs s ! i \<Longrightarrow> b_queue p = t # q \<Longrightarrow>
    burst_step env s (if b_cancelled p then finish i s
      else s \<lparr> b_procs := (b_procs s)[i := p \<lparr> b_queue := q \<rparr>], b_sent := b_sent s @ [(i, t)] \<rparr>)"
| leave: "runs s i \<Longrightarrow> b_queue (b_procs s ! i) = [] \<Longrightarrow> b_left (b_procs s ! i) = 0 \<or> b_cancelled (b_procs s ! i) \<Longrightarrow>
    burst_step env s (finish i s)"

inductive burst_reach :: "'r vip_env \<Rightarrow> burst_sys \<Rightarrow> bool" for env :: "'r vip_env" where
  start: "burst_reach env no_bursts"
| next_step: "burst_reach env s \<Longrightarrow> burst_step env s s' \<Longrightarrow> burst_reach env s'"

inductive_cases burst_stepE: "burst_step env s s'"

subsection \<open>Invariant\<close>

definition live :: "burst_sys \<Rightarrow> nat \<Rightarrow> bool" where
  "live s i \<longleftrightarrow> runs s i \<and> \<not> b_cancelled (b_procs s ! i)"

definition burst_inv :: "burst_sys \<Rightarrow> bool" where
  "burst_inv s \<longleftrightarrow>
    (\<forall>inst i. gm_get (b_active s) inst = Some i \<longrightarrow> live s i \<and> b_inst (b_procs s ! i) = inst \<and> b_seen s inst) \<and>
    (\<forall>i. live s i \<longrightarrow> gm_get (b_active s) (b_inst (b_procs s ! i)) = Some i)"

lemma burst_invI:
  assumes "\<And>inst i. gm_get (b_active s) inst = Some i \<Longrightarrow> live s i \<and> b_inst (b_procs s ! i) = inst \<and> b_seen s inst"
    "\<And>i. live s i \<Longrightarrow> gm_get (b_active s) (b_inst (b_procs s ! i)) = Some i"
  shows "burst_inv s"
  using assms by (simp add: burst_inv_def)

lemma burst_invD:
  assumes "burst_inv s"
  shows "gm_get (b_active s) inst = Some i \<Longrightarrow> live s i \<and> b_inst (b_procs s ! i) = inst \<and> b_seen s inst"
    and "live s i \<Longrightarrow> gm_get (b_active s) (b_inst (b_procs s ! i)) = Some i"
  using assms by (simp_all add: burst_inv_def)

lemma live_stop_old:
  assumes "burst_inv s"
  shows "live (stop_old inst s) j \<longleftrightarrow> live s j \<and> b_inst (b_procs s ! j) \<noteq> inst"
proof (cases "gm_get (b_active s) inst")
  case None
  then show ?thesis using burst_invD(2) [OF assms, of j] by (auto simp: stop_old_def)
next
  case (Some i)
  then have i: "live s i" "b_inst (b_procs s ! i) = inst" using burst_invD(1) [OF assms] by auto
  have "j = i" if "live s j" "b_inst (b_procs s ! j) = inst" using burst_invD(2) [OF assms that(1)] that(2) Some by simp
  then show ?thesis using i Some
    by (cases "j = i") (auto simp: stop_old_def cancel_def live_def runs_def)
qed

lemma nth_update_keep: "f y = f (xs ! a) \<Longrightarrow> f (xs[a := y] ! j) = f (xs ! j)"
  by (cases "a < length xs"; cases "a = j") (auto simp: list_update_beyond)

lemma stop_old_inst [simp]: "b_inst (b_procs (stop_old inst s) ! j) = b_inst (b_procs s ! j)"
  by (simp add: stop_old_def cancel_def nth_update_keep split: option.split)

lemma stop_old_seen [simp]: "b_seen (stop_old inst s) = b_seen s"
  by (simp add: stop_old_def cancel_def split: option.split)

lemma stop_old_active: "gm_get (b_active (stop_old inst s)) k = (if k = inst then None else gm_get (b_active s) k)"
  by (simp add: stop_old_def split: option.split)

lemma stop_old_inv: "burst_inv s \<Longrightarrow> burst_inv (stop_old inst s)"
  by (rule burst_invI) (auto simp: stop_old_active live_stop_old dest: burst_invD split: if_splits)

lemma started_inv:
  assumes i1: "burst_inv s1" and no: "\<And>j. live s1 j \<Longrightarrow> b_inst (b_procs s1 ! j) \<noteq> inst"
    and t: "b_active t = gm_put inst (length (b_procs s1)) (b_active s1)" "b_seen t = (b_seen s1) (inst := True)"
      "b_procs t = b_procs s1 @ [\<lparr> b_inst = inst, b_left = n, b_queue = [], b_cancelled = False, b_done = False \<rparr>]"
  shows "burst_inv t"
proof -
  let ?n = "length (b_procs s1)"
  have l: "live t i \<longleftrightarrow> i = ?n \<or> live s1 i" for i
    unfolding live_def runs_def t by (auto simp: nth_append less_Suc_eq)
  have p: "b_inst (b_procs t ! i) = (if i = ?n then inst else b_inst (b_procs s1 ! i))" if "live t i" for i
    using that unfolding l t by (auto simp: nth_append live_def runs_def)
  have lt: "i \<noteq> ?n" if "live s1 i" for i using that by (auto simp: live_def runs_def)
  show ?thesis
  proof (rule burst_invI)
    show "live t i \<and> b_inst (b_procs t ! i) = k \<and> b_seen t k" if g: "gm_get (b_active t) k = Some i" for k i
    proof (cases "k = inst")
      case False
      then have "gm_get (b_active s1) k = Some i" using g unfolding t by simp
      from burst_invD(1) [OF i1 this] show ?thesis using False l [of i] p [of i] lt by (simp add: t(2))
    qed (use g l p in \<open>simp add: t(1,2)\<close>)
    show "gm_get (b_active t) (b_inst (b_procs t ! i)) = Some i" if li: "live t i" for i
      using l [of i] li p [OF li] burst_invD(2) [OF i1] no lt by (auto simp: t(1))
  qed
qed

lemma observe_inv:
  assumes "burst_inv s"
  shows "burst_inv ((arm inst (vipAdvBurstOnStateLocked env has inst) s)
     \<lparr> b_seen := (b_seen s) (inst := (fst (CIStateGetInst has inst) = CIMasterStateString)) \<rparr>)" (is "burst_inv ?t")
proof -
  let ?s = "stop_old inst s"
  have i1: "burst_inv ?s" by (rule stop_old_inv [OF assms])
  have no: "b_inst (b_procs ?s ! j) \<noteq> inst" if "live ?s j" for j using that assms by (simp add: live_stop_old)
  show ?thesis
  proof (cases "vipAdvBurstOnStateLocked env has inst")
    case None
    then have t: "?t = ?s \<lparr> b_seen := (b_seen s) (inst := (fst (CIStateGetInst has inst) = CIMasterStateString)) \<rparr>"
      by (simp add: arm_def Let_def)
    have l: "live ?t i \<longleftrightarrow> live ?s i" for i unfolding t by (simp add: live_def runs_def)
    show ?thesis
      by (rule burst_invI; unfold l; unfold t; use burst_invD [OF i1] stop_old_active [of inst s] in \<open>auto split: if_splits\<close>)
  next
    case (Some n)
    then have "fst (CIStateGetInst has inst) = CIMasterStateString"
      by (simp add: vipAdvBurstOnStateLocked_def split: if_splits)
    then show ?thesis using Some by (intro started_inv [OF i1 no, where n = n]) (simp_all add: arm_def Let_def)
  qed
qed

lemma finish_inv:
  assumes "burst_inv s" "runs s i"
  shows "burst_inv (finish i s)"
proof -
  let ?inst = "b_inst (b_procs s ! i)"
  have l: "live (finish i s) j \<longleftrightarrow> live s j \<and> j \<noteq> i" for j
    using assms(2) by (cases "j = i") (auto simp: live_def runs_def finish_def Let_def)
  have b: "b_inst (b_procs (finish i s) ! j) = b_inst (b_procs s ! j)" for j
    by (simp add: finish_def Let_def nth_update_keep)
  have a: "gm_get (b_active (finish i s)) k = (if k = ?inst \<and> gm_get (b_active s) ?inst = Some i then None else gm_get (b_active s) k)" for k
    by (simp add: finish_def Let_def)
  have sn: "b_seen (finish i s) = b_seen s" by (simp add: finish_def Let_def)
  show ?thesis
  proof (rule burst_invI)
    fix k j assume "gm_get (b_active (finish i s)) k = Some j"
    then have g: "gm_get (b_active s) k = Some j" "\<not> (k = ?inst \<and> gm_get (b_active s) ?inst = Some i)"
      unfolding a by (auto split: if_splits)
    note d = burst_invD(1) [OF assms(1) g(1)]
    have "j \<noteq> i" using g d by auto
    then show "live (finish i s) j \<and> b_inst (b_procs (finish i s) ! j) = k \<and> b_seen (finish i s) k"
      using d unfolding l b sn by simp
  next
    fix j assume "live (finish i s) j"
    then have j: "live s j" "j \<noteq> i" unfolding l by simp_all
    have g: "gm_get (b_active s) (b_inst (b_procs s ! j)) = Some j" by (rule burst_invD(2) [OF assms(1) j(1)])
    then show "gm_get (b_active (finish i s)) (b_inst (b_procs (finish i s) ! j)) = Some j"
      using j(2) unfolding a b by auto
  qed
qed

lemma update_inv:
  assumes "burst_inv s" "b_inst q = b_inst (b_procs s ! i)" "b_cancelled q = b_cancelled (b_procs s ! i)"
    "b_done q = b_done (b_procs s ! i)"
    and "b_active t = b_active s" "b_procs t = (b_procs s)[i := q]" "b_seen t = b_seen s"
  shows "burst_inv t"
proof -
  have l: "live t j \<longleftrightarrow> live s j" for j
    unfolding live_def runs_def assms(6)
    using nth_update_keep [of b_done q "b_procs s" i j] nth_update_keep [of b_cancelled q "b_procs s" i j] assms(3,4) by simp
  have b: "b_inst (b_procs t ! j) = b_inst (b_procs s ! j)" for j
    unfolding assms(6) by (rule nth_update_keep) (rule assms(2))
  show ?thesis by (rule burst_invI; unfold l b assms(5,7); use burst_invD [OF assms(1)] in blast)
qed

lemma burst_step_inv: "burst_step env s s' \<Longrightarrow> burst_inv s \<Longrightarrow> burst_inv s'"
proof (induction rule: burst_step.induct)
  case (observe s inst has)
  then show ?case by (rule observe_inv)
next
  case (tick s i p n ts has st)
  have "burst_inv (s \<lparr> b_procs := (b_procs s)[i := p \<lparr> b_queue := ts, b_left := n \<rparr>] \<rparr>)"
    by (rule update_inv [OF tick(6)]) (simp_all add: tick(2))
  then show ?case using finish_inv [OF tick(6,1)] by simp
next
  case (send s i p t q)
  have "burst_inv (s \<lparr> b_procs := (b_procs s)[i := p \<lparr> b_queue := q \<rparr>], b_sent := b_sent s @ [(i, t)] \<rparr>)"
    by (rule update_inv [OF send(4)]) (simp_all add: send(2))
  then show ?case using finish_inv [OF send(4,1)] by simp
next
  case (leave s i)
  then show ?case by (simp add: finish_inv)
qed

lemma burst_reach_inv: "burst_reach env s \<Longrightarrow> burst_inv s"
proof (induction rule: burst_reach.induct)
  case start
  then show ?case by (simp add: burst_inv_def no_bursts_def live_def runs_def)
next
  case (next_step s s')
  then show ?case using burst_step_inv by blast
qed

lemma sent_same [simp]: "b_sent (finish i s) = b_sent s" "b_sent (arm inst run s) = b_sent s"
  by (simp_all add: finish_def arm_def stop_old_def cancel_def Let_def split: option.split)

lemma sends_live:
  assumes "burst_step env s s'" "b_sent s' = b_sent s @ [(i, t)]"
  shows "live s i"
  using assms(1)
proof (cases rule: burst_step.cases)
  case (send j p u q)
  then have "\<not> b_cancelled p" using assms(2) by auto
  then show ?thesis using send assms(2) by (simp add: live_def)
qed (use assms(2) in \<open>simp_all split: if_splits\<close>)


definition adv_env :: "IPNet list vip_env" where
  "adv_env = quiet_vips \<lparr> VIPAdvDev := ''eth0'', VIPAdvRepeat := 1,
     vl3 := quiet_l3 \<lparr> findPort := \<lambda>_. Some \<lparr> pv_OsID = 2, pv_Mac = replicate 6 0, pv_PortNo = 2, pv_VxlanBr = False, pv_Real = None, pv_TunID = 0, pv_Vid = 0 \<rparr>,
       l3_host := quiet_host \<lparr> InterfaceByName := \<lambda>_. Some \<lparr> if_Index = 2, if_Name = ''eth0'', if_Flags = 1, if_HardwareAddr = replicate 6 0, if_Addrs = None \<rparr> \<rparr> \<rparr> \<rparr>"

definition armed :: burst_sys where
  "armed = \<lparr> b_active = [(CIDefault, 0)],
     b_procs = [\<lparr> b_inst = CIDefault, b_left = 1, b_queue = [], b_cancelled = False, b_done = False \<rparr>],
     b_seen = (\<lambda>_. False) (CIDefault := True), b_sent = [] \<rparr>"

definition loaded :: burst_sys where
  "loaded = armed \<lparr> b_procs := [\<lparr> b_inst = CIDefault, b_left = 0, b_queue = [(IPv4 20 0 0 1, ''eth0'')], b_cancelled = False, b_done = False \<rparr>] \<rparr>"

lemma armed_reach: "burst_reach adv_env armed"
proof -
  have m: "fst (CIStateGetInst master_has CIDefault) = CIMasterStateString" by code_simp
  have v: "VIPAdvRepeat adv_env = 1" by (simp add: adv_env_def)
  have "burst_step adv_env no_bursts armed"
    using burst_step.observe [of adv_env no_bursts CIDefault master_has]
    by (simp add: m v vipAdvBurstOnStateLocked_def arm_def stop_old_def no_bursts_def armed_def)
  then show ?thesis using burst_reach.intros by blast
qed

lemma loaded_reach: "burst_reach adv_env loaded"
proof -
  have t: "vipAdvBurstTargets adv_env master_has CIDefault sample_vip = [(IPv4 20 0 0 1, ''eth0'')]" by code_simp
  have "burst_step adv_env armed loaded"
    using burst_step.tick [of armed 0 _ 0 _ adv_env master_has sample_vip]
    by (simp add: runs_def t armed_def loaded_def)
  then show ?thesis using armed_reach burst_reach.intros by blast
qed


end
