(* ===== verification/RuleState.thy ===== *)
theory RuleState
  imports EpHosts VipBurst RuleKey IdMarker
begin

text \<open>The state of the rule subsystem (\<open>rules.go\<close>, \<open>RuleH\<close>) and the types of
the API calls that change it (\<open>common.go\<close>).  The tables that have theories of their own,
VIPs and end-point hosts, are components of the state; what goes to the data path is appended to a
log of events in the order of the calls.\<close>

subsection \<open>Arguments of the API\<close>

text \<open>Values outside the listed constants are kept by the last constructor.\<close>

datatype EpSelect = LbSelRr | LbSelHash | LbSelPrio | LbSelRrPersist | LbSelLeastConnections | LbSelN2 | LbSelN3
  | LbSelOther nat

datatype LBMode = LBModeDefault | LBModeOneArm | LBModeFullNAT | LBModeDSR | LBModeFullProxy | LBModeHostOneArm
  | LBModeOther int

datatype LBSec = LBServPlain | LBServHTTPS | LBServE2EHTTPS | LBServOther int

record LbServiceArg =
  ServIP :: string
  PrivateIP :: string
  ServPort :: u16
  ServPortMax :: u16
  sa_Proto :: string
  BlockNum :: u32
  sa_Sel :: EpSelect
  sa_Bgp :: bool
  Monitor :: bool
  Oper :: LBOp
  Security :: LBSec
  sa_Mode :: LBMode
  InactiveTimeout :: u32
  Managed :: bool
  ProbeType :: string
  ProbePort :: u16
  ProbeReq :: string
  ProbeResp :: string
  ProbeTimeout :: u32
  ProbeRetries :: int
  sa_Name :: string
  PersistTimeout :: u32
  Snat :: bool
  HostUrl :: string
  ProxyProtocolV2 :: bool
  sa_Egress :: bool

record LbEndPointArg =
  EpIP :: string
  EpPort :: u16
  ea_Weight :: u8
  ea_State :: string
  Counters :: string

text \<open>The service a caller starts from: all fields at their zero values.\<close>

definition zero_serv :: LbServiceArg where
  "zero_serv = \<lparr> ServIP = [], PrivateIP = [], ServPort = 0, ServPortMax = 0, sa_Proto = [], BlockNum = 0,
     sa_Sel = LbSelRr, sa_Bgp = False, Monitor = False, Oper = LBOPAdd, Security = LBServPlain,
     sa_Mode = LBModeDefault, InactiveTimeout = 0, Managed = False, ProbeType = [], ProbePort = 0,
     ProbeReq = [], ProbeResp = [], ProbeTimeout = 0, ProbeRetries = 0, sa_Name = [], PersistTimeout = 0,
     Snat = False, HostUrl = [], ProxyProtocolV2 = False, sa_Egress = False \<rparr>"

record FwRuleArg =
  fa_SrcIP :: string
  fa_DstIP :: string
  SrcPortMin :: u16
  SrcPortMax :: u16
  DstPortMin :: u16
  DstPortMax :: u16
  fa_Proto :: u8
  InPort :: string
  fa_Pref :: u32

definition zero_fwrule :: FwRuleArg where
  "zero_fwrule = \<lparr> fa_SrcIP = [], fa_DstIP = [], SrcPortMin = 0, SrcPortMax = 0, DstPortMin = 0, DstPortMax = 0,
     fa_Proto = 0, InPort = [], fa_Pref = 0 \<rparr>"

record FwOptArg =
  fo_Drop :: bool
  fo_Trap :: bool
  fo_Record :: bool
  fo_Rdr :: bool
  fo_RdrPort :: string
  fo_Allow :: bool
  fo_Mark :: u32
  DoSnat :: bool
  ToIP :: string
  ToPort :: u16
  OnDefault :: bool
  fo_Counter :: string

definition zero_fwopt :: FwOptArg where
  "zero_fwopt = \<lparr> fo_Drop = False, fo_Trap = False, fo_Record = False, fo_Rdr = False, fo_RdrPort = [],
     fo_Allow = False, fo_Mark = 0, DoSnat = False, ToIP = [], ToPort = 0, OnDefault = False, fo_Counter = [] \<rparr>"

subsection \<open>Constants\<close>

abbreviation RuleUnknownServiceErr :: int where "RuleUnknownServiceErr \<equiv> -6999"
abbreviation RuleUnknownEpErr :: int where "RuleUnknownEpErr \<equiv> -6998"
abbreviation RuleExistsErr :: int where "RuleExistsErr \<equiv> -6997"
abbreviation RuleAllocErr :: int where "RuleAllocErr \<equiv> -6996"
abbreviation RuleNotExistsErr :: int where "RuleNotExistsErr \<equiv> -6995"
abbreviation RuleTupleErr :: int where "RuleTupleErr \<equiv> -6993"

abbreviation LbDefaultInactiveTimeout :: u32 where "LbDefaultInactiveTimeout \<equiv> 240"
abbreviation LbDefaultInactiveNSTimeout :: u32 where "LbDefaultInactiveNSTimeout \<equiv> 20"
abbreviation LbMaxInactiveTimeout :: u32 where "LbMaxInactiveTimeout \<equiv> 86400"
abbreviation DefaultPersistTimeOut :: u32 where "DefaultPersistTimeOut \<equiv> 10800"
definition NatFwMark :: u32 where [go_consts]: "NatFwMark = 0x80000000"
definition SrcChkFwMark :: u32 where [go_consts]: "SrcChkFwMark = 0x40000000"
definition OnDfltSnatFwMark :: u32 where [go_consts]: "OnDfltSnatFwMark = 0x20000000"
abbreviation MaxSrcLBMarkerNum :: u32 where "MaxSrcLBMarkerNum \<equiv> 28"
definition RtMaximumFw4s :: u64 where [go_consts]: "RtMaximumFw4s = 8192"
definition RtMaximumLbs :: u64 where [go_consts]: "RtMaximumLbs = 2048"

subsection \<open>Rules\<close>

text \<open>\<open>RtActUnset\<close> is the zero value.\<close>

datatype ruleTActType = RtActUnset | RtActDrop | RtActFwd | RtActTrap | RtActRedirect | RtActDnat | RtActSnat
  | RtActFullNat | RtActFullProxy

record ruleFwOpt =
  rdrPort :: string
  fwMark :: u32
  fwo_record :: bool
  snatIP :: string
  snatPort :: u16
  onDflt :: bool

text \<open>A rule of the firewall table: \<open>fw_actType\<close> is \<open>r.act.actType\<close>,
\<open>fw_op\<close> and \<open>fw_opt\<close> are its \<open>ruleFwOpts\<close>.\<close>

record fwEnt =
  fw_ruleNum :: u64
  fw_sync :: DpStatusT
  fw_tuples :: ruleTuples
  fw_actType :: ruleTActType
  fw_op :: ruleTActType
  fw_opt :: ruleFwOpt
  fw_bytes :: u64
  fw_packets :: u64

text \<open>A rule of the load-balancer table.  Its end-points are a slice of an array in the store:
the array and the length.\<close>

record lbEnt =
  lb_ruleNum :: u64
  lb_sync :: DpStatusT
  lb_tuples_of :: ruleTuples
  lb_ci :: string
  hChk :: ruleProbe
  lb_managed :: bool
  lb_bgp :: bool
  addrRslv :: bool
  lb_sT :: int
  iTO :: u32
  pTO :: u32
  lb_actType :: ruleTActType
  lb_mode :: LBMode
  lb_sel :: EpSelect
  lb_eps :: "nat \<times> nat"
  prioSlotOf :: "nat list option"
  privIP :: IP
  secIP :: "IP list"
  lb_name :: string
  lb_inst :: string
  secMode :: LBSec
  ppv2En :: bool
  lb_egress :: bool
  srcList :: "IPNet list"
  locIPs :: "string list"

record allowedSrcElem =
  src_ref :: int
  srcPref :: IPNet
  src_mark :: u64
  lbmark :: u32

record LBCtDpWorkQ =
  ct_ZoneNum :: int
  ct_ServiceIP :: IP
  ct_L4Port :: u16
  ct_Proto :: u8
  ct_BlockNum :: u32
  ct_RuleID :: u32
  ct_FlushMode :: u8

text \<open>What the rule subsystem asks of the data path: work on the channel, an immediate reading of
counters, a barrier, and the two hooks that are called directly.\<close>

datatype rule_ev = RuleDp DpWork | StatImm StatDpWorkQ | RuleBarrier | DpLBCtFlush LBCtDpWorkQ
  | DpLBSessionReset LBSessionResetWorkQ

text \<open>\<open>srcCnt\<close> is the state of the counter \<open>srcMark\<close> of the library; \<open>vipST\<close>
and the other times are seconds.\<close>

record 'r rules =
  lbMap :: "(string, lbEnt) gomap"
  rArr :: "(u64, string) gomap"
  lbMarks :: Marker
  fwMap :: "(string, fwEnt) gomap"
  fwMarks :: Marker
  lbSrcMap :: "(string, allowedSrcElem) gomap"
  srcCnt :: nat
  rl_vips :: "'r vip_st"
  rl_eps :: epTable
  rl_has :: CIStateH
  vipST :: int
  epArrs :: "ruleLBEp list list"
  rl_log :: "rule_ev list"

text \<open>The environment: addresses and VIPs, probes, the zone number, flags of the process, the
library's counter, the counters of the data path, whether appending to a full slice of the given
length reallocates, the result of the session reset hook, and the library's conversion of an address
to a number, by which addresses are sorted.\<close>

record 'r rules_env =
  re_vip :: "'r vip_env"
  re_probe :: probe_env
  re_zone :: int
  ClusterGw :: string
  sumDis :: bool
  lSockPolicy :: bool
  pProbe :: bool
  GetCounter :: "nat \<Rightarrow> u64 option \<times> nat"
  PutCounter :: "u64 \<Rightarrow> nat \<Rightarrow> nat"
  rd_stat :: stat_reader
  fw_stat :: "u32 \<Rightarrow> u64 \<times> u64"
  slice_full :: "nat \<Rightarrow> nat \<Rightarrow> bool"
  reset_hook :: "LBSessionResetWorkQ \<Rightarrow> int"
  IPtonl :: "IP \<Rightarrow> u32"

abbreviation rhost :: "'r rules_env \<Rightarrow> host_env" where "rhost env \<equiv> l3_host (vl3 (re_vip env))"

definition emit :: "rule_ev list \<Rightarrow> 'r rules \<Rightarrow> 'r rules" where
  "emit evs R = R \<lparr> rl_log := rl_log R @ evs \<rparr>"

definition add_vip :: "'r rules_env \<Rightarrow> IP \<Rightarrow> IP \<Rightarrow> string \<Rightarrow> bool \<Rightarrow> 'r rules \<Rightarrow> 'r rules" where
  "add_vip env VIP p inst eg R = R \<lparr> rl_vips := AddRuleVIP (re_vip env) (rl_has R) VIP p inst eg (rl_vips R) \<rparr>"

definition del_vip :: "'r rules_env \<Rightarrow> IP \<Rightarrow> 'r rules \<Rightarrow> 'r rules" where
  "del_vip env VIP R = R \<lparr> rl_vips := DeleteRuleVIP (re_vip env) VIP (rl_vips R) \<rparr>"

text \<open>\<open>RulesInit\<close>, up to the checker goroutines and the certificate pool; \<open>None\<close> does
not happen since both tables are not empty.\<close>

definition RulesInit :: "nat \<Rightarrow> 'r l3_st \<Rightarrow> CIStateH \<Rightarrow> 'r rules option" where
  "RulesInit cnt l3 has = (case (NewMarker 1 RtMaximumFw4s, NewMarker 1 RtMaximumLbs) of
      (Some fm, Some lm) \<Rightarrow> Some
        \<lparr> lbMap = [], rArr = [], lbMarks = lm, fwMap = [], fwMarks = fm, lbSrcMap = [], srcCnt = cnt,
          rl_vips = no_vips l3, rl_eps = empty_eps, rl_has = has, vipST = 0, epArrs = [], rl_log = [] \<rparr>
    | _ \<Rightarrow> None)"

end
