(* ===== verification/FwRules.thy ===== *)
theory FwRules
  imports RuleState
begin

text \<open>Firewall rules (\<open>rules.go\<close>): additions and deletions with their source NAT services,
what is sent to the data path, and the listing.  The calls into the load-balancer rules are
parameters \<open>add_lb\<close> and \<open>del_lb\<close>, instantiated where those rules are defined.\<close>

subsection \<open>Data path\<close>

abbreviation MapNameFw4 :: string where "MapNameFw4 \<equiv> ''FW4''"

definition port_no :: "'r rules_env \<Rightarrow> string \<Rightarrow> u16 option" where
  "port_no env name = map_option (\<lambda>p. of_int (pv_PortNo p)) (findPort (vl3 (re_vip env)) name)"

definition fw_type :: "ruleTActType \<Rightarrow> FwOpT" where
  "fw_type op = (case op of RtActFwd \<Rightarrow> DpFwFwd | RtActDrop \<Rightarrow> DpFwDrop | RtActRedirect \<Rightarrow> DpFwRdr
    | RtActTrap \<Rightarrow> DpFwTrap | RtActSnat \<Rightarrow> DpFwFwd | _ \<Rightarrow> DpFwDrop)"

definition fw_work :: "'r rules_env \<Rightarrow> DpWorkT \<Rightarrow> fwEnt \<Rightarrow> u16 \<Rightarrow> u16 \<Rightarrow> FwDpWorkQ" where
  "fw_work env work r inport rdr = (let t = fw_tuples r in
     \<lparr> fw_Work = work, fw_ZoneNum = re_zone env, fw_SrcIP = l3Src t, fw_DstIP = l3Dst t,
       fw_L4SrcMin = (if validR (l4Src t) then valMin (l4Src t) else 0),
       fw_L4SrcMax = (if validR (l4Src t) then valMax (l4Src t) else 0),
       fw_L4DstMin = (if validR (l4Dst t) then valMin (l4Dst t) else 0),
       fw_L4DstMax = (if validR (l4Dst t) then valMax (l4Dst t) else 0),
       fw_Port = inport, fw_Pref = ucast (t_pref t), fw_Proto = v8 (l4Prot t), fw_Mark = sint (fw_ruleNum r),
       fw_FwType = fw_type (fw_op r), fw_FwVal1 = rdr, fw_FwVal2 = fwMark (fw_opt r),
       fw_FwRecord = fwo_record (fw_opt r), fw_OnDflt = onDflt (fw_opt r) \<rparr>)"

text \<open>The entry as it is left by the call, and the events.\<close>

definition Fw2DP :: "'r rules_env \<Rightarrow> DpWorkT \<Rightarrow> fwEnt \<Rightarrow> int \<times> fwEnt \<times> rule_ev list" where
  "Fw2DP env work r =
    (let st = \<lparr> sw_Work = work, sw_Name = MapNameFw4, sw_Mark = ucast (fw_ruleNum r) \<rparr>;
         inport = (if t_port (fw_tuples r) = [] then Some 0 else port_no env (t_port (fw_tuples r)));
         rdr = (if fw_op r = RtActRedirect then port_no env (rdrPort (fw_opt r)) else Some 0) in
     if work = DpStatsGet then (0, r, [RuleDp (StatQ st)])
     else if work = DpStatsGetImm then
       (0, r \<lparr> fw_bytes := fst (fw_stat env (sw_Mark st)), fw_packets := snd (fw_stat env (sw_Mark st)) \<rparr>, [StatImm st])
     else (case (inport, rdr) of
         (Some ip, Some rp) \<Rightarrow>
           (0, if onDflt (fw_opt r) \<and> work = DpRemove then r \<lparr> fw_sync := DpStatusOk \<rparr> else r,
            [RuleDp (FwQ (fw_work env work r ip rp))])
       | _ \<Rightarrow> (-1, r \<lparr> fw_sync := DpChangeErr \<rparr>, [])))"

definition fw_dp :: "'r rules_env \<Rightarrow> DpWorkT \<Rightarrow> string \<Rightarrow> 'r rules \<Rightarrow> 'r rules" where
  "fw_dp env work key R = (case gm_get (fwMap R) key of
      None \<Rightarrow> R
    | Some r \<Rightarrow> (let (_, r', evs) = Fw2DP env work r in emit evs (R \<lparr> fwMap := gm_put key r' (fwMap R) \<rparr>)))"

subsection \<open>Tuples\<close>

definition port_range :: "u16 \<Rightarrow> u16 \<Rightarrow> rule16RTuple" where
  "port_range lo hi = (if (hi \<noteq> 0 \<or> lo \<noteq> 0) \<and> hi \<ge> lo then \<lparr> valMin = lo, valMax = hi, validR = True \<rparr> else zero_range)"

definition fw_proto :: "u8 \<Rightarrow> rule8Tuple" where
  "fw_proto p = (if p = 0 then \<lparr> v8 = 0, valid8 = 0 \<rparr> else \<lparr> v8 = p, valid8 = 0xff \<rparr>)"

definition fw_tuples_of :: "FwRuleArg \<Rightarrow> IPNet \<Rightarrow> IPNet \<Rightarrow> rule16RTuple \<Rightarrow> rule16RTuple \<Rightarrow> ruleTuples" where
  "fw_tuples_of rule d s l4s l4d = zero_tuples \<lparr> l3Src := s, l3Dst := d, l4Prot := fw_proto (fa_Proto rule),
     l4Src := l4s, l4Dst := l4d, t_port := InPort rule, t_pref := fa_Pref rule \<rparr>"

text \<open>The tuples of an addition.\<close>

definition add_tuples :: "FwRuleArg \<Rightarrow> IPNet \<Rightarrow> IPNet \<Rightarrow> ruleTuples" where
  "add_tuples rule d s = fw_tuples_of rule d s (port_range (SrcPortMin rule) (SrcPortMax rule))
     (port_range (DstPortMin rule) (DstPortMax rule))"

text \<open>The tuples of a deletion: a destination range is stored as the source range.\<close>

definition del_tuples :: "FwRuleArg \<Rightarrow> IPNet \<Rightarrow> IPNet \<Rightarrow> ruleTuples" where
  "del_tuples rule d s =
    (let l4src = port_range (SrcPortMin rule) (SrcPortMax rule); dr = port_range (DstPortMin rule) (DstPortMax rule) in
     fw_tuples_of rule d s (if validR dr then dr else l4src) zero_range)"

subsection \<open>Addition\<close>

definition wild6 :: "string \<Rightarrow> string" where
  "wild6 s = (if s = ''0.0.0.0/0'' then ''::/0'' else s)"

definition fix_snat6 :: "'r rules_env \<Rightarrow> FwOptArg \<Rightarrow> FwRuleArg \<Rightarrow> FwRuleArg" where
  "fix_snat6 env opts rule =
    (if DoSnat opts \<and> IsNetIPv6 (rhost env) (ToIP opts)
     then rule \<lparr> fa_DstIP := wild6 (fa_DstIP rule), fa_SrcIP := wild6 (fa_SrcIP rule) \<rparr> else rule)"

definition fw_action :: "FwOptArg \<Rightarrow> ruleTActType" where
  "fw_action opts = (if fo_Allow opts then RtActFwd else if fo_Drop opts then RtActDrop
     else if fo_Rdr opts then RtActRedirect else if fo_Trap opts then RtActTrap
     else if DoSnat opts then RtActSnat else RtActUnset)"

definition new_fw :: "FwOptArg \<Rightarrow> ruleTuples \<Rightarrow> fwEnt" where
  "new_fw opts rt = (let a = fw_action opts in
     \<lparr> fw_ruleNum = 0, fw_sync = DpStatusOk, fw_tuples = rt, fw_actType = a,
       fw_op = (if a = RtActUnset then RtActDrop else a),
       fw_opt = \<lparr> rdrPort = (if a = RtActRedirect then fo_RdrPort opts else []), fwMark = fo_Mark opts,
         fwo_record = fo_Record opts, snatIP = (if a = RtActSnat then ToIP opts else []),
         snatPort = (if a = RtActSnat then ToPort opts else 0), onDflt = OnDefault opts \<rparr>,
       fw_bytes = 0, fw_packets = 0 \<rparr>)"

text \<open>The service of a source NAT rule.\<close>

definition snat_serv :: "'r rules_env \<Rightarrow> string \<Rightarrow> u16 \<Rightarrow> u64 \<Rightarrow> LbServiceArg" where
  "snat_serv env ip port num = zero_serv
     \<lparr> ServIP := (if IsNetIPv6 (rhost env) ip then ''::'' else ''0.0.0.0''), sa_Proto := ''none'',
       BlockNum := ucast num OR NatFwMark, Snat := True, InactiveTimeout := LbDefaultInactiveTimeout,
       sa_Name := ''snat:'' @ ip @ '':'' @ dec (unat port) \<rparr>"

definition snat_ep :: "string \<Rightarrow> u16 \<Rightarrow> LbEndPointArg" where
  "snat_ep ip port = \<lparr> EpIP = ip, EpPort = port, ea_Weight = 0, ea_State = [], Counters = [] \<rparr>"

text \<open>A rule with the key of an existing one: only its mark may be replaced.\<close>

definition fw_remark :: "'r rules_env \<Rightarrow> FwOptArg \<Rightarrow> string \<Rightarrow> fwEnt \<Rightarrow> 'r rules \<Rightarrow> 'r rules" where
  "fw_remark env opts key e R =
    (if \<not> DoSnat opts \<and> fwMark (fw_opt e) \<noteq> fo_Mark opts
     then (let R1 = fw_dp env DpRemove key R;
               R2 = R1 \<lparr> fwMap := gm_put key ((the (gm_get (fwMap R1) key))
                 \<lparr> fw_opt := (fw_opt e) \<lparr> fwMark := fo_Mark opts \<rparr> \<rparr>) (fwMap R1) \<rparr>
           in fw_dp env DpCreate key R2)
     else R)"

text \<open>The checks of a source NAT request, which also takes the VIP.\<close>

definition fw_snat_args :: "'r rules_env \<Rightarrow> FwOptArg \<Rightarrow> 'r rules \<Rightarrow> (go_ret, 'r rules) sum" where
  "fw_snat_args env opts R =
    (if fw_action opts \<noteq> RtActSnat then Inr R
     else if ParseIP (ToIP opts) = [] then Inl (Err RuleArgsErr ''malformed-args error'')
     else if fo_Mark opts \<noteq> 0 then Inl (Err RuleArgsErr ''malformed-args fwmark !=0 for snat-error'')
     else Inr (if OnDefault opts then add_vip env (ParseIP (ToIP opts)) [] CIDefault True R else R))"

text \<open>Storing the rule: it is not sent to the data path if it follows the default instance and
that one is backup.\<close>

definition fw_store :: "'r rules_env \<Rightarrow> FwOptArg \<Rightarrow> string \<Rightarrow> fwEnt \<Rightarrow> 'r rules \<Rightarrow> 'r rules" where
  "fw_store env opts key r R =
    (let R1 = R \<lparr> fwMap := gm_put key r (fwMap R) \<rparr> in
     if OnDefault opts \<and> CIStateGetInst (rl_has R1) CIDefault = (CIBackupStateString, Ok) then R1
     else fw_dp env DpCreate key R1)"

definition snat_mark :: "FwOptArg \<Rightarrow> u64 \<Rightarrow> u32" where
  "snat_mark opts num = (if \<not> OnDefault opts then ucast num OR NatFwMark else ucast num OR OnDfltSnatFwMark)"

type_synonym 'r lb_adder = "LbServiceArg \<Rightarrow> LbEndPointArg list \<Rightarrow> 'r rules \<Rightarrow> (go_ret \<times> 'r rules) option"
type_synonym 'r lb_deleter = "LbServiceArg \<Rightarrow> 'r rules \<Rightarrow> (go_ret \<times> 'r rules) option"

text \<open>The part after the checks: a number, the source NAT service, the table.\<close>

definition fw_install :: "'r rules_env \<Rightarrow> 'r lb_adder \<Rightarrow> FwOptArg \<Rightarrow> ruleTuples \<Rightarrow> 'r rules \<Rightarrow> (go_ret \<times> 'r rules) option" where
  "fw_install env add_lb opts rt R1 = (case GetMarker (fwMarks R1) of
      None \<Rightarrow> None
    | Some (Inl _, m) \<Rightarrow> Some (Err RuleAllocErr ''rule-mark error'', R1 \<lparr> fwMarks := m \<rparr>)
    | Some (Inr num, m) \<Rightarrow>
        (let R2 = R1 \<lparr> fwMarks := m \<rparr>; r = (new_fw opts rt) \<lparr> fw_ruleNum := num \<rparr>; key = ruleKey rt in
         if \<not> DoSnat opts then Some (Ok, fw_store env opts key r R2)
         else (case add_lb (snat_serv env (snatIP (fw_opt r)) (snatPort (fw_opt r)) num)
                     [snat_ep (snatIP (fw_opt r)) (snatPort (fw_opt r))] R2 of
             None \<Rightarrow> None
           | Some (Err _ _, R3) \<Rightarrow> Some (Err RuleArgsErr ''rule-snat error'', R3)
           | Some (Ok, R3) \<Rightarrow>
               Some (Ok, fw_store env opts key (r \<lparr> fw_opt := (fw_opt r) \<lparr> fwMark := snat_mark opts num \<rparr> \<rparr>) R3))))"

definition AddFwRule :: "'r rules_env \<Rightarrow> 'r lb_adder \<Rightarrow> FwRuleArg \<Rightarrow> FwOptArg \<Rightarrow> 'r rules \<Rightarrow> (go_ret \<times> 'r rules) option" where
  "AddFwRule env add_lb rule0 opts R = (let rule = fix_snat6 env opts rule0 in
     case ParseCIDR (fa_DstIP rule) of
       None \<Rightarrow> Some (Err RuleTupleErr ''malformed-rule dst error'', R)
     | Some (_, d) \<Rightarrow> (case ParseCIDR (fa_SrcIP rule) of
         None \<Rightarrow> Some (Err RuleTupleErr ''malformed-rule src error'', R)
       | Some (_, s) \<Rightarrow>
          (let rt = add_tuples rule d s in
           case gm_get (fwMap R) (ruleKey rt) of
             Some e \<Rightarrow> Some (Err RuleExistsErr ''fwrule-exists error'', fw_remark env opts (ruleKey rt) e R)
           | None \<Rightarrow> (case fw_snat_args env opts R of
               Inl e \<Rightarrow> Some (e, R)
             | Inr R1 \<Rightarrow> fw_install env add_lb opts rt R1))))"

subsection \<open>Deletion\<close>

definition fw_unsnat :: "'r rules_env \<Rightarrow> 'r lb_deleter \<Rightarrow> fwEnt \<Rightarrow> 'r rules \<Rightarrow> 'r rules option" where
  "fw_unsnat env del_lb r R =
    (if fw_actType r \<noteq> RtActSnat then Some R
     else (let ip = snatIP (fw_opt r);
               serv = (snat_serv env ip (snatPort (fw_opt r)) (fw_ruleNum r))
                 \<lparr> sa_Name := ''Masq:'' @ ip @ '':'' @ dec (unat (snatPort (fw_opt r))), InactiveTimeout := 0 \<rparr>;
               R1 = (if onDflt (fw_opt r) then del_vip env (ParseIP ip) R else R)
           in map_option snd (del_lb serv R1)))"

definition DeleteFwRule :: "'r rules_env \<Rightarrow> 'r lb_deleter \<Rightarrow> FwRuleArg \<Rightarrow> 'r rules \<Rightarrow> (go_ret \<times> 'r rules) option" where
  "DeleteFwRule env del_lb rule R = (case ParseCIDR (fa_DstIP rule) of
      None \<Rightarrow> Some (Err RuleTupleErr ''malformed-rule dst error'', R)
    | Some (_, d) \<Rightarrow> (case ParseCIDR (fa_SrcIP rule) of
        None \<Rightarrow> Some (Err RuleTupleErr ''malformed-rule src error'', R)
      | Some (_, s) \<Rightarrow>
         (let key = ruleKey (del_tuples rule d s) in
          case gm_get (fwMap R) key of
            None \<Rightarrow> Some (Err RuleNotExistsErr ''no-rule error'', R)
          | Some r \<Rightarrow> (case fw_unsnat env del_lb r R of
              None \<Rightarrow> None
            | Some R1 \<Rightarrow>
                (let R2 = R1 \<lparr> fwMap := gm_del key (fwMap R1) \<rparr>;
                     (_, _, evs) = Fw2DP env DpRemove r; R3 = emit evs R2 in
                 case ReleaseMarker (fw_ruleNum r) (fwMarks R3) of
                   None \<Rightarrow> None
                 | Some (_, m) \<Rightarrow> Some (Ok, R3 \<lparr> fwMarks := m \<rparr>))))))"

subsection \<open>Listing\<close>

text \<open>The upper source port overwrites the lower one in the listing.\<close>

definition list_fw :: "fwEnt \<Rightarrow> FwRuleArg \<times> FwOptArg" where
  "list_fw r = (let t = fw_tuples r; o1 = fw_opt r in
     (\<lparr> fa_SrcIP = IPNet_String (l3Src t), fa_DstIP = IPNet_String (l3Dst t),
        SrcPortMin = (if validR (l4Src t) then valMax (l4Src t) else 0), SrcPortMax = 0,
        DstPortMin = (if validR (l4Dst t) then valMin (l4Dst t) else 0),
        DstPortMax = (if validR (l4Dst t) then valMax (l4Dst t) else 0),
        fa_Proto = v8 (l4Prot t), InPort = t_port t, fa_Pref = t_pref t \<rparr>,
      \<lparr> fo_Drop = (fw_op r = RtActDrop), fo_Trap = (fw_op r = RtActTrap), fo_Record = fwo_record o1,
        fo_Rdr = (fw_op r = RtActRedirect), fo_RdrPort = (if fw_op r = RtActRedirect then rdrPort o1 else []),
        fo_Allow = (fw_op r = RtActFwd), fo_Mark = (if fw_op r \<noteq> RtActSnat then fwMark o1 else 0),
        DoSnat = (fw_op r = RtActSnat), ToIP = (if fw_op r = RtActSnat then snatIP o1 else []),
        ToPort = (if fw_op r = RtActSnat then snatPort o1 else 0), OnDefault = onDflt o1,
        fo_Counter = dec (unat (fw_packets r)) @ '':'' @ dec (unat (fw_bytes r)) \<rparr>))"

definition GetFwRule :: "'r rules_env \<Rightarrow> 'r rules \<Rightarrow> (FwRuleArg \<times> FwOptArg) list \<times> 'r rules" where
  "GetFwRule env R =
    (let es = map (\<lambda>(k, r). (k, Fw2DP env DpStatsGetImm r)) (fwMap R) in
     (map (\<lambda>(k, _, r, _). list_fw r) es,
      emit (concat (map (\<lambda>(k, _, _, evs). evs) es)) (R \<lparr> fwMap := map (\<lambda>(k, _, r, _). (k, r)) es \<rparr>)))"

end
