(* ===== verification/LbDp.thy ===== *)
theory LbDp
  imports FwRules
begin

text \<open>Load-balancer rules and the data path (\<open>rules.go\<close>): what is sent for a rule, the source
addresses of its end-points, folding of a rule into the end-points of another one, the host addresses
of a rule, counters, and the periodic synchronisation.\<close>

subsection \<open>End-points in the store\<close>

definition slice :: "'r rules \<Rightarrow> nat \<times> nat \<Rightarrow> ruleLBEp list" where
  "slice R s = (if fst s < length (epArrs R) then take (snd s) (epArrs R ! fst s) else [])"

text \<open>Writing back a slice leaves the rest of the array.\<close>

definition write_slice :: "nat \<times> nat \<Rightarrow> ruleLBEp list \<Rightarrow> 'r rules \<Rightarrow> 'r rules" where
  "write_slice s eps R =
    R \<lparr> epArrs := (epArrs R)[fst s := eps @ drop (length eps) (epArrs R ! fst s)] \<rparr>"

definition new_slice :: "ruleLBEp list \<Rightarrow> 'r rules \<Rightarrow> (nat \<times> nat) \<times> 'r rules" where
  "new_slice eps R = ((length (epArrs R), length eps), R \<lparr> epArrs := epArrs R @ [eps] \<rparr>)"

definition rule_eps :: "'r rules \<Rightarrow> lbEnt \<Rightarrow> ruleLBEp list" where
  "rule_eps R e = slice R (lb_eps e)"

definition folds :: "'r rules \<Rightarrow> ruleLBEp \<Rightarrow> ruleLBEp list" where
  "folds R ep = (case foldEndPoints ep of None \<Rightarrow> [] | Some s \<Rightarrow> slice R s)"

definition put_lb :: "string \<Rightarrow> lbEnt \<Rightarrow> 'r rules \<Rightarrow> 'r rules" where
  "put_lb key e R = R \<lparr> lbMap := gm_put key e (lbMap R) \<rparr>"

subsection \<open>Work for the data path\<close>

definition RuleVIP2PrivIP :: "lbEnt \<Rightarrow> IP" where
  "RuleVIP2PrivIP e = (if privIP e = [] \<or> IsUnspecified (privIP e)
     then IP_Mask (net_IP (l3Dst (lb_tuples_of e))) (net_Mask (l3Dst (lb_tuples_of e))) else privIP e)"

fun vip_works :: "IP \<Rightarrow> u16 \<Rightarrow> DpWorkT \<Rightarrow> u16 list \<Rightarrow> ruleLBEp list \<Rightarrow> rule_ev list" where
  "vip_works vip port work seen [] = []"
| "vip_works vip port work seen (ep # eps) =
    (if xPort ep \<in> set seen then vip_works vip port work seen eps
     else RuleDp (SockVIPQ \<lparr> sv_Work = (if inActiveEP ep then DpRemove else work), sv_VIP = vip, sv_Port = port,
            sv_RwPort = xPort ep \<rparr>) # vip_works vip port work (xPort ep # seen) eps)"

definition VIP2DP :: "'r rules_env \<Rightarrow> DpWorkT \<Rightarrow> lbEnt \<Rightarrow> 'r rules \<Rightarrow> rule_ev list" where
  "VIP2DP env work e R =
    (if lSockPolicy env then vip_works (IP_Mask (net_IP (l3Dst (lb_tuples_of e))) (net_Mask (l3Dst (lb_tuples_of e))))
       (valMin (l4Dst (lb_tuples_of e))) work [] (rule_eps R e) else [])"

definition nat_type :: "lbEnt \<Rightarrow> NatT option" where
  "nat_type e = (case lb_actType e of
      RtActDnat \<Rightarrow> Some DpDnat | RtActSnat \<Rightarrow> Some DpSnat | RtActFullNat \<Rightarrow> Some DpFullNat
    | RtActFullProxy \<Rightarrow> Some DpFullProxy | _ \<Rightarrow> None)"

definition ep_sel :: "EpSelect \<Rightarrow> NatSel" where
  "ep_sel s = (case s of LbSelRr \<Rightarrow> EpRR | LbSelHash \<Rightarrow> EpHash | LbSelPrio \<Rightarrow> EpRR | LbSelRrPersist \<Rightarrow> EpRRPersist
    | LbSelLeastConnections \<Rightarrow> EpLeastConn | LbSelN2 \<Rightarrow> EpN2 | LbSelN3 \<Rightarrow> EpN3 | LbSelOther _ \<Rightarrow> EpRR)"

definition port_ranged :: "lbEnt \<Rightarrow> bool" where
  "port_ranged e \<longleftrightarrow> valMax (l4Dst (lb_tuples_of e)) \<noteq> valMin (l4Dst (lb_tuples_of e))"

definition lb_work :: "'r rules_env \<Rightarrow> DpWorkT \<Rightarrow> lbEnt \<Rightarrow> NatT \<Rightarrow> NatEP list \<Rightarrow> LBDpWorkQ" where
  "lb_work env work e nt eps = (let t = lb_tuples_of e; rg = port_ranged e in
     \<lparr> lb_Work = work, lb_ZoneNum = re_zone env, lb_ServiceIP = (if rg then [] else RuleVIP2PrivIP e),
       lb_L4Port = (if rg then 0 else valMin (l4Dst t)),
       lb_BlockNum = (if rg then push_bit 16 (ucast (lb_ruleNum e)) else t_pref t),
       lb_DsrMode = (lb_mode e = LBModeDSR), lb_CsumDis = sumDis env, lb_SrcCheck = (srcList e \<noteq> []),
       lb_Ppv2En = ppv2En e,
       lb_SecMode = (case secMode e of LBServHTTPS \<Rightarrow> DpTermHTTPS | LBServE2EHTTPS \<Rightarrow> DpE2EHTTPS | _ \<Rightarrow> DpSecNone),
       lb_HostURL = t_path t, lb_Proto = (if rg then 0 else v8 (l4Prot t)), lb_Mark = sint (lb_ruleNum e),
       lb_NatType = (if rg then DpNat else nt), lb_EpSel = ep_sel (lb_sel e), lb_InActTo = ucast (iTO e),
       lb_PersistTo = ucast (pTO e), lb_endPoints = eps, lb_secIP = secIP e \<rparr>)"

text \<open>\<open>None\<close> is a panic.  An address of length zero is not unspecified.\<close>

definition LB2DP :: "'r rules_env \<Rightarrow> DpWorkT \<Rightarrow> lbEnt \<Rightarrow> 'r rules \<Rightarrow> (int \<times> lbEnt \<times> rule_ev list) option" where
  "LB2DP env work e R =
    (if addrRslv e then Some (-1, e, [])
     else if lb_egress e then Some (0, e, [])
     else (case nat_type e of
         None \<Rightarrow> Some (-1, e, [])
       | Some nt \<Rightarrow> (case dp_eps (folds R) (lb_sel e = LbSelPrio) (rule_eps R e) of
           None \<Rightarrow> None
         | Some (eps, slots) \<Rightarrow>
             (let w = lb_work env work e nt eps;
                  e' = (if lb_sel e = LbSelPrio then e \<lparr> prioSlotOf := slots \<rparr> else e);
                  evs = (if \<not> IsUnspecified (lb_ServiceIP w) \<or> lb_BlockNum w \<noteq> 0
                    then RuleDp (LBQ w) # VIP2DP env work e R else []);
                  locs = (if lb_mode e = LBModeHostOneArm
                    then map (\<lambda>l. RuleDp (LBQ (w \<lparr> lb_ServiceIP := ParseIP l \<rparr>))) (filter (\<lambda>l. ParseIP l \<noteq> []) (locIPs e)) else [])
              in Some (0, e', evs @ locs)))))"

text \<open>\<open>DP\<close> for the creation or removal of a rule of the load-balancer table, by its key.\<close>

definition lb_dp :: "'r rules_env \<Rightarrow> DpWorkT \<Rightarrow> string \<Rightarrow> 'r rules \<Rightarrow> 'r rules option" where
  "lb_dp env work key R = (case gm_get (lbMap R) key of
      None \<Rightarrow> Some R
    | Some e \<Rightarrow> (case LB2DP env work e R of
        None \<Rightarrow> None
      | Some (_, e', evs) \<Rightarrow> Some (emit evs (put_lb key e' R))))"

text \<open>An immediate reading of the counters of a rule.\<close>

definition lb_stats :: "'r rules_env \<Rightarrow> lbEnt \<Rightarrow> 'r rules \<Rightarrow> 'r rules" where
  "lb_stats env e R = write_slice (lb_eps e)
     (rule_stats (folds R) (rd_stat env) (lb_ruleNum e) (lb_sel e = LbSelPrio) (prioSlotOf e) (rule_eps R e)) R"

definition flushLBCtEntries :: "'r rules_env \<Rightarrow> lbEnt \<Rightarrow> u8 \<Rightarrow> 'r rules \<Rightarrow> 'r rules" where
  "flushLBCtEntries env e flushMode R = (let t = lb_tuples_of e in
     if v8 (l4Prot t) \<noteq> 132 \<or> port_ranged e then R
     else emit [DpLBCtFlush \<lparr> ct_ZoneNum = re_zone env, ct_ServiceIP = RuleVIP2PrivIP e, ct_L4Port = valMin (l4Dst t),
       ct_Proto = v8 (l4Prot t), ct_BlockNum = ucast (lb_ruleNum e), ct_RuleID = ucast (lb_ruleNum e),
       ct_FlushMode = flushMode \<rparr>] R)"

subsection \<open>Source addresses\<close>

definition IsCIKAMode :: bool where "IsCIKAMode = False"

definition fold_unresolved :: "'r rules \<Rightarrow> ruleLBEp \<Rightarrow> bool" where
  "fold_unresolved R np \<longleftrightarrow> foldRuleKey np \<noteq> [] \<and>
     (case gm_get (lbMap R) (foldRuleKey np) of None \<Rightarrow> True | Some fr \<Rightarrow> addrRslv fr)"

text \<open>The source address of one end-point, and whether it could not be resolved.\<close>

definition ep_source :: "'r rules_env \<Rightarrow> 'r rules \<Rightarrow> lbEnt \<Rightarrow> ruleLBEp \<Rightarrow> IP \<times> bool" where
  "ep_source env R e np =
    (let l3 = fst (v_l3 (rl_vips R)); rts = fst (snd (v_l3 (rl_vips R)));
         sel = (\<lambda>any. IfaSelectAny (vl3 (re_vip env)) l3 rts (xIP np) any);
         serviceIP = IP_Mask (net_IP (l3Dst (lb_tuples_of e))) (net_Mask (l3Dst (lb_tuples_of e))) in
     case lb_mode e of
       LBModeFullNAT \<Rightarrow>
         (if \<not> IsCIKAMode then
            (let sip = RuleVIP2PrivIP e in
             (if IP_Equal (xIP np) sip \<or> IsIPHostAddr (rhost env) (IP_String (xIP np)) then zero_ip else sip, False))
          else (case CIVipGet (rl_has R) (lb_ci e) of Inr vip \<Rightarrow> (vip, False) | Inl _ \<Rightarrow> (rIP np, True)))
     | m \<Rightarrow>
         (if m = LBModeOneArm \<or> m = LBModeHostOneArm then
            (let (err, sip, _) = sel True in (if IP_Equal (xIP np) sip then zero_ip else sip, err \<noteq> 0))
          else if IsNetIPv6 (rhost env) (IP_String serviceIP) \<and> IsNetIPv4 (rhost env) (IP_String (xIP np)) then
            (let (err, sip, _) = sel False in (sip, err \<noteq> 0))
          else (zero_ip, False)))"

text \<open>The loop over the end-points: the result, whether something changed, whether something is
unresolved.\<close>

fun elect_eps :: "'r rules_env \<Rightarrow> 'r rules \<Rightarrow> lbEnt \<Rightarrow> bool \<Rightarrow> ruleLBEp list \<Rightarrow> ruleLBEp list \<times> bool \<times> bool" where
  "elect_eps env R e unres [] = ([], False, unres)"
| "elect_eps env R e unres (np # nps) =
    (if fold_unresolved R np then
       (let (ns, c, u) = elect_eps env R e True nps in (np # ns, c, u))
     else (let (sip, bad) = ep_source env R e np; unres' = (unres \<or> bad);
               chg = (\<not> IP_Equal (rIP np) sip \<or> (addrRslv e \<and> \<not> unres'));
               (ns, c, u) = elect_eps env R e unres' nps
           in ((if chg then np \<lparr> rIP := sip \<rparr> else np) # ns, chg \<or> c, u)))"

definition electEPSrc :: "'r rules_env \<Rightarrow> lbEnt \<Rightarrow> 'r rules \<Rightarrow> bool \<times> lbEnt \<times> 'r rules" where
  "electEPSrc env e R = (let (eps, chg, unres) = elect_eps env R e False (rule_eps R e) in
     (chg, e \<lparr> addrRslv := unres \<rparr>, write_slice (lb_eps e) eps R))"

text \<open>The host addresses a rule for all of them is installed on; the order of a Go map is left
open, the new ones come last here.\<close>

definition host_locs :: "'r rules_env \<Rightarrow> lbEnt \<Rightarrow> string list option" where
  "host_locs env e = map_option (\<lambda>as. remdups (List.map_filter (\<lambda>a. case a of
      None \<Rightarrow> None
    | Some n \<Rightarrow>
        (let s = IP_String (net_IP n) in
         if \<not> IsLoopback (net_IP n) \<and> \<not> IsUnspecified (net_IP n) \<and> (To4 (net_IP n) \<noteq> [] \<or> To16 (net_IP n) \<noteq> []) \<and>
           IsNetIPv4 (rhost env) s \<and> IP_String (net_IP (l3Dst (lb_tuples_of e))) \<noteq> s
         then Some s else None)) as)) (InterfaceAddrs (rhost env))"

definition mkHostAssocs :: "'r rules_env \<Rightarrow> lbEnt \<Rightarrow> bool \<times> lbEnt" where
  "mkHostAssocs env e = (case host_locs env e of
      None \<Rightarrow> (False, e)
    | Some now \<Rightarrow>
        (let kept = filter (\<lambda>l. l \<in> set now) (locIPs e); new = filter (\<lambda>l. l \<notin> set (locIPs e)) now in
         (kept \<noteq> locIPs e \<or> new \<noteq> [], e \<lparr> locIPs := kept @ new \<rparr>)))"

subsection \<open>Folding\<close>

text \<open>The key of the rule whose service is an end-point.\<close>

definition ep_rule_key :: "'r rules_env \<Rightarrow> lbEnt \<Rightarrow> ruleLBEp \<Rightarrow> string option" where
  "ep_rule_key env e ep =
    (let s = IP_String (xIP ep); service = (if IsNetIPv4 (rhost env) s then s @ ''/32'' else s @ ''/128'') in
     map_option (\<lambda>(_, n). ruleKey (lb_tuples n (v8 (l4Prot (lb_tuples_of e))) (xPort ep) (xPort ep)
       (t_pref (lb_tuples_of e)) [])) (ParseCIDR service))"

definition fold_into :: "nat \<times> nat \<Rightarrow> string \<Rightarrow> ruleLBEp \<Rightarrow> ruleLBEp" where
  "fold_into s key ep = ep \<lparr> foldEndPoints := Some s, foldRuleKey := key \<rparr>"

definition unfold_ep :: "ruleLBEp \<Rightarrow> ruleLBEp" where
  "unfold_ep ep = ep \<lparr> foldEndPoints := None, foldRuleKey := [] \<rparr>"

text \<open>Fold the rule \<open>r\<close> into the end-points of rule \<open>trk\<close> from index \<open>i\<close> on; once an
end-point is folded, the rule is sent for it and for each end-point after it.\<close>

fun fold_eps :: "'r rules_env \<Rightarrow> lbEnt \<Rightarrow> string \<Rightarrow> nat \<Rightarrow> bool \<Rightarrow> nat \<Rightarrow> 'r rules \<Rightarrow> 'r rules option" where
  "fold_eps env r trk i folded 0 R = Some R"
| "fold_eps env r trk i folded (Suc n) R = (case gm_get (lbMap R) trk of
      None \<Rightarrow> Some R
    | Some tr \<Rightarrow>
        (let eps = rule_eps R tr; ep = eps ! i; rk = ruleKey (lb_tuples_of r) in
         if ep_rule_key env r ep = None then fold_eps env r trk (Suc i) folded n R
         else (let hit = (ep_rule_key env r ep = Some rk);
                   R1 = (if hit then write_slice (lb_eps tr) (eps[i := fold_into (lb_eps r) rk ep]) R else R) in
           if folded \<or> hit then (case lb_dp env DpCreate trk R1 of
               None \<Rightarrow> None | Some R2 \<Rightarrow> fold_eps env r trk (Suc i) True n R2)
           else fold_eps env r trk (Suc i) False n R1)))"

definition fold_own :: "'r rules_env \<Rightarrow> lbEnt \<Rightarrow> string \<Rightarrow> lbEnt \<Rightarrow> 'r rules \<Rightarrow> 'r rules" where
  "fold_own env r trk tr R = write_slice (lb_eps r) (map (\<lambda>ep.
     if ep_rule_key env r ep = Some (ruleKey (lb_tuples_of tr)) then fold_into (lb_eps tr) (ruleKey (lb_tuples_of tr)) ep else ep)
     (rule_eps R r)) R"

fun fold_rules :: "'r rules_env \<Rightarrow> lbEnt \<Rightarrow> string list \<Rightarrow> 'r rules \<Rightarrow> 'r rules option" where
  "fold_rules env r [] R = Some R"
| "fold_rules env r (trk # ks) R = (case gm_get (lbMap R) trk of
      None \<Rightarrow> fold_rules env r ks R
    | Some tr \<Rightarrow>
        (let R1 = fold_own env r trk tr R in
         if lb_sel r \<noteq> lb_sel tr \<or> lb_sel r = LbSelPrio then fold_rules env r ks R1
         else (case fold_eps env r trk 0 False (snd (lb_eps tr)) R1 of
             None \<Rightarrow> None | Some R2 \<Rightarrow> fold_rules env r ks R2)))"

definition foldRecursiveEPs :: "'r rules_env \<Rightarrow> lbEnt \<Rightarrow> 'r rules \<Rightarrow> 'r rules option" where
  "foldRecursiveEPs env r R = fold_rules env r (map fst (lbMap R)) R"

fun unfold_eps :: "'r rules_env \<Rightarrow> string \<Rightarrow> string \<Rightarrow> nat \<Rightarrow> nat \<Rightarrow> 'r rules \<Rightarrow> 'r rules option" where
  "unfold_eps env rk trk i 0 R = Some R"
| "unfold_eps env rk trk i (Suc n) R = (case gm_get (lbMap R) trk of
      None \<Rightarrow> Some R
    | Some tr \<Rightarrow>
        (let eps = rule_eps R tr in
         if foldRuleKey (eps ! i) = rk then
           (case lb_dp env DpCreate trk (write_slice (lb_eps tr) (eps[i := unfold_ep (eps ! i)]) R) of
              None \<Rightarrow> None | Some R1 \<Rightarrow> unfold_eps env rk trk (Suc i) n R1)
         else unfold_eps env rk trk (Suc i) n R))"

definition unfold_own :: "lbEnt \<Rightarrow> lbEnt \<Rightarrow> 'r rules \<Rightarrow> 'r rules" where
  "unfold_own r tr R = write_slice (lb_eps r) (map (\<lambda>ep.
     if foldRuleKey ep = ruleKey (lb_tuples_of tr) then unfold_ep ep else ep) (rule_eps R r)) R"

fun unfold_rules :: "'r rules_env \<Rightarrow> string \<Rightarrow> lbEnt \<Rightarrow> string list \<Rightarrow> 'r rules \<Rightarrow> 'r rules option" where
  "unfold_rules env key r [] R = Some R"
| "unfold_rules env key r (trk # ks) R =
    (if trk = key then unfold_rules env key r ks R
     else (case gm_get (lbMap R) trk of
         None \<Rightarrow> unfold_rules env key r ks R
       | Some tr \<Rightarrow>
           (let R1 = unfold_own r tr R in
            if lb_sel r \<noteq> lb_sel tr \<or> lb_sel r = LbSelPrio then unfold_rules env key r ks R1
            else (case unfold_eps env (ruleKey (lb_tuples_of r)) trk 0 (snd (lb_eps tr)) R1 of
                None \<Rightarrow> None | Some R2 \<Rightarrow> unfold_rules env key r ks R2))))"

definition unFoldRecursiveEPs :: "'r rules_env \<Rightarrow> string \<Rightarrow> lbEnt \<Rightarrow> 'r rules \<Rightarrow> 'r rules option" where
  "unFoldRecursiveEPs env key r R = unfold_rules env key r (map fst (lbMap R)) R"

end
