(* ===== verification/LbRules.thy ===== *)
theory LbRules
  imports LbDp
begin

text \<open>Load-balancer rules (\<open>rules.go\<close>): allowed sources, validation of a request, additions,
updates and deletions, lookups, listing, the periodic synchronisation and the destructor.\<close>

subsection \<open>Firewall rules on behalf of load-balancer rules\<close>

text \<open>These requests are not for source NAT, so \<open>AddFwRule\<close> does not reach its
load-balancer call.  A deletion may find a source NAT rule of a user under the key of the request and then
deletes the service of that rule: \<open>dl\<close> is \<open>DeleteLbRule\<close>.\<close>

definition fw_add :: "'r rules_env \<Rightarrow> FwRuleArg \<Rightarrow> FwOptArg \<Rightarrow> 'r rules \<Rightarrow> (go_ret \<times> 'r rules) option" where
  "fw_add env rule opts R = AddFwRule env (\<lambda>_ _ R. Some (Ok, R)) rule opts R"

definition allow_opts :: "u32 \<Rightarrow> FwOptArg" where
  "allow_opts m = zero_fwopt \<lparr> fo_Allow := True, fo_Mark := m \<rparr>"

definition src_rule :: "'r rules_env \<Rightarrow> IPNet \<Rightarrow> FwRuleArg" where
  "src_rule env pref = zero_fwrule \<lparr> fa_SrcIP := IPNet_String pref,
     fa_DstIP := (if IsNetIPv6 (rhost env) (IPNet_String pref) then ''::/0'' else ''0.0.0.0/0'') \<rparr>"

definition mark_bit :: "u32 \<Rightarrow> u32" where "mark_bit n = push_bit (unat n) 1"

definition real_error :: "go_ret \<Rightarrow> bool" where
  "real_error r = (case r of Ok \<Rightarrow> False | Err _ m \<Rightarrow> \<not> sublist ''fwrule-exists'' m)"

text \<open>The prefix of the element that is returned; \<open>None\<close> inside is a failure.\<close>

definition src_install :: "'r rules_env \<Rightarrow> string \<Rightarrow> bool \<Rightarrow> IPNet \<Rightarrow> allowedSrcElem \<Rightarrow> 'r rules \<Rightarrow> (IPNet option \<times> 'r rules) option" where
  "src_install env CIDR added pref el R = (case fw_add env (src_rule env pref) (allow_opts (lbmark el OR SrcChkFwMark)) R of
      None \<Rightarrow> None
    | Some (ret, R1) \<Rightarrow>
        if real_error ret then Some (None, R1 \<lparr> srcCnt := PutCounter env (src_mark el) (srcCnt R1) \<rparr>)
        else Some (Some (srcPref el), if added then R1 else R1 \<lparr> lbSrcMap := gm_put CIDR el (lbSrcMap R1) \<rparr>))"

definition addAllowedLbSrc :: "'r rules_env \<Rightarrow> string \<Rightarrow> u32 \<Rightarrow> 'r rules \<Rightarrow> (IPNet option \<times> 'r rules) option" where
  "addAllowedLbSrc env CIDR lbMark R = (case ParseCIDR CIDR of
      None \<Rightarrow> Some (None, R)
    | Some (_, pref) \<Rightarrow>
       if lbMark > MaxSrcLBMarkerNum then Some (None, R)
       else (case gm_get (lbSrcMap R) CIDR of
           Some el0 \<Rightarrow>
             (let el = el0 \<lparr> lbmark := lbmark el0 OR mark_bit lbMark, src_ref := src_ref el0 + 1 \<rparr>
              in src_install env CIDR True pref el (R \<lparr> lbSrcMap := gm_put CIDR el (lbSrcMap R) \<rparr>))
         | None \<Rightarrow> (case GetCounter env (srcCnt R) of
             (None, c) \<Rightarrow> Some (None, R \<lparr> srcCnt := c \<rparr>)
           | (Some m, c) \<Rightarrow> src_install env CIDR False pref
               \<lparr> src_ref = 1, srcPref = pref, src_mark = m, lbmark = mark_bit lbMark \<rparr> (R \<lparr> srcCnt := c \<rparr>))))"

text \<open>When other rules keep using the prefix, the request that should update the mark has no
destination.\<close>

definition deleteAllowedLbSrc :: "'r rules_env \<Rightarrow> 'r lb_deleter \<Rightarrow> string \<Rightarrow> u32 \<Rightarrow> 'r rules \<Rightarrow> (go_ret \<times> 'r rules) option" where
  "deleteAllowedLbSrc env dl CIDR lbMark R = (case gm_get (lbSrcMap R) CIDR of
      None \<Rightarrow> Some (Err 0 ''no such allowed src prefix'', R)
    | Some el0 \<Rightarrow>
       if lbMark > MaxSrcLBMarkerNum then Some (Ok, R)
       else (let el = el0 \<lparr> src_ref := src_ref el0 - 1 \<rparr> in
         if src_ref el = 0 then (case DeleteFwRule env dl (src_rule env (srcPref el)) (R \<lparr> lbSrcMap := gm_put CIDR el (lbSrcMap R) \<rparr>) of
             None \<Rightarrow> None
           | Some (_, R1) \<Rightarrow> Some (Ok, R1 \<lparr> srcCnt := PutCounter env (src_mark el) (srcCnt R1),
               lbSrcMap := gm_del CIDR (lbSrcMap R1) \<rparr>))
         else (let el' = el \<lparr> lbmark := lbmark el AND NOT (mark_bit lbMark) \<rparr> in
           map_option (\<lambda>(_, R1). (Ok, R1)) (fw_add env (zero_fwrule \<lparr> fa_SrcIP := IPNet_String (srcPref el) \<rparr>)
             (allow_opts (lbmark el' OR SrcChkFwMark)) (R \<lparr> lbSrcMap := gm_put CIDR el' (lbSrcMap R) \<rparr>)))))"

text \<open>Add the sources of a rule; on a failure the ones added so far are returned with
\<open>False\<close>.\<close>

fun add_sources :: "'r rules_env \<Rightarrow> u32 \<Rightarrow> string list \<Rightarrow> IPNet list \<Rightarrow> 'r rules \<Rightarrow> (bool \<times> IPNet list \<times> 'r rules) option" where
  "add_sources env mark [] got R = Some (True, got, R)"
| "add_sources env mark (c # cs) got R = (case addAllowedLbSrc env c mark R of
      None \<Rightarrow> None
    | Some (None, R1) \<Rightarrow> Some (False, got, R1)
    | Some (Some p, R1) \<Rightarrow> add_sources env mark cs (got @ [p]) R1)"

fun del_sources :: "'r rules_env \<Rightarrow> 'r lb_deleter \<Rightarrow> u32 \<Rightarrow> IPNet list \<Rightarrow> 'r rules \<Rightarrow> 'r rules option" where
  "del_sources env dl mark [] R = Some R"
| "del_sources env dl mark (p # ps) R = (case deleteAllowedLbSrc env dl (IPNet_String p) mark R of
      None \<Rightarrow> None | Some (_, R1) \<Rightarrow> del_sources env dl mark ps R1)"

definition range_rule :: "'r rules_env \<Rightarrow> string \<Rightarrow> u16 \<Rightarrow> u16 \<Rightarrow> u8 \<Rightarrow> FwRuleArg" where
  "range_rule env dst lo hi proto = zero_fwrule
     \<lparr> fa_SrcIP := (if IsNetIPv6 (rhost env) dst then ''::/0'' else ''0.0.0.0/0''),
       fa_DstIP := (if IsNetIPv6 (rhost env) dst then dst @ ''/128'' else dst @ ''/32''),
       DstPortMin := lo, DstPortMax := hi, fa_Proto := proto \<rparr>"

definition addLbRuleWithFW :: "'r rules_env \<Rightarrow> string \<Rightarrow> u16 \<Rightarrow> u16 \<Rightarrow> u8 \<Rightarrow> u32 \<Rightarrow> 'r rules \<Rightarrow> 'r rules option" where
  "addLbRuleWithFW env dst lo hi proto lbMark R =
    map_option snd (fw_add env (range_rule env dst lo hi proto) (allow_opts (push_bit 16 lbMark OR NatFwMark)) R)"

definition deleteLbRuleWithFW :: "'r rules_env \<Rightarrow> 'r lb_deleter \<Rightarrow> string \<Rightarrow> u16 \<Rightarrow> u16 \<Rightarrow> u8 \<Rightarrow> 'r rules \<Rightarrow> 'r rules option" where
  "deleteLbRuleWithFW env dl dst lo hi proto R =
    (if IsNetIPv6 (rhost env) dst then Some R else map_option snd (DeleteFwRule env dl (range_rule env dst lo hi proto) R))"

subsection \<open>Validation\<close>

definition service_cidr :: "'r rules_env \<Rightarrow> LbServiceArg \<Rightarrow> string" where
  "service_cidr env serv =
    (if IsNetIPv4 (rhost env) (ServIP serv) then
       (if ServIP serv @ ''/32'' = ''0.0.0.0/32'' \<and> sa_Egress serv \<and> ClusterGw env \<noteq> [] then ClusterGw env @ ''/32''
        else ServIP serv @ ''/32'')
     else
       (if ServIP serv @ ''/128'' = ''::/128'' \<and> sa_Egress serv \<and> ClusterGw env \<noteq> [] then ClusterGw env @ ''/128''
        else ServIP serv @ ''/128''))"

definition proto_num :: "string \<Rightarrow> u8 option" where
  "proto_num p = (if p = ''tcp'' then Some 6 else if p = ''udp'' then Some 17 else if p = ''icmp'' then Some 1
     else if p = ''sctp'' then Some 132 else if p = ''none'' then Some 0 else None)"

definition rule_tuples :: "IPNet \<Rightarrow> u8 \<Rightarrow> LbServiceArg \<Rightarrow> ruleTuples" where
  "rule_tuples n prot serv = lb_tuples n prot (ServPort serv)
     (if ServPortMax serv \<noteq> 0 then ServPortMax serv else ServPort serv) (BlockNum serv) (HostUrl serv)"

definition set_timeouts :: "LbServiceArg \<Rightarrow> LbServiceArg" where
  "set_timeouts serv =
    (let s1 = (if InactiveTimeout serv = 0
         then serv \<lparr> InactiveTimeout := (if sa_Proto serv \<noteq> ''tcp'' \<and> sa_Proto serv \<noteq> ''sctp''
           then LbDefaultInactiveNSTimeout else LbDefaultInactiveTimeout) \<rparr> else serv);
         s2 = (if ProbeType serv \<noteq> [] \<and> ProbeType serv \<noteq> HostProbeNone then s1 \<lparr> Monitor := True \<rparr> else s1) in
     if sa_Sel serv = LbSelRrPersist \<and> (PersistTimeout serv = 0 \<or> PersistTimeout serv > 86400)
     then s2 \<lparr> PersistTimeout := DefaultPersistTimeOut \<rparr> else s2)"

definition probe_args :: "LbServiceArg \<Rightarrow> go_ret" where
  "probe_args serv =
    (let conn = (ProbeType serv \<in> {HostProbeConnectSCTP, HostProbeConnectTCP, HostProbeConnectUDP}) in
     if ProbeType serv \<noteq> [] then
       (if \<not> conn \<and> ProbeType serv \<noteq> HostProbePing \<and> ProbeType serv \<noteq> HostProbeNone
          then Err RuleArgsErr ''malformed-service-ptype error''
        else if conn \<and> ProbePort serv = 0 then Err RuleArgsErr ''malformed-service-pport error''
        else if \<not> conn \<and> ProbePort serv \<noteq> 0 then Err RuleArgsErr ''malformed-service-pport error''
        else Ok)
     else if ProbePort serv \<noteq> 0 then Err RuleArgsErr ''malformed-service-pport error'' else Ok)"

definition service_args :: "LbServiceArg \<Rightarrow> nat \<Rightarrow> nat \<Rightarrow> go_ret" where
  "service_args serv neps nsec =
    (if neps = 0 \<or> neps > MaxLBEndPoints then Err RuleEpCountErr ''endpoints-range error''
     else if sa_Proto serv = ''icmp'' \<and> ServPort serv \<noteq> 0 then Err RuleUnknownServiceErr ''malformed-service error''
     else if ProxyProtocolV2 serv \<and> sa_Proto serv \<noteq> ''tcp'' then Err RuleUnknownServiceErr ''proxy-proto-v2 not tcp service error''
     else if proto_num (sa_Proto serv) = None then Err RuleUnknownServiceErr ''malformed-proto error''
     else if sa_Proto serv \<noteq> ''sctp'' \<and> nsec > 0 then Err RuleArgsErr ''secondaryIP-args error''
     else if sa_Proto serv \<noteq> ''udp'' \<and> sa_Sel serv = LbSelN3 then Err RuleArgsErr ''non-udp-n3-args error''
     else if nsec > 3 then Err RuleArgsErr ''secondaryIP-args len error''
     else if ServPortMax serv \<noteq> 0 \<and> ServPortMax serv < ServPort serv then Err RuleArgsErr ''serv-port-args range error''
     else Ok)"

fun parse_secs :: "host_env \<Rightarrow> LbServiceArg \<Rightarrow> string list \<Rightarrow> (go_ret, IP list) sum" where
  "parse_secs h serv [] = Inr []"
| "parse_secs h serv (k # ks) =
    (if ParseIP k = [] then Inl (Err RuleUnknownServiceErr ''malformed-secIP error'')
     else if IsNetIPv4 h (ServIP serv) \<and> IsNetIPv6 h k then Inl (Err RuleUnknownServiceErr ''malformed-secIP nat46 error'')
     else map_sum id (Cons (ParseIP k)) (parse_secs h serv ks))"

fun parse_eps :: "host_env \<Rightarrow> LbServiceArg \<Rightarrow> LbEndPointArg list \<Rightarrow> (go_ret, ruleLBEp list) sum" where
  "parse_eps h serv [] = Inr []"
| "parse_eps h serv (k # ks) =
    (if ParseIP (EpIP k) = [] then Inl (Err RuleUnknownEpErr ''malformed-lbep error'')
     else if IsNetIPv4 h (ServIP serv) \<and> IsNetIPv6 h (EpIP k) then Inl (Err RuleUnknownServiceErr ''malformed-service nat46 error'')
     else if sa_Proto serv = ''icmp'' \<and> EpPort k \<noteq> 0 then Inl (Err RuleUnknownServiceErr ''malformed-service error'')
     else if sa_Mode serv = LBModeDSR \<and> EpPort k \<noteq> ServPort serv then Inl (Err RuleUnknownServiceErr ''malformed-service dsr-port error'')
     else map_sum id (Cons (new_ep (ParseIP (EpIP k)) (EpPort k) (ea_Weight k))) (parse_eps h serv ks))"

text \<open>A request that passed all checks.\<close>

record lb_req =
  rq_serv :: LbServiceArg
  rq_prot :: u8
  rq_priv :: IP
  rq_sec :: "IP list"
  rq_eps :: "ruleLBEp list"
  rq_rt :: ruleTuples

definition probes :: "LBMode \<Rightarrow> bool \<Rightarrow> bool" where
  "probes m monitor \<longleftrightarrow> m = LBModeOneArm \<or> m = LBModeFullNAT \<or> m = LBModeHostOneArm \<or> monitor"

definition lb_validate :: "'r rules_env \<Rightarrow> LbServiceArg \<Rightarrow> string list \<Rightarrow> LbEndPointArg list \<Rightarrow> (go_ret, lb_req) sum" where
  "lb_validate env serv0 secs eps = (case ParseCIDR (service_cidr env serv0) of
      None \<Rightarrow> Inl (Err RuleUnknownServiceErr ''malformed-service error'')
    | Some (_, net) \<Rightarrow>
       if PrivateIP serv0 \<noteq> [] \<and> ParseIP (PrivateIP serv0) = [] then Inl (Err RuleUnknownServiceErr ''malformed-service privateIP error'')
       else if InactiveTimeout serv0 > LbMaxInactiveTimeout then Inl (Err RuleArgsErr ''service-args error'')
       else if probe_args serv0 \<noteq> Ok then Inl (probe_args serv0)
       else if service_args serv0 (length eps) (length secs) \<noteq> Ok then Inl (service_args serv0 (length eps) (length secs))
       else (let serv = set_timeouts serv0; prot = the (proto_num (sa_Proto serv)) in
         case parse_secs (rhost env) serv secs of
           Inl e \<Rightarrow> Inl e
         | Inr sips \<Rightarrow>
            if sa_Mode serv = LBModeHostOneArm \<and> \<not> IsUnspecified (net_IP net) then Inl (Err RuleArgsErr ''hostarm-args error'')
            else (case parse_eps (rhost env) serv eps of
                Inl e \<Rightarrow> Inl e
              | Inr reps \<Rightarrow> Inr \<lparr> rq_serv = serv, rq_prot = prot,
                  rq_priv = (if PrivateIP serv \<noteq> [] then ParseIP (PrivateIP serv) else []),
                  rq_sec = sort_key (IPtonl env) sips, rq_eps = sort_key (\<lambda>e. IPtonl env (xIP e)) reps,
                  rq_rt = rule_tuples net prot serv \<rparr>)))"

subsection \<open>Helpers\<close>

definition mod_hosts :: "'r rules_env \<Rightarrow> lbEnt \<Rightarrow> bool \<Rightarrow> bool \<Rightarrow> ruleLBEp list \<Rightarrow> 'r rules \<Rightarrow> ruleLBEp list \<times> 'r rules" where
  "mod_hosts env e addOp live_chk eps R =
    (let (eps', E, c) = modNatEpHost (re_probe env) (pProbe env) (hChk e) (v8 (l4Prot (lb_tuples_of e))) addOp live_chk
           (lb_egress e) eps (rl_eps R, rl_has R)
     in (eps', R \<lparr> rl_eps := E, rl_has := c \<rparr>))"

definition own_vip :: "lbEnt \<Rightarrow> bool" where
  "own_vip e \<longleftrightarrow> lb_actType e \<noteq> RtActSnat \<and> \<not> sublist ''ipvs'' (lb_name e) \<and> \<not> sublist ''static'' (lb_name e)"

definition addVIPSys :: "'r rules_env \<Rightarrow> lbEnt \<Rightarrow> 'r rules \<Rightarrow> 'r rules" where
  "addVIPSys env e R =
    (if own_vip e
     then fold (\<lambda>s. add_vip env s s (lb_inst e) (lb_egress e)) (secIP e)
       (add_vip env (net_IP (l3Dst (lb_tuples_of e))) (RuleVIP2PrivIP e) (lb_inst e) (lb_egress e) R)
     else R)"

definition deleteVIPSys :: "'r rules_env \<Rightarrow> lbEnt \<Rightarrow> 'r rules \<Rightarrow> 'r rules" where
  "deleteVIPSys env e R =
    (if own_vip e then fold (del_vip env) (secIP e) (del_vip env (net_IP (l3Dst (lb_tuples_of e))) R) else R)"

text \<open>Send the rule between two flushes of its connections.\<close>

definition program_rule :: "'r rules_env \<Rightarrow> string \<Rightarrow> lbEnt \<Rightarrow> 'r rules \<Rightarrow> 'r rules option" where
  "program_rule env key e R = (case lb_dp env DpCreate key (flushLBCtEntries env e 0 R) of
      None \<Rightarrow> None
    | Some R1 \<Rightarrow> Some (flushLBCtEntries env e 1 (emit [RuleBarrier] R1)))"

subsection \<open>Deletion\<close>

text \<open>The resources of a rule other than its number, in the order of the code.\<close>

definition lb_release :: "'r rules_env \<Rightarrow> 'r lb_deleter \<Rightarrow> LbServiceArg \<Rightarrow> u8 \<Rightarrow> string \<Rightarrow> lbEnt \<Rightarrow> 'r rules \<Rightarrow> 'r rules option" where
  "lb_release env dl serv prot key e R =
    (if lb_actType e = RtActSnat then Some R
     else (let (eps, R1) = mod_hosts env e False (probes (lb_mode e) (actChk (hChk e))) (rule_eps R e) R in
       case unFoldRecursiveEPs env key e (write_slice (lb_eps e) eps R1) of
         None \<Rightarrow> None
       | Some R2 \<Rightarrow> if ServPortMax serv \<noteq> 0
           then deleteLbRuleWithFW env dl (ServIP serv) (ServPort serv) (ServPortMax serv) prot R2 else Some R2))"

definition lb_remove :: "'r rules_env \<Rightarrow> 'r lb_deleter \<Rightarrow> LbServiceArg \<Rightarrow> u8 \<Rightarrow> string \<Rightarrow> lbEnt \<Rightarrow> 'r rules \<Rightarrow> 'r rules option" where
  "lb_remove env dl serv prot key e R = (case lb_release env dl serv prot key e R of
      None \<Rightarrow> None
    | Some R1 \<Rightarrow> (case del_sources env dl (ucast (lb_ruleNum e)) (srcList e) R1 of
        None \<Rightarrow> None
      | Some R2 \<Rightarrow>
         (let e1 = e \<lparr> srcList := [] \<rparr>;
              R3 = R2 \<lparr> lbMap := gm_del key (lbMap R2),
                rArr := (if lb_ruleNum e < RtMaximumLbs then gm_del (lb_ruleNum e) (rArr R2) else rArr R2) \<rparr>;
              R4 = flushLBCtEntries env e1 0 (deleteVIPSys env e1 R3) in
          case LB2DP env DpRemove e1 R4 of
            None \<Rightarrow> None
          | Some (_, _, evs) \<Rightarrow> (case ReleaseMarker (lb_ruleNum e) (lbMarks R4) of
              None \<Rightarrow> None
            | Some (_, m) \<Rightarrow> Some (emit evs (R4 \<lparr> lbMarks := m \<rparr>))))))"

definition delete_lb :: "'r rules_env \<Rightarrow> 'r lb_deleter \<Rightarrow> LbServiceArg \<Rightarrow> 'r rules \<Rightarrow> (go_ret \<times> 'r rules) option" where
  "delete_lb env dl serv R = (case ParseCIDR (service_cidr env serv) of
      None \<Rightarrow> Some (Err RuleUnknownServiceErr ''malformed-service error'', R)
    | Some (_, net) \<Rightarrow>
       if ServPortMax serv \<noteq> 0 \<and> ServPortMax serv < ServPort serv then Some (Err RuleArgsErr ''serv-port-args range error'', R)
       else (case proto_num (sa_Proto serv) of
           None \<Rightarrow> Some (Err RuleUnknownServiceErr ''malformed-proto error'', R)
         | Some prot \<Rightarrow>
            (let key = ruleKey (rule_tuples net prot serv) in
             case gm_get (lbMap R) key of
               None \<Rightarrow> Some (Err RuleNotExistsErr ''no-rule error'', R)
             | Some e \<Rightarrow> map_option (Pair Ok) (lb_remove env dl serv prot key e R))))"

text \<open>A deletion reaches itself through the firewall rule of an allowed source whose count drops to
zero.  In the calls below this one the count of that source is no longer positive, so the depth is at
most the number of allowed sources.\<close>

primrec delete_lb_to :: "nat \<Rightarrow> 'r rules_env \<Rightarrow> LbServiceArg \<Rightarrow> 'r rules \<Rightarrow> (go_ret \<times> 'r rules) option" where
  "delete_lb_to 0 env serv R = None"
| "delete_lb_to (Suc n) env serv R = delete_lb env (delete_lb_to n env) serv R"

definition DeleteLbRule :: "'r rules_env \<Rightarrow> LbServiceArg \<Rightarrow> 'r rules \<Rightarrow> (go_ret \<times> 'r rules) option" where
  "DeleteLbRule env serv R = delete_lb_to (length (lbSrcMap R) + 2) env serv R"

subsection \<open>Update\<close>

text \<open>Merging the requested end-points with what it does to the arrays: changed, the slice of the
result, the end-points that go away.  A detach copies the end-points that stay; otherwise the result
is the old slice, extended in place unless it is full.\<close>

definition consolidate :: "'r rules_env \<Rightarrow> nat \<times> nat \<Rightarrow> ruleLBEp list \<Rightarrow> LBOp \<Rightarrow> 'r rules \<Rightarrow>
    bool \<times> (nat \<times> nat) \<times> ruleLBEp list \<times> 'r rules" where
  "consolidate env sl news oper R =
    (let olds0 = slice R sl; (chg, ret, del) = getLBConsolidatedEPs olds0 news oper;
         (_, found, olds, _) = match_eps oper olds0 news; n = length olds in
     if oper = LBOPDetach then
       (if \<not> found then (chg, sl, del, R)
        else (let (rs, R1) = new_slice ret (write_slice sl (map (\<lambda>e. e \<lparr> chkVal := False \<rparr>) olds) R) in (chg, rs, del, R1)))
     else if length ret = n then (chg, sl, del, write_slice sl ret R)
     else if slice_full env n (length ret - n) then
       (let (rs, R1) = new_slice ret (write_slice sl olds R) in (chg, rs, del, R1))
     else (chg, (fst sl, length ret), del, write_slice sl ret R))"

definition sources_changed :: "string list \<Rightarrow> IPNet list \<Rightarrow> bool" where
  "sources_changed srcs sl \<longleftrightarrow> length srcs \<noteq> length sl \<or> list_ex (\<lambda>c. list_all (\<lambda>p. IPNet_String p = c) sl) srcs"

definition params_changed :: "LbServiceArg \<Rightarrow> lbEnt \<Rightarrow> bool" where
  "params_changed serv e \<longleftrightarrow> prbType (hChk e) \<noteq> ProbeType serv \<or> prbPort (hChk e) \<noteq> ProbePort serv \<or>
     prbReq (hChk e) \<noteq> ProbeReq serv \<or> prbResp (hChk e) \<noteq> ProbeResp serv \<or> actChk (hChk e) \<noteq> Monitor serv \<or>
     pTO e \<noteq> PersistTimeout serv \<or> lb_sel e \<noteq> sa_Sel serv \<or> lb_mode e \<noteq> sa_Mode serv \<or> ppv2En e \<noteq> ProxyProtocolV2 serv"

definition probe_of :: "LbServiceArg \<Rightarrow> ruleProbe" where
  "probe_of serv = \<lparr> actChk = Monitor serv, prbType = ProbeType serv, prbPort = ProbePort serv, prbReq = ProbeReq serv,
     prbResp = ProbeResp serv, prbTimeo = ProbeTimeout serv, prbRetries = ProbeRetries serv \<rparr>"

text \<open>The end of an update: the rule gets the request's parameters, the new slice and the new
sources, sessions of changed end-points are reset, hosts follow, and the rule is programmed.\<close>

definition update_hosts :: "'r rules_env \<Rightarrow> LbServiceArg \<Rightarrow> bool \<Rightarrow> lbEnt \<Rightarrow> ruleLBEp list \<Rightarrow> 'r rules \<Rightarrow> lbEnt \<times> 'r rules" where
  "update_hosts env serv monitorOn e del R =
    (if Snat serv then (e, R)
     else (let act = probes (sa_Mode serv) (Monitor serv);
               (_, R1) = mod_hosts env e False act del R;
               (eps, R2) = mod_hosts env e True act (rule_eps R1 e) R1;
               R3 = write_slice (lb_eps e) eps R2;
               R4 = (if monitorOn then R3 \<lparr> rl_eps := activateEPHostsProbe (v8 (l4Prot (lb_tuples_of e))) eps (rl_eps R3) \<rparr> else R3);
               (_, e', R5) = electEPSrc env e R4
           in (e', R5)))"

definition update_finish :: "'r rules_env \<Rightarrow> int \<Rightarrow> LbServiceArg \<Rightarrow> nat \<Rightarrow> string \<Rightarrow> lbEnt \<Rightarrow> nat \<times> nat \<Rightarrow> ruleLBEp list \<Rightarrow>
    IPNet list \<Rightarrow> 'r rules \<Rightarrow> (go_ret \<times> 'r rules) option" where
  "update_finish env now serv nreq key e rs del srcs R0 =
    (let monitorOn = (Monitor serv \<and> \<not> actChk (hChk e));
         R = (if \<not> Monitor serv \<and> actChk (hChk e)
           then write_slice rs (map (\<lambda>ep. ep \<lparr> noService := False, inActTries := 0 \<rparr>) (slice R0 rs)) R0 else R0);
         olds = rule_eps R e; news = slice R rs;
         e1 = e \<lparr> hChk := probe_of serv, pTO := PersistTimeout serv, ppv2En := ProxyProtocolV2 serv, lb_sel := sa_Sel serv,
           lb_eps := rs, lb_mode := sa_Mode serv, srcList := srcs \<rparr>;
         R1 = (if del \<noteq> [] \<or> length news \<noteq> nreq
           then (case fst (applySelectiveSessionReset (reset_hook env) (Some (lb_ruleNum e)) olds news del) of
               None \<Rightarrow> R | Some w \<Rightarrow> emit [DpLBSessionReset w] R)
           else R);
         (e2, R2) = update_hosts env serv monitorOn e1 del R1;
         e3 = e2 \<lparr> lb_sT := now, iTO := InactiveTimeout serv \<rparr>
     in map_option (Pair Ok) (program_rule env key e3 (put_lb key e3 R2)))"

text \<open>The sources of an update: the new ones are added before the old ones are released; a failure
releases what was added.\<close>

definition update_sources :: "'r rules_env \<Rightarrow> string list \<Rightarrow> lbEnt \<Rightarrow> 'r rules \<Rightarrow> (IPNet list option \<times> 'r rules) option" where
  "update_sources env srcs e R = (let num = ucast (lb_ruleNum e) in
     case add_sources env num srcs [] R of
       None \<Rightarrow> None
     | Some (False, got, R1) \<Rightarrow> map_option (Pair None) (del_sources env (DeleteLbRule env) num got R1)
     | Some (True, got, R1) \<Rightarrow> map_option (Pair (Some got)) (del_sources env (DeleteLbRule env) num (srcList e) R1))"

definition mark_all :: "ruleLBEp list \<Rightarrow> ruleLBEp list" where
  "mark_all eps = map (\<lambda>n. n \<lparr> chkVal := True \<rparr>) eps"

text \<open>A proxy rule, or one that would get too many end-points, is removed first; in the second case
the requested end-points replace all others, with the marks that the merge left in them.\<close>

definition update_reset :: "'r rules_env \<Rightarrow> lb_req \<Rightarrow> string \<Rightarrow> lbEnt \<Rightarrow> nat \<times> nat \<Rightarrow> ruleLBEp list \<Rightarrow> 'r rules \<Rightarrow>
    ((nat \<times> nat) \<times> ruleLBEp list \<times> 'r rules) option" where
  "update_reset env rq key e rs del R =
    (if lb_mode e \<noteq> LBModeFullProxy \<and> snd rs \<le> MaxLBEndPoints then Some (rs, del, R)
     else (case lb_dp env DpRemove key R of
         None \<Rightarrow> None
       | Some R1 \<Rightarrow>
           if snd rs > MaxLBEndPoints then
             (let (ns, R2) = new_slice (mark_all (rq_eps rq)) R1 in Some (ns, rule_eps R1 e, R2))
           else Some (rs, del, R1)))"

definition lb_update :: "'r rules_env \<Rightarrow> int \<Rightarrow> lb_req \<Rightarrow> string list \<Rightarrow> string \<Rightarrow> lbEnt \<Rightarrow> 'r rules \<Rightarrow> (go_ret \<times> 'r rules) option" where
  "lb_update env now rq srcs key e R0 = (let serv = rq_serv rq in
     if secIP e \<noteq> rq_sec rq then Some (Err RuleUnknownServiceErr ''secIP modify error'', R0)
     else
      (let (chg, rs, del, R) = consolidate env (lb_eps e) (rq_eps rq) (Oper serv) R0 in
       if \<not> (chg \<or> params_changed serv e \<or> sources_changed srcs (srcList e)) then Some (Err RuleExistsErr ''lbrule-exists error'', R)
       else if secMode e \<noteq> Security serv then Some (Err RuleExistsErr ''lbrule-exist error: cant modify rule security mode'', R)
       else if lb_egress e \<noteq> sa_Egress serv then Some (Err RuleExistsErr ''lbrule-exist error: cant modify rule egress mode'', R)
       else if snd rs = 0 then DeleteLbRule env serv R
       else if (lb_mode e = LBModeFullProxy) \<noteq> (sa_Mode serv = LBModeFullProxy)
         then Some (Err RuleExistsErr ''lbrule-exist error: cant modify fullproxy rule mode'', R)
       else (case update_reset env rq key e rs del R of
           None \<Rightarrow> None
         | Some (rs', del', R1) \<Rightarrow> (case update_sources env srcs e R1 of
             None \<Rightarrow> None
           | Some (None, R2) \<Rightarrow> Some (Err RuleAllocErr ''rule-allowed-src error'', R2)
           | Some (Some got, R2) \<Rightarrow>
               update_finish env now serv (length (rq_eps rq)) key (case gm_get (lbMap R2) key of None \<Rightarrow> e | Some e' \<Rightarrow> e')
                 rs' del' got R2))))"

subsection \<open>Addition\<close>

definition rule_inst :: "string \<Rightarrow> string" where
  "rule_inst name = (case split_first CHR '':'' name of
      None \<Rightarrow> CIDefault | Some (_, rest) \<Rightarrow> takeWhile (\<lambda>c. c \<noteq> CHR '':'') rest)"

definition act_type :: "LbServiceArg \<Rightarrow> ruleTActType" where
  "act_type serv = (if Snat serv then RtActSnat
     else if sa_Mode serv = LBModeFullNAT \<or> sa_Mode serv = LBModeOneArm \<or> sa_Mode serv = LBModeHostOneArm then RtActFullNat
     else if sa_Mode serv = LBModeFullProxy then RtActFullProxy else RtActDnat)"

definition new_lb :: "int \<Rightarrow> lb_req \<Rightarrow> u64 \<Rightarrow> nat \<times> nat \<Rightarrow> IPNet list \<Rightarrow> lbEnt" where
  "new_lb now rq num sl srcs = (let serv = rq_serv rq in
     \<lparr> lb_ruleNum = num, lb_sync = DpStatusOk, lb_tuples_of = rq_rt rq, lb_ci = CIDefault, hChk = probe_of serv,
       lb_managed = Managed serv, lb_bgp = sa_Bgp serv, addrRslv = False, lb_sT = now, iTO = InactiveTimeout serv,
       pTO = PersistTimeout serv, lb_actType = act_type serv, lb_mode = sa_Mode serv, lb_sel = sa_Sel serv, lb_eps = sl,
       prioSlotOf = None, privIP = rq_priv rq, secIP = rq_sec rq, lb_name = sa_Name serv, lb_inst = rule_inst (sa_Name serv),
       secMode = Security serv, ppv2En = ProxyProtocolV2 serv, lb_egress = sa_Egress serv, srcList = srcs, locIPs = [] \<rparr>)"

text \<open>Folding, hosts, source addresses, and the firewall rule of a port range.\<close>

definition create_hosts :: "'r rules_env \<Rightarrow> lb_req \<Rightarrow> lbEnt \<Rightarrow> 'r rules \<Rightarrow> (lbEnt \<times> 'r rules) option" where
  "create_hosts env rq e R = (let serv = rq_serv rq in
     if Snat serv then Some (e, R)
     else (case foldRecursiveEPs env e R of
         None \<Rightarrow> None
       | Some R1 \<Rightarrow>
          (let (eps, R2) = mod_hosts env e True (probes (sa_Mode serv) (Monitor serv)) (rule_eps R1 e) R1;
               (_, e1, R3) = electEPSrc env e (write_slice (lb_eps e) eps R2);
               e2 = (if sa_Mode serv = LBModeHostOneArm then snd (mkHostAssocs env e1) else e1) in
           if ServPortMax serv \<noteq> 0
           then map_option (Pair e2) (addLbRuleWithFW env (ServIP serv) (ServPort serv) (ServPortMax serv) (rq_prot rq)
             (ucast (lb_ruleNum e)) R3)
           else Some (e2, R3))))"

definition lb_install :: "'r rules_env \<Rightarrow> lb_req \<Rightarrow> string \<Rightarrow> lbEnt \<Rightarrow> 'r rules \<Rightarrow> (go_ret \<times> 'r rules) option" where
  "lb_install env rq key e0 R = (case create_hosts env rq e0 R of
      None \<Rightarrow> None
    | Some (e, R1) \<Rightarrow>
        (let R2 = (put_lb key e R1) \<lparr> rArr := (if lb_ruleNum e < RtMaximumLbs then gm_put (lb_ruleNum e) key (rArr R1) else rArr R1) \<rparr> in
         case program_rule env key e R2 of None \<Rightarrow> None | Some R3 \<Rightarrow> Some (Ok, addVIPSys env e R3)))"

definition lb_create :: "'r rules_env \<Rightarrow> int \<Rightarrow> lb_req \<Rightarrow> string list \<Rightarrow> string \<Rightarrow> 'r rules \<Rightarrow> (go_ret \<times> 'r rules) option" where
  "lb_create env now rq srcs key R = (case GetMarker (lbMarks R) of
      None \<Rightarrow> None
    | Some (Inl _, m) \<Rightarrow> Some (Err RuleAllocErr ''rule-hwm error'', R \<lparr> lbMarks := m \<rparr>)
    | Some (Inr num, m) \<Rightarrow> (case add_sources env (ucast num) srcs [] (R \<lparr> lbMarks := m \<rparr>) of
        None \<Rightarrow> None
      | Some (False, got, R1) \<Rightarrow> (case ReleaseMarker num (lbMarks R1) of
          None \<Rightarrow> None
        | Some (_, m') \<Rightarrow> map_option (Pair (Err RuleAllocErr ''rule-allowed-src error''))
            (del_sources env (DeleteLbRule env) (ucast num) got (R1 \<lparr> lbMarks := m' \<rparr>)))
      | Some (True, got, R1) \<Rightarrow>
          (let (sl, R2) = new_slice (rq_eps rq) R1 in lb_install env rq key (new_lb now rq num sl got) R2)))"

definition AddLbRule :: "'r rules_env \<Rightarrow> int \<Rightarrow> LbServiceArg \<Rightarrow> string list \<Rightarrow> string list \<Rightarrow> LbEndPointArg list \<Rightarrow> 'r rules \<Rightarrow>
    (go_ret \<times> 'r rules) option" where
  "AddLbRule env now serv secs srcs eps R = (case lb_validate env serv secs eps of
      Inl err \<Rightarrow> Some (err, R)
    | Inr rq \<Rightarrow>
       (let key = ruleKey (rq_rt rq) in
        case gm_get (lbMap R) key of
          Some e \<Rightarrow> lb_update env now rq srcs key e R
        | None \<Rightarrow> if Oper serv = LBOPDetach then Some (Err RuleNotExistsErr ''lbrule not-exists error'', R)
            else lb_create env now rq srcs key R))"

text \<open>The firewall calls with their source NAT services.\<close>

definition AddFw :: "'r rules_env \<Rightarrow> int \<Rightarrow> FwRuleArg \<Rightarrow> FwOptArg \<Rightarrow> 'r rules \<Rightarrow> (go_ret \<times> 'r rules) option" where
  "AddFw env now = AddFwRule env (\<lambda>serv eps. AddLbRule env now serv [] [] eps)"

definition DeleteFw :: "'r rules_env \<Rightarrow> FwRuleArg \<Rightarrow> 'r rules \<Rightarrow> (go_ret \<times> 'r rules) option" where
  "DeleteFw env = DeleteFwRule env (DeleteLbRule env)"

end
