(* ===== verification/RuleSync.thy ===== *)
theory RuleSync
  imports LbRules
begin

text \<open>Lookups and listings of load-balancer rules, the periodic synchronisation of all rules, and
their destruction (\<open>rules.go\<close>).\<close>

subsection \<open>Lookups\<close>

definition GetLBRuleByID :: "'r rules \<Rightarrow> u32 \<Rightarrow> lbEnt option" where
  "GetLBRuleByID R ruleID = (if (ucast ruleID :: u64) < RtMaximumLbs
     then (case gm_get (rArr R) (ucast ruleID) of None \<Rightarrow> None | Some key \<Rightarrow> gm_get (lbMap R) key) else None)"

definition host_cidr :: "'r rules_env \<Rightarrow> string \<Rightarrow> string" where
  "host_cidr env ip = (if IsNetIPv4 (rhost env) ip then ip @ ''/32'' else ip @ ''/128'')"

text \<open>The upper port is taken as given, unlike in \<open>AddLbRule\<close>.\<close>

definition lookup_key :: "'r rules_env \<Rightarrow> LbServiceArg \<Rightarrow> u8 \<Rightarrow> string option" where
  "lookup_key env serv prot = map_option (\<lambda>(_, n). ruleKey (lb_tuples n prot (ServPort serv) (ServPortMax serv)
     (BlockNum serv) (HostUrl serv))) (ParseCIDR (host_cidr env (ServIP serv)))"

definition GetLBRuleByServArgs :: "'r rules_env \<Rightarrow> LbServiceArg \<Rightarrow> 'r rules \<Rightarrow> lbEnt option" where
  "GetLBRuleByServArgs env serv R = (case proto_num (sa_Proto serv) of
      None \<Rightarrow> None
    | Some prot \<Rightarrow> (case lookup_key env serv prot of None \<Rightarrow> None | Some k \<Rightarrow> gm_get (lbMap R) k))"

definition GetLBRuleSecIPs :: "'r rules_env \<Rightarrow> LbServiceArg \<Rightarrow> 'r rules \<Rightarrow> string list" where
  "GetLBRuleSecIPs env serv R =
    (if sa_Proto serv \<noteq> ''sctp'' then []
     else (case lookup_key env serv 132 of
         None \<Rightarrow> []
       | Some k \<Rightarrow> (case gm_get (lbMap R) k of None \<Rightarrow> [] | Some e \<Rightarrow> map IP_String (secIP e))))"

subsection \<open>Listing\<close>

definition proto_name :: "u8 \<Rightarrow> string option" where
  "proto_name p = (if p = 6 then Some ''tcp'' else if p = 17 then Some ''udp'' else if p = 1 then Some ''icmp''
     else if p = 132 then Some ''sctp'' else if p = 0 then Some ''none'' else None)"

definition list_serv :: "string \<Rightarrow> lbEnt \<Rightarrow> LbServiceArg" where
  "list_serv proto e = (let t = lb_tuples_of e in zero_serv
     \<lparr> ServIP := IP_String (net_IP (l3Dst t)), sa_Proto := proto, ServPort := valMin (l4Dst t),
       ServPortMax := (if valMin (l4Dst t) = valMax (l4Dst t) then 0 else valMax (l4Dst t)), sa_Sel := lb_sel e,
       sa_Mode := lb_mode e, Monitor := actChk (hChk e), InactiveTimeout := iTO e, sa_Bgp := lb_bgp e,
       BlockNum := t_pref t, Managed := lb_managed e, Security := secMode e, ProbeType := prbType (hChk e),
       ProbePort := prbPort (hChk e), ProbeReq := prbReq (hChk e), ProbeResp := prbResp (hChk e), sa_Name := lb_name e,
       HostUrl := t_path t, ProxyProtocolV2 := ppv2En e, sa_Egress := lb_egress e, Snat := (lb_actType e = RtActSnat) \<rparr>)"

definition list_ep :: "ruleLBEp \<Rightarrow> LbEndPointArg" where
  "list_ep ep = \<lparr> EpIP = IP_String (xIP ep), EpPort = xPort ep, ea_Weight = weight ep,
     ea_State = (if noService ep then ''inactive'' else ''active''),
     Counters = dec (unat (st_packets ep)) @ '':'' @ dec (unat (st_bytes ep)) \<rparr>"

type_synonym LbRuleMod = "LbServiceArg \<times> string list \<times> string list \<times> LbEndPointArg list"

fun list_rules :: "'r rules_env \<Rightarrow> string list \<Rightarrow> 'r rules \<Rightarrow> LbRuleMod list option \<times> 'r rules" where
  "list_rules env [] R = (Some [], R)"
| "list_rules env (k # ks) R = (case gm_get (lbMap R) k of
      None \<Rightarrow> list_rules env ks R
    | Some e \<Rightarrow> (case proto_name (v8 (l4Prot (lb_tuples_of e))) of
        None \<Rightarrow> (None, R)
      | Some p \<Rightarrow>
          (let R1 = lb_stats env e R; (ms, R2) = list_rules env ks R1 in
           (map_option (Cons (list_serv p e, map IP_String (secIP e), map IPNet_String (srcList e),
             map list_ep (filter (\<lambda>ep. \<not> inActiveEP ep) (rule_eps R1 e)))) ms, R2))))"

text \<open>\<open>None\<close> is the error of an unknown protocol.\<close>

definition GetLBRule :: "'r rules_env \<Rightarrow> 'r rules \<Rightarrow> LbRuleMod list option \<times> 'r rules" where
  "GetLBRule env R = list_rules env (map fst (lbMap R)) R"

subsection \<open>Synchronisation\<close>

abbreviation DflLbaCheckTimeout :: int where "DflLbaCheckTimeout \<equiv> 10"

text \<open>The health of the end-points of a rule, if its timer has run out.\<close>

definition sync_health :: "'r rules_env \<Rightarrow> int \<Rightarrow> string \<Rightarrow> 'r rules \<Rightarrow> 'r rules option" where
  "sync_health env now key R = (case gm_get (lbMap R) key of
      None \<Rightarrow> Some R
    | Some e \<Rightarrow>
       if \<not> actChk (hChk e) then Some R
       else (let (chg, eps, restart) = syncEPHostState2Rule (now - lb_sT e \<ge> DflLbaCheckTimeout) (rl_eps R)
                   (v8 (l4Prot (lb_tuples_of e))) (rule_eps R e);
                 R1 = put_lb key (if restart then e \<lparr> lb_sT := now \<rparr> else e) (write_slice (lb_eps e) eps R)
             in if chg then lb_dp env DpCreate key R1 else Some R1))"

definition sync_rule :: "'r rules_env \<Rightarrow> int \<Rightarrow> string \<Rightarrow> 'r rules \<Rightarrow> 'r rules option" where
  "sync_rule env now key R = (case gm_get (lbMap R) key of
      None \<Rightarrow> Some R
    | Some e0 \<Rightarrow>
       (let (rChg, e1, R1) = electEPSrc env e0 R;
            (rlChg, e2) = (if lb_mode e1 = LBModeHostOneArm then mkHostAssocs env e1 else (False, e1));
            R2 = put_lb key e2 R1;
            R3 = (if rlChg then (case lb_dp env DpRemove key R2 of None \<Rightarrow> None | Some R3 \<Rightarrow> lb_dp env DpCreate key R3)
                  else if lb_sync e2 \<noteq> DpStatusOk \<or> rChg then lb_dp env DpCreate key R2 else Some R2)
        in case R3 of None \<Rightarrow> None | Some R4 \<Rightarrow> sync_health env now key R4))"

fun sync_rules :: "'r rules_env \<Rightarrow> int \<Rightarrow> string list \<Rightarrow> 'r rules \<Rightarrow> 'r rules option" where
  "sync_rules env now [] R = Some R"
| "sync_rules env now (k # ks) R = (case sync_rule env now k R of None \<Rightarrow> None | Some R1 \<Rightarrow> sync_rules env now ks R1)"

definition sweep_vips :: "'r rules_env \<Rightarrow> int \<Rightarrow> 'r rules \<Rightarrow> 'r rules" where
  "sweep_vips env now R = (let (swept, vs) = vip_sweep (re_vip env) (rl_has R) (now - vipST R) (rl_vips R) in
     R \<lparr> rl_vips := vs, vipST := (if swept then now else vipST R) \<rparr>)"

definition sync_fw :: "'r rules_env \<Rightarrow> string \<Rightarrow> 'r rules \<Rightarrow> 'r rules" where
  "sync_fw env key R = (case gm_get (fwMap R) key of
      Some r \<Rightarrow> if fw_sync r \<noteq> DpStatusOk then fw_dp env DpCreate key R else R
    | None \<Rightarrow> R)"

definition RulesSync :: "'r rules_env \<Rightarrow> int \<Rightarrow> 'r rules \<Rightarrow> 'r rules option" where
  "RulesSync env now R = map_option (\<lambda>R1. let R2 = sweep_vips env now R1 in fold (sync_fw env) (map fst (fwMap R2)) R2)
     (sync_rules env now (map fst (lbMap R)) R)"

subsection \<open>Destruction\<close>

text \<open>The request a rule is deleted with has neither host name nor block number.\<close>

definition destruct_serv :: "string \<Rightarrow> lbEnt \<Rightarrow> LbServiceArg" where
  "destruct_serv proto e = (let t = lb_tuples_of e in zero_serv
     \<lparr> ServIP := IP_String (net_IP (l3Dst t)), sa_Proto := proto, ServPort := valMin (l4Dst t), ServPortMax := valMax (l4Dst t) \<rparr>)"

fun destruct_lbs :: "'r rules_env \<Rightarrow> string list \<Rightarrow> 'r rules \<Rightarrow> 'r rules option" where
  "destruct_lbs env [] R = Some R"
| "destruct_lbs env (k # ks) R = (case gm_get (lbMap R) k of
      None \<Rightarrow> destruct_lbs env ks R
    | Some e \<Rightarrow> (case proto_name (v8 (l4Prot (lb_tuples_of e))) of
        None \<Rightarrow> destruct_lbs env ks R
      | Some p \<Rightarrow> (case DeleteLbRule env (destruct_serv p e) R of
          None \<Rightarrow> None | Some (_, R1) \<Rightarrow> destruct_lbs env ks R1)))"

text \<open>The request for a firewall rule is reused: port ranges of a rule stay in it when the next rule
has none.  The preference is never set.\<close>

definition destruct_fwr :: "fwEnt \<Rightarrow> FwRuleArg \<Rightarrow> FwRuleArg" where
  "destruct_fwr r fwr = (let t = fw_tuples r;
       f1 = fwr \<lparr> fa_DstIP := IPNet_String (l3Dst t), fa_SrcIP := IPNet_String (l3Src t) \<rparr>;
       f2 = (if validR (l4Src t) then f1 \<lparr> SrcPortMin := valMin (l4Src t), SrcPortMax := valMax (l4Src t) \<rparr> else f1);
       f3 = (if validR (l4Dst t) then f2 \<lparr> DstPortMin := valMin (l4Dst t), DstPortMax := valMax (l4Dst t) \<rparr> else f2)
     in f3 \<lparr> fa_Proto := v8 (l4Prot t), InPort := t_port t \<rparr>)"

fun destruct_fws :: "'r rules_env \<Rightarrow> string list \<Rightarrow> FwRuleArg \<Rightarrow> 'r rules \<Rightarrow> 'r rules option" where
  "destruct_fws env [] fwr R = Some R"
| "destruct_fws env (k # ks) fwr R = (case gm_get (fwMap R) k of
      None \<Rightarrow> destruct_fws env ks fwr R
    | Some r \<Rightarrow> (case DeleteFw env (destruct_fwr r fwr) R of
        None \<Rightarrow> None | Some (_, R1) \<Rightarrow> destruct_fws env ks (destruct_fwr r fwr) R1))"

definition RuleDestructAll :: "'r rules_env \<Rightarrow> 'r rules \<Rightarrow> 'r rules option" where
  "RuleDestructAll env R = (case destruct_lbs env (map fst (lbMap R)) R of
      None \<Rightarrow> None | Some R1 \<Rightarrow> destruct_fws env (map fst (fwMap R1)) zero_fwrule R1)"

end
