(* ===== verification/NumTable.thy ===== *)
theory NumTable
  imports IdMarker
begin

text \<open>Tables whose entries carry an identifier of an allocator, as the rule tables do: the numbers
of the entries are pairwise different and held, and so are the numbers \<open>ex\<close> of entries that
are being built or torn down.  The lemmas are proved for every allocator and used for the markers.\<close>

context id_allocator
begin

definition numbered :: "('v \<Rightarrow> 'i) \<Rightarrow> 'i set \<Rightarrow> ('k, 'v) gomap \<Rightarrow> 's \<Rightarrow> bool" where
  "numbered num ex m s \<longleftrightarrow> inv s \<and> ex \<subseteq> univ s - free s \<and>
     (\<forall>k v. gm_get m k = Some v \<longrightarrow> num v \<in> univ s - free s - ex) \<and>
     (\<forall>k k' v v'. gm_get m k = Some v \<and> gm_get m k' = Some v' \<and> num v = num v' \<longrightarrow> k = k')"

lemma numberedI:
  assumes "inv s" "ex \<subseteq> univ s - free s" "\<And>k v. gm_get m k = Some v \<Longrightarrow> num v \<in> univ s - free s - ex"
    "\<And>k k' v v'. gm_get m k = Some v \<Longrightarrow> gm_get m k' = Some v' \<Longrightarrow> num v = num v' \<Longrightarrow> k = k'"
  shows "numbered num ex m s"
  unfolding numbered_def
proof (intro conjI allI impI)
  fix k k' v v'
  assume "gm_get m k = Some v \<and> gm_get m k' = Some v' \<and> num v = num v'"
  then show "k = k'" by (elim conjE) (rule assms(4))
next
  fix k v
  assume "gm_get m k = Some v"
  then show "num v \<in> univ s - free s - ex" by (rule assms(3))
qed (rule assms(1), rule assms(2))

lemma numberedD:
  assumes "numbered num ex m s"
  shows "inv s" "ex \<subseteq> univ s - free s" "gm_get m k = Some v \<Longrightarrow> num v \<in> univ s - free s - ex"
    "gm_get m k = Some v \<Longrightarrow> gm_get m k' = Some v' \<Longrightarrow> num v = num v' \<Longrightarrow> k = k'"
  using assms unfolding numbered_def by blast+

lemma numbered_empty: "inv s \<Longrightarrow> numbered num {} [] s"
  by (rule numberedI) simp_all

lemma numbered_get:
  assumes "numbered num ex m s"
  shows "(\<exists>e. get s = Some (Inl e, s)) \<or>
    (\<exists>i s'. get s = Some (Inr i, s') \<and> i \<notin> ex \<and> numbered num (insert i ex) m s')"
proof (cases "free s = {}")
  case True
  then show ?thesis using get_full numberedD(1) [OF assms] by blast
next
  case False
  then obtain i s' where i: "get s = Some (Inr i, s')" "i \<in> free s" "free s' = free s - {i}" "univ s' = univ s" "inv s'"
    using get_alloc numberedD(1) [OF assms] by blast
  have u: "i \<in> univ s" using i(2) free_univ numberedD(1) [OF assms] by blast
  have x: "i \<notin> ex" using i(2) numberedD(2) [OF assms] by blast
  have "numbered num (insert i ex) m s'"
  proof (rule numberedI)
    show "insert i ex \<subseteq> univ s' - free s'" using u numberedD(2) [OF assms] unfolding i(3,4) by blast
    fix k v assume g: "gm_get m k = Some v"
    have v: "num v \<in> univ s - free s - ex" by (rule numberedD(3) [OF assms g])
    then have "num v \<noteq> i" using i(2) by blast
    then show "num v \<in> univ s' - free s' - insert i ex" using v unfolding i(3,4) by blast
  next
    fix k k' v v'
    assume "gm_get m k = Some v" "gm_get m k' = Some v'" "num v = num v'"
    then show "k = k'" by (rule numberedD(4) [OF assms])
  qed (rule i(5))
  then show ?thesis using i(1) x by blast
qed

lemma numbered_insert:
  assumes "numbered num (insert (num v) ex) m s" "num v \<notin> ex"
  shows "numbered num ex (gm_put k v m) s"
proof (rule numberedI)
  show "inv s" "ex \<subseteq> univ s - free s" using numberedD(1,2) [OF assms(1)] by blast+
  fix k1 v1 assume g: "gm_get (gm_put k v m) k1 = Some v1"
  show "num v1 \<in> univ s - free s - ex"
  proof (cases "k1 = k")
    case True
    then have "v1 = v" using g by simp
    then show ?thesis using numberedD(2) [OF assms(1)] assms(2) by blast
  next
    case False
    then have "gm_get m k1 = Some v1" using g by simp
    then show ?thesis using numberedD(3) [OF assms(1)] by blast
  qed
next
  fix k1 k2 v1 v2
  assume g: "gm_get (gm_put k v m) k1 = Some v1" "gm_get (gm_put k v m) k2 = Some v2" "num v1 = num v2"
  have o: "num v' \<noteq> num v" if "gm_get m k' = Some v'" for k' v' using numberedD(3) [OF assms(1) that] by blast
  show "k1 = k2"
    using g o [of k1 v1] o [of k2 v2] numberedD(4) [OF assms(1), of k1 v1 k2 v2]
    by (cases "k1 = k"; cases "k2 = k") auto
qed

lemma numbered_update:
  assumes "numbered num ex m s" "gm_get m k = Some v0" "num v = num v0"
  shows "numbered num ex (gm_put k v m) s"
proof (rule numberedI)
  show "inv s" "ex \<subseteq> univ s - free s" using numberedD(1,2) [OF assms(1)] by blast+
  fix k1 v1 assume "gm_get (gm_put k v m) k1 = Some v1"
  then show "num v1 \<in> univ s - free s - ex"
    using numberedD(3) [OF assms(1), of k1] numberedD(3) [OF assms(1,2)] assms(3) by (cases "k1 = k") auto
next
  fix k1 k2 v1 v2
  assume g: "gm_get (gm_put k v m) k1 = Some v1" "gm_get (gm_put k v m) k2 = Some v2" "num v1 = num v2"
  define w where "w j u = (if j = k then v0 else u)" for j u
  have w: "gm_get m j = Some (w j u)" "num (w j u) = num u" if "gm_get (gm_put k v m) j = Some u" for j u
    using that assms(2,3) by (auto simp: w_def split: if_splits)
  show "k1 = k2" by (rule numberedD(4) [OF assms(1) w(1) [OF g(1)] w(1) [OF g(2)]]) (simp only: w(2) [OF g(1)] w(2) [OF g(2)] g(3))
qed

lemma numbered_delete:
  assumes "numbered num ex m s" "gm_get m k = Some v"
  shows "numbered num (insert (num v) ex) (gm_del k m) s" "num v \<notin> ex"
proof -
  have v: "num v \<in> univ s - free s - ex" by (rule numberedD(3) [OF assms])
  then show "num v \<notin> ex" by blast
  show "numbered num (insert (num v) ex) (gm_del k m) s"
  proof (rule numberedI)
    show "inv s" "insert (num v) ex \<subseteq> univ s - free s" using numberedD(1,2) [OF assms(1)] v by blast+
    fix k1 v1 assume "gm_get (gm_del k m) k1 = Some v1"
    then have g: "gm_get m k1 = Some v1" "k1 \<noteq> k" by (simp_all split: if_splits)
    have "num v1 \<noteq> num v" using numberedD(4) [OF assms(1) g(1) assms(2)] g(2) by blast
    then show "num v1 \<in> univ s - free s - insert (num v) ex" using numberedD(3) [OF assms(1) g(1)] by blast
  next
    fix k1 k2 v1 v2
    assume "gm_get (gm_del k m) k1 = Some v1" "gm_get (gm_del k m) k2 = Some v2" "num v1 = num v2"
    then show "k1 = k2" using numberedD(4) [OF assms(1), of k1 v1 k2 v2] by (simp split: if_splits)
  qed
qed

lemma numbered_put:
  assumes "numbered num (insert i ex) m s" "i \<notin> ex"
  shows "\<exists>s'. put i s = Some (Inr (), s') \<and> numbered num ex m s'"
proof -
  have "i \<in> univ s" "i \<notin> free s" using numberedD(2) [OF assms(1)] by blast+
  then obtain s' where s': "put i s = Some (Inr (), s')" "free s' = insert i (free s)" "univ s' = univ s" "inv s'"
    using put_back numberedD(1) [OF assms(1)] by blast
  have "numbered num ex m s'"
  proof (rule numberedI)
    show "ex \<subseteq> univ s' - free s'" using numberedD(2) [OF assms(1)] assms(2) unfolding s'(2,3) by blast
    fix k v assume "gm_get m k = Some v"
    then show "num v \<in> univ s' - free s' - ex" using numberedD(3) [OF assms(1)] unfolding s'(2,3) by blast
  next
    fix k k' v v'
    assume "gm_get m k = Some v" "gm_get m k' = Some v'" "num v = num v'"
    then show "k = k'" by (rule numberedD(4) [OF assms(1)])
  qed (rule s'(4))
  then show ?thesis using s'(1) by blast
qed

end

end
