(* ===== verification/RuleInv.thy ===== *)
theory RuleInv
  imports RuleSync NumTable
begin

text \<open>The invariant of the rule tables: rule numbers are held and unique, the table of rules by
number agrees with the table by key, and every rule has between one and thirty-two end-points that lie
within its array.  Every operation keeps it and returns.\<close>

subsection \<open>Arrays of end-points\<close>

definition eps_ok :: "ruleLBEp list list \<Rightarrow> nat \<times> nat \<Rightarrow> bool" where
  "eps_ok arrs s \<longleftrightarrow> fst s < length arrs \<and> 0 < snd s \<and> snd s \<le> MaxLBEndPoints \<and> snd s \<le> length (arrs ! fst s)"

definition grows :: "ruleLBEp list list \<Rightarrow> ruleLBEp list list \<Rightarrow> bool" where
  "grows as bs \<longleftrightarrow> length as \<le> length bs \<and> (\<forall>i < length as. length (as ! i) \<le> length (bs ! i))"

lemma grows_refl [simp]: "grows as as"
  by (simp add: grows_def)

lemma grows_trans: "grows as bs \<Longrightarrow> grows bs cs \<Longrightarrow> grows as cs"
  unfolding grows_def by (meson le_trans order_less_le_trans)

lemma eps_ok_grows: "eps_ok as s \<Longrightarrow> grows as bs \<Longrightarrow> eps_ok bs s"
  unfolding eps_ok_def grows_def by (meson le_trans order_less_le_trans)

lemma grows_write: "grows (epArrs R) (epArrs (write_slice s eps R))"
proof -
  have "length (epArrs R ! i) \<le> length ((epArrs R)[fst s := eps @ drop (length eps) (epArrs R ! fst s)] ! i)"
    if "i < length (epArrs R)" for i
    using that by (cases "i = fst s") simp_all
  then show ?thesis by (simp add: grows_def write_slice_def)
qed

lemma length_slice: "eps_ok (epArrs R) s \<Longrightarrow> length (slice R s) = snd s"
  by (simp add: eps_ok_def slice_def)

lemma length_rule_eps: "eps_ok (epArrs R) (lb_eps e) \<Longrightarrow> length (rule_eps R e) = snd (lb_eps e)"
  by (simp add: rule_eps_def length_slice)

lemma new_slice_ok:
  assumes "new_slice eps R = (s, R')" "eps \<noteq> []" "length eps \<le> MaxLBEndPoints"
  shows "eps_ok (epArrs R') s" "grows (epArrs R) (epArrs R')"
  using assms by (auto simp: new_slice_def eps_ok_def grows_def nth_append)

lemma small_length: "prio_fill i eps (slots, small) = (slots', small') \<Longrightarrow> length small' \<le> length small + length eps"
  by (induction eps arbitrary: i slots small) (fastforce simp: Let_def split: if_splits)+

lemma prio_slots_total:
  assumes "0 < length eps" "length eps \<le> MaxLBEndPoints"
  shows "prio_slots eps \<noteq> None"
proof -
  obtain slots small where f: "prio_fill 0 eps ([], []) = (slots, small)" by (cases "prio_fill 0 eps ([], [])")
  have "length small \<le> length eps" using small_length [OF f] by simp
  then show ?thesis using assms f by (auto simp: prio_slots_def)
qed

lemma dp_eps_total:
  assumes "0 < length eps" "length eps \<le> MaxLBEndPoints"
  shows "dp_eps fs prio eps \<noteq> None"
  using prio_slots_total [OF assms] by (simp add: dp_eps_def)


lemma LB2DP_total:
  assumes "eps_ok (epArrs R) (lb_eps e)"
  shows "\<exists>n e' evs. LB2DP env work e R = Some (n, e', evs) \<and> lb_ruleNum e' = lb_ruleNum e \<and> lb_eps e' = lb_eps e"
proof -
  have "dp_eps (folds R) (lb_sel e = LbSelPrio) (rule_eps R e) \<noteq> None"
    using dp_eps_total length_rule_eps [OF assms] assms unfolding eps_ok_def by metis
  then show ?thesis
    by (cases "nat_type e") (auto simp: LB2DP_def Let_def)
qed

subsection \<open>The invariant\<close>

text \<open>No firewall rule is for source NAT.\<close>

definition nosnat :: "'r rules \<Rightarrow> bool" where
  "nosnat R \<longleftrightarrow> (\<forall>k r. gm_get (fwMap R) k = Some r \<longrightarrow> fw_actType r \<noteq> RtActSnat)"

definition fw_inv :: "'r rules \<Rightarrow> bool" where
  "fw_inv R \<longleftrightarrow> marker.numbered fw_ruleNum {} (fwMap R) (fwMarks R) \<and> nosnat R"

definition slices_ok :: "'r rules \<Rightarrow> bool" where
  "slices_ok R \<longleftrightarrow> (\<forall>k e. gm_get (lbMap R) k = Some e \<longrightarrow> eps_ok (epArrs R) (lb_eps e))"

definition by_number :: "'r rules \<Rightarrow> bool" where
  "by_number R \<longleftrightarrow> (\<forall>n k. gm_get (rArr R) n = Some k \<longleftrightarrow>
     n < RtMaximumLbs \<and> (\<exists>e. gm_get (lbMap R) k = Some e \<and> lb_ruleNum e = n))"

definition rules_inv :: "u64 set \<Rightarrow> 'r rules \<Rightarrow> bool" where
  "rules_inv ex R \<longleftrightarrow> marker.numbered lb_ruleNum ex (lbMap R) (lbMarks R) \<and> slices_ok R \<and> by_number R \<and> fw_inv R"

lemma rules_invD:
  assumes "rules_inv ex R"
  shows "marker.numbered lb_ruleNum ex (lbMap R) (lbMarks R)" "slices_ok R" "by_number R" "fw_inv R"
    "gm_get (lbMap R) k = Some e \<Longrightarrow> eps_ok (epArrs R) (lb_eps e)"
  using assms unfolding rules_inv_def slices_ok_def by blast+

text \<open>The numbers of the rules by key.\<close>

definition lb_nums :: "'r rules \<Rightarrow> string \<Rightarrow> u64 option" where
  "lb_nums R k = map_option lb_ruleNum (gm_get (lbMap R) k)"

lemma lb_nums_eq_None [simp]: "lb_nums R k = None \<longleftrightarrow> gm_get (lbMap R) k = None"
  by (simp add: lb_nums_def)

text \<open>Steps that leave the rules in place: numbers and keys stay, and slices stay within their
arrays.\<close>

definition lb_keep :: "'r rules \<Rightarrow> 'r rules \<Rightarrow> bool" where
  "lb_keep R R' \<longleftrightarrow> lbMarks R' = lbMarks R \<and> rArr R' = rArr R \<and> grows (epArrs R) (epArrs R') \<and>
     (\<forall>k. gm_get (lbMap R) k = None \<longrightarrow> gm_get (lbMap R') k = None) \<and>
     (\<forall>k e. gm_get (lbMap R) k = Some e \<longrightarrow> (\<exists>e'. gm_get (lbMap R') k = Some e' \<and> lb_ruleNum e' = lb_ruleNum e \<and>
        (eps_ok (epArrs R) (lb_eps e) \<longrightarrow> eps_ok (epArrs R') (lb_eps e'))))"

definition fw_same :: "'r rules \<Rightarrow> 'r rules \<Rightarrow> bool" where
  "fw_same R R' \<longleftrightarrow> fwMap R' = fwMap R \<and> fwMarks R' = fwMarks R"

lemma lb_keepD:
  assumes "lb_keep R R'"
  shows "lbMarks R' = lbMarks R" "rArr R' = rArr R" "grows (epArrs R) (epArrs R')"
    "gm_get (lbMap R) k = None \<Longrightarrow> gm_get (lbMap R') k = None"
    "gm_get (lbMap R) k = Some e \<Longrightarrow> \<exists>e'. gm_get (lbMap R') k = Some e' \<and> lb_ruleNum e' = lb_ruleNum e \<and>
        (eps_ok (epArrs R) (lb_eps e) \<longrightarrow> eps_ok (epArrs R') (lb_eps e'))"
  using assms unfolding lb_keep_def by blast+

lemma lb_keepI:
  assumes "lbMarks R' = lbMarks R" "rArr R' = rArr R" "grows (epArrs R) (epArrs R')"
    "\<And>k. gm_get (lbMap R) k = None \<Longrightarrow> gm_get (lbMap R') k = None"
    "\<And>k e. gm_get (lbMap R) k = Some e \<Longrightarrow> \<exists>e'. gm_get (lbMap R') k = Some e' \<and> lb_ruleNum e' = lb_ruleNum e \<and>
        (eps_ok (epArrs R) (lb_eps e) \<longrightarrow> eps_ok (epArrs R') (lb_eps e'))"
  shows "lb_keep R R'"
  using assms unfolding lb_keep_def by blast

lemma lb_keep_same:
  assumes "lbMap R' = lbMap R" "lbMarks R' = lbMarks R" "rArr R' = rArr R" "grows (epArrs R) (epArrs R')"
  shows "lb_keep R R'"
proof (rule lb_keepI)
  fix k e assume "gm_get (lbMap R) k = Some e"
  then show "\<exists>e'. gm_get (lbMap R') k = Some e' \<and> lb_ruleNum e' = lb_ruleNum e \<and>
        (eps_ok (epArrs R) (lb_eps e) \<longrightarrow> eps_ok (epArrs R') (lb_eps e'))"
    using assms(1) eps_ok_grows [OF _ assms(4)] by simp
qed (simp_all add: assms)

lemma lb_keep_refl [simp]: "lb_keep R R"
  by (rule lb_keep_same) simp_all

lemma lb_keep_trans:
  assumes "lb_keep R1 R2" "lb_keep R2 R3"
  shows "lb_keep R1 R3"
proof (rule lb_keepI)
  show "grows (epArrs R1) (epArrs R3)"
    by (rule grows_trans [OF lb_keepD(3) [OF assms(1)] lb_keepD(3) [OF assms(2)]])
  fix k e assume "gm_get (lbMap R1) k = Some e"
  then obtain e2 where e2: "gm_get (lbMap R2) k = Some e2" "lb_ruleNum e2 = lb_ruleNum e"
    "eps_ok (epArrs R1) (lb_eps e) \<longrightarrow> eps_ok (epArrs R2) (lb_eps e2)" using lb_keepD(5) [OF assms(1)] by blast
  obtain e3 where e3: "gm_get (lbMap R3) k = Some e3" "lb_ruleNum e3 = lb_ruleNum e2"
    "eps_ok (epArrs R2) (lb_eps e2) \<longrightarrow> eps_ok (epArrs R3) (lb_eps e3)" using lb_keepD(5) [OF assms(2) e2(1)] by blast
  show "\<exists>e'. gm_get (lbMap R3) k = Some e' \<and> lb_ruleNum e' = lb_ruleNum e \<and>
        (eps_ok (epArrs R1) (lb_eps e) \<longrightarrow> eps_ok (epArrs R3) (lb_eps e'))"
    using e2 e3 by simp
next
  fix k assume "gm_get (lbMap R1) k = None"
  then show "gm_get (lbMap R3) k = None" using lb_keepD(4) [OF assms(1)] lb_keepD(4) [OF assms(2)] by blast
qed (simp_all add: lb_keepD(1,2) [OF assms(1)] lb_keepD(1,2) [OF assms(2)])

lemma fw_same_refl [simp]: "fw_same R R"
  by (simp add: fw_same_def)

lemma fw_same_trans: "fw_same R1 R2 \<Longrightarrow> fw_same R2 R3 \<Longrightarrow> fw_same R1 R3"
  by (simp add: fw_same_def)

lemma fw_inv_same: "fw_same R R' \<Longrightarrow> fw_inv R \<Longrightarrow> fw_inv R'"
  by (simp add: fw_same_def fw_inv_def nosnat_def)

lemma keep_old:
  assumes "lb_keep R R'" "gm_get (lbMap R') k = Some e"
  shows "\<exists>e0. gm_get (lbMap R) k = Some e0 \<and> lb_ruleNum e0 = lb_ruleNum e"
proof (cases "gm_get (lbMap R) k")
  case None
  then show ?thesis using lb_keepD(4) [OF assms(1)] assms(2) by simp
next
  case (Some e0)
  then show ?thesis using lb_keepD(5) [OF assms(1) Some] assms(2) by auto
qed

lemma keep_nums:
  assumes "lb_keep R R'"
  shows "lb_nums R' = lb_nums R"
proof (rule ext)
  fix k show "lb_nums R' k = lb_nums R k"
    using lb_keepD(4,5) [OF assms, of k] by (cases "gm_get (lbMap R) k") (auto simp: lb_nums_def)
qed

lemma numbered_keep:
  assumes "marker.numbered lb_ruleNum ex (lbMap R) M" "lb_keep R R'"
  shows "marker.numbered lb_ruleNum ex (lbMap R') M"
proof (rule marker.numberedI)
  show "marker_inv M" "ex \<subseteq> all_ids M - free_ids M" using marker.numberedD(1,2) [OF assms(1)] by blast+
  fix k e assume "gm_get (lbMap R') k = Some e"
  then show "lb_ruleNum e \<in> all_ids M - free_ids M - ex"
    using keep_old [OF assms(2)] marker.numberedD(3) [OF assms(1)] by metis
next
  fix k1 k2 e1 e2
  assume e: "gm_get (lbMap R') k1 = Some e1" "gm_get (lbMap R') k2 = Some e2" "lb_ruleNum e1 = lb_ruleNum e2"
  obtain d1 where d1: "gm_get (lbMap R) k1 = Some d1" "lb_ruleNum d1 = lb_ruleNum e1" using keep_old [OF assms(2) e(1)] by blast
  obtain d2 where d2: "gm_get (lbMap R) k2 = Some d2" "lb_ruleNum d2 = lb_ruleNum e2" using keep_old [OF assms(2) e(2)] by blast
  show "k1 = k2" by (rule marker.numberedD(4) [OF assms(1) d1(1) d2(1)]) (simp add: d1 d2 e)
qed

lemma slices_keep:
  assumes "slices_ok R" "lb_keep R R'"
  shows "slices_ok R'"
  unfolding slices_ok_def
proof (intro allI impI)
  fix k e assume e: "gm_get (lbMap R') k = Some e"
  obtain e0 where e0: "gm_get (lbMap R) k = Some e0" using keep_old [OF assms(2) e] by blast
  then have "eps_ok (epArrs R) (lb_eps e0)" using assms(1) unfolding slices_ok_def by blast
  then show "eps_ok (epArrs R') (lb_eps e)" using lb_keepD(5) [OF assms(2) e0] e by auto
qed

lemma by_number_keep:
  assumes "by_number R" "lb_keep R R'"
  shows "by_number R'"
proof -
  have "(\<exists>e. gm_get (lbMap R') k = Some e \<and> lb_ruleNum e = n) \<longleftrightarrow> (\<exists>e. gm_get (lbMap R) k = Some e \<and> lb_ruleNum e = n)" for k n
    using keep_old [OF assms(2)] lb_keepD(5) [OF assms(2)] by metis
  then show ?thesis using assms(1) unfolding by_number_def lb_keepD(2) [OF assms(2)] by simp
qed

lemma rules_inv_keep:
  assumes "rules_inv ex R" "lb_keep R R'" "fw_inv R'"
  shows "rules_inv ex R'"
  unfolding rules_inv_def lb_keepD(1) [OF assms(2)]
  using assms numbered_keep slices_keep by_number_keep rules_invD(1,2,3) [OF assms(1)] by blast

subsection \<open>Operations on load-balancer rules\<close>

definition step :: "'r rules \<Rightarrow> 'r rules \<Rightarrow> bool" where
  "step R R' \<longleftrightarrow> lb_keep R R' \<and> fw_same R R'"

definition returns :: "'r rules \<Rightarrow> 'r rules option \<Rightarrow> bool" where
  "returns R m \<longleftrightarrow> (\<exists>R'. m = Some R' \<and> step R R')"

lemma step_refl [simp]: "step R R"
  by (simp add: step_def)

lemma step_trans: "step R1 R2 \<Longrightarrow> step R2 R3 \<Longrightarrow> step R1 R3"
  unfolding step_def using lb_keep_trans fw_same_trans by blast

lemma step_inv: "rules_inv ex R \<Longrightarrow> step R R' \<Longrightarrow> rules_inv ex R'"
  unfolding step_def using rules_inv_keep fw_inv_same rules_invD(4) by blast

lemma step_slices: "slices_ok R \<Longrightarrow> step R R' \<Longrightarrow> slices_ok R'"
  unfolding step_def using slices_keep by blast

lemma step_eps: "eps_ok (epArrs R) s \<Longrightarrow> step R R' \<Longrightarrow> eps_ok (epArrs R') s"
  unfolding step_def using eps_ok_grows lb_keepD(3) by blast

lemma returns_Some [simp]: "returns R (Some R') \<longleftrightarrow> step R R'"
  by (simp add: returns_def)

lemma returns_trans: "step R R1 \<Longrightarrow> returns R1 m \<Longrightarrow> returns R m"
  unfolding returns_def using step_trans by blast

lemma returns_bind:
  assumes "returns R m" "\<And>R'. m = Some R' \<Longrightarrow> step R R' \<Longrightarrow> returns R' (f R')"
  shows "returns R (case m of None \<Rightarrow> None | Some R' \<Rightarrow> f R')"
proof -
  obtain R' where R': "m = Some R'" "step R R'" using assms(1) unfolding returns_def by blast
  then show ?thesis using returns_trans [OF R'(2) assms(2) [OF R']] by simp
qed

lemma step_same:
  assumes "lbMap R' = lbMap R" "lbMarks R' = lbMarks R" "rArr R' = rArr R" "epArrs R' = epArrs R"
    "fwMap R' = fwMap R" "fwMarks R' = fwMarks R"
  shows "step R R'"
  unfolding step_def fw_same_def by (intro conjI lb_keep_same) (simp_all add: assms)

lemma step_emit [simp]: "step R (emit evs R)"
  by (rule step_same) (simp_all add: emit_def)

lemma step_add_vip [simp]: "step R (add_vip env v p inst eg R)"
  by (rule step_same) (simp_all add: add_vip_def)

lemma step_del_vip [simp]: "step R (del_vip env v R)"
  by (rule step_same) (simp_all add: del_vip_def)

lemma step_flush [simp]: "step R (flushLBCtEntries env e m R)"
  by (simp add: flushLBCtEntries_def Let_def)

lemma step_write [simp]: "step R (write_slice s eps R)"
  unfolding step_def fw_same_def
  by (intro conjI lb_keep_same grows_write) (simp_all add: write_slice_def)

lemma step_new_slice:
  assumes "new_slice eps R = (s, R')"
  shows "step R R'"
proof -
  have "grows (epArrs R) (epArrs R')" using assms by (auto simp: new_slice_def grows_def nth_append)
  then show ?thesis unfolding step_def fw_same_def
    by (intro conjI lb_keep_same) (use assms in \<open>auto simp: new_slice_def\<close>)
qed

lemma step_mod_hosts:
  assumes "mod_hosts env e a l eps R = (eps', R')"
  shows "step R R'"
  by (rule step_same) (use assms in \<open>auto simp: mod_hosts_def split: prod.splits\<close>)

lemma step_put_lb:
  assumes "gm_get (lbMap R) k = Some e0" "lb_ruleNum e = lb_ruleNum e0"
    "eps_ok (epArrs R) (lb_eps e0) \<Longrightarrow> eps_ok (epArrs R) (lb_eps e)"
  shows "step R (put_lb k e R)"
  unfolding step_def
proof (intro conjI lb_keepI)
  fix k' e' assume "gm_get (lbMap R) k' = Some e'"
  then show "\<exists>e''. gm_get (lbMap (put_lb k e R)) k' = Some e'' \<and> lb_ruleNum e'' = lb_ruleNum e' \<and>
      (eps_ok (epArrs R) (lb_eps e') \<longrightarrow> eps_ok (epArrs (put_lb k e R)) (lb_eps e''))"
    using assms by (cases "k' = k") (simp_all add: put_lb_def)
next
  fix k' assume "gm_get (lbMap R) k' = None"
  then show "gm_get (lbMap (put_lb k e R)) k' = None" using assms(1) by (auto simp: put_lb_def)
qed (simp_all add: put_lb_def fw_same_def)

lemma lb_dp_returns:
  assumes "slices_ok R"
  shows "returns R (lb_dp env work key R)"
proof (cases "gm_get (lbMap R) key")
  case None
  then show ?thesis by (simp add: lb_dp_def)
next
  case (Some e)
  then have ok: "eps_ok (epArrs R) (lb_eps e)" using assms unfolding slices_ok_def by blast
  obtain n e' evs where d: "LB2DP env work e R = Some (n, e', evs)" "lb_ruleNum e' = lb_ruleNum e" "lb_eps e' = lb_eps e"
    using LB2DP_total [OF ok] by blast
  have "step R (put_lb key e' R)" by (rule step_put_lb [OF Some]) (simp_all add: d)
  then show ?thesis using Some d(1) step_trans [OF _ step_emit] by (simp add: lb_dp_def)
qed

lemma electEPSrc_step:
  assumes "electEPSrc env e R = (c, e', R')"
  shows "step R R'" "lb_ruleNum e' = lb_ruleNum e" "lb_eps e' = lb_eps e"
  using assms by (auto simp: electEPSrc_def Let_def split: prod.splits)

lemma mkHostAssocs_keep:
  assumes "mkHostAssocs env e = (c, e')"
  shows "lb_ruleNum e' = lb_ruleNum e" "lb_eps e' = lb_eps e"
  using assms by (auto simp: mkHostAssocs_def Let_def split: option.splits)

lemma fold_eps_returns: "slices_ok R \<Longrightarrow> returns R (fold_eps env r trk i folded n R)"
proof (induction n arbitrary: i folded R)
  case (Suc n)
  show ?case
  proof (cases "gm_get (lbMap R) trk")
    case None
    then show ?thesis by simp
  next
    case (Some tr)
    define hit where "hit = (ep_rule_key env r (rule_eps R tr ! i) = Some (ruleKey (lb_tuples_of r)))"
    define R1 where "R1 = (if hit then write_slice (lb_eps tr)
      ((rule_eps R tr)[i := fold_into (lb_eps r) (ruleKey (lb_tuples_of r)) (rule_eps R tr ! i)]) R else R)"
    have s1: "step R R1" by (simp add: R1_def)
    have k1: "slices_ok R1" by (rule step_slices [OF Suc.prems s1])
    have dp: "returns R1 (case lb_dp env DpCreate trk R1 of None \<Rightarrow> None | Some R2 \<Rightarrow> fold_eps env r trk (Suc i) True n R2)"
      by (rule returns_bind [OF lb_dp_returns [OF k1]]) (rule Suc.IH [OF step_slices [OF k1]])
    show ?thesis
      using Suc.IH [OF Suc.prems] returns_trans [OF s1 Suc.IH [OF k1]] returns_trans [OF s1 dp]
      by (simp add: Some Let_def flip: hit_def R1_def)
  qed
qed simp

lemma fold_rules_returns: "slices_ok R \<Longrightarrow> returns R (fold_rules env r ks R)"
proof (induction ks arbitrary: R)
  case (Cons k ks)
  show ?case
  proof (cases "gm_get (lbMap R) k")
    case None
    then show ?thesis using Cons by simp
  next
    case (Some tr)
    have s1: "step R (fold_own env r k tr R)" by (simp add: fold_own_def)
    have k1: "slices_ok (fold_own env r k tr R)" by (rule step_slices [OF Cons.prems s1])
    have "returns (fold_own env r k tr R) (case fold_eps env r k 0 False (snd (lb_eps tr)) (fold_own env r k tr R) of
        None \<Rightarrow> None | Some R2 \<Rightarrow> fold_rules env r ks R2)"
      by (rule returns_bind [OF fold_eps_returns [OF k1]]) (rule Cons.IH [OF step_slices [OF k1]])
    then show ?thesis
      using returns_trans [OF s1] Cons.IH [OF k1] by (simp add: Some Let_def)
  qed
qed simp

lemma unfold_eps_returns: "slices_ok R \<Longrightarrow> returns R (unfold_eps env rk trk i n R)"
proof (induction n arbitrary: i R)
  case (Suc n)
  show ?case
  proof (cases "gm_get (lbMap R) trk")
    case None
    then show ?thesis by simp
  next
    case (Some tr)
    define R1 where "R1 = write_slice (lb_eps tr) ((rule_eps R tr)[i := unfold_ep (rule_eps R tr ! i)]) R"
    have s1: "step R R1" by (simp add: R1_def)
    have k1: "slices_ok R1" by (rule step_slices [OF Suc.prems s1])
    have "returns R1 (case lb_dp env DpCreate trk R1 of None \<Rightarrow> None | Some R2 \<Rightarrow> unfold_eps env rk trk (Suc i) n R2)"
      by (rule returns_bind [OF lb_dp_returns [OF k1]]) (rule Suc.IH [OF step_slices [OF k1]])
    then show ?thesis
      using Suc.IH [OF Suc.prems] returns_trans [OF s1] by (simp add: Some Let_def flip: R1_def)
  qed
qed simp

lemma unfold_rules_returns: "slices_ok R \<Longrightarrow> returns R (unfold_rules env key r ks R)"
proof (induction ks arbitrary: R)
  case (Cons k ks)
  show ?case
  proof (cases "k = key \<or> gm_get (lbMap R) k = None")
    case True
    then show ?thesis using Cons by auto
  next
    case False
    then obtain tr where Some: "gm_get (lbMap R) k = Some tr" by blast
    have s1: "step R (unfold_own r tr R)" by (simp add: unfold_own_def)
    have k1: "slices_ok (unfold_own r tr R)" by (rule step_slices [OF Cons.prems s1])
    have "returns (unfold_own r tr R) (case unfold_eps env (ruleKey (lb_tuples_of r)) k 0 (snd (lb_eps tr)) (unfold_own r tr R) of
        None \<Rightarrow> None | Some R2 \<Rightarrow> unfold_rules env key r ks R2)"
      by (rule returns_bind [OF unfold_eps_returns [OF k1]]) (rule Cons.IH [OF step_slices [OF k1]])
    then show ?thesis
      using False returns_trans [OF s1] Cons.IH [OF k1] by (simp add: Some Let_def)
  qed
qed simp

lemma program_rule_returns:
  assumes "slices_ok R"
  shows "returns R (program_rule env key e R)"
proof -
  have "returns (flushLBCtEntries env e 0 R) (program_rule env key e R)"
    unfolding program_rule_def
    by (rule returns_bind [OF lb_dp_returns [OF step_slices [OF assms step_flush]]])
      (simp add: step_trans [OF step_emit step_flush])
  then show ?thesis by (rule returns_trans [OF step_flush])
qed

subsection \<open>Operations on firewall rules\<close>

text \<open>A step of the firewall table leaves the load-balancer rules alone.\<close>

definition fw_ret :: "'r rules \<Rightarrow> (go_ret \<times> 'r rules) option \<Rightarrow> bool" where
  "fw_ret R m \<longleftrightarrow> (\<exists>ret R'. m = Some (ret, R') \<and> lb_keep R R' \<and> fw_inv R')"

lemma fw_ret_Some [simp]: "fw_ret R (Some (ret, R')) \<longleftrightarrow> lb_keep R R' \<and> fw_inv R'"
  by (simp add: fw_ret_def)

lemma lb_keep_fw:
  assumes "lbMap R' = lbMap R" "lbMarks R' = lbMarks R" "rArr R' = rArr R" "epArrs R' = epArrs R"
  shows "lb_keep R R'"
  by (rule lb_keep_same) (simp_all add: assms)

lemma Fw2DP_keep:
  assumes "Fw2DP env work r = (n, r', evs)"
  shows "fw_ruleNum r' = fw_ruleNum r" "fw_actType r' = fw_actType r"
  using assms by (auto simp: Fw2DP_def Let_def split: if_splits option.splits)

lemma fw_put_inv:
  assumes "fw_inv R" "gm_get (fwMap R) key = Some r0" "fw_ruleNum r = fw_ruleNum r0" "fw_actType r = fw_actType r0"
  shows "fw_inv (R \<lparr> fwMap := gm_put key r (fwMap R) \<rparr>)"
  using assms marker.numbered_update [of fw_ruleNum "{}" "fwMap R" "fwMarks R" key r0 r]
  by (auto simp: fw_inv_def nosnat_def)

lemma fw_inv_emit [simp]: "fw_inv (emit evs R) = fw_inv R"
  by (simp add: emit_def fw_inv_def nosnat_def)

lemma fw_dp_inv:
  assumes "fw_inv R"
  shows "fw_inv (fw_dp env work key R)" "lb_keep R (fw_dp env work key R)"
    "gm_get (fwMap (fw_dp env work key R)) key \<noteq> None \<longleftrightarrow> gm_get (fwMap R) key \<noteq> None"
proof -
  show "lb_keep R (fw_dp env work key R)"
    by (rule lb_keep_fw) (auto simp: fw_dp_def emit_def Let_def split: option.splits prod.splits)
  obtain n r' evs where d: "gm_get (fwMap R) key = Some r0 \<Longrightarrow> Fw2DP env work r0 = (n, r', evs)" for r0
    by (cases "Fw2DP env work (the (gm_get (fwMap R) key))") force
  show "fw_inv (fw_dp env work key R)"
    using assms fw_put_inv [OF assms _ Fw2DP_keep(1) [OF d] Fw2DP_keep(2) [OF d]] by (auto simp: fw_dp_def d split: option.splits)
  show "gm_get (fwMap (fw_dp env work key R)) key \<noteq> None \<longleftrightarrow> gm_get (fwMap R) key \<noteq> None"
    by (auto simp: fw_dp_def d emit_def split: option.splits)
qed

lemma fw_remark_inv:
  assumes "fw_inv R" "gm_get (fwMap R) key = Some e"
  shows "fw_inv (fw_remark env opts key e R)" "lb_keep R (fw_remark env opts key e R)"
proof -
  define R1 where "R1 = fw_dp env DpRemove key R"
  define R2 where "R2 = R1 \<lparr> fwMap := gm_put key ((the (gm_get (fwMap R1) key))
    \<lparr> fw_opt := (fw_opt e) \<lparr> fwMark := fo_Mark opts \<rparr> \<rparr>) (fwMap R1) \<rparr>"
  have i1: "fw_inv R1" "lb_keep R R1" using fw_dp_inv [OF assms(1)] by (simp_all add: R1_def)
  obtain r1 where r1: "gm_get (fwMap R1) key = Some r1"
    using fw_dp_inv(3) [OF assms(1), where env = env and work = DpRemove and key = key] assms(2) by (auto simp: R1_def)
  have i2: "fw_inv R2" unfolding R2_def by (rule fw_put_inv [OF i1(1) r1]) (simp_all add: r1)
  have k2: "lb_keep R1 R2" by (rule lb_keep_fw) (simp_all add: R2_def)
  note i3 = fw_dp_inv [OF i2, where env = env and work = DpCreate and key = key]
  have eq: "fw_remark env opts key e R = (if \<not> DoSnat opts \<and> fwMark (fw_opt e) \<noteq> fo_Mark opts then fw_dp env DpCreate key R2 else R)"
    by (simp add: fw_remark_def R1_def R2_def Let_def)
  show "fw_inv (fw_remark env opts key e R)" using assms(1) i3(1) by (simp add: eq)
  show "lb_keep R (fw_remark env opts key e R)"
    using lb_keep_trans [OF i1(2) lb_keep_trans [OF k2 i3(2)]] by (simp add: eq)
qed

lemma fw_store_inv:
  assumes "marker.numbered fw_ruleNum {fw_ruleNum r} (fwMap R) (fwMarks R)" "nosnat R" "fw_actType r \<noteq> RtActSnat"
  shows "fw_inv (fw_store env opts key r R)" "lb_keep R (fw_store env opts key r R)"
proof -
  define R1 where "R1 = R \<lparr> fwMap := gm_put key r (fwMap R) \<rparr>"
  have i1: "fw_inv R1"
    using marker.numbered_insert [OF assms(1)] assms(2,3) by (auto simp: R1_def fw_inv_def nosnat_def)
  have k1: "lb_keep R R1" by (rule lb_keep_fw) (simp_all add: R1_def)
  have eq: "fw_store env opts key r R = (if OnDefault opts \<and> CIStateGetInst (rl_has R1) CIDefault = (CIBackupStateString, Ok)
      then R1 else fw_dp env DpCreate key R1)"
    by (simp add: fw_store_def Let_def R1_def)
  show "fw_inv (fw_store env opts key r R)" using i1 fw_dp_inv(1) [OF i1] by (simp add: eq)
  show "lb_keep R (fw_store env opts key r R)" using k1 lb_keep_trans [OF k1 fw_dp_inv(2) [OF i1]] by (simp add: eq)
qed

lemma fw_action_nosnat: "\<not> DoSnat opts \<Longrightarrow> fw_action opts \<noteq> RtActSnat"
  by (simp add: fw_action_def)

lemma fw_install_ret:
  assumes "fw_inv R" "\<not> DoSnat opts"
  shows "fw_ret R (fw_install env add_lb opts rt R)"
proof -
  have num: "marker.numbered fw_ruleNum {} (fwMap R) (fwMarks R)" and ns: "nosnat R" using assms(1) by (simp_all add: fw_inv_def)
  consider (full) e where "GetMarker (fwMarks R) = Some (Inl e, fwMarks R)"
    | (ok) i m where "GetMarker (fwMarks R) = Some (Inr i, m)" "marker.numbered fw_ruleNum {i} (fwMap R) m"
    using marker.numbered_get [OF num] by auto
  then show ?thesis
  proof cases
    case full
    then show ?thesis using assms(1) by (simp add: fw_install_def)
  next
    case (ok i m)
    define R2 where "R2 = R \<lparr> fwMarks := m \<rparr>"
    define r where "r = (new_fw opts rt) \<lparr> fw_ruleNum := i \<rparr>"
    have k: "lb_keep R R2" by (rule lb_keep_fw) (simp_all add: R2_def)
    have a: "fw_actType r \<noteq> RtActSnat" using fw_action_nosnat [OF assms(2)] by (simp add: r_def new_fw_def Let_def)
    have n: "marker.numbered fw_ruleNum {fw_ruleNum r} (fwMap R2) (fwMarks R2)" "nosnat R2"
      using ok(2) ns by (simp_all add: R2_def r_def nosnat_def)
    have "fw_install env add_lb opts rt R = Some (Ok, fw_store env opts (ruleKey rt) r R2)"
      using assms(2) ok(1) by (simp add: fw_install_def Let_def R2_def r_def)
    then show ?thesis using fw_store_inv [OF n a] lb_keep_trans [OF k] by simp
  qed
qed

lemma AddFwRule_ret:
  assumes "fw_inv R" "\<not> DoSnat opts"
  shows "fw_ret R (AddFwRule env add_lb rule opts R)"
proof -
  have "fw_snat_args env opts R = Inr R" using fw_action_nosnat [OF assms(2)] by (simp add: fw_snat_args_def)
  then show ?thesis
    using assms fw_install_ret [OF assms] fw_remark_inv [OF assms(1)]
    by (auto simp: AddFwRule_def Let_def split: option.splits)
qed

lemma DeleteFwRule_ret:
  assumes "fw_inv R"
  shows "fw_ret R (DeleteFwRule env dl rule R)"
proof -
  have num: "marker.numbered fw_ruleNum {} (fwMap R) (fwMarks R)" and ns: "nosnat R" using assms by (simp_all add: fw_inv_def)
  have found: "fw_ret R (let R2 = R \<lparr> fwMap := gm_del key (fwMap R) \<rparr>; (_, _, evs) = Fw2DP env DpRemove r; R3 = emit evs R2 in
      case ReleaseMarker (fw_ruleNum r) (fwMarks R3) of None \<Rightarrow> None | Some (_, m) \<Rightarrow> Some (Ok, R3 \<lparr> fwMarks := m \<rparr>))"
    if g: "gm_get (fwMap R) key = Some r" for key r
  proof -
    obtain n r' evs where d: "Fw2DP env DpRemove r = (n, r', evs)" by (cases "Fw2DP env DpRemove r")
    have "marker.numbered fw_ruleNum {fw_ruleNum r} (gm_del key (fwMap R)) (fwMarks R)"
      using marker.numbered_delete(1) [OF num g] by simp
    then obtain m where m: "ReleaseMarker (fw_ruleNum r) (fwMarks R) = Some (Inr (), m)"
      "marker.numbered fw_ruleNum {} (gm_del key (fwMap R)) m"
      using marker.numbered_put [of fw_ruleNum _ "{}"] by blast
    have "lb_keep R ((emit evs (R \<lparr> fwMap := gm_del key (fwMap R) \<rparr>)) \<lparr> fwMarks := m \<rparr>)"
      by (rule lb_keep_fw) (simp_all add: emit_def)
    then show ?thesis using m ns by (simp add: d Let_def fw_inv_def nosnat_def emit_def)
  qed
  have "fw_unsnat env dl r R = Some R" if "gm_get (fwMap R) key = Some r" for key r
    using ns that by (simp add: fw_unsnat_def nosnat_def)
  then show ?thesis
    using assms found by (auto simp: DeleteFwRule_def Let_def split: option.splits)
qed

subsection \<open>Allowed sources and port ranges\<close>

definition safe :: "u64 set \<Rightarrow> 'r rules \<Rightarrow> 'r rules \<Rightarrow> bool" where
  "safe ex R R' \<longleftrightarrow> rules_inv ex R' \<and> lb_keep R R'"

lemma safe_refl: "rules_inv ex R \<Longrightarrow> safe ex R R"
  by (simp add: safe_def)

lemma safe_trans: "safe ex R1 R2 \<Longrightarrow> safe ex R2 R3 \<Longrightarrow> safe ex R1 R3"
  unfolding safe_def using lb_keep_trans by blast

lemma safeD:
  assumes "safe ex R R'"
  shows "rules_inv ex R'" "lb_keep R R'"
  using assms by (simp_all add: safe_def)

lemma safe_step: "rules_inv ex R \<Longrightarrow> step R R' \<Longrightarrow> safe ex R R'"
  unfolding safe_def using step_inv by (auto simp: step_def)

lemma safe_step_trans: "safe ex R R1 \<Longrightarrow> step R1 R2 \<Longrightarrow> safe ex R R2"
  using safe_trans safe_step safeD(1) by blast

lemma safe_eps: "safe ex R R' \<Longrightarrow> eps_ok (epArrs R) s \<Longrightarrow> eps_ok (epArrs R') s"
  using eps_ok_grows lb_keepD(3) safeD(2) by blast

lemma safe_returns:
  assumes "rules_inv ex R" "returns R m"
  shows "\<exists>R'. m = Some R' \<and> safe ex R R'"
  using assms safe_step unfolding returns_def by blast

lemma safe_fw:
  assumes "rules_inv ex R" "fw_ret R m"
  shows "\<exists>ret R'. m = Some (ret, R') \<and> safe ex R R'"
  using assms rules_inv_keep unfolding fw_ret_def safe_def by blast

lemma fw_add_safe:
  assumes "rules_inv ex R" "\<not> DoSnat opts"
  shows "\<exists>ret R'. fw_add env rule opts R = Some (ret, R') \<and> safe ex R R'"
  unfolding fw_add_def by (rule safe_fw [OF assms(1) AddFwRule_ret [OF rules_invD(4) [OF assms(1)] assms(2)]])

lemma fw_del_safe:
  assumes "rules_inv ex R"
  shows "\<exists>ret R'. DeleteFwRule env dl rule R = Some (ret, R') \<and> safe ex R R'"
  by (rule safe_fw [OF assms DeleteFwRule_ret [OF rules_invD(4) [OF assms]]])

lemma allow_opts_nosnat [simp]: "\<not> DoSnat (allow_opts m)"
  by (simp add: allow_opts_def zero_fwopt_def)

lemma step_src [simp]: "step R (R \<lparr> lbSrcMap := m \<rparr>)" "step R (R \<lparr> srcCnt := c \<rparr>)" "step R (R \<lparr> srcCnt := c, lbSrcMap := m \<rparr>)"
  by (rule step_same; simp)+

lemma src_install_safe:
  assumes "rules_inv ex R"
  shows "\<exists>x R'. src_install env CIDR added pref el R = Some (x, R') \<and> safe ex R R'"
proof -
  obtain ret R1 where a: "fw_add env (src_rule env pref) (allow_opts (lbmark el OR SrcChkFwMark)) R = Some (ret, R1)" "safe ex R R1"
    using fw_add_safe [OF assms allow_opts_nosnat] by blast
  then show ?thesis using safe_step_trans [OF a(2)] by (auto simp: src_install_def)
qed

lemma addAllowedLbSrc_safe:
  assumes "rules_inv ex R"
  shows "\<exists>x R'. addAllowedLbSrc env CIDR mark R = Some (x, R') \<and> safe ex R R'"
proof -
  have i: "\<exists>x R''. src_install env CIDR b pref el R' = Some (x, R'') \<and> safe ex R R''" if "step R R'" for b pref el R'
    using src_install_safe [OF step_inv [OF assms that]] safe_trans [OF safe_step [OF assms that]] by blast
  show ?thesis
    using safe_refl [OF assms] safe_step [OF assms] i
    by (auto simp: addAllowedLbSrc_def Let_def split: option.splits prod.splits)
qed

lemma deleteAllowedLbSrc_safe:
  assumes "rules_inv ex R"
  shows "\<exists>x R'. deleteAllowedLbSrc env dl CIDR mark R = Some (x, R') \<and> safe ex R R'"
proof -
  have d: "\<exists>x R''. DeleteFwRule env dl rule R' = Some (x, R'') \<and> safe ex R R''" if "step R R'" for rule R'
    using fw_del_safe [OF step_inv [OF assms that]] safe_trans [OF safe_step [OF assms that]] by blast
  have a: "\<exists>x R''. fw_add env rule (allow_opts m) R' = Some (x, R'') \<and> safe ex R R''" if "step R R'" for rule m R'
    using fw_add_safe [OF step_inv [OF assms that] allow_opts_nosnat] safe_trans [OF safe_step [OF assms that]] by blast
  show ?thesis
  proof (cases "gm_get (lbSrcMap R) CIDR")
    case None
    then show ?thesis using safe_refl [OF assms] by (simp add: deleteAllowedLbSrc_def)
  next
    case (Some el0)
    define el where "el = el0 \<lparr> src_ref := src_ref el0 - 1 \<rparr>"
    define el' where "el' = el \<lparr> lbmark := lbmark el AND NOT (mark_bit mark) \<rparr>"
    obtain x R1 where d1: "DeleteFwRule env dl (src_rule env (srcPref el)) (R \<lparr> lbSrcMap := gm_put CIDR el (lbSrcMap R) \<rparr>) = Some (x, R1)"
      "safe ex R R1" using d [OF step_src(1)] by blast
    obtain y R2 where a1: "fw_add env (zero_fwrule \<lparr> fa_SrcIP := IPNet_String (srcPref el) \<rparr>)
        (allow_opts (lbmark el' OR SrcChkFwMark)) (R \<lparr> lbSrcMap := gm_put CIDR el' (lbSrcMap R) \<rparr>) = Some (y, R2)" "safe ex R R2"
      using a [OF step_src(1)] by blast
    show ?thesis
      using safe_refl [OF assms] d1(1) safe_step_trans [OF d1(2) step_src(3)] a1
      by (simp add: deleteAllowedLbSrc_def Some Let_def flip: el_def el'_def)
  qed
qed

lemma add_sources_safe:
  "rules_inv ex R \<Longrightarrow> \<exists>b got' R'. add_sources env mark cs got R = Some (b, got', R') \<and> safe ex R R'"
proof (induction cs arbitrary: got R)
  case (Cons c cs)
  obtain x R1 where a: "addAllowedLbSrc env c mark R = Some (x, R1)" "safe ex R R1"
    using addAllowedLbSrc_safe [OF Cons.prems] by blast
  show ?case
    using a safe_trans [OF a(2)] Cons.IH [OF safeD(1) [OF a(2)]] by (cases x) fastforce+
qed (use safe_refl in auto)

lemma del_sources_safe: "rules_inv ex R \<Longrightarrow> \<exists>R'. del_sources env dl mark ps R = Some R' \<and> safe ex R R'"
proof (induction ps arbitrary: R)
  case (Cons p ps)
  obtain x R1 where a: "deleteAllowedLbSrc env dl (IPNet_String p) mark R = Some (x, R1)" "safe ex R R1"
    using deleteAllowedLbSrc_safe [OF Cons.prems] by blast
  show ?case using a safe_trans [OF a(2)] Cons.IH [OF safeD(1) [OF a(2)]] by fastforce
qed (simp add: safe_refl)

lemma addLbRuleWithFW_safe: "rules_inv ex R \<Longrightarrow> \<exists>R'. addLbRuleWithFW env dst lo hi p m R = Some R' \<and> safe ex R R'"
  using fw_add_safe [OF _ allow_opts_nosnat] unfolding addLbRuleWithFW_def by fastforce

lemma deleteLbRuleWithFW_safe: "rules_inv ex R \<Longrightarrow> \<exists>R'. deleteLbRuleWithFW env dl dst lo hi p R = Some R' \<and> safe ex R R'"
  using fw_del_safe safe_refl unfolding deleteLbRuleWithFW_def by fastforce

lemma step_fold: "(\<And>x R. step R (f x R)) \<Longrightarrow> step R (fold f xs R)"
proof (induction xs arbitrary: R)
  case (Cons x xs)
  then show ?case using step_trans [OF Cons.prems Cons.IH [OF Cons.prems]] by simp
qed simp

lemma step_addVIPSys [simp]: "step R (addVIPSys env e R)"
  by (simp add: addVIPSys_def step_trans [OF step_add_vip step_fold])

lemma step_deleteVIPSys [simp]: "step R (deleteVIPSys env e R)"
  by (simp add: deleteVIPSys_def step_trans [OF step_del_vip step_fold])

subsection \<open>Deletion\<close>

lemma lb_release_safe:
  assumes "rules_inv ex R"
  shows "\<exists>R'. lb_release env dl serv prot key e R = Some R' \<and> safe ex R R'"
proof (cases "lb_actType e = RtActSnat")
  case True
  then show ?thesis using safe_refl [OF assms] by (simp add: lb_release_def)
next
  case False
  obtain eps R1 where m: "mod_hosts env e False (probes (lb_mode e) (actChk (hChk e))) (rule_eps R e) R = (eps, R1)"
    by (cases "mod_hosts env e False (probes (lb_mode e) (actChk (hChk e))) (rule_eps R e) R")
  have w: "step R (write_slice (lb_eps e) eps R1)" by (rule step_trans [OF step_mod_hosts [OF m] step_write])
  have i: "rules_inv ex (write_slice (lb_eps e) eps R1)" by (rule step_inv [OF assms w])
  obtain R2 where u: "unFoldRecursiveEPs env key e (write_slice (lb_eps e) eps R1) = Some R2" "safe ex (write_slice (lb_eps e) eps R1) R2"
    using safe_returns [OF i unfold_rules_returns [OF rules_invD(2) [OF i]]] unfolding unFoldRecursiveEPs_def by blast
  have s2: "safe ex R R2" by (rule safe_trans [OF safe_step [OF assms w] u(2)])
  obtain R3 where d: "deleteLbRuleWithFW env dl (ServIP serv) (ServPort serv) (ServPortMax serv) prot R2 = Some R3" "safe ex R2 R3"
    using deleteLbRuleWithFW_safe [OF safeD(1) [OF s2]] by blast
  show ?thesis using False m u(1) s2 d safe_trans [OF s2 d(2)] by (simp add: lb_release_def)
qed

lemma by_number_del:
  assumes "marker.numbered lb_ruleNum ex (lbMap R) M" "by_number R" "gm_get (lbMap R) key = Some e"
  shows "by_number (R \<lparr> lbMap := gm_del key (lbMap R),
    rArr := (if lb_ruleNum e < RtMaximumLbs then gm_del (lb_ruleNum e) (rArr R) else rArr R) \<rparr>)"
proof -
  have u: "k = key \<longleftrightarrow> lb_ruleNum d = lb_ruleNum e" if "gm_get (lbMap R) k = Some d" for k d
    using marker.numberedD(4) [OF assms(1) that assms(3)] that assms(3) by auto
  have old: "gm_get (rArr R) n = Some k \<longleftrightarrow> n < RtMaximumLbs \<and> (\<exists>d. gm_get (lbMap R) k = Some d \<and> lb_ruleNum d = n)" for n k
    using assms(2) unfolding by_number_def by blast
  show ?thesis unfolding by_number_def
  proof (intro allI)
    fix n k
    have "gm_get (if lb_ruleNum e < RtMaximumLbs then gm_del (lb_ruleNum e) (rArr R) else rArr R) n = Some k \<longleftrightarrow>
        gm_get (rArr R) n = Some k \<and> n \<noteq> lb_ruleNum e"
      using old [of n k] by auto
    then show "gm_get (rArr (R \<lparr> lbMap := gm_del key (lbMap R),
        rArr := (if lb_ruleNum e < RtMaximumLbs then gm_del (lb_ruleNum e) (rArr R) else rArr R) \<rparr>)) n = Some k \<longleftrightarrow>
      n < RtMaximumLbs \<and> (\<exists>d. gm_get (lbMap (R \<lparr> lbMap := gm_del key (lbMap R),
        rArr := (if lb_ruleNum e < RtMaximumLbs then gm_del (lb_ruleNum e) (rArr R) else rArr R) \<rparr>)) k = Some d \<and> lb_ruleNum d = n)"
      using old [of n k] u by auto
  qed
qed

lemma lb_remove_returns:
  assumes "rules_inv ex R" "gm_get (lbMap R) key = Some e"
  shows "\<exists>R'. lb_remove env dl serv prot key e R = Some R' \<and> rules_inv ex R' \<and> lb_nums R' = (lb_nums R) (key := None)"
proof -
  obtain R1 where r1: "lb_release env dl serv prot key e R = Some R1" "safe ex R R1" using lb_release_safe [OF assms(1)] by blast
  obtain R2 where r2: "del_sources env dl (ucast (lb_ruleNum e)) (srcList e) R1 = Some R2" "safe ex R1 R2"
    using del_sources_safe [OF safeD(1) [OF r1(2)]] by blast
  have s2: "safe ex R R2" by (rule safe_trans [OF r1(2) r2(2)])
  note i2 = safeD(1) [OF s2] and k2 = safeD(2) [OF s2]
  obtain e2 where e2: "gm_get (lbMap R2) key = Some e2" "lb_ruleNum e2 = lb_ruleNum e" using lb_keepD(5) [OF k2 assms(2)] by blast
  define R3 where "R3 = R2 \<lparr> lbMap := gm_del key (lbMap R2),
    rArr := (if lb_ruleNum e < RtMaximumLbs then gm_del (lb_ruleNum e) (rArr R2) else rArr R2) \<rparr>"
  define e1 where "e1 = e \<lparr> srcList := [] \<rparr>"
  define R4 where "R4 = flushLBCtEntries env e1 0 (deleteVIPSys env e1 R3)"
  note n2 = marker.numbered_delete [OF rules_invD(1) [OF i2] e2(1), unfolded e2(2)]
  have b3: "by_number R3" using by_number_del [OF rules_invD(1,3) [OF i2] e2(1)] unfolding R3_def e2(2) .
  have sl3: "slices_ok R3" using rules_invD(5) [OF i2] by (simp add: slices_ok_def R3_def)
  have f3: "fw_inv R3" using rules_invD(4) [OF i2] by (simp add: fw_inv_def nosnat_def R3_def)
  have i3: "rules_inv (insert (lb_ruleNum e) ex) R3" using n2(1) b3 sl3 f3 unfolding rules_inv_def by (simp add: R3_def)
  have s4: "step R3 R4" unfolding R4_def by (rule step_trans [OF step_deleteVIPSys step_flush])
  have i4: "rules_inv (insert (lb_ruleNum e) ex) R4" by (rule step_inv [OF i3 s4])
  have "eps_ok (epArrs R3) (lb_eps e)" using safe_eps [OF s2 rules_invD(5) [OF assms]] by (simp add: R3_def)
  then have "eps_ok (epArrs R4) (lb_eps e1)" using step_eps [OF _ s4] by (simp add: e1_def)
  then obtain n e' evs where dp: "LB2DP env DpRemove e1 R4 = Some (n, e', evs)" using LB2DP_total by blast
  obtain m where m: "ReleaseMarker (lb_ruleNum e) (lbMarks R4) = Some (Inr (), m)" "marker.numbered lb_ruleNum ex (lbMap R4) m"
    using marker.numbered_put [OF rules_invD(1) [OF i4] n2(2)] by blast
  define R5 where "R5 = emit evs (R4 \<lparr> lbMarks := m \<rparr>)"
  have "lb_remove env dl serv prot key e R = Some R5"
    using dp m(1) unfolding lb_remove_def r1(1) option.case r2(1) Let_def R5_def by (simp flip: R3_def e1_def R4_def)
  moreover have "rules_inv ex R5"
    using m(2) rules_invD(2,3,4) [OF i4]
    by (simp add: rules_inv_def R5_def emit_def slices_ok_def by_number_def fw_inv_def nosnat_def)
  moreover have "lb_nums R5 = lb_nums R3" using keep_nums [of R3 R4] s4 by (simp add: step_def R5_def emit_def fun_eq_iff lb_nums_def)
  moreover have "lb_nums R3 = (lb_nums R) (key := None)"
    using keep_nums [OF k2] by (auto simp: fun_eq_iff lb_nums_def R3_def)
  ultimately show ?thesis by simp
qed

text \<open>The key of the rule a service request is about.\<close>

definition lb_key :: "'r rules_env \<Rightarrow> LbServiceArg \<Rightarrow> string option" where
  "lb_key env serv = (case (ParseCIDR (service_cidr env serv), proto_num (sa_Proto serv)) of
      (Some (_, net), Some prot) \<Rightarrow> Some (ruleKey (rule_tuples net prot serv))
    | _ \<Rightarrow> None)"

text \<open>What a deletion does to the numbers: it is refused, or the rule of the key goes away.\<close>

lemma DeleteLbRule_returns:
  assumes "rules_inv ex R"
  shows "\<exists>ret R'. DeleteLbRule env serv R = Some (ret, R') \<and> rules_inv ex R' \<and>
    (ret \<noteq> Ok \<and> R' = R \<and> (ServPortMax serv \<noteq> 0 \<and> ServPortMax serv < ServPort serv \<or>
        (\<forall>k. lb_key env serv = Some k \<longrightarrow> lb_nums R k = None)) \<or>
     (\<exists>k i. ret = Ok \<and> lb_key env serv = Some k \<and> lb_nums R k = Some i \<and> lb_nums R' = (lb_nums R) (k := None)))"
proof -
  define dl where "dl = delete_lb_to (Suc (length (lbSrcMap R))) env"
  have eq: "DeleteLbRule env serv R = delete_lb env dl serv R" by (simp add: DeleteLbRule_def dl_def)
  show ?thesis
  proof (cases "\<exists>ip net prot e. ParseCIDR (service_cidr env serv) = Some (ip, net) \<and> proto_num (sa_Proto serv) = Some prot \<and>
      \<not> (ServPortMax serv \<noteq> 0 \<and> ServPortMax serv < ServPort serv) \<and> gm_get (lbMap R) (ruleKey (rule_tuples net prot serv)) = Some e")
    case True
    then obtain ip net prot e where h: "ParseCIDR (service_cidr env serv) = Some (ip, net)" "proto_num (sa_Proto serv) = Some prot"
        "\<not> (ServPortMax serv \<noteq> 0 \<and> ServPortMax serv < ServPort serv)" "gm_get (lbMap R) (ruleKey (rule_tuples net prot serv)) = Some e"
      by blast
    obtain R' where r: "lb_remove env dl serv prot (ruleKey (rule_tuples net prot serv)) e R = Some R'" "rules_inv ex R'"
        "lb_nums R' = (lb_nums R) (ruleKey (rule_tuples net prot serv) := None)"
      using lb_remove_returns [OF assms h(4)] by blast
    have d: "delete_lb env dl serv R = Some (Ok, R')" unfolding delete_lb_def h(1,2) option.case prod.case Let_def h(4) r(1) using h(3) by simp
    have k: "lb_key env serv = Some (ruleKey (rule_tuples net prot serv))" by (simp add: lb_key_def h)
    show ?thesis using d k r(2,3) h(4) by (simp add: eq lb_nums_def)
  next
    case False
    have "\<exists>ret. delete_lb env dl serv R = Some (ret, R) \<and> ret \<noteq> Ok"
      unfolding delete_lb_def Let_def using False by (auto split: option.splits)
    moreover have "ServPortMax serv \<noteq> 0 \<and> ServPortMax serv < ServPort serv \<or> (\<forall>k. lb_key env serv = Some k \<longrightarrow> lb_nums R k = None)"
      using False by (auto simp: lb_key_def lb_nums_def split: option.splits)
    ultimately show ?thesis using assms by (auto simp: eq)
  qed
qed

subsection \<open>Update\<close>

lemma consolidate_step:
  assumes "consolidate env sl news oper R = (chg, rs, del, R')" "eps_ok (epArrs R) sl"
  shows "step R R' \<and> fst rs < length (epArrs R') \<and> snd rs \<le> length (epArrs R' ! fst rs)"
proof -
  obtain c ret dl where g: "getLBConsolidatedEPs (slice R sl) news oper = (c, ret, dl)"
    by (cases "getLBConsolidatedEPs (slice R sl) news oper")
  obtain c' found olds ns where m: "match_eps oper (slice R sl) news = (c', found, olds, ns)"
    by (cases "match_eps oper (slice R sl) news")
  have new: "step R R1 \<and> fst s1 < length (epArrs R1) \<and> snd s1 \<le> length (epArrs R1 ! fst s1)"
    if "new_slice y (write_slice sl x R) = (s1, R1)" for x y s1 R1
    using step_trans [OF step_write step_new_slice [OF that]] that by (auto simp: new_slice_def)
  have old: "fst sl < length (epArrs R)" "snd sl \<le> length (epArrs R ! fst sl)" using assms(2) by (simp_all add: eps_ok_def)
  have wr: "fst sl < length (epArrs (write_slice sl x R))" "length x \<le> length (epArrs (write_slice sl x R) ! fst sl)"
    "snd sl \<le> length (epArrs (write_slice sl x R) ! fst sl)" for x
    using old by (simp_all add: write_slice_def)
  show ?thesis
  proof (cases "oper = LBOPDetach")
    case True
    then show ?thesis using assms(1) old new by (auto simp: consolidate_def g m Let_def split: if_splits prod.splits)
  next
    case False
    then show ?thesis using assms(1) old new wr by (auto simp: consolidate_def g m Let_def split: if_splits prod.splits)
  qed
qed

lemma update_reset_ok:
  assumes "rules_inv ex R" "fst rs < length (epArrs R)" "snd rs \<le> length (epArrs R ! fst rs)" "snd rs \<noteq> 0"
    "rq_eps rq \<noteq> []" "length (rq_eps rq) \<le> MaxLBEndPoints"
  shows "\<exists>rs' del' R'. update_reset env rq key e rs del R = Some (rs', del', R') \<and> safe ex R R' \<and> eps_ok (epArrs R') rs'"
proof -
  obtain R1 where d: "lb_dp env DpRemove key R = Some R1" "safe ex R R1"
    using safe_returns [OF assms(1) lb_dp_returns [OF rules_invD(2) [OF assms(1)]]] by blast
  show ?thesis
  proof (cases "snd rs > MaxLBEndPoints")
    case True
    obtain ns R2 where n: "new_slice (mark_all (rq_eps rq)) R1 = (ns, R2)" by (cases "new_slice (mark_all (rq_eps rq)) R1")
    have "eps_ok (epArrs R2) ns"
      by (rule new_slice_ok(1) [OF n]) (use assms(5,6) in \<open>simp_all add: mark_all_def\<close>)
    moreover have "safe ex R R2" by (rule safe_step_trans [OF d(2) step_new_slice [OF n]])
    ultimately show ?thesis using True d(1) n by (simp add: update_reset_def)
  next
    case False
    then have ok: "eps_ok (epArrs R) rs" using assms(2,3,4) by (simp add: eps_ok_def)
    show ?thesis
      using False d ok safe_eps [OF d(2) ok] safe_refl [OF assms(1)]
      by (cases "lb_mode e = LBModeFullProxy") (simp_all add: update_reset_def)
  qed
qed

lemma update_sources_safe:
  assumes "rules_inv ex R"
  shows "\<exists>x R'. update_sources env srcs e R = Some (x, R') \<and> safe ex R R'"
proof -
  define num where "num = (ucast (lb_ruleNum e) :: u32)"
  obtain b got R1 where a: "add_sources env num srcs [] R = Some (b, got, R1)" "safe ex R R1"
    using add_sources_safe [OF assms] by blast
  have d: "\<exists>R'. del_sources env (DeleteLbRule env) num ps R1 = Some R' \<and> safe ex R R'" for ps
    using del_sources_safe [OF safeD(1) [OF a(2)]] safe_trans [OF a(2)] by blast
  show ?thesis using a(1) d [of got] d [of "srcList e"] by (cases b) (auto simp: update_sources_def Let_def simp flip: num_def)
qed

lemma update_hosts_step:
  assumes "update_hosts env serv mon e del R = (e', R')"
  shows "step R R' \<and> lb_ruleNum e' = lb_ruleNum e \<and> lb_eps e' = lb_eps e"
proof (cases "Snat serv")
  case True
  then show ?thesis using assms by (simp add: update_hosts_def)
next
  case False
  define act where "act = probes (sa_Mode serv) (Monitor serv)"
  obtain d1 R1 where m1: "mod_hosts env e False act del R = (d1, R1)" by (cases "mod_hosts env e False act del R")
  obtain eps R2 where m2: "mod_hosts env e True act (rule_eps R1 e) R1 = (eps, R2)" by (cases "mod_hosts env e True act (rule_eps R1 e) R1")
  define R3 where "R3 = write_slice (lb_eps e) eps R2"
  define R4 where "R4 = (if mon then R3 \<lparr> rl_eps := activateEPHostsProbe (v8 (l4Prot (lb_tuples_of e))) eps (rl_eps R3) \<rparr> else R3)"
  have s4: "step R3 R4" unfolding R4_def by (cases mon) (auto intro: step_same)
  have s: "step R R4"
    by (rule step_trans [OF step_mod_hosts [OF m1] step_trans [OF step_mod_hosts [OF m2] step_trans [OF _ s4]]]) (simp add: R3_def)
  obtain c e'' R'' where el: "electEPSrc env e R4 = (c, e'', R'')" by (cases "electEPSrc env e R4")
  have "update_hosts env serv mon e del R = (e'', R'')"
    unfolding update_hosts_def Let_def act_def [symmetric] m1 prod.case m2 R3_def [symmetric] R4_def [symmetric] el
    using False by simp
  then show ?thesis using assms electEPSrc_step [OF el] step_trans [OF s] by simp
qed

lemma update_finish_returns:
  assumes "rules_inv ex R" "gm_get (lbMap R) key = Some e" "eps_ok (epArrs R) rs"
  shows "\<exists>ret R'. update_finish env now serv nreq key e rs del srcs R = Some (ret, R') \<and> safe ex R R'"
proof -
  define mon where "mon = (Monitor serv \<and> \<not> actChk (hChk e))"
  define R0 where "R0 = (if \<not> Monitor serv \<and> actChk (hChk e)
    then write_slice rs (map (\<lambda>ep. ep \<lparr> noService := False, inActTries := 0 \<rparr>) (slice R rs)) R else R)"
  define e1 where "e1 = e \<lparr> hChk := probe_of serv, pTO := PersistTimeout serv, ppv2En := ProxyProtocolV2 serv,
    lb_sel := sa_Sel serv, lb_eps := rs, lb_mode := sa_Mode serv, srcList := srcs \<rparr>"
  define R1 where "R1 = (if del \<noteq> [] \<or> length (slice R0 rs) \<noteq> nreq
    then (case fst (applySelectiveSessionReset (reset_hook env) (Some (lb_ruleNum e)) (rule_eps R0 e) (slice R0 rs) del) of
        None \<Rightarrow> R0 | Some w \<Rightarrow> emit [DpLBSessionReset w] R0) else R0)"
  obtain e2 R2 where h: "update_hosts env serv mon e1 del R1 = (e2, R2)" by (cases "update_hosts env serv mon e1 del R1")
  define e3 where "e3 = e2 \<lparr> lb_sT := now, iTO := InactiveTimeout serv \<rparr>"
  have s0: "step R R0" by (simp add: R0_def)
  have s1: "step R R1" using s0 step_trans [OF s0 step_emit] unfolding R1_def by (simp split: option.splits)
  have s2: "step R R2" and n2: "lb_ruleNum e2 = lb_ruleNum e" "lb_eps e2 = rs"
    using step_trans [OF s1] update_hosts_step [OF h] by (simp_all add: e1_def)
  obtain e0 where e0: "gm_get (lbMap R2) key = Some e0" "lb_ruleNum e0 = lb_ruleNum e"
    using lb_keepD(5) [OF _ assms(2)] s2 unfolding step_def by blast
  have p: "step R2 (put_lb key e3 R2)"
    by (rule step_put_lb [OF e0(1)]) (use e0(2) n2 step_eps [OF assms(3) s2] in \<open>simp_all add: e3_def\<close>)
  have i: "rules_inv ex (put_lb key e3 R2)" by (rule step_inv [OF step_inv [OF assms(1) s2] p])
  obtain R4 where r4: "program_rule env key e3 (put_lb key e3 R2) = Some R4" "step (put_lb key e3 R2) R4"
    using program_rule_returns [OF rules_invD(2) [OF i]] unfolding returns_def by blast
  have "update_finish env now serv nreq key e rs del srcs R = Some (Ok, R4)"
    unfolding update_finish_def Let_def mon_def [symmetric] R0_def [symmetric] e1_def [symmetric] R1_def [symmetric] h
      prod.case e3_def [symmetric] r4(1) by simp
  then show ?thesis using safe_step [OF assms(1) step_trans [OF step_trans [OF s2 p] r4(2)]] by blast
qed

lemma lb_update_returns:
  assumes "rules_inv ex R0" "gm_get (lbMap R0) key = Some e" "rq_eps rq \<noteq> []" "length (rq_eps rq) \<le> MaxLBEndPoints"
    "lb_key env (rq_serv rq) = Some key"
  shows "\<exists>ret R'. lb_update env now rq srcs key e R0 = Some (ret, R') \<and> rules_inv ex R' \<and>
    (lb_nums R' = lb_nums R0 \<or> ret = Ok \<and> lb_nums R' = (lb_nums R0) (key := None))"
proof -
  obtain chg rs del R where c: "consolidate env (lb_eps e) (rq_eps rq) (Oper (rq_serv rq)) R0 = (chg, rs, del, R)"
    by (cases "consolidate env (lb_eps e) (rq_eps rq) (Oper (rq_serv rq)) R0")
  note cs = consolidate_step [OF c rules_invD(5) [OF assms(1,2)]]
  have i: "rules_inv ex R" using step_inv [OF assms(1)] cs by blast
  have n: "lb_nums R = lb_nums R0" using keep_nums [of R0 R] cs by (simp add: step_def)
  have run: "\<exists>ret R'. (case update_reset env rq key e rs del R of
      None \<Rightarrow> None
    | Some (rs', del', R1) \<Rightarrow> (case update_sources env srcs e R1 of
        None \<Rightarrow> None
      | Some (None, R2) \<Rightarrow> Some (Err RuleAllocErr ''rule-allowed-src error'', R2)
      | Some (Some got, R2) \<Rightarrow>
          update_finish env now (rq_serv rq) (length (rq_eps rq)) key (case gm_get (lbMap R2) key of None \<Rightarrow> e | Some e' \<Rightarrow> e')
            rs' del' got R2)) = Some (ret, R') \<and> rules_inv ex R' \<and>
      (lb_nums R' = lb_nums R0 \<or> ret = Ok \<and> lb_nums R' = (lb_nums R0) (key := None))" if ne: "snd rs \<noteq> 0"
  proof -
    obtain rs' del' R1 where u: "update_reset env rq key e rs del R = Some (rs', del', R1)" "safe ex R R1" "eps_ok (epArrs R1) rs'"
      using update_reset_ok [OF i _ _ ne assms(3,4)] cs by blast
    obtain x R2 where v: "update_sources env srcs e R1 = Some (x, R2)" "safe ex R1 R2" using update_sources_safe [OF safeD(1) [OF u(2)]] by blast
    have s2: "safe ex R R2" by (rule safe_trans [OF u(2) v(2)])
    have "lb_keep R0 R2" using lb_keep_trans [OF _ safeD(2) [OF s2]] cs unfolding step_def by blast
    then obtain e2 where e2: "gm_get (lbMap R2) key = Some e2" using lb_keepD(5) [OF _ assms(2)] by blast
    have f: "\<exists>ret R3. update_finish env now (rq_serv rq) (length (rq_eps rq)) key e2 rs' del' got R2 = Some (ret, R3) \<and> rules_inv ex R3 \<and> lb_nums R3 = lb_nums R0" for got
      using update_finish_returns [OF safeD(1) [OF s2] e2 safe_eps [OF v(2) u(3)]] safeD keep_nums [OF safeD(2) [OF s2]] keep_nums n by metis
    show ?thesis
    proof (cases x)
      case None
      then show ?thesis using u(1) v(1) safeD(1) [OF s2] keep_nums [OF safeD(2) [OF s2]] n by simp
    next
      case (Some got)
      then show ?thesis using u(1) v(1) f [of got] e2 by auto
    qed
  qed
  obtain ret R' where del: "DeleteLbRule env (rq_serv rq) R = Some (ret, R')" "rules_inv ex R'"
      "lb_nums R' = lb_nums R0 \<or> ret = Ok \<and> lb_nums R' = (lb_nums R0) (key := None)"
    using DeleteLbRule_returns [OF i, of env "rq_serv rq"] assms(5) n by auto
  define U where "U = (case update_reset env rq key e rs del R of
      None \<Rightarrow> None
    | Some (rs', del', R1) \<Rightarrow> (case update_sources env srcs e R1 of
        None \<Rightarrow> None
      | Some (None, R2) \<Rightarrow> Some (Err RuleAllocErr ''rule-allowed-src error'', R2)
      | Some (Some got, R2) \<Rightarrow>
          update_finish env now (rq_serv rq) (length (rq_eps rq)) key (case gm_get (lbMap R2) key of None \<Rightarrow> e | Some e' \<Rightarrow> e')
            rs' del' got R2))"
  show ?thesis
    using assms(1) i run [folded U_def] del n
    unfolding lb_update_def Let_def c prod.case U_def [symmetric] by (simp split: if_split)
qed

subsection \<open>Addition\<close>

lemma create_hosts_safe:
  assumes "rules_inv ex R" "eps_ok (epArrs R) (lb_eps e)"
  shows "\<exists>e' R'. create_hosts env rq e R = Some (e', R') \<and> safe ex R R' \<and> lb_ruleNum e' = lb_ruleNum e \<and> lb_eps e' = lb_eps e"
proof (cases "Snat (rq_serv rq)")
  case True
  then show ?thesis using safe_refl [OF assms(1)] by (simp add: create_hosts_def)
next
  case False
  define serv where "serv = rq_serv rq"
  obtain R1 where f: "foldRecursiveEPs env e R = Some R1" "safe ex R R1"
    using safe_returns [OF assms(1) fold_rules_returns [OF rules_invD(2) [OF assms(1)]]] unfolding foldRecursiveEPs_def by blast
  obtain eps R2 where m: "mod_hosts env e True (probes (sa_Mode serv) (Monitor serv)) (rule_eps R1 e) R1 = (eps, R2)"
    by (cases "mod_hosts env e True (probes (sa_Mode serv) (Monitor serv)) (rule_eps R1 e) R1")
  obtain c e1 R3 where el: "electEPSrc env e (write_slice (lb_eps e) eps R2) = (c, e1, R3)"
    by (cases "electEPSrc env e (write_slice (lb_eps e) eps R2)")
  define e2 where "e2 = (if sa_Mode serv = LBModeHostOneArm then snd (mkHostAssocs env e1) else e1)"
  have s3: "safe ex R R3"
    by (rule safe_step_trans [OF f(2) step_trans [OF step_mod_hosts [OF m] step_trans [OF step_write electEPSrc_step(1) [OF el]]]])
  have e2: "lb_ruleNum e2 = lb_ruleNum e" "lb_eps e2 = lb_eps e"
    using electEPSrc_step(2,3) [OF el] mkHostAssocs_keep [OF prod.collapse [symmetric], of env e1] by (simp_all add: e2_def)
  obtain R4 where a: "addLbRuleWithFW env (ServIP serv) (ServPort serv) (ServPortMax serv) (rq_prot rq) (ucast (lb_ruleNum e)) R3 = Some R4"
    "safe ex R3 R4" using addLbRuleWithFW_safe [OF safeD(1) [OF s3]] by blast
  have "create_hosts env rq e R = (if ServPortMax serv \<noteq> 0 then Some (e2, R4) else Some (e2, R3))"
    unfolding create_hosts_def Let_def serv_def [symmetric] f(1) option.case m prod.case el e2_def [symmetric] a(1)
    using False by (simp add: serv_def)
  then show ?thesis using s3 safe_trans [OF s3 a(2)] e2 by simp
qed

lemma lb_put_inv:
  assumes "rules_inv (insert (lb_ruleNum e) ex) R" "lb_ruleNum e \<notin> ex" "gm_get (lbMap R) key = None" "eps_ok (epArrs R) (lb_eps e)"
  shows "rules_inv ex ((put_lb key e R) \<lparr> rArr := (if lb_ruleNum e < RtMaximumLbs then gm_put (lb_ruleNum e) key (rArr R) else rArr R) \<rparr>)"
proof -
  have n: "marker.numbered lb_ruleNum ex (gm_put key e (lbMap R)) (lbMarks R)"
    by (rule marker.numbered_insert [OF rules_invD(1) [OF assms(1)] assms(2)])
  have other: "lb_ruleNum d \<noteq> lb_ruleNum e" if "gm_get (lbMap R) k = Some d" for k d
    using marker.numberedD(3) [OF rules_invD(1) [OF assms(1)] that] by blast
  have old: "gm_get (rArr R) m = Some k \<longleftrightarrow> m < RtMaximumLbs \<and> (\<exists>d. gm_get (lbMap R) k = Some d \<and> lb_ruleNum d = m)" for m k
    using rules_invD(3) [OF assms(1)] unfolding by_number_def by blast
  have "gm_get (if lb_ruleNum e < RtMaximumLbs then gm_put (lb_ruleNum e) key (rArr R) else rArr R) m = Some k \<longleftrightarrow>
      m < RtMaximumLbs \<and> (\<exists>d. gm_get (gm_put key e (lbMap R)) k = Some d \<and> lb_ruleNum d = m)" for m k
    using old [of m k] other [of k] assms(3) by (cases "m = lb_ruleNum e"; cases "k = key") auto
  then show ?thesis
    using n rules_invD(4,5) [OF assms(1)] assms(4)
    by (simp add: rules_inv_def slices_ok_def by_number_def fw_inv_def nosnat_def put_lb_def)
qed

lemma lb_install_returns:
  assumes "rules_inv (insert (lb_ruleNum e) ex) R" "lb_ruleNum e \<notin> ex" "gm_get (lbMap R) key = None" "eps_ok (epArrs R) (lb_eps e)"
  shows "\<exists>R'. lb_install env rq key e R = Some (Ok, R') \<and> rules_inv ex R' \<and>
    lb_nums R' = (lb_nums R) (key \<mapsto> lb_ruleNum e)"
proof -
  obtain e1 R1 where c: "create_hosts env rq e R = Some (e1, R1)" "safe (insert (lb_ruleNum e) ex) R R1"
      "lb_ruleNum e1 = lb_ruleNum e" "lb_eps e1 = lb_eps e"
    using create_hosts_safe [OF assms(1,4)] by blast
  define R2 where "R2 = (put_lb key e1 R1) \<lparr> rArr := (if lb_ruleNum e1 < RtMaximumLbs then gm_put (lb_ruleNum e1) key (rArr R1) else rArr R1) \<rparr>"
  have i2: "rules_inv ex R2" unfolding R2_def
    by (rule lb_put_inv) (use c(3,4) safeD(1) [OF c(2)] assms(2) lb_keepD(4) [OF safeD(2) [OF c(2)] assms(3)]
      safe_eps [OF c(2) assms(4)] in simp_all)
  obtain R3 where p: "program_rule env key e1 R2 = Some R3" "step R2 R3"
    using program_rule_returns [OF rules_invD(2) [OF i2]] unfolding returns_def by blast
  have s: "step R2 (addVIPSys env e1 R3)" by (rule step_trans [OF p(2) step_addVIPSys])
  have "lb_nums (addVIPSys env e1 R3) = (lb_nums R) (key \<mapsto> lb_ruleNum e)"
    using keep_nums [of R2 "addVIPSys env e1 R3"] s keep_nums [OF safeD(2) [OF c(2)]]
    by (simp add: step_def R2_def put_lb_def c(3) fun_eq_iff lb_nums_def)
  moreover have "lb_install env rq key e R = Some (Ok, addVIPSys env e1 R3)"
    unfolding lb_install_def c(1) option.case prod.case Let_def R2_def [symmetric] p(1) by simp
  ultimately show ?thesis using step_inv [OF i2 s] by blast
qed

lemma rules_inv_marks:
  assumes "rules_inv ex R" "marker.numbered lb_ruleNum ex' (lbMap R) m"
  shows "rules_inv ex' (R \<lparr> lbMarks := m \<rparr>)"
  using assms by (simp add: rules_inv_def slices_ok_def by_number_def fw_inv_def nosnat_def)

lemma lb_create_returns:
  assumes "rules_inv ex R" "gm_get (lbMap R) key = None" "rq_eps rq \<noteq> []" "length (rq_eps rq) \<le> MaxLBEndPoints"
  shows "\<exists>ret R'. lb_create env now rq srcs key R = Some (ret, R') \<and> rules_inv ex R' \<and>
    (if ret = Ok then \<exists>i. i \<notin> ran (lb_nums R) \<and> lb_nums R' = (lb_nums R) (key \<mapsto> i) else lb_nums R' = lb_nums R)"
proof -
  consider (full) e where "GetMarker (lbMarks R) = Some (Inl e, lbMarks R)"
    | (num) i m where "GetMarker (lbMarks R) = Some (Inr i, m)" "i \<notin> ex" "marker.numbered lb_ruleNum (insert i ex) (lbMap R) m"
    using marker.numbered_get [OF rules_invD(1) [OF assms(1)]] by blast
  then show ?thesis
  proof cases
    case full
    then show ?thesis using assms(1,2) by (simp add: lb_create_def)
  next
    case num
    define R0 where "R0 = R \<lparr> lbMarks := m \<rparr>"
    have i0: "rules_inv (insert i ex) R0" unfolding R0_def by (rule rules_inv_marks [OF assms(1) num(3)])
    obtain b got R1 where a: "add_sources env (ucast i) srcs [] R0 = Some (b, got, R1)" "safe (insert i ex) R0 R1"
      using add_sources_safe [OF i0] by blast
    note i1 = safeD(1) [OF a(2)]
    have nums1: "lb_nums R1 = lb_nums R" using keep_nums [OF safeD(2) [OF a(2)]] by (simp add: R0_def lb_nums_def fun_eq_iff)
    have fresh: "i \<notin> ran (lb_nums R)"
      using marker.numberedD(3) [OF num(3)] by (fastforce simp: ran_def lb_nums_def)
    have none: "gm_get (lbMap R1) key = None" using lb_keepD(4) [OF safeD(2) [OF a(2)], of key] assms(2) by (simp add: R0_def)
    show ?thesis
    proof (cases b)
      case True
      obtain sl R2 where n: "new_slice (rq_eps rq) R1 = (sl, R2)" by (cases "new_slice (rq_eps rq) R1")
      note ns = new_slice_ok [OF n assms(3,4)]
      have k2: "lb_keep R1 R2" using step_new_slice [OF n] by (simp add: step_def)
      have "\<exists>R'. lb_install env rq key (new_lb now rq i sl got) R2 = Some (Ok, R') \<and> rules_inv ex R' \<and>
          lb_nums R' = (lb_nums R2) (key \<mapsto> lb_ruleNum (new_lb now rq i sl got))"
        by (rule lb_install_returns)
          (use step_inv [OF i1 step_new_slice [OF n]] num(2) lb_keepD(4) [OF k2 none] ns(1) in \<open>simp_all add: new_lb_def Let_def\<close>)
      then obtain R' where R': "lb_install env rq key (new_lb now rq i sl got) R2 = Some (Ok, R')" "rules_inv ex R'"
          "lb_nums R' = (lb_nums R) (key \<mapsto> i)"
        using keep_nums [OF k2] nums1 by (auto simp: new_lb_def Let_def)
      show ?thesis using num(1) a(1) True n R' fresh by (auto simp: lb_create_def simp flip: R0_def)
    next
      case False
      obtain m' where m': "ReleaseMarker i (lbMarks R1) = Some (Inr (), m')" "marker.numbered lb_ruleNum ex (lbMap R1) m'"
        using marker.numbered_put [OF rules_invD(1) [OF i1] num(2)] by blast
      have i2: "rules_inv ex (R1 \<lparr> lbMarks := m' \<rparr>)" by (rule rules_inv_marks [OF i1 m'(2)])
      obtain R3 where d: "del_sources env (DeleteLbRule env) (ucast i) got (R1 \<lparr> lbMarks := m' \<rparr>) = Some R3" "safe ex (R1 \<lparr> lbMarks := m' \<rparr>) R3"
        using del_sources_safe [OF i2] by blast
      have "lb_nums R3 = lb_nums R" using keep_nums [OF safeD(2) [OF d(2)]] nums1 by (simp add: lb_nums_def fun_eq_iff)
      then show ?thesis using num(1) a(1) False m'(1) d(1) safeD(1) [OF d(2)] by (simp add: lb_create_def flip: R0_def)
    qed
  qed
qed

lemma parse_eps_length: "parse_eps h serv ks = Inr eps \<Longrightarrow> length eps = length ks"
proof (induction ks arbitrary: eps)
  case (Cons k ks)
  then show ?case by (cases "parse_eps h serv ks") (auto split: if_splits)
qed simp

lemma parse_eps_err: "parse_eps h serv ks = Inl e \<Longrightarrow> e \<noteq> Ok"
proof (induction ks)
  case (Cons k ks)
  then show ?case by (cases "parse_eps h serv ks") (auto split: if_splits)
qed simp

lemma parse_secs_err: "parse_secs h serv ks = Inl e \<Longrightarrow> e \<noteq> Ok"
proof (induction ks)
  case (Cons k ks)
  then show ?case by (cases "parse_secs h serv ks") (auto split: if_splits)
qed simp

lemma lb_validate_err:
  assumes "lb_validate env serv secs eps = Inl e"
  shows "e \<noteq> Ok"
proof (rule notI)
  assume ok: "e = Ok"
  obtain ip net where n: "ParseCIDR (service_cidr env serv) = Some (ip, net)"
    using assms ok by (cases "ParseCIDR (service_cidr env serv)") (auto simp: lb_validate_def)
  obtain sips where p: "parse_secs (rhost env) (set_timeouts serv) secs = Inr sips"
    using assms ok parse_secs_err by (auto simp: lb_validate_def n Let_def split: if_splits sum.splits)
  show False
    using assms ok parse_eps_err by (auto simp: lb_validate_def n p Let_def split: if_splits sum.splits)
qed

lemma lb_validate_InrD:
  assumes "lb_validate env serv secs eps = Inr rq"
  shows "\<exists>ip net reps. ParseCIDR (service_cidr env serv) = Some (ip, net) \<and> service_args serv (length eps) (length secs) = Ok \<and>
    parse_eps (rhost env) (set_timeouts serv) eps = Inr reps \<and> rq_eps rq = sort_key (\<lambda>e. IPtonl env (xIP e)) reps \<and>
    rq_serv rq = set_timeouts serv \<and> rq_rt rq = rule_tuples net (the (proto_num (sa_Proto (set_timeouts serv)))) (set_timeouts serv)"
proof -
  obtain ip net where n: "ParseCIDR (service_cidr env serv) = Some (ip, net)"
    using assms by (cases "ParseCIDR (service_cidr env serv)") (auto simp: lb_validate_def)
  note v = assms [unfolded lb_validate_def n option.case prod.case Let_def]
  have sa: "service_args serv (length eps) (length secs) = Ok" using v by (simp split: if_splits)
  obtain sips where p: "parse_secs (rhost env) (set_timeouts serv) secs = Inr sips"
    using v by (cases "parse_secs (rhost env) (set_timeouts serv) secs") (simp_all split: if_splits)
  obtain reps where q: "parse_eps (rhost env) (set_timeouts serv) eps = Inr reps"
    using v unfolding p sum.case by (cases "parse_eps (rhost env) (set_timeouts serv) eps") (simp_all split: if_splits)
  have "rq_eps rq = sort_key (\<lambda>e. IPtonl env (xIP e)) reps" "rq_serv rq = set_timeouts serv"
    "rq_rt rq = rule_tuples net (the (proto_num (sa_Proto (set_timeouts serv)))) (set_timeouts serv)"
    using v unfolding p sum.case q by (auto split: if_splits)
  then show ?thesis using n sa q by simp
qed

lemma lb_validate_eps:
  assumes "lb_validate env serv secs eps = Inr rq"
  shows "rq_eps rq \<noteq> []" "length (rq_eps rq) \<le> MaxLBEndPoints"
proof -
  obtain reps where p: "parse_eps (rhost env) (set_timeouts serv) eps = Inr reps" "rq_eps rq = sort_key (\<lambda>e. IPtonl env (xIP e)) reps"
    and sa: "service_args serv (length eps) (length secs) = Ok"
    using lb_validate_InrD [OF assms] by blast
  have "length eps \<noteq> 0" "length eps \<le> MaxLBEndPoints" using sa by (auto simp: service_args_def split: if_splits)
  then have "length (rq_eps rq) \<noteq> 0 \<and> length (rq_eps rq) \<le> MaxLBEndPoints" using parse_eps_length [OF p(1)] p(2) by simp
  then show "rq_eps rq \<noteq> []" "length (rq_eps rq) \<le> MaxLBEndPoints" by auto
qed

lemma set_timeouts_fields:
  "ServIP (set_timeouts serv) = ServIP serv" "sa_Egress (set_timeouts serv) = sa_Egress serv" "sa_Proto (set_timeouts serv) = sa_Proto serv"
  "ServPort (set_timeouts serv) = ServPort serv" "ServPortMax (set_timeouts serv) = ServPortMax serv"
  "BlockNum (set_timeouts serv) = BlockNum serv" "HostUrl (set_timeouts serv) = HostUrl serv"
  by (simp_all add: set_timeouts_def Let_def)

lemma rule_tuples_timeouts: "rule_tuples net prot (set_timeouts serv) = rule_tuples net prot serv"
  unfolding rule_tuples_def set_timeouts_fields ..

lemma lb_key_timeouts: "lb_key env (set_timeouts serv) = lb_key env serv"
proof -
  have "service_cidr env (set_timeouts serv) = service_cidr env serv" unfolding service_cidr_def set_timeouts_fields ..
  then show ?thesis unfolding lb_key_def by (simp only: set_timeouts_fields rule_tuples_timeouts)
qed

lemma lb_validate_key:
  assumes "lb_validate env serv secs eps = Inr rq"
  shows "lb_key env serv = Some (ruleKey (rq_rt rq))" "rq_serv rq = set_timeouts serv"
proof -
  obtain ip net where n: "ParseCIDR (service_cidr env serv) = Some (ip, net)" "service_args serv (length eps) (length secs) = Ok"
    and rs: "rq_serv rq = set_timeouts serv"
    and rt: "rq_rt rq = rule_tuples net (the (proto_num (sa_Proto (set_timeouts serv)))) (set_timeouts serv)"
    using lb_validate_InrD [OF assms] by blast
  obtain prot where p: "proto_num (sa_Proto serv) = Some prot" using n(2) by (auto simp: service_args_def split: if_splits)
  show "lb_key env serv = Some (ruleKey (rq_rt rq))" by (simp add: lb_key_def n p rt set_timeouts_fields rule_tuples_timeouts)
  show "rq_serv rq = set_timeouts serv" by (rule rs)
qed

text \<open>What an addition does to the numbers: a new rule gets a number that is not in use, an update
keeps the numbers or removes the rule with its last end-point.\<close>

lemma AddLbRule_returns:
  assumes "rules_inv ex R"
  shows "\<exists>ret R'. AddLbRule env now serv secs srcs eps R = Some (ret, R') \<and> rules_inv ex R' \<and>
    (ret \<noteq> Ok \<and> lb_nums R' = lb_nums R \<or>
     (\<exists>k. ret = Ok \<and> lb_key env serv = Some k \<and>
        (case lb_nums R k of
           None \<Rightarrow> \<exists>i. i \<notin> ran (lb_nums R) \<and> lb_nums R' = (lb_nums R) (k \<mapsto> i)
         | Some i \<Rightarrow> lb_nums R' = lb_nums R \<or> lb_nums R' = (lb_nums R) (k := None))))"
proof (cases "lb_validate env serv secs eps")
  case (Inl e)
  have "e \<noteq> Ok" by (rule lb_validate_err [OF Inl])
  then show ?thesis using assms Inl by (simp add: AddLbRule_def)
next
  case (Inr rq)
  note v = lb_validate_eps [OF Inr] and k = lb_validate_key [OF Inr]
  show ?thesis
  proof (cases "gm_get (lbMap R) (ruleKey (rq_rt rq))")
    case None
    then show ?thesis using assms k lb_create_returns [OF assms None v, of env now srcs]
      by (auto simp: AddLbRule_def Inr Let_def lb_nums_def split: if_splits)
  next
    case (Some e)
    have "lb_key env (rq_serv rq) = Some (ruleKey (rq_rt rq))" by (simp add: k lb_key_timeouts)
    from lb_update_returns [OF assms Some v this, of now srcs] obtain ret R' where
      u: "lb_update env now rq srcs (ruleKey (rq_rt rq)) e R = Some (ret, R')" "rules_inv ex R'"
        "lb_nums R' = lb_nums R \<or> ret = Ok \<and> lb_nums R' = (lb_nums R) (ruleKey (rq_rt rq) := None)" by blast
    have "lb_nums R (ruleKey (rq_rt rq)) = Some (lb_ruleNum e)" by (simp add: lb_nums_def Some)
    then show ?thesis using u k by (cases "ret = Ok") (auto simp: AddLbRule_def Inr Let_def Some)
  qed
qed

end
