(* ===== verification/RuleHistory.thy ===== *)
theory RuleHistory
  imports RuleInv
begin

text \<open>Histories of the rule subsystem: sequences of additions, updates and deletions of
load-balancer and firewall rules and of synchronisations.  They never panic, keep the invariant of
\<open>RuleInv\<close>, and refine an abstract table that maps keys to unique rule numbers.\<close>

subsection \<open>Synchronisation\<close>

lemma sync_health_returns:
  assumes "slices_ok R"
  shows "returns R (sync_health env now key R)"
proof (cases "gm_get (lbMap R) key")
  case None
  then show ?thesis by (simp add: sync_health_def)
next
  case (Some e)
  obtain chg eps restart where h: "syncEPHostState2Rule (now - lb_sT e \<ge> DflLbaCheckTimeout) (rl_eps R)
      (v8 (l4Prot (lb_tuples_of e))) (rule_eps R e) = (chg, eps, restart)"
    by (cases "syncEPHostState2Rule (now - lb_sT e \<ge> DflLbaCheckTimeout) (rl_eps R) (v8 (l4Prot (lb_tuples_of e))) (rule_eps R e)")
  define R1 where "R1 = put_lb key (if restart then e \<lparr> lb_sT := now \<rparr> else e) (write_slice (lb_eps e) eps R)"
  have "step (write_slice (lb_eps e) eps R) R1" unfolding R1_def
    by (rule step_put_lb [of _ _ e]) (simp_all add: Some write_slice_def)
  then have s1: "step R R1" by (rule step_trans [OF step_write])
  show ?thesis
    using s1 returns_trans [OF s1 lb_dp_returns [OF step_slices [OF assms s1]]]
    by (simp add: sync_health_def Some h flip: R1_def)
qed

lemma sync_rule_returns:
  assumes "slices_ok R"
  shows "returns R (sync_rule env now key R)"
proof (cases "gm_get (lbMap R) key")
  case None
  then show ?thesis by (simp add: sync_rule_def)
next
  case (Some e0)
  obtain rChg e1 R1 where el: "electEPSrc env e0 R = (rChg, e1, R1)" by (cases "electEPSrc env e0 R")
  obtain rlChg e2 where ha: "(if lb_mode e1 = LBModeHostOneArm then mkHostAssocs env e1 else (False, e1)) = (rlChg, e2)"
    by (cases "if lb_mode e1 = LBModeHostOneArm then mkHostAssocs env e1 else (False, e1)")
  note s1 = electEPSrc_step [OF el]
  have e2: "lb_ruleNum e2 = lb_ruleNum e0" "lb_eps e2 = lb_eps e0"
    using ha s1(2,3) mkHostAssocs_keep [of env e1 rlChg e2] by (cases "lb_mode e1 = LBModeHostOneArm"; simp)+
  obtain e0' where e0': "gm_get (lbMap R1) key = Some e0'" "lb_ruleNum e0' = lb_ruleNum e0"
    using lb_keepD(5) [OF _ Some] s1(1) unfolding step_def by blast
  have ok: "eps_ok (epArrs R1) (lb_eps e0)" using step_eps [OF _ s1(1)] assms Some unfolding slices_ok_def by blast
  have "step R1 (put_lb key e2 R1)" by (rule step_put_lb [OF e0'(1)]) (simp_all add: e2 e0' ok)
  then have s2: "step R (put_lb key e2 R1)" by (rule step_trans [OF s1(1)])
  have k2: "slices_ok (put_lb key e2 R1)" by (rule step_slices [OF assms s2])
  have both: "returns (put_lb key e2 R1) (case lb_dp env DpRemove key (put_lb key e2 R1) of None \<Rightarrow> None | Some R3 \<Rightarrow> lb_dp env DpCreate key R3)"
    by (rule returns_bind [OF lb_dp_returns [OF k2] lb_dp_returns [OF step_slices [OF k2]]])
  define R3 where "R3 = (if rlChg then (case lb_dp env DpRemove key (put_lb key e2 R1) of None \<Rightarrow> None | Some R3 \<Rightarrow> lb_dp env DpCreate key R3)
    else if lb_sync e2 \<noteq> DpStatusOk \<or> rChg then lb_dp env DpCreate key (put_lb key e2 R1) else Some (put_lb key e2 R1))"
  have r3: "returns (put_lb key e2 R1) R3" using both lb_dp_returns [OF k2] by (simp add: R3_def)
  have "returns (put_lb key e2 R1) (case R3 of None \<Rightarrow> None | Some R4 \<Rightarrow> sync_health env now key R4)"
    by (rule returns_bind [OF r3 sync_health_returns [OF step_slices [OF k2]]])
  then show ?thesis
    using returns_trans [OF s2] unfolding sync_rule_def Some option.case el prod.case Let_def ha R3_def [symmetric] by blast
qed

lemma sync_rules_returns: "slices_ok R \<Longrightarrow> returns R (sync_rules env now ks R)"
proof (induction ks arbitrary: R)
  case (Cons k ks)
  have "returns R (case sync_rule env now k R of None \<Rightarrow> None | Some R1 \<Rightarrow> sync_rules env now ks R1)"
    by (rule returns_bind [OF sync_rule_returns [OF Cons.prems] Cons.IH [OF step_slices [OF Cons.prems]]])
  then show ?case by simp
qed simp

lemma sync_fw_inv:
  assumes "fw_inv R"
  shows "fw_inv (sync_fw env key R)" "lb_keep R (sync_fw env key R)"
  using assms fw_dp_inv(1,2) [OF assms] by (auto simp: sync_fw_def split: option.splits)

lemma sync_fws_inv: "fw_inv R \<Longrightarrow> fw_inv (fold (sync_fw env) ks R) \<and> lb_keep R (fold (sync_fw env) ks R)"
proof (induction ks arbitrary: R)
  case (Cons k ks)
  show ?case
    using Cons.IH [OF sync_fw_inv(1) [OF Cons.prems, of env k]] lb_keep_trans [OF sync_fw_inv(2) [OF Cons.prems, of env k]] by simp
qed simp

lemma RulesSync_safe:
  assumes "rules_inv ex R"
  shows "\<exists>R'. RulesSync env now R = Some R' \<and> safe ex R R'"
proof -
  obtain R1 where r: "sync_rules env now (map fst (lbMap R)) R = Some R1" "safe ex R R1"
    using safe_returns [OF assms sync_rules_returns [OF rules_invD(2) [OF assms]]] by blast
  define R2 where "R2 = sweep_vips env now R1"
  have "step R1 R2" unfolding R2_def by (rule step_same) (auto simp: sweep_vips_def split: prod.splits)
  then have s2: "safe ex R R2" by (rule safe_step_trans [OF r(2)])
  note f = sync_fws_inv [OF rules_invD(4) [OF safeD(1) [OF s2]], of env "map fst (fwMap R2)"]
  have "safe ex R2 (fold (sync_fw env) (map fst (fwMap R2)) R2)"
    using f rules_inv_keep [OF safeD(1) [OF s2]] by (simp add: safe_def)
  then show ?thesis using r(1) safe_trans [OF s2] by (simp add: RulesSync_def Let_def flip: R2_def)
qed

subsection \<open>Histories\<close>

datatype rule_op = OpAddLb int LbServiceArg "string list" "string list" "LbEndPointArg list" | OpDeleteLb LbServiceArg
  | OpAddFw int FwRuleArg FwOptArg | OpDeleteFw FwRuleArg | OpSync int

primrec rule_step :: "'r rules_env \<Rightarrow> rule_op \<Rightarrow> 'r rules \<Rightarrow> (go_ret \<times> 'r rules) option" where
  "rule_step env (OpAddLb now serv secs srcs eps) R = AddLbRule env now serv secs srcs eps R"
| "rule_step env (OpDeleteLb serv) R = DeleteLbRule env serv R"
| "rule_step env (OpAddFw now rule opts) R = AddFw env now rule opts R"
| "rule_step env (OpDeleteFw rule) R = DeleteFw env rule R"
| "rule_step env (OpSync now) R = map_option (Pair Ok) (RulesSync env now R)"

fun rule_run :: "'r rules_env \<Rightarrow> rule_op list \<Rightarrow> 'r rules \<Rightarrow> (go_ret list \<times> 'r rules) option" where
  "rule_run env [] R = Some ([], R)"
| "rule_run env (op # ops) R = (case rule_step env op R of
      None \<Rightarrow> None
    | Some (ret, R1) \<Rightarrow> (case rule_run env ops R1 of None \<Rightarrow> None | Some (rets, R2) \<Rightarrow> Some (ret # rets, R2)))"

definition snat_free :: "rule_op \<Rightarrow> bool" where
  "snat_free op = (case op of OpAddFw _ _ opts \<Rightarrow> \<not> DoSnat opts | _ \<Rightarrow> True)"

text \<open>The abstract table: a map from keys to numbers.  Calls carry the key of their request, if it
has one.\<close>

datatype lb_call = CallAdd "string option" | CallDelete "string option" | CallOther

definition call_of :: "'r rules_env \<Rightarrow> rule_op \<Rightarrow> lb_call" where
  "call_of env op = (case op of OpAddLb _ serv _ _ _ \<Rightarrow> CallAdd (lb_key env serv) | OpDeleteLb serv \<Rightarrow> CallDelete (lb_key env serv)
     | _ \<Rightarrow> CallOther)"

inductive lb_spec :: "(string \<Rightarrow> u64 option) \<Rightarrow> lb_call \<times> go_ret \<Rightarrow> (string \<Rightarrow> u64 option) \<Rightarrow> bool" where
  new: "m k = None \<Longrightarrow> i \<notin> ran m \<Longrightarrow> lb_spec m (CallAdd (Some k), Ok) (m (k \<mapsto> i))"
| update: "m k = Some i \<Longrightarrow> lb_spec m (CallAdd (Some k), Ok) m"
| last_ep: "m k = Some i \<Longrightarrow> lb_spec m (CallAdd (Some k), Ok) (m (k := None))"
| delete: "m k = Some i \<Longrightarrow> lb_spec m (CallDelete (Some k), Ok) (m (k := None))"
| refused: "ret \<noteq> Ok \<Longrightarrow> lb_spec m (c, ret) m"
| other: "lb_spec m (CallOther, ret) m"

inductive lb_trace :: "(string \<Rightarrow> u64 option) \<Rightarrow> (lb_call \<times> go_ret) list \<Rightarrow> (string \<Rightarrow> u64 option) \<Rightarrow> bool" where
  nil: "lb_trace m [] m"
| cons: "lb_spec m c m1 \<Longrightarrow> lb_trace m1 cs m2 \<Longrightarrow> lb_trace m (c # cs) m2"

lemma AddFw_safe:
  assumes "rules_inv ex R" "\<not> DoSnat opts"
  shows "\<exists>ret R'. AddFw env now rule opts R = Some (ret, R') \<and> safe ex R R'"
  unfolding AddFw_def by (rule safe_fw [OF assms(1) AddFwRule_ret [OF rules_invD(4) [OF assms(1)] assms(2)]])

lemma rule_step_refines:
  assumes "rules_inv {} R" "snat_free op"
  shows "\<exists>ret R'. rule_step env op R = Some (ret, R') \<and> rules_inv {} R' \<and> lb_spec (lb_nums R) (call_of env op, ret) (lb_nums R')"
proof (cases op)
  case (OpAddLb now serv secs srcs eps)
  obtain ret R' where a: "AddLbRule env now serv secs srcs eps R = Some (ret, R')" "rules_inv {} R'"
    "ret \<noteq> Ok \<and> lb_nums R' = lb_nums R \<or>
     (\<exists>k. ret = Ok \<and> lb_key env serv = Some k \<and>
        (case lb_nums R k of
           None \<Rightarrow> \<exists>i. i \<notin> ran (lb_nums R) \<and> lb_nums R' = (lb_nums R) (k \<mapsto> i)
         | Some i \<Rightarrow> lb_nums R' = lb_nums R \<or> lb_nums R' = (lb_nums R) (k := None)))"
    using AddLbRule_returns [OF assms(1)] by blast
  from a(3) have "lb_spec (lb_nums R) (CallAdd (lb_key env serv), ret) (lb_nums R')"
  proof (elim disjE exE conjE)
    assume "ret \<noteq> Ok" "lb_nums R' = lb_nums R"
    then show ?thesis by (simp add: lb_spec.refused)
  next
    fix k
    assume k: "ret = Ok" "lb_key env serv = Some k" "case lb_nums R k of
        None \<Rightarrow> \<exists>i. i \<notin> ran (lb_nums R) \<and> lb_nums R' = (lb_nums R) (k \<mapsto> i)
      | Some i \<Rightarrow> lb_nums R' = lb_nums R \<or> lb_nums R' = (lb_nums R) (k := None)"
    show ?thesis
    proof (cases "lb_nums R k")
      case None
      then show ?thesis using k(3) lb_spec.new [where m = "lb_nums R", OF None] unfolding k(1,2) None option.case by auto
    next
      case (Some i)
      then show ?thesis using k(3) lb_spec.update [where m = "lb_nums R", OF Some] lb_spec.last_ep [where m = "lb_nums R", OF Some] unfolding k(1,2) Some option.case by auto
    qed
  qed
  then show ?thesis using a(1,2) by (simp add: OpAddLb call_of_def)
next
  case (OpDeleteLb serv)
  obtain ret R' where d: "DeleteLbRule env serv R = Some (ret, R')" "rules_inv {} R'"
    "ret \<noteq> Ok \<and> R' = R \<or> (\<exists>k i. ret = Ok \<and> lb_key env serv = Some k \<and> lb_nums R k = Some i \<and> lb_nums R' = (lb_nums R) (k := None))"
    using DeleteLbRule_returns [OF assms(1)] by blast
  have "lb_spec (lb_nums R) (CallDelete (lb_key env serv), ret) (lb_nums R')"
    using d(3) by (auto intro: lb_spec.intros)
  then show ?thesis using d(1,2) by (simp add: OpDeleteLb call_of_def)
next
  case (OpAddFw now rule opts)
  then have "\<not> DoSnat opts" using assms(2) by (simp add: snat_free_def)
  then obtain ret R' where "AddFw env now rule opts R = Some (ret, R')" and s: "safe {} R R'" using AddFw_safe [OF assms(1)] by blast
  then show ?thesis using safeD(1) [OF s] by (simp add: OpAddFw call_of_def lb_spec.other keep_nums [OF safeD(2) [OF s]])
next
  case (OpDeleteFw rule)
  obtain ret R' where "DeleteFw env rule R = Some (ret, R')" and s: "safe {} R R'"
    using fw_del_safe [OF assms(1)] unfolding DeleteFw_def by blast
  then show ?thesis using safeD(1) [OF s] by (simp add: OpDeleteFw call_of_def lb_spec.other keep_nums [OF safeD(2) [OF s]])
next
  case (OpSync now)
  obtain R' where "RulesSync env now R = Some R'" and s: "safe {} R R'" using RulesSync_safe [OF assms(1)] by blast
  then show ?thesis using safeD(1) [OF s] by (simp add: OpSync call_of_def lb_spec.other keep_nums [OF safeD(2) [OF s]])
qed

lemma rule_run_refines:
  assumes "rules_inv {} R" "\<forall>op \<in> set ops. snat_free op"
  shows "\<exists>rets R'. rule_run env ops R = Some (rets, R') \<and> length rets = length ops \<and> rules_inv {} R' \<and>
    lb_trace (lb_nums R) (zip (map (call_of env) ops) rets) (lb_nums R')"
  using assms
proof (induction ops arbitrary: R)
  case Nil
  then show ?case by (simp add: lb_trace.nil)
next
  case (Cons op ops)
  obtain ret R1 where s: "rule_step env op R = Some (ret, R1)" "rules_inv {} R1" "lb_spec (lb_nums R) (call_of env op, ret) (lb_nums R1)"
    using rule_step_refines [OF Cons.prems(1)] Cons.prems(2) by (meson list.set_intros(1))
  obtain rets R2 where r: "rule_run env ops R1 = Some (rets, R2)" "length rets = length ops" "rules_inv {} R2"
    "lb_trace (lb_nums R1) (zip (map (call_of env) ops) rets) (lb_nums R2)"
    using Cons.IH [OF s(2)] Cons.prems(2) by auto
  have "lb_trace (lb_nums R) (zip (map (call_of env) (op # ops)) (ret # rets)) (lb_nums R2)"
    using lb_trace.cons [OF s(3) r(4)] by simp
  then show ?case using s(1) r(1,2,3) by (intro exI [of _ "ret # rets"] exI [of _ R2]) simp
qed

subsection \<open>Properties\<close>

lemma RulesInit_inv:
  assumes "RulesInit cnt l3 has = Some R"
  shows "rules_inv {} R" "lb_nums R = Map.empty"
proof -
  obtain fm lm where m: "NewMarker 1 RtMaximumFw4s = Some fm" "NewMarker 1 RtMaximumLbs = Some lm" and
    R: "R = \<lparr> lbMap = [], rArr = [], lbMarks = lm, fwMap = [], fwMarks = fm, lbSrcMap = [], srcCnt = cnt,
          rl_vips = no_vips l3, rl_eps = empty_eps, rl_has = has, vipST = 0, epArrs = [], rl_log = [] \<rparr>"
    using assms by (auto simp: RulesInit_def split: option.splits)
  have fm: "marker_inv fm" by (rule NewMarker_inv(1) [OF _ _ m(1)]) (simp_all add: go_consts)
  have lm: "marker_inv lm" by (rule NewMarker_inv(1) [OF _ _ m(2)]) (simp_all add: go_consts)
  show "rules_inv {} R"
    unfolding rules_inv_def fw_inv_def R
    by (simp add: slices_ok_def by_number_def nosnat_def marker.numbered_empty [OF fm] marker.numbered_empty [OF lm])
  show "lb_nums R = Map.empty" by (simp add: R lb_nums_def fun_eq_iff)
qed


definition quiet_rules :: "IPNet list rules_env" where
  "quiet_rules = \<lparr> re_vip = quiet_vips, re_probe = quiet_env, re_zone = 1, ClusterGw = [], sumDis = False, lSockPolicy = False,
     pProbe = False, GetCounter = (\<lambda>n. (Some (of_nat n), Suc n)), PutCounter = (\<lambda>_ n. n), rd_stat = (\<lambda>_. (0, 0)),
     fw_stat = (\<lambda>_. (0, 0)), slice_full = (\<lambda>_ _. True), reset_hook = (\<lambda>_. 0), IPtonl = (\<lambda>_. 0) \<rparr>"

definition web_serv :: LbServiceArg where
  "web_serv = zero_serv \<lparr> ServIP := ''20.0.0.1'', ServPort := 80, sa_Proto := ''tcp'' \<rparr>"

definition web_ep :: LbEndPointArg where
  "web_ep = \<lparr> EpIP = ''10.0.0.1'', EpPort = 8080, ea_Weight = 1, ea_State = [], Counters = [] \<rparr>"

lemma RulesInit_Some: "\<exists>R0. RulesInit cnt l3 has = Some R0"
  by (simp add: RulesInit_def NewMarker_def go_consts)





text \<open>A small state: markers for four rules each.\<close>

definition small_rules :: "IPNet list rules" where
  "small_rules = \<lparr> lbMap = [], rArr = [], lbMarks = the (NewMarker 1 4), fwMap = [], fwMarks = the (NewMarker 1 4), lbSrcMap = [],
     srcCnt = 0, rl_vips = no_vips ([], [], []), rl_eps = empty_eps, rl_has = CIInit False [] [] 0, vipST = 0, epArrs = [], rl_log = [] \<rparr>"

lemma small_inv: "rules_inv {} small_rules"
proof -
  have m: "marker_inv (the (NewMarker 1 4))" by (rule NewMarker_inv(1) [of 4 1]) (simp_all add: NewMarker_def)
  show ?thesis unfolding rules_inv_def fw_inv_def small_rules_def
    by (simp add: slices_ok_def by_number_def nosnat_def marker.numbered_empty [OF m])
qed

lemma web_valid: "\<not> isl (lb_validate quiet_rules web_serv [] [web_ep])"
  by code_simp

lemma GetMarker_small: "\<exists>m. GetMarker (the (NewMarker 1 4)) = Some (Inr 1, m)"
  by (simp add: GetMarker_def NewMarker_def)

text \<open>With a free number and no sources, an addition of a valid service succeeds.\<close>

lemma AddLbRule_ok:
  assumes "rules_inv {} R" "lb_validate env serv secs eps = Inr rq" "gm_get (lbMap R) (ruleKey (rq_rt rq)) = None"
    "Oper serv \<noteq> LBOPDetach" "GetMarker (lbMarks R) = Some (Inr i, m)"
  shows "\<exists>R1. AddLbRule env now serv secs [] eps R = Some (Ok, R1)"
proof -
  note v = lb_validate_eps [OF assms(2)]
  have num: "marker.numbered lb_ruleNum (insert i {}) (lbMap R) m"
    using marker.numbered_get [OF rules_invD(1) [OF assms(1)]] assms(5) by auto
  define R0 where "R0 = R \<lparr> lbMarks := m \<rparr>"
  have i0: "rules_inv (insert i {}) R0" unfolding R0_def by (rule rules_inv_marks [OF assms(1) num])
  obtain sl R2 where n: "new_slice (rq_eps rq) R0 = (sl, R2)" by (cases "new_slice (rq_eps rq) R0")
  have k2: "lb_keep R0 R2" using step_new_slice [OF n] by (simp add: step_def)
  have none: "gm_get (lbMap R0) (ruleKey (rq_rt rq)) = None" using assms(3) by (simp add: R0_def)
  have "\<exists>R'. lb_install env rq (ruleKey (rq_rt rq)) (new_lb now rq i sl []) R2 = Some (Ok, R') \<and> rules_inv {} R' \<and>
      lb_nums R' = (lb_nums R2) (ruleKey (rq_rt rq) \<mapsto> lb_ruleNum (new_lb now rq i sl []))"
    by (rule lb_install_returns)
      (use step_inv [OF i0 step_new_slice [OF n]] lb_keepD(4) [OF k2 none] new_slice_ok(1) [OF n v] in \<open>simp_all add: new_lb_def Let_def\<close>)
  then show ?thesis using assms n by (auto simp: AddLbRule_def Let_def lb_create_def simp flip: R0_def)
qed


end
