(* ===== verification/FwProps.thy ===== *)
theory FwProps
  imports RuleHistory
begin

text \<open>Addition and deletion of firewall rules as a pair: which rules a deletion with the arguments
of the addition finds.\<close>

subsection \<open>Keys\<close>

definition both_ranges :: "FwRuleArg \<Rightarrow> bool" where
  "both_ranges rule \<longleftrightarrow> validR (port_range (SrcPortMin rule) (SrcPortMax rule)) \<and> validR (port_range (DstPortMin rule) (DstPortMax rule))"

lemma port_range_valid: "validR (port_range lo hi) \<longleftrightarrow> (hi \<noteq> 0 \<or> lo \<noteq> 0) \<and> hi \<ge> lo"
  by (simp add: port_range_def zero_range_def)

lemma range_key_invalid [simp]: "\<not> validR r \<Longrightarrow> range_key r = []"
  by (simp add: range_key_def)

lemma range_key_valid: "validR r \<Longrightarrow> range_key r \<noteq> []"
  by (simp add: range_key_def)

lemma zero_range_invalid [simp]: "\<not> validR zero_range"
  by (simp add: zero_range_def)

definition fw_key_pre :: "FwRuleArg \<Rightarrow> IPNet \<Rightarrow> IPNet \<Rightarrow> string" where
  "fw_key_pre rule d s = InPort rule @ mac00 @ mac00 @ ''0'' @ IPNet_String d @ IPNet_String s @
     dec (unat (v8 (fw_proto (fa_Proto rule)) AND valid8 (fw_proto (fa_Proto rule))))"

definition fw_key_post :: "FwRuleArg \<Rightarrow> string" where
  "fw_key_post rule = mac00 @ mac00 @ ''<nil>'' @ ''<nil>'' @ ''0'' @ dec (unat (fa_Pref rule))"

lemma ruleKey_fw: "ruleKey (fw_tuples_of rule d s a b) = fw_key_pre rule d s @ range_key a @ range_key b @ fw_key_post rule"
  by (simp add: ruleKey_def fw_tuples_of_def zero_tuples_def fw_key_pre_def fw_key_post_def)

lemma fw_key_del:
  assumes "\<not> both_ranges rule"
  shows "ruleKey (del_tuples rule d s) = ruleKey (add_tuples rule d s)"
  using assms unfolding del_tuples_def add_tuples_def Let_def ruleKey_fw both_ranges_def by (auto simp: ruleKey_fw)

lemma fw_key_both:
  assumes "both_ranges rule"
  shows "ruleKey (del_tuples rule d s) \<noteq> ruleKey (add_tuples rule d s)"
  using assms range_key_valid unfolding del_tuples_def add_tuples_def Let_def both_ranges_def by (auto simp: ruleKey_fw)

subsection \<open>Additions that succeed\<close>

lemma fw_store_lookup:
  "gm_get (fwMap (fw_store env opts key r R)) k = (if k = key then gm_get (fwMap (fw_store env opts key r R)) key else gm_get (fwMap R) k)"
  "\<exists>r'. gm_get (fwMap (fw_store env opts key r R)) key = Some r' \<and> fw_ruleNum r' = fw_ruleNum r"
  "fwMarks (fw_store env opts key r R) = fwMarks R"
proof -
  obtain n r' evs where d: "Fw2DP env DpCreate r = (n, r', evs)" by (cases "Fw2DP env DpCreate r")
  note num = Fw2DP_keep(1) [OF d]
  show "gm_get (fwMap (fw_store env opts key r R)) k = (if k = key then gm_get (fwMap (fw_store env opts key r R)) key else gm_get (fwMap R) k)"
    "\<exists>r'. gm_get (fwMap (fw_store env opts key r R)) key = Some r' \<and> fw_ruleNum r' = fw_ruleNum r"
    "fwMarks (fw_store env opts key r R) = fwMarks R"
    by (auto simp: fw_store_def Let_def fw_dp_def d num emit_def)
qed

lemma AddFwRule_Ok:
  assumes "fw_inv R" "\<not> DoSnat opts" "AddFwRule env add_lb rule opts R = Some (Ok, R1)"
  shows "\<exists>ip d ip' s r. ParseCIDR (fa_DstIP rule) = Some (ip, d) \<and> ParseCIDR (fa_SrcIP rule) = Some (ip', s) \<and>
    gm_get (fwMap R) (ruleKey (add_tuples rule d s)) = None \<and> gm_get (fwMap R1) (ruleKey (add_tuples rule d s)) = Some r \<and>
    GetMarker (fwMarks R) = Some (Inr (fw_ruleNum r), fwMarks R1) \<and>
    (\<forall>k. k \<noteq> ruleKey (add_tuples rule d s) \<longrightarrow> gm_get (fwMap R1) k = gm_get (fwMap R) k)"
proof -
  have fx: "fix_snat6 env opts rule = rule" using assms(2) by (simp add: fix_snat6_def)
  have sa: "fw_snat_args env opts R = Inr R" using fw_action_nosnat [OF assms(2)] by (simp add: fw_snat_args_def)
  note a = assms(3) [unfolded AddFwRule_def fx Let_def]
  obtain ip d where d: "ParseCIDR (fa_DstIP rule) = Some (ip, d)" using a by (cases "ParseCIDR (fa_DstIP rule)") auto
  obtain ip' s where s: "ParseCIDR (fa_SrcIP rule) = Some (ip', s)" using a d by (cases "ParseCIDR (fa_SrcIP rule)") auto
  define key where "key = ruleKey (add_tuples rule d s)"
  have none: "gm_get (fwMap R) key = None" using a d s by (cases "gm_get (fwMap R) key") (auto simp: key_def)
  have inst: "fw_install env add_lb opts (add_tuples rule d s) R = Some (Ok, R1)"
    using a none unfolding d s option.case prod.case key_def [symmetric] sa sum.case by simp
  obtain x m where g: "GetMarker (fwMarks R) = Some (x, m)" using inst by (cases "GetMarker (fwMarks R)") (auto simp: fw_install_def)
  obtain i where i: "x = Inr i" using inst g by (cases x) (auto simp: fw_install_def)
  define r where "r = (new_fw opts (add_tuples rule d s)) \<lparr> fw_ruleNum := i \<rparr>"
  have R1: "R1 = fw_store env opts key r (R \<lparr> fwMarks := m \<rparr>)"
    using inst assms(2) g i by (simp add: fw_install_def Let_def r_def key_def)
  obtain r' where r': "gm_get (fwMap R1) key = Some r'" "fw_ruleNum r' = i" using fw_store_lookup(2) [of env opts key r "R \<lparr> fwMarks := m \<rparr>"]
    by (auto simp: R1 r_def)
  have "gm_get (fwMap R1) k = gm_get (fwMap R) k" if "k \<noteq> key" for k using fw_store_lookup(1) [of env opts key r "R \<lparr> fwMarks := m \<rparr>" k] that
    by (simp add: R1)
  moreover have "fwMarks R1 = m" using fw_store_lookup(3) [of env opts key r "R \<lparr> fwMarks := m \<rparr>"] by (simp add: R1)
  ultimately show ?thesis using d s none r' g i unfolding key_def by blast
qed

lemma DeleteFwRule_found:
  assumes "fw_inv R" "ParseCIDR (fa_DstIP rule) = Some (ip, d)" "ParseCIDR (fa_SrcIP rule) = Some (ip', s)"
    "gm_get (fwMap R) (ruleKey (del_tuples rule d s)) = Some r"
  shows "\<exists>R'. DeleteFwRule env dl rule R = Some (Ok, R') \<and> fwMap R' = gm_del (ruleKey (del_tuples rule d s)) (fwMap R) \<and>
    ReleaseMarker (fw_ruleNum r) (fwMarks R) = Some (Inr (), fwMarks R')"
proof -
  obtain n r' evs where f: "Fw2DP env DpRemove r = (n, r', evs)" by (cases "Fw2DP env DpRemove r")
  have "fw_unsnat env dl r R = Some R" using assms(1,4) by (auto simp: fw_unsnat_def fw_inv_def nosnat_def)
  moreover obtain m where "ReleaseMarker (fw_ruleNum r) (fwMarks R) = Some (Inr (), m)"
    using marker.numbered_put [of fw_ruleNum "fw_ruleNum r" "{}"] marker.numbered_delete(1) [OF _ assms(4), of fw_ruleNum "{}"] assms(1)
    unfolding fw_inv_def by blast
  ultimately show ?thesis using assms(2,3,4) by (simp add: DeleteFwRule_def Let_def f emit_def)
qed

subsection \<open>Properties\<close>


definition block_rule :: FwRuleArg where
  "block_rule = zero_fwrule \<lparr> fa_SrcIP := ''10.1.0.0/16'', fa_DstIP := ''20.0.0.0/8'', DstPortMin := 80, DstPortMax := 90 \<rparr>"

lemma fw_add_empty:
  assumes "ParseCIDR (fa_DstIP rule) = Some (ip, d)" "ParseCIDR (fa_SrcIP rule) = Some (ip', s)" "\<not> DoSnat opts"
    "fwMap R = []" "fwMarks R = the (NewMarker 1 4)"
  shows "\<exists>R1. AddFwRule env add_lb rule opts R = Some (Ok, R1)"
proof -
  obtain m where m: "GetMarker (fwMarks R) = Some (Inr 1, m)" using GetMarker_small assms(5) by auto
  have "fw_snat_args env opts R = Inr R" using fw_action_nosnat [OF assms(3)] by (simp add: fw_snat_args_def)
  then show ?thesis using assms m by (simp add: AddFwRule_def fix_snat6_def Let_def fw_install_def)
qed

lemma small_fw [simp]: "fwMap small_rules = []" "fwMarks small_rules = the (NewMarker 1 4)"
  by (simp_all add: small_rules_def)


text \<open>C37. A firewall rule with both a source and a destination port range cannot be deleted: a
deletion with the arguments of the addition looks for a key that carries the destination range only,
and leaves the rule in place.  If there is no rule with that key it reports that there is no such rule.\<close>

theorem fw_both_ranges_stuck:
  assumes "fw_inv R" "\<not> DoSnat opts" "both_ranges rule" "AddFwRule env add_lb rule opts R = Some (Ok, R1)"
  shows "\<exists>ip d ip' s r ret R2. ParseCIDR (fa_DstIP rule) = Some (ip, d) \<and> ParseCIDR (fa_SrcIP rule) = Some (ip', s) \<and>
    gm_get (fwMap R1) (ruleKey (add_tuples rule d s)) = Some r \<and> DeleteFwRule env dl rule R1 = Some (ret, R2) \<and>
    gm_get (fwMap R2) (ruleKey (add_tuples rule d s)) = Some r \<and>
    (gm_get (fwMap R) (ruleKey (del_tuples rule d s)) = None \<longrightarrow> ret = Err RuleNotExistsErr ''no-rule error'' \<and> R2 = R1)"
proof -
  obtain ip d ip' s r where a: "ParseCIDR (fa_DstIP rule) = Some (ip, d)" "ParseCIDR (fa_SrcIP rule) = Some (ip', s)"
    "gm_get (fwMap R1) (ruleKey (add_tuples rule d s)) = Some r"
    "\<forall>k. k \<noteq> ruleKey (add_tuples rule d s) \<longrightarrow> gm_get (fwMap R1) k = gm_get (fwMap R) k"
    using AddFwRule_Ok [OF assms(1,2,4)] by blast
  have i1: "fw_inv R1" using AddFwRule_ret [OF assms(1,2), of env add_lb rule] assms(4) by simp
  note ne = fw_key_both [OF assms(3), of d s]
  show ?thesis
  proof (cases "gm_get (fwMap R1) (ruleKey (del_tuples rule d s))")
    case None
    then have "DeleteFwRule env dl rule R1 = Some (Err RuleNotExistsErr ''no-rule error'', R1)" using a(1,2) by (simp add: DeleteFwRule_def)
    then show ?thesis using a(1,2,3) by blast
  next
    case (Some r')
    then obtain R2 where d: "DeleteFwRule env dl rule R1 = Some (Ok, R2)" "fwMap R2 = gm_del (ruleKey (del_tuples rule d s)) (fwMap R1)"
      using DeleteFwRule_found [OF i1 a(1,2)] by blast
    have "gm_get (fwMap R2) (ruleKey (add_tuples rule d s)) = Some r" using a(3) ne by (simp add: d(2))
    then show ?thesis using a d(1) ne Some by force
  qed
qed

theorem fw_both_ranges_stuck_witness:
  "\<exists>R1 R2. AddFwRule quiet_rules (\<lambda>_ _ R. Some (Ok, R)) (block_rule \<lparr> SrcPortMax := 1000 \<rparr>) zero_fwopt small_rules = Some (Ok, R1) \<and>
    DeleteFwRule quiet_rules (\<lambda>_ R. Some (Ok, R)) (block_rule \<lparr> SrcPortMax := 1000 \<rparr>) R1 = Some (Err RuleNotExistsErr ''no-rule error'', R2)"
proof -
  have "ParseCIDR (fa_DstIP (block_rule \<lparr> SrcPortMax := 1000 \<rparr>)) \<noteq> None" "ParseCIDR (fa_SrcIP (block_rule \<lparr> SrcPortMax := 1000 \<rparr>)) \<noteq> None"
    by code_simp+
  then obtain ip d ip' s where p: "ParseCIDR (fa_DstIP (block_rule \<lparr> SrcPortMax := 1000 \<rparr>)) = Some (ip, d)"
    "ParseCIDR (fa_SrcIP (block_rule \<lparr> SrcPortMax := 1000 \<rparr>)) = Some (ip', s)" by auto
  have ns: "\<not> DoSnat zero_fwopt" by (simp add: zero_fwopt_def)
  have b: "both_ranges (block_rule \<lparr> SrcPortMax := 1000 \<rparr>)" by (simp add: both_ranges_def port_range_valid block_rule_def zero_fwrule_def)
  obtain R1 where a: "AddFwRule quiet_rules (\<lambda>_ _ R. Some (Ok, R)) (block_rule \<lparr> SrcPortMax := 1000 \<rparr>) zero_fwopt small_rules = Some (Ok, R1)"
    using fw_add_empty [OF p ns small_fw] by blast
  have "gm_get (fwMap small_rules) k = None" for k by (simp add: small_rules_def)
  then show ?thesis
    using fw_both_ranges_stuck [OF rules_invD(4) [OF small_inv] ns b a, of "\<lambda>_ R. Some (Ok, R)"] a by auto
qed

end
