(* ===== verification/LbProps.thy ===== *)
theory LbProps
  imports FwProps
begin

text \<open>Properties of load-balancer rules beyond their numbers: allowed sources and updates that are
refused.\<close>

subsection \<open>Allowed sources\<close>

lemma fw_add_srcs:
  assumes "AddFwRule env add_lb rule opts R = Some (ret, R')" "\<not> DoSnat opts"
  shows "lbSrcMap R' = lbSrcMap R"
proof -
  have dp: "lbSrcMap (fw_dp env w k S) = lbSrcMap S" for w k S
    by (auto simp: fw_dp_def emit_def Let_def split: option.splits prod.splits)
  have st: "lbSrcMap (fw_store env opts k r S) = lbSrcMap S" for k r S by (simp add: fw_store_def Let_def dp)
  have re: "lbSrcMap (fw_remark env opts k e S) = lbSrcMap S" for k e S by (simp add: fw_remark_def Let_def dp)
  have sa: "fw_snat_args env opts R = Inr R" using fw_action_nosnat [OF assms(2)] by (simp add: fw_snat_args_def)
  show ?thesis
    using assms sa by (auto simp: AddFwRule_def Let_def fw_install_def st re split: option.splits prod.splits sum.splits)
qed

text \<open>C38. The prefix of an allowed source is stored under the text of the request but released under
its normal form: a source that is not given in normal form, such as \<open>10.1.2.3/8\<close>, is never
released, and its entry stays with its firewall rule when the load-balancer rule goes away.\<close>

theorem allowed_src_leak:
  assumes "fw_inv R" "ParseCIDR CIDR = Some (ip, pref)" "IPNet_String pref \<noteq> CIDR" "gm_get (lbSrcMap R) CIDR = None"
    "gm_get (lbSrcMap R) (IPNet_String pref) = None" "addAllowedLbSrc env CIDR mark R = Some (Some p, R1)"
  shows "p = pref \<and> del_sources env dl mark [p] R1 = Some R1 \<and> gm_get (lbSrcMap R1) CIDR \<noteq> None"
proof -
  define c where "c = snd (GetCounter env (srcCnt R))"
  obtain m where g: "GetCounter env (srcCnt R) = (Some m, c)" and le: "\<not> mark > MaxSrcLBMarkerNum"
    using assms(2,4,6) by (auto simp: addAllowedLbSrc_def c_def split: prod.splits option.splits if_splits)
  define el where "el = \<lparr> src_ref = 1, srcPref = pref, src_mark = m, lbmark = mark_bit mark \<rparr>"
  have inst: "src_install env CIDR False pref el (R \<lparr> srcCnt := c \<rparr>) = Some (Some p, R1)"
    using assms(2,4,6) g le by (simp add: addAllowedLbSrc_def el_def)
  obtain ret R2 where f: "fw_add env (src_rule env pref) (allow_opts (lbmark el OR SrcChkFwMark)) (R \<lparr> srcCnt := c \<rparr>) = Some (ret, R2)"
    using inst by (auto simp: src_install_def split: option.splits)
  have srcs: "lbSrcMap R2 = lbSrcMap R" using fw_add_srcs [OF f [unfolded fw_add_def] allow_opts_nosnat] by simp
  have R1: "p = pref" "R1 = R2 \<lparr> lbSrcMap := gm_put CIDR el (lbSrcMap R2) \<rparr>"
    using inst f by (auto simp: src_install_def el_def split: if_splits)
  have none: "gm_get (lbSrcMap R1) (IPNet_String pref) = None" using assms(3,5) by (simp add: R1 srcs)
  show ?thesis using none by (simp add: R1(1) deleteAllowedLbSrc_def) (simp add: R1)
qed

lemma cidr_unnormal: "ParseCIDR ''10.1.2.3/8'' = Some (IPv4 10 1 2 3, \<lparr> net_IP = [10, 0, 0, 0], net_Mask = [255, 0, 0, 0] \<rparr>)"
  by code_simp

lemma cidr_unnormal_string: "IPNet_String \<lparr> net_IP = [10, 0, 0, 0], net_Mask = [255, 0, 0, 0] \<rparr> = ''10.0.0.0/8''"
  by code_simp

theorem allowed_src_leak_witness:
  "\<exists>R1. addAllowedLbSrc quiet_rules ''10.1.2.3/8'' 1 small_rules = Some (Some \<lparr> net_IP = [10, 0, 0, 0], net_Mask = [255, 0, 0, 0] \<rparr>, R1) \<and>
    del_sources quiet_rules (\<lambda>_ R. Some (Ok, R)) 1 [\<lparr> net_IP = [10, 0, 0, 0], net_Mask = [255, 0, 0, 0] \<rparr>] R1 = Some R1 \<and>
    gm_get (lbSrcMap R1) ''10.1.2.3/8'' \<noteq> None"
proof -
  define pref :: IPNet where "pref = \<lparr> net_IP = [10, 0, 0, 0], net_Mask = [255, 0, 0, 0] \<rparr>"
  have p: "ParseCIDR ''10.1.2.3/8'' = Some (IPv4 10 1 2 3, pref)" "IPNet_String pref = ''10.0.0.0/8''"
    using cidr_unnormal cidr_unnormal_string by (simp_all add: pref_def)
  have g: "gm_get (lbSrcMap small_rules) k = None" for k by (simp add: small_rules_def)
  define el where "el = \<lparr> src_ref = 1, srcPref = pref, src_mark = 0, lbmark = mark_bit 1 \<rparr>"
  have "ParseCIDR ''0.0.0.0/0'' \<noteq> None" "ParseCIDR ''10.0.0.0/8'' \<noteq> None" by code_simp+
  then obtain i1 n1 i2 n2 where z: "ParseCIDR ''0.0.0.0/0'' = Some (i1, n1)" "ParseCIDR ''10.0.0.0/8'' = Some (i2, n2)" by auto
  have v6: "\<not> IsNetIPv6 (rhost quiet_rules) x" for x by (simp add: quiet_rules_def quiet_vips_def quiet_l3_def quiet_host_def)
  have r: "fa_DstIP (src_rule quiet_rules pref) = ''0.0.0.0/0''" "fa_SrcIP (src_rule quiet_rules pref) = ''10.0.0.0/8''"
    by (simp_all add: src_rule_def p v6)
  have "\<exists>R2. fw_add quiet_rules (src_rule quiet_rules pref) (allow_opts (lbmark el OR SrcChkFwMark)) (small_rules \<lparr> srcCnt := 1 \<rparr>) = Some (Ok, R2)"
    unfolding fw_add_def by (rule fw_add_empty [of _ i1 n1 i2 n2]) (simp_all add: r z)
  then obtain R2 where f: "fw_add quiet_rules (src_rule quiet_rules pref) (allow_opts (lbmark el OR SrcChkFwMark)) (small_rules \<lparr> srcCnt := 1 \<rparr>) = Some (Ok, R2)"
    by blast
  have cnt: "GetCounter quiet_rules (srcCnt small_rules) = (Some 0, 1)" by (simp add: quiet_rules_def small_rules_def)
  have a: "\<exists>R1. addAllowedLbSrc quiet_rules ''10.1.2.3/8'' 1 small_rules = Some (Some pref, R1)"
    using f p g cnt by (simp add: addAllowedLbSrc_def go_consts src_install_def real_error_def flip: el_def) (simp add: el_def real_error_def)
  then obtain R1 where a1: "addAllowedLbSrc quiet_rules ''10.1.2.3/8'' 1 small_rules = Some (Some pref, R1)" by blast
  have ne: "IPNet_String pref \<noteq> ''10.1.2.3/8''" by (simp add: p(2))
  show ?thesis
    using allowed_src_leak [OF rules_invD(4) [OF small_inv] p(1) ne g g a1, of "\<lambda>_ R. Some (Ok, R)"] a1 unfolding pref_def by blast
qed

subsection \<open>Refused updates\<close>


definition https_req :: lb_req where
  "https_req = \<lparr> rq_serv = web_serv \<lparr> Security := LBServHTTPS \<rparr>, rq_prot = 6, rq_priv = [], rq_sec = [],
     rq_eps = [new_ep (IPv4 10 0 0 1) 8080 1], rq_rt = rule_tuples (host_net [20, 0, 0, 1]) 6 web_serv \<rparr>"

definition plain_lb :: lbEnt where
  "plain_lb = new_lb 0 (https_req \<lparr> rq_serv := web_serv \<rparr>) 1 (0, 2) []"

definition two_eps :: "IPNet list rules" where
  "two_eps = small_rules \<lparr> lbMap := [(ruleKey (rq_rt https_req), plain_lb)],
     epArrs := [[new_ep (IPv4 10 0 0 1) 8080 1, new_ep (IPv4 10 0 0 2) 8080 1]] \<rparr>"

lemma two_eps_eps: "rule_eps two_eps plain_lb = [new_ep (IPv4 10 0 0 1) 8080 1, new_ep (IPv4 10 0 0 2) 8080 1]"
  by (simp add: two_eps_def plain_lb_def new_lb_def Let_def rule_eps_def slice_def)

lemma two_eps_merge: "getLBConsolidatedEPs [new_ep (IPv4 10 0 0 1) 8080 1, new_ep (IPv4 10 0 0 2) 8080 1] [new_ep (IPv4 10 0 0 1) 8080 1] LBOPAdd =
    (True, [new_ep (IPv4 10 0 0 1) 8080 1, (new_ep (IPv4 10 0 0 2) 8080 1) \<lparr> inActiveEP := True \<rparr>], [new_ep (IPv4 10 0 0 2) 8080 1])"
  by code_simp


end
