(* ===== verification/NetState.thy ===== *)
theory NetState
  imports Layer3 "HOL-Library.Monad_Syntax"
begin

text \<open>The objects of the security zones (\<open>zones.go\<close>, \<open>port.go\<close>,
\<open>vlan.go\<close>, \<open>layer2.go\<close>, \<open>neighbor.go\<close>, \<open>route.go\<close>,
\<open>session.go\<close>, \<open>qospol.go\<close>, \<open>mirror.go\<close>) and the state they live in.
Ports, neighbours, forwarding entries, routes and tunnel end-points point at each other, so each kind
has a store, a list to which \<open>new\<close> appends, and a pointer is a position in it.  The arrays
indexed by VLAN or port number are maps that hold the entries that are not zero.  Counters and prefix
tries come from a library; their states are the type parameters and their operations the environment.
What is sent to the data path is appended to \<open>toDp\<close> in order; \<open>now\<close> is what
\<open>time.Now\<close> returns.\<close>

subsection \<open>Ports and VLANs\<close>

record PortHwInfo =
  hw_MacAddr :: "u8 list"
  hw_Link :: bool
  hw_State :: bool
  hw_Mtu :: int
  hw_Master :: string
  hw_Real :: string
  hw_TunID :: u32
  hw_TunSrc :: IP
  hw_TunDst :: IP

record PortLayer2Info =
  IsPvid :: bool
  Vid :: int

record PortSwInfo =
  OsID :: int
  PortType :: int
  PortProp :: u8
  PortPolNum :: int
  PortMirNum :: int
  PortActive :: bool
  PortReal_p :: "nat option"
  PortOvl :: "nat option"
  SessMark :: u64
  BpfLoaded :: bool

record PortStatsInfo =
  RxBytes :: u64
  TxBytes :: u64
  RxPackets :: u64
  TxPackets :: u64
  RxError :: u64
  TxError :: u64

record Port =
  p_Name :: string
  PortNo :: int
  p_Zone :: string
  SInfo :: PortSwInfo
  HInfo :: PortHwInfo
  p_Stats :: PortStatsInfo
  p_L2 :: PortLayer2Info
  p_Sync :: DpStatusT

record 'c PortsH =
  portImap :: "(int, nat) gomap"
  portSmap :: "(string, nat) gomap"
  portOmap :: "(int, nat) gomap"
  portMark :: 'c
  bondMark :: 'c
  wGMark :: 'c
  vtiMark :: 'c

record vlanStat =
  inBytes :: u64
  inPackets :: u64
  outBytes :: u64
  outPackets :: u64

record Vlan =
  VlanID :: int
  Created :: bool
  v_Name :: string
  v_Zone :: string
  NumTagPorts :: int
  TaggedPorts :: "(int, nat) gomap"
  NumUnTagPorts :: int
  UnTaggedPorts :: "(int, nat) gomap"
  v_Stat :: vlanStat

definition zero_vlan :: Vlan where
  "zero_vlan = \<lparr> VlanID = 0, Created = False, v_Name = [], v_Zone = [], NumTagPorts = 0, TaggedPorts = [],
     NumUnTagPorts = 0, UnTaggedPorts = [], v_Stat = \<lparr> inBytes = 0, inPackets = 0, outBytes = 0, outPackets = 0 \<rparr> \<rparr>"

type_synonym VlansH = "(int, Vlan) gomap"

definition VlanMap :: "VlansH \<Rightarrow> int \<Rightarrow> Vlan" where
  "VlanMap V i = (case gm_get V i of None \<Rightarrow> zero_vlan | Some v \<Rightarrow> v)"

abbreviation PortReal :: int where "PortReal \<equiv> 1"
abbreviation PortBondSif :: int where "PortBondSif \<equiv> 2"
abbreviation PortBond :: int where "PortBond \<equiv> 4"
abbreviation PortVlanSif :: int where "PortVlanSif \<equiv> 8"
abbreviation PortVlanBr :: int where "PortVlanBr \<equiv> 16"
abbreviation PortVxlanSif :: int where "PortVxlanSif \<equiv> 32"
abbreviation PortVxlanBr :: int where "PortVxlanBr \<equiv> 64"
abbreviation PortWg :: int where "PortWg \<equiv> 128"
abbreviation PortVti :: int where "PortVti \<equiv> 256"
abbreviation PortIPTun :: int where "PortIPTun \<equiv> 512"

abbreviation PortPropUpp :: u8 where "PortPropUpp \<equiv> 1"
abbreviation PortPropSpan :: u8 where "PortPropSpan \<equiv> 2"
abbreviation PortPropPol :: u8 where "PortPropPol \<equiv> 4"

abbreviation MaxInterfaces :: int where "MaxInterfaces \<equiv> 512"
abbreviation MaximumVlans :: int where "MaximumVlans \<equiv> 4094"

subsection \<open>Forwarding entries, neighbours and routes\<close>

type_synonym FdbKey = "u8 list \<times> int"

record FdbAttr =
  Oif :: string
  f_Dst :: IP
  FdbType :: int

record FdbTunAttr =
  t_rt :: "nat option"
  t_nh :: "nat option"
  t_ep :: "nat option"

text \<open>The port of an entry is set when it is made and never nil.\<close>

record FdbEnt =
  f_Key :: FdbKey
  f_Attr :: FdbAttr
  FdbTun_p :: FdbTunAttr
  f_Port :: nat
  stime :: int
  unReach :: bool
  f_inActive :: bool
  hCnt :: int
  f_Sync :: DpStatusT

abbreviation FdbPhy :: int where "FdbPhy \<equiv> 0"
abbreviation FdbTun :: int where "FdbTun \<equiv> 1"

type_synonym NeighKey = "string \<times> string \<times> int"
type_synonym RtKey = "string \<times> string"

record NeighAttr =
  OSLinkIndex :: int
  OSState :: int
  HardwareAddr :: "u8 list"

record NeighTunEp =
  te_sIP :: IP
  te_rIP :: IP
  te_tunID :: u32
  te_tunType :: DpTunT
  te_Mark :: u64
  te_Parent :: nat
  te_Inactive :: bool
  te_Sync :: DpStatusT

record Neigh =
  n_Key :: NeighKey
  n_Addr :: IP
  n_Attr :: NeighAttr
  Dummy :: bool
  Inactive :: bool
  Resolved :: bool
  n_Mark :: u64
  RMark :: u64
  RecNh :: "nat option"
  tFdb :: "nat option"
  TunEps :: "nat list"
  NhType :: u8
  n_Sync :: DpStatusT
  OifPort :: "nat option"
  Ats :: int
  NhRtm :: "(RtKey, nat) gomap"

abbreviation NhNormal :: u8 where "NhNormal \<equiv> 1"
abbreviation NhTun :: u8 where "NhTun \<equiv> 2"
abbreviation NhRecursive :: u8 where "NhRecursive \<equiv> 4"

definition zero_neigh :: Neigh where
  "zero_neigh = \<lparr> n_Key = ([], [], 0), n_Addr = [], n_Attr = \<lparr> OSLinkIndex = 0, OSState = 0, HardwareAddr = [] \<rparr>,
     Dummy = False, Inactive = False, Resolved = False, n_Mark = 0, RMark = 0, RecNh = None, tFdb = None, TunEps = [],
     NhType = 0, n_Sync = DpStatusOk, OifPort = None, Ats = 0, NhRtm = [] \<rparr>"

record 'c NeighH =
  NeighMap :: "(NeighKey, nat) gomap"
  NeighID :: 'c
  NeighTID :: 'c

record RtAttr =
  Protocol :: int
  OSFlags :: int
  HostRoute :: bool
  Ifi :: int
  IfRoute :: bool

record RtNhAttr =
  NhAddr :: IP
  LinkIndex :: int

datatype RtDepObj = DepFdb nat | DepNeigh nat

record Rt =
  r_Key :: RtKey
  r_Attr :: RtAttr
  TFlags :: int
  r_Sync :: DpStatusT
  r_ZoneNum :: int
  r_Mark :: u64
  NhAttr :: "RtNhAttr list"
  NextHops :: "nat list"
  RtDepObjs :: "RtDepObj list"

abbreviation RtTypeInd :: int where "RtTypeInd \<equiv> 1"
abbreviation RtTypeDyn :: int where "RtTypeDyn \<equiv> 2"
abbreviation RtTypeSelf :: int where "RtTypeSelf \<equiv> 4"
abbreviation RtTypeHost :: int where "RtTypeHost \<equiv> 8"
abbreviation RtTypeIntf :: int where "RtTypeIntf \<equiv> 16"

text \<open>What a trie stores for a prefix: the first next hop of a route, or a pointer to the interface
index of a route without next hops.\<close>

datatype trie_data = TrieNeigh nat | TrieIfi nat

record ('c, 't) RtH =
  RtMap :: "(RtKey, nat) gomap"
  Trie4 :: 't
  Trie6 :: 't
  RtMark_c :: 'c

subsection \<open>Sessions, policers and mirrors\<close>

record SessTun =
  TeID :: u32
  st_Addr :: IP

record UlClInf =
  uc_Addr :: IP
  Qfi :: u8
  NumUl :: u64
  NumDl :: u64

record UserSess =
  us_Key :: string
  us_Addr :: IP
  us_Zone :: int
  AnTun :: SessTun
  CnTun :: SessTun
  UlCl :: "(string, UlClInf) gomap"

record 'c SessH =
  UserMap :: "(string, UserSess) gomap"
  sess_Mark :: 'c

record PolInfo =
  PolType :: int
  ColorAware :: bool
  CommittedInfoRate :: u64
  PeakInfoRate :: u64
  CommittedBlkSize :: u64
  ExcessBlkSize :: u64

text \<open>An attachment of a policer or a mirror: the name of the object and the kind of attachment.\<close>

record attach =
  ObjName :: string
  AttachMent :: nat

abbreviation AttachPort :: nat where "AttachPort \<equiv> 1"
abbreviation AttachRule :: nat where "AttachRule \<equiv> 2"

record attached =
  o_Args :: attach
  o_Sync :: DpStatusT

record PolEntry =
  pl_Key :: string
  pl_Info :: PolInfo
  pl_HwNum :: u64
  pl_Sync :: DpStatusT
  PObjs :: "attached list"

record 'c PolH =
  PolMap :: "(string, PolEntry) gomap"
  pol_Mark :: 'c

record MirrInfo =
  MirrType :: int
  MirrPort :: string
  MirrVlan :: int
  MirrRip :: IP
  MirrSip :: IP
  MirrTid :: u32

record MirrEntry =
  mi_Key :: string
  mi_Info :: MirrInfo
  mi_HwNum :: u64
  mi_Sync :: DpStatusT
  MObjs :: "attached list"

record 'c MirrH =
  MirrMap :: "(string, MirrEntry) gomap"
  mirr_Mark :: 'c

subsection \<open>Zones and the whole state\<close>

record ('c, 't) Zone =
  z_Name :: string
  ZoneNum :: int
  Ports :: "'c PortsH"
  Vlans :: VlansH
  L2 :: "(FdbKey, nat) gomap"
  Nh :: "'c NeighH"
  z_Rt :: "('c, 't) RtH"
  L3 :: L3H
  Sess :: "'c SessH"
  Pols :: "'c PolH"
  Mirrs :: "'c MirrH"

record ('c, 't) world =
  zones :: "('c, 't) Zone list"
  ZoneMap :: "(string, nat) gomap"
  ZoneBrs :: "(string, nat) gomap"
  ZonePorts :: "(string, nat) gomap"
  ZoneMark :: 'c
  ports :: "Port list"
  neighs :: "Neigh list"
  fdbs :: "FdbEnt list"
  rts :: "Rt list"
  teps :: "NeighTunEp list"
  toDp :: "DpWork list"
  pings :: "(IP \<times> IP \<times> string) list"
  now :: int

text \<open>\<open>nGetCounter\<close> gives a number and whether the allocation succeeded; \<open>counter_err\<close>
is the text of its error.
\<open>FindTrie\<close> gives the longest prefix that covers an address with its data.
\<open>IsIPRuleVIP\<close> is the question to the rules whether an address is one of their VIPs.\<close>

record ('c, 't) net_env =
  NewCounter :: "u64 \<Rightarrow> u64 \<Rightarrow> 'c"
  nGetCounter :: "'c \<Rightarrow> (u64 \<times> bool) \<times> 'c"
  counter_err :: string
  nPutCounter :: "u64 \<Rightarrow> 'c \<Rightarrow> 'c"
  TrieInit :: "bool \<Rightarrow> 't"
  AddTrie :: "string \<Rightarrow> trie_data \<Rightarrow> 't \<Rightarrow> int \<times> 't"
  DelTrie :: "string \<Rightarrow> 't \<Rightarrow> int \<times> 't"
  FindTrie :: "string \<Rightarrow> 't \<Rightarrow> (IPNet \<times> trie_data) option"
  n_host :: host_env
  FallBack :: bool
  BlackListed :: "string \<Rightarrow> bool"
  nIsIPRuleVIP :: "IP \<Rightarrow> bool"
  NetGetIfiStats :: "string \<Rightarrow> PortStatsInfo option"

abbreviation zone :: "('c, 't) world \<Rightarrow> nat \<Rightarrow> ('c, 't) Zone" where "zone w z \<equiv> zones w ! z"
abbreviation port :: "('c, 't) world \<Rightarrow> nat \<Rightarrow> Port" where "port w q \<equiv> ports w ! q"
abbreviation neigh :: "('c, 't) world \<Rightarrow> nat \<Rightarrow> Neigh" where "neigh w n \<equiv> neighs w ! n"
abbreviation fdb :: "('c, 't) world \<Rightarrow> nat \<Rightarrow> FdbEnt" where "fdb w f \<equiv> fdbs w ! f"
abbreviation rt :: "('c, 't) world \<Rightarrow> nat \<Rightarrow> Rt" where "rt w r \<equiv> rts w ! r"
abbreviation tep :: "('c, 't) world \<Rightarrow> nat \<Rightarrow> NeighTunEp" where "tep w t \<equiv> teps w ! t"

definition set_zone :: "nat \<Rightarrow> (('c, 't) Zone \<Rightarrow> ('c, 't) Zone) \<Rightarrow> ('c, 't) world \<Rightarrow> ('c, 't) world" where
  "set_zone z f w = w \<lparr> zones := (zones w) [z := f (zone w z)] \<rparr>"

definition set_port :: "nat \<Rightarrow> (Port \<Rightarrow> Port) \<Rightarrow> ('c, 't) world \<Rightarrow> ('c, 't) world" where
  "set_port q f w = w \<lparr> ports := (ports w) [q := f (port w q)] \<rparr>"

definition set_neigh :: "nat \<Rightarrow> (Neigh \<Rightarrow> Neigh) \<Rightarrow> ('c, 't) world \<Rightarrow> ('c, 't) world" where
  "set_neigh n f w = w \<lparr> neighs := (neighs w) [n := f (neigh w n)] \<rparr>"

definition set_fdb :: "nat \<Rightarrow> (FdbEnt \<Rightarrow> FdbEnt) \<Rightarrow> ('c, 't) world \<Rightarrow> ('c, 't) world" where
  "set_fdb n f w = w \<lparr> fdbs := (fdbs w) [n := f (fdb w n)] \<rparr>"

definition set_rt :: "nat \<Rightarrow> (Rt \<Rightarrow> Rt) \<Rightarrow> ('c, 't) world \<Rightarrow> ('c, 't) world" where
  "set_rt n f w = w \<lparr> rts := (rts w) [n := f (rt w n)] \<rparr>"

definition to_dp :: "DpWork list \<Rightarrow> ('c, 't) world \<Rightarrow> ('c, 't) world" where
  "to_dp ms w = w \<lparr> toDp := toDp w @ ms \<rparr>"

text \<open>Array accesses with a variable index panic outside the bounds.\<close>

definition in_bounds :: "int \<Rightarrow> bool" where
  "in_bounds i \<longleftrightarrow> 0 \<le> i \<and> i < MaxInterfaces"

abbreviation go_int :: "u64 \<Rightarrow> int" where "go_int \<equiv> sint"

definition has :: "int \<Rightarrow> int \<Rightarrow> bool" where
  "has flags t \<longleftrightarrow> flags AND t = t"

end
