(* ===== verification/PortOps.thy ===== *)
theory PortOps
  imports NetState
begin

text \<open>Zone lookups (\<open>zones.go\<close>) and the operations on existing ports
(\<open>port.go\<close>): lookups, what a port sends to the data path, its properties, the listing and
the ticker.\<close>

subsection \<open>Zones by name\<close>

abbreviation ZoneExistsErr :: int where "ZoneExistsErr \<equiv> -5999"
abbreviation ZoneNotExistErr :: int where "ZoneNotExistErr \<equiv> -5998"
abbreviation ZoneNumberErr :: int where "ZoneNumberErr \<equiv> -5997"

definition Zonefind :: "string \<Rightarrow> ('c, 't) world \<Rightarrow> nat option \<times> int" where
  "Zonefind name w = (case gm_get (ZoneMap w) name of None \<Rightarrow> (None, -1) | Some z \<Rightarrow> (Some z, ZoneNum (zone w z)))"

definition ZoneBrAdd :: "string \<Rightarrow> string \<Rightarrow> ('c, 't) world \<Rightarrow> go_ret \<times> ('c, 't) world" where
  "ZoneBrAdd name zns w = (case gm_get (ZoneBrs w) name of
      Some z \<Rightarrow> if z_Name (zone w z) = zns then (Ok, w) else (Err ZoneExistsErr ''zone exists'', w)
    | None \<Rightarrow> (case fst (Zonefind zns w) of
        None \<Rightarrow> (Err ZoneNotExistErr ''zone is not set'', w)
      | Some z \<Rightarrow> (Ok, w \<lparr> ZoneBrs := gm_put name z (ZoneBrs w) \<rparr>)))"

definition ZoneBrDelete :: "string \<Rightarrow> ('c, 't) world \<Rightarrow> go_ret \<times> ('c, 't) world" where
  "ZoneBrDelete name w = (case gm_get (ZoneBrs w) name of
      None \<Rightarrow> (Err ZoneNotExistErr ''zone is not set'', w)
    | Some _ \<Rightarrow> (Ok, w \<lparr> ZoneBrs := gm_del name (ZoneBrs w) \<rparr>))"

definition ZonePortIsValid :: "string \<Rightarrow> string \<Rightarrow> ('c, 't) world \<Rightarrow> go_ret" where
  "ZonePortIsValid name zns w = (case gm_get (ZonePorts w) name of
      None \<Rightarrow> Ok
    | Some z \<Rightarrow> if z_Name (zone w z) = zns then Ok else Err ZoneExistsErr ''zone exists'')"

definition GetPortZone :: "string \<Rightarrow> ('c, 't) world \<Rightarrow> nat option" where
  "GetPortZone p w = gm_get (ZonePorts w) p"

definition ZonePortAdd :: "string \<Rightarrow> string \<Rightarrow> ('c, 't) world \<Rightarrow> go_ret \<times> ('c, 't) world" where
  "ZonePortAdd name zns w = (case gm_get (ZonePorts w) name of
      Some z \<Rightarrow> if z_Name (zone w z) = zns then (Ok, w) else (Err ZoneExistsErr ''zone exists'', w)
    | None \<Rightarrow> (case fst (Zonefind zns w) of
        None \<Rightarrow> (Err ZoneNotExistErr ''zone is not set'', w)
      | Some z \<Rightarrow> (Ok, w \<lparr> ZonePorts := gm_put name z (ZonePorts w) \<rparr>)))"

definition ZonePortDelete :: "string \<Rightarrow> ('c, 't) world \<Rightarrow> go_ret \<times> ('c, 't) world" where
  "ZonePortDelete name w = (case gm_get (ZonePorts w) name of
      None \<Rightarrow> (Err ZoneNotExistErr ''zone is not set'', w)
    | Some _ \<Rightarrow> (Ok, w \<lparr> ZonePorts := gm_del name (ZonePorts w) \<rparr>))"

subsection \<open>Lookups\<close>

abbreviation PortZoneErr :: int where "PortZoneErr \<equiv> -994"
abbreviation PortNotExistErr :: int where "PortNotExistErr \<equiv> -998"
abbreviation PortPropExistsErr :: int where "PortPropExistsErr \<equiv> -992"
abbreviation PortPropNotExistsErr :: int where "PortPropNotExistsErr \<equiv> -991"

definition IsLeafPort :: "Port \<Rightarrow> bool" where
  "IsLeafPort p \<longleftrightarrow> PortType (SInfo p) AND (PortReal OR PortBond OR PortVti OR PortWg) \<noteq> 0"

definition IsSlavePort :: "Port \<Rightarrow> bool" where
  "IsSlavePort p \<longleftrightarrow> PortType (SInfo p) AND (PortVlanSif OR PortBondSif) \<noteq> 0"

definition IsL3TunPort :: "Port \<Rightarrow> bool" where
  "IsL3TunPort p \<longleftrightarrow> PortType (SInfo p) AND (PortVti OR PortWg OR PortIPTun) \<noteq> 0"

definition IsIPinIPTunPort :: "Port \<Rightarrow> bool" where
  "IsIPinIPTunPort p \<longleftrightarrow> PortType (SInfo p) AND PortIPTun \<noteq> 0"

abbreviation smap :: "nat \<Rightarrow> ('c, 't) world \<Rightarrow> (string, nat) gomap" where
  "smap z w \<equiv> portSmap (Ports (zone w z))"

definition PortFindByName :: "nat \<Rightarrow> string \<Rightarrow> ('c, 't) world \<Rightarrow> nat option" where
  "PortFindByName z name w = gm_get (smap z w) name"

definition PortFindByOSID :: "nat \<Rightarrow> int \<Rightarrow> ('c, 't) world \<Rightarrow> nat option" where
  "PortFindByOSID z osID w = gm_get (portOmap (Ports (zone w z))) osID"

definition PortL2AddrMatch :: "nat \<Rightarrow> string \<Rightarrow> nat \<Rightarrow> ('c, 't) world \<Rightarrow> bool" where
  "PortL2AddrMatch z name mp w = (case PortFindByName z name w of
      None \<Rightarrow> False
    | Some p \<Rightarrow> hw_MacAddr (HInfo (port w p)) = hw_MacAddr (HInfo (port w mp)))"

definition PortGetSlaves :: "nat \<Rightarrow> string \<Rightarrow> ('c, 't) world \<Rightarrow> nat list" where
  "PortGetSlaves z master w = filter (\<lambda>q. hw_Master (HInfo (port w q)) = master) (map snd (smap z w))"

definition PortHasTunSlaves :: "nat \<Rightarrow> string \<Rightarrow> int \<Rightarrow> ('c, 't) world \<Rightarrow> bool" where
  "PortHasTunSlaves z master ptype w \<longleftrightarrow>
    list_ex (\<lambda>q. hw_Master (HInfo (port w q)) = master \<and> has (PortType (SInfo (port w q))) ptype) (map snd (smap z w))"

subsection \<open>Data path\<close>

definition set_sinfo :: "nat \<Rightarrow> (PortSwInfo \<Rightarrow> PortSwInfo) \<Rightarrow> ('c, 't) world \<Rightarrow> ('c, 't) world" where
  "set_sinfo q f = set_port q (\<lambda>p. p \<lparr> SInfo := f (SInfo p) \<rparr>)"

definition set_hinfo :: "nat \<Rightarrow> (PortHwInfo \<Rightarrow> PortHwInfo) \<Rightarrow> ('c, 't) world \<Rightarrow> ('c, 't) world" where
  "set_hinfo q f = set_port q (\<lambda>p. p \<lparr> HInfo := f (HInfo p) \<rparr>)"

definition port_msg :: "DpWorkT \<Rightarrow> int \<Rightarrow> int \<Rightarrow> int \<Rightarrow> int \<Rightarrow> int \<Rightarrow> PortDpWorkQ" where
  "port_msg work os no ing bd zn = \<lparr> pw_Work = work, pw_OsPortNum = os, pw_PortNum = no, pw_IngVlan = ing, pw_SetBD = bd,
     pw_SetZoneNum = zn, pw_Prop = 0, pw_SetMirr = 0, pw_SetPol = 0, pw_LoadEbpf = [] \<rparr>"

definition with_prop :: "Port \<Rightarrow> PortDpWorkQ \<Rightarrow> PortDpWorkQ" where
  "with_prop p m = m \<lparr> pw_Prop := PortProp (SInfo p), pw_SetPol := PortPolNum (SInfo p), pw_SetMirr := PortMirNum (SInfo p) \<rparr>"

definition port_rmac :: "DpWorkT \<Rightarrow> Port \<Rightarrow> DpWork" where
  "port_rmac work p = RouterMacQ \<lparr> rm_Work = work, rm_L2Addr = hw_MacAddr (HInfo p), rm_PortNum = PortNo p, rm_BD = 0,
     rm_TunID = 0, rm_TunType = DpTunNone, rm_NhNum = 0 \<rparr>"

text \<open>The last part of \<open>DP\<close>: attaching and detaching the eBPF program of a leaf port, and the
router MAC entry of ports whose name contains \<open>cali\<close>.\<close>

definition port_leaf :: "DpWorkT \<Rightarrow> nat \<Rightarrow> nat \<Rightarrow> PortDpWorkQ \<Rightarrow> ('c, 't) world \<Rightarrow> ('c, 't) world" where
  "port_leaf work z q m w = (let p = port w q; cali = sublist ''cali'' (p_Name p) in
     if (work = DpCreate \<or> work = DpRemove) \<and> IsLeafPort p \<and> IsPvid (p_L2 p) then
       if work = DpCreate then
         to_dp ((if cali then [port_rmac work p] else []) @
                [PortQ (m \<lparr> pw_LoadEbpf := (if BpfLoaded (SInfo p) then [] else p_Name p) \<rparr>)])
           (set_sinfo q (\<lambda>s. s \<lparr> BpfLoaded := True \<rparr>) w)
       else
         to_dp ((if cali \<and> \<not> list_ex (\<lambda>e. p_Name (port w e) \<noteq> p_Name p \<and>
                     hw_MacAddr (HInfo (port w e)) = hw_MacAddr (HInfo p)) (map snd (smap z w))
                 then [port_rmac work p] else []) @
                [PortQ (m \<lparr> pw_LoadEbpf := (if BpfLoaded (SInfo p) then p_Name p else []) \<rparr>)])
           (set_sinfo q (\<lambda>s. s \<lparr> BpfLoaded := False \<rparr>) w)
     else to_dp [PortQ m] w)"

definition Port_DP :: "DpWorkT \<Rightarrow> nat \<Rightarrow> ('c, 't) world \<Rightarrow> int \<times> ('c, 't) world" where
  "Port_DP work q w = (let p = port w q; s = SInfo p; ty = PortType s in
    case Zonefind (p_Zone p) w of
      (None, _) \<Rightarrow> (-1, w)
    | (Some z, zoneNum) \<Rightarrow>
       if zoneNum < 0 then (-1, w)
       else if ty = PortIPTun then
         (0, to_dp [UlClQ \<lparr> ul_Work = work, ul_MDip = hw_TunSrc (HInfo p), ul_MSip = hw_TunDst (HInfo p), ul_mTeID = 0,
            ul_Zone = zoneNum, ul_Qfi = 0, ul_Mark = go_int (SessMark s), ul_TDip = [], ul_TSip = [], ul_TTeID = 0,
            ul_Type = DpTunIPIP \<rparr>] w)
       else if ty = PortVxlanBr then (0, w)
       else if has ty (PortVxlanBr OR PortVlanSif) then
         (case PortReal_p s of
            None \<Rightarrow> (-1, w)
          | Some up \<Rightarrow> (0, to_dp [RouterMacQ \<lparr> rm_Work = work, rm_L2Addr = hw_MacAddr (HInfo (port w up)),
              rm_PortNum = PortNo (port w up), rm_BD = Vid (p_L2 p), rm_TunID = hw_TunID (HInfo p),
              rm_TunType = DpTunVxlan, rm_NhNum = 0 \<rparr>] w))
       else if ty = PortVlanSif \<and> (case PortReal_p s of None \<Rightarrow> False | Some r \<Rightarrow> has (PortType (SInfo (port w r))) PortBond) then
         (case PortReal_p s of
            None \<Rightarrow> (0, w)
          | Some r \<Rightarrow> (0, to_dp [PortQ (port_msg work (OsID (SInfo (port w r))) (PortNo (port w r)) (Vid (p_L2 p)) (Vid (p_L2 p)) zoneNum)] w))
       else if has ty (PortBond OR PortVlanSif) then
         (0, to_dp (map (\<lambda>sp. PortQ (with_prop p (port_msg work (OsID (SInfo (port w sp))) (PortNo (port w sp)) 0 (Vid (p_L2 p)) zoneNum)))
            (PortGetSlaves z (p_Name p) w)) w)
       else if ty AND (PortReal OR PortBond OR PortVti OR PortWg) = 0 \<and>
          (case PortReal_p s of None \<Rightarrow> True | Some r \<Rightarrow> \<not> has (PortType (SInfo (port w r))) PortReal) then (0, w)
       else
         (let (os, no) = (case PortReal_p s of Some r \<Rightarrow> (OsID (SInfo (port w r)), PortNo (port w r)) | None \<Rightarrow> (OsID s, PortNo p)) in
          (0, port_leaf work z q (with_prop p (port_msg work os no (if IsPvid (p_L2 p) then 0 else Vid (p_L2 p)) (Vid (p_L2 p)) zoneNum)) w)))"

subsection \<open>Properties\<close>

definition set_prop :: "u8 \<Rightarrow> bool \<Rightarrow> int \<Rightarrow> PortSwInfo \<Rightarrow> PortSwInfo" where
  "set_prop prop updt v s =
    (let s1 = (if prop AND PortPropPol = PortPropPol then s \<lparr> PortPolNum := (if updt then v else 0) \<rparr>
               else if prop AND PortPropSpan = PortPropSpan then s \<lparr> PortMirNum := (if updt then v else 0) \<rparr> else s) in
     s1 \<lparr> PortProp := (if updt then PortProp s1 OR prop else PortProp s1 XOR prop) \<rparr>)"

text \<open>The port and its VLAN sub-interfaces.\<close>

definition prop_devs :: "nat \<Rightarrow> nat \<Rightarrow> ('c, 't) world \<Rightarrow> nat list" where
  "prop_devs z q w = q # filter (\<lambda>e. e \<noteq> q \<and> PortReal_p (SInfo (port w e)) = Some q \<and>
     has (PortType (SInfo (port w e))) PortVlanSif \<and> \<not> has (PortType (SInfo (port w e))) PortVxlanBr) (map snd (smap z w))"

definition PortUpdateProp :: "nat \<Rightarrow> string \<Rightarrow> u8 \<Rightarrow> string \<Rightarrow> bool \<Rightarrow> int \<Rightarrow> ('c, 't) world \<Rightarrow> go_ret \<times> ('c, 't) world" where
  "PortUpdateProp z name prop zns updt v w =
    (if ZonePortIsValid name zns w \<noteq> Ok then (Err PortZoneErr ''no-zone error'', w)
     else if fst (Zonefind zns w) = None then (Err PortZoneErr ''no-zone error'', w)
     else (case PortFindByName z name w of
         None \<Rightarrow> (Err PortNotExistErr ''no-port error'', w)
       | Some q \<Rightarrow>
          (let set = (PortProp (SInfo (port w q)) AND prop = prop) in
           if updt \<and> set then (Err PortPropExistsErr ''prop-exists error'', w)
           else if \<not> updt \<and> \<not> set then (Err PortPropNotExistsErr ''prop-noexist error'', w)
           else (Ok, fold (\<lambda>e w. snd (Port_DP DpCreate e (set_sinfo e (set_prop prop updt v) w))) (prop_devs z q w) w))))"

subsection \<open>Listing and ticker\<close>

definition zero_pstats :: PortStatsInfo where
  "zero_pstats = \<lparr> RxBytes = 0, TxBytes = 0, RxPackets = 0, TxPackets = 0, RxError = 0, TxError = 0 \<rparr>"

definition port_view_of :: "('c, 't) world \<Rightarrow> nat \<Rightarrow> port_view" where
  "port_view_of w q = (let p = port w q in
    \<lparr> pv_OsID = OsID (SInfo p), pv_Mac = hw_MacAddr (HInfo p), pv_PortNo = PortNo p, pv_VxlanBr = has (PortType (SInfo p)) PortVxlanBr,
      pv_Real = map_option (\<lambda>r. (hw_MacAddr (HInfo (port w r)), PortNo (port w r))) (PortReal_p (SInfo p)),
      pv_TunID = hw_TunID (HInfo p), pv_Vid = Vid (p_L2 p) \<rparr>)"

text \<open>What the address table of a zone sees of the ports, for the calls that touch no routes.\<close>

definition l3_ports :: "('c, 't) net_env \<Rightarrow> nat \<Rightarrow> ('c, 't) world \<Rightarrow> ('c, 't) world l3_env" where
  "l3_ports env z w = \<lparr> findPort = (\<lambda>n. map_option (port_view_of w) (PortFindByName z n w)),
     l2match = (\<lambda>a b. case PortFindByName z b w of None \<Rightarrow> False | Some q \<Rightarrow> PortL2AddrMatch z a q w),
     l3_host = n_host env, rt_add = (\<lambda>_ _ _ r. (True, r)), rt_del = (\<lambda>_ _ r. (True, r)), trieFind = (\<lambda>_ _. None) \<rparr>"

record PortDump =
  pd_Port :: Port
  pd_Routed :: bool
  pd_Ipv4Addrs :: string
  pd_Ipv6Addrs :: string

fun ports_to_get :: "('c, 't) net_env \<Rightarrow> nat list \<Rightarrow> ('c, 't) world \<Rightarrow> PortDump list \<times> ('c, 't) world" where
  "ports_to_get env [] w = ([], w)"
| "ports_to_get env (q # qs) w = (case fst (Zonefind (p_Zone (port w q)) w) of
      None \<Rightarrow> ports_to_get env qs w
    | Some zn \<Rightarrow>
       (let w1 = (case NetGetIfiStats env (p_Name (port w q)) of None \<Rightarrow> w | Some st \<Rightarrow> set_port q (\<lambda>p. p \<lparr> p_Stats := st \<rparr>) w);
            a4 = IfObjMkString (l3_ports env zn w1) (L3 (zone w1 zn)) (p_Name (port w1 q)) True;
            a6 = IfObjMkString (l3_ports env zn w1) (L3 (zone w1 zn)) (p_Name (port w1 q)) False;
            (ds, w2) = ports_to_get env qs w1 in
        (\<lparr> pd_Port = port w1 q, pd_Routed = (a4 \<noteq> [] \<or> a6 \<noteq> []), pd_Ipv4Addrs = a4, pd_Ipv6Addrs = a6 \<rparr> # ds, w2)))"

definition PortsToGet :: "('c, 't) net_env \<Rightarrow> nat \<Rightarrow> ('c, 't) world \<Rightarrow> PortDump list \<times> ('c, 't) world" where
  "PortsToGet env z w = ports_to_get env (map snd (smap z w)) w"

definition port_tick :: "nat \<Rightarrow> nat \<Rightarrow> ('c, 't) world \<Rightarrow> ('c, 't) world" where
  "port_tick z q w =
    (if hw_Real (HInfo (port w q)) = [] then w
     else
       (let rp = PortFindByName z (hw_Real (HInfo (port w q))) w;
            w1 = (case rp of
                Some r \<Rightarrow> if PortOvl (SInfo (port w r)) = None then set_sinfo r (\<lambda>s. s \<lparr> PortOvl := Some q \<rparr>) w else w
              | None \<Rightarrow> w) in
        if PortReal_p (SInfo (port w1 q)) \<noteq> rp then set_sinfo q (\<lambda>s. s \<lparr> PortReal_p := rp \<rparr>) w1 else w1))"

definition PortTicker :: "nat \<Rightarrow> ('c, 't) world \<Rightarrow> ('c, 't) world" where
  "PortTicker z w = fold (port_tick z) (map snd (smap z w)) w"

end
