(* ===== verification/VlanOps.thy ===== *)
theory VlanOps
  imports PortOps
begin

text \<open>Adding ports (\<open>port.go\<close>) and VLAN bridges with their members (\<open>vlan.go\<close>).
A real, bond, WireGuard or VTI port makes a VLAN bridge of its own, and a VLAN bridge has a port: the two
additions call each other, at most twice.\<close>

subsection \<open>Changing an existing port\<close>

abbreviation PortExistsErr :: int where "PortExistsErr \<equiv> -999"
abbreviation PortNoMasterErr :: int where "PortNoMasterErr \<equiv> -997"
abbreviation PortCounterErr :: int where "PortCounterErr \<equiv> -996"
abbreviation PortNoRealDevErr :: int where "PortNoRealDevErr \<equiv> -993"
abbreviation RealPortIDB :: int where "RealPortIDB \<equiv> 3800"
abbreviation BondIDB :: int where "BondIDB \<equiv> 4000"
abbreviation WgIDB :: int where "WgIDB \<equiv> 4010"
abbreviation VtIDB :: int where "VtIDB \<equiv> 4020"
abbreviation MaxRealInterfaces :: int where "MaxRealInterfaces \<equiv> 128"

definition set_l2 :: "nat \<Rightarrow> PortLayer2Info \<Rightarrow> ('c, 't) world \<Rightarrow> ('c, 't) world" where
  "set_l2 q l2i = set_port q (\<lambda>p. p \<lparr> p_L2 := l2i \<rparr>)"

definition add_type :: "int \<Rightarrow> PortSwInfo \<Rightarrow> PortSwInfo" where
  "add_type t s = s \<lparr> PortType := PortType s OR t \<rparr>"

definition del_type :: "int \<Rightarrow> PortSwInfo \<Rightarrow> PortSwInfo" where
  "del_type t s = s \<lparr> PortType := PortType s AND NOT t \<rparr>"

abbreviation dp_port :: "DpWorkT \<Rightarrow> nat \<Rightarrow> ('c, 't) world \<Rightarrow> ('c, 't) world" where
  "dp_port work q w \<equiv> snd (Port_DP work q w)"

definition zn_ifas_ticker :: "('c, 't) net_env \<Rightarrow> nat \<Rightarrow> bool \<Rightarrow> ('c, 't) world \<Rightarrow> ('c, 't) world" where
  "zn_ifas_ticker env zn force w =
    (let (l3, ms) = IfasTicker (l3_ports env zn w) (BlackListed env) force (L3 (zone w zn)) in
     to_dp (map RouterMacQ ms) (set_zone zn (\<lambda>z. z \<lparr> L3 := l3 \<rparr>) w))"

definition port_refresh :: "('c, 't) net_env \<Rightarrow> nat \<Rightarrow> nat \<Rightarrow> PortHwInfo \<Rightarrow> ('c, 't) world \<Rightarrow> ('c, 't) world" where
  "port_refresh env zn q hwi w =
    (let w1 = set_hinfo q (\<lambda>h. h \<lparr> hw_Link := hw_Link hwi, hw_State := hw_State hwi, hw_Mtu := hw_Mtu hwi \<rparr>) w in
     if \<not> IsL3TunPort (port w1 q) \<and> hw_MacAddr hwi \<noteq> hw_MacAddr (HInfo (port w1 q))
     then zn_ifas_ticker env zn True (dp_port DpCreate q (set_hinfo q (\<lambda>h. h \<lparr> hw_MacAddr := hw_MacAddr hwi \<rparr>) w1))
     else w1)"

text \<open>A real port becomes a VLAN member or a bond slave; \<open>None\<close> when neither applies.\<close>

definition real_modify :: "nat \<Rightarrow> nat \<Rightarrow> int \<Rightarrow> PortHwInfo \<Rightarrow> PortLayer2Info \<Rightarrow> ('c, 't) world \<Rightarrow> go_ret option \<times> ('c, 't) world" where
  "real_modify z q ptype hwi l2i w =
    (if ptype = PortVlanSif then
       (let w1 = set_sinfo q (add_type ptype) (set_hinfo q (\<lambda>h. h \<lparr> hw_Master := hw_Master hwi \<rparr>) w); p = port w1 q in
        if p_L2 p = l2i then (None, w1)
        else if hw_Real hwi \<noteq> [] \<and> PortFindByName z (hw_Real hwi) w1 = None then (Some (Err PortNoRealDevErr ''no-realport sif error''), w1)
        else
          (let lds = BpfLoaded (SInfo p); rp = (if hw_Real hwi \<noteq> [] then PortFindByName z (hw_Real hwi) w1 else None);
               w2 = (if hw_Real hwi \<noteq> [] then w1 else set_sinfo q (\<lambda>s. s \<lparr> BpfLoaded := False \<rparr>) w1);
               w3 = set_sinfo q (\<lambda>s. s \<lparr> PortReal_p := rp, BpfLoaded := lds \<rparr>) (set_l2 q l2i (dp_port DpRemove q w2)) in
           (Some Ok, dp_port DpCreate q w3)))
     else if ptype = PortBondSif then
       (case PortFindByName z (hw_Master hwi) w of
          None \<Rightarrow> (Some (Err PortNoMasterErr ''no-master error''), w)
        | Some m \<Rightarrow>
           (Some Ok, set_l2 q \<lparr> IsPvid = True, Vid = PortNo (port w m) + BondIDB \<rparr>
              (set_hinfo q (\<lambda>h. h \<lparr> hw_Master := hw_Master hwi \<rparr>) (set_sinfo q (add_type ptype) (dp_port DpRemove q w)))))
     else (None, w))"

definition port_modify :: "('c, 't) net_env \<Rightarrow> nat \<Rightarrow> nat \<Rightarrow> nat \<Rightarrow> int \<Rightarrow> PortHwInfo \<Rightarrow> PortLayer2Info \<Rightarrow> ('c, 't) world \<Rightarrow>
    go_ret \<times> ('c, 't) world" where
  "port_modify env z zn q ptype hwi l2i w0 =
    (let w = port_refresh env zn q hwi w0; ty0 = PortType (SInfo (port w q));
         (r, w1) = (if ty0 = PortReal then real_modify z q ptype hwi l2i w
           else if ty0 = PortBond \<and> ptype = PortVlanSif \<and> IsPvid l2i \<and> p_L2 (port w q) \<noteq> l2i then
             (Some Ok, dp_port DpCreate q (set_sinfo q (add_type ptype) (set_l2 q l2i (dp_port DpRemove q w))))
           else (None, w));
         ty = PortType (SInfo (port w1 q)) in
     case r of
       Some ret \<Rightarrow> (ret, w1)
     | None \<Rightarrow>
        if ty = PortVxlanBr \<and> ptype = PortVlanSif \<and> IsPvid l2i then
          (Ok, dp_port DpCreate q (set_l2 q l2i (dp_port DpRemove q (set_sinfo q (add_type ptype)
             (set_hinfo q (\<lambda>h. h \<lparr> hw_Master := hw_Master hwi \<rparr>) w1)))))
        else if has ty (PortReal OR PortBondSif) \<and> ptype = PortReal then
          (Ok, dp_port DpCreate q (set_hinfo q (\<lambda>h. h \<lparr> hw_Master := [] \<rparr>) (set_sinfo q (del_type PortBondSif)
             (set_l2 q \<lparr> IsPvid = True, Vid = PortNo (port w1 q) + RealPortIDB \<rparr> w1))))
        else (Err PortExistsErr ''port exists'', w1))"

subsection \<open>New ports\<close>

definition port_counter :: "('c, 't) net_env \<Rightarrow> int \<Rightarrow> 'c PortsH \<Rightarrow> (u64 \<times> bool) \<times> 'c PortsH" where
  "port_counter env ptype P =
    (if ptype = PortBond then (case nGetCounter env (bondMark P) of (r, c) \<Rightarrow> (r, P \<lparr> bondMark := c \<rparr>))
     else if ptype = PortWg then (case nGetCounter env (wGMark P) of (r, c) \<Rightarrow> (r, P \<lparr> wGMark := c \<rparr>))
     else if ptype = PortVti then (case nGetCounter env (vtiMark P) of (r, c) \<Rightarrow> (r, P \<lparr> vtiMark := c \<rparr>))
     else (case nGetCounter env (portMark P) of (r, c) \<Rightarrow> (r, P \<lparr> portMark := c \<rparr>)))"

definition bridge_hw :: PortHwInfo where
  "bridge_hw = \<lparr> hw_MacAddr = [0xaa, 0xbb, 0xcc, 0xdd, 0xee, 0xff], hw_Link = True, hw_State = True, hw_Mtu = 9000, hw_Master = [],
     hw_Real = [], hw_TunID = 0, hw_TunSrc = [], hw_TunDst = [] \<rparr>"

text \<open>The base of the VLAN numbers of the port types that have a bridge of their own.\<close>

definition vid_base :: "int \<Rightarrow> int option" where
  "vid_base ptype = (if ptype = PortReal then Some RealPortIDB else if ptype = PortBond then Some BondIDB
     else if ptype = PortWg then Some WgIDB else if ptype = PortVti then Some VtIDB else None)"

type_synonym ('c, 't) vlan_adder = "nat \<Rightarrow> int \<Rightarrow> string \<Rightarrow> string \<Rightarrow> int \<Rightarrow> PortHwInfo \<Rightarrow> ('c, 't) world \<Rightarrow> (go_ret \<times> ('c, 't) world) option"
type_synonym ('c, 't) port_adder =
  "nat \<Rightarrow> string \<Rightarrow> int \<Rightarrow> int \<Rightarrow> string \<Rightarrow> PortHwInfo \<Rightarrow> PortLayer2Info \<Rightarrow> ('c, 't) world \<Rightarrow> (go_ret \<times> ('c, 't) world) option"

text \<open>What the type of a new port \<open>q\<close> changes.\<close>

definition port_by_type :: "('c, 't) net_env \<Rightarrow> ('c, 't) vlan_adder \<Rightarrow> nat \<Rightarrow> nat \<Rightarrow> int \<Rightarrow> string \<Rightarrow> int \<Rightarrow> PortLayer2Info \<Rightarrow>
    ('c, 't) world \<Rightarrow> ('c, 't) world option" where
  "port_by_type env va zn q ptype zns rid l2i w = (case vid_base ptype of
      Some b \<Rightarrow>
        map_option snd (va zn (rid + b) (''vlan'' @ dec_int (rid + b)) zns (-1) bridge_hw (set_l2 q \<lparr> IsPvid = True, Vid = rid + b \<rparr> w))
    | None \<Rightarrow> Some
       (if ptype = PortVxlanBr then
          set_l2 q \<lparr> IsPvid = True, Vid = uint (hw_TunID (HInfo (port w q))) \<rparr>
            (case PortReal_p (SInfo (port w q)) of
               None \<Rightarrow> w
             | Some r \<Rightarrow> set_hinfo r (\<lambda>h. h \<lparr> hw_Master := p_Name (port w q) \<rparr>)
                 (set_sinfo r (\<lambda>s. add_type PortVxlanSif (s \<lparr> PortOvl := Some q \<rparr>)) w))
        else if ptype = PortIPTun then
          (let ((m, ok), c) = nGetCounter env (sess_Mark (Sess (zone w zn))) in
           set_l2 q l2i (set_sinfo q (\<lambda>s. s \<lparr> SessMark := (if ok then m else 0) \<rparr>)
             (set_zone zn (\<lambda>z. z \<lparr> Sess := (Sess z) \<lparr> sess_Mark := c \<rparr> \<rparr>) w)))
        else set_l2 q l2i w))"

definition port_create :: "('c, 't) net_env \<Rightarrow> ('c, 't) vlan_adder \<Rightarrow> nat \<Rightarrow> nat \<Rightarrow> string \<Rightarrow> int \<Rightarrow> int \<Rightarrow> string \<Rightarrow> PortHwInfo \<Rightarrow>
    PortLayer2Info \<Rightarrow> ('c, 't) world \<Rightarrow> (go_ret \<times> ('c, 't) world) option" where
  "port_create env va z zn name osid ptype zns hwi l2i w =
    (let ((rid, ok), P) = port_counter env ptype (Ports (zone w z)); w1 = set_zone z (\<lambda>zo. zo \<lparr> Ports := P \<rparr>) w in
     if \<not> ok then Some (Err PortCounterErr (counter_err env), w1)
     else if hw_Real hwi = [] \<and> ptype = PortVxlanBr then Some (Err PortNoRealDevErr ''need-realdev error'', w1)
     else
       (let rp = (if hw_Real hwi \<noteq> [] then PortFindByName z (hw_Real hwi) w1 else None); q = length (ports w1);
            p = \<lparr> p_Name = name, PortNo = go_int rid, p_Zone = zns,
                  SInfo = \<lparr> OsID = osid, PortType = ptype, PortProp = 0, PortPolNum = 0, PortMirNum = 0, PortActive = True,
                    PortReal_p = rp, PortOvl = None, SessMark = 0, BpfLoaded = False \<rparr>,
                  HInfo = hwi, p_Stats = zero_pstats, p_L2 = \<lparr> IsPvid = False, Vid = 0 \<rparr>, p_Sync = DpStatusOk \<rparr> in
        do { w2 \<leftarrow> port_by_type env va zn q ptype zns (go_int rid) l2i (w1 \<lparr> ports := ports w1 @ [p] \<rparr>);
             if in_bounds (uint rid) then
               Some (Ok, dp_port DpCreate q (snd (ZonePortAdd name zns (set_zone z (\<lambda>zo. zo \<lparr> Ports := (Ports zo)
                 \<lparr> portSmap := gm_put name q (portSmap (Ports zo)), portImap := gm_put (uint rid) q (portImap (Ports zo)),
                   portOmap := (if osid > 0 then gm_put osid q (portOmap (Ports zo)) else portOmap (Ports zo)) \<rparr> \<rparr>) w2))))
             else None }))"

definition port_add :: "('c, 't) net_env \<Rightarrow> ('c, 't) vlan_adder \<Rightarrow> ('c, 't) port_adder" where
  "port_add env va z name osid ptype zns hwi l2i w =
    (if ZonePortIsValid name zns w \<noteq> Ok then Some (Err PortZoneErr ''no-zone error'', w)
     else (case fst (Zonefind zns w) of
         None \<Rightarrow> Some (Err PortZoneErr ''no-zone error'', w)
       | Some zn \<Rightarrow> (case PortFindByName z name w of
           Some q \<Rightarrow> Some (port_modify env z zn q ptype hwi l2i w)
         | None \<Rightarrow> port_create env va z zn name osid ptype zns hwi l2i w)))"

subsection \<open>VLAN bridges\<close>

abbreviation VlanExistsErr :: int where "VlanExistsErr \<equiv> -1999"
abbreviation VlaNotExistErr :: int where "VlaNotExistErr \<equiv> -1998"
abbreviation VlanRangeErr :: int where "VlanRangeErr \<equiv> -1997"
abbreviation VlanAddBrpErr :: int where "VlanAddBrpErr \<equiv> -1996"
abbreviation VlanMpExistErr :: int where "VlanMpExistErr \<equiv> -1995"
abbreviation VlanPortPhyErr :: int where "VlanPortPhyErr \<equiv> -1994"
abbreviation VlanPortExistErr :: int where "VlanPortExistErr \<equiv> -1993"
abbreviation VlanPortTaggedErr :: int where "VlanPortTaggedErr \<equiv> -1992"
abbreviation VlanNoPortErr :: int where "VlanNoPortErr \<equiv> -1991"
abbreviation VlanPortCreateErr :: int where "VlanPortCreateErr \<equiv> -1990"

definition VlanValid :: "int \<Rightarrow> bool" where
  "VlanValid vlanID \<longleftrightarrow> vlanID > 0 \<and> vlanID < MaximumVlans - 1"

abbreviation vlan :: "nat \<Rightarrow> int \<Rightarrow> ('c, 't) world \<Rightarrow> Vlan" where
  "vlan z i w \<equiv> VlanMap (Vlans (zone w z)) i"

definition set_vlan :: "nat \<Rightarrow> int \<Rightarrow> (Vlan \<Rightarrow> Vlan) \<Rightarrow> ('c, 't) world \<Rightarrow> ('c, 't) world" where
  "set_vlan z i f w = set_zone z (\<lambda>zo. zo \<lparr> Vlans := gm_put i (f (VlanMap (Vlans zo) i)) (Vlans zo) \<rparr>) w"

definition vlan_add :: "('c, 't) port_adder \<Rightarrow> ('c, 't) vlan_adder" where
  "vlan_add pa z vlanID name zns osid hwi w =
    (if \<not> VlanValid vlanID then Some (Err VlanRangeErr ''Invalid VlanID'', w)
     else if Created (vlan z vlanID w) then Some (Err VlanExistsErr ''Vlan already created'', w)
     else (case ZoneBrAdd name zns w of
         (Err _ _, w1) \<Rightarrow> Some (Err VlanExistsErr ''Vlan zone err'', w1)
       | (Ok, w1) \<Rightarrow>
          do { (r, w2) \<leftarrow> pa z name osid PortVlanBr zns hwi \<lparr> IsPvid = False, Vid = vlanID \<rparr> w1;
               Some (if r \<noteq> Ok then (Err VlanAddBrpErr ''Can't add vlan bridge'', snd (ZoneBrDelete name w2))
                     else (Ok, set_vlan z vlanID (\<lambda>v. v \<lparr> v_Name := name, VlanID := vlanID, Created := True, v_Zone := zns \<rparr>) w2)) }))"

primrec port_add_to :: "nat \<Rightarrow> ('c, 't) net_env \<Rightarrow> ('c, 't) port_adder" where
  "port_add_to 0 env = (\<lambda>z name osid ptype zns hwi l2i w. None)"
| "port_add_to (Suc n) env = port_add env (vlan_add (port_add_to n env))"

definition PortAdd :: "('c, 't) net_env \<Rightarrow> ('c, 't) port_adder" where
  "PortAdd env = port_add_to 2 env"

definition VlanAdd :: "('c, 't) net_env \<Rightarrow> ('c, 't) vlan_adder" where
  "VlanAdd env = vlan_add (PortAdd env)"

subsection \<open>VLAN members\<close>

definition VlanPortAdd :: "('c, 't) net_env \<Rightarrow> nat \<Rightarrow> int \<Rightarrow> string \<Rightarrow> bool \<Rightarrow> ('c, 't) world \<Rightarrow> (go_ret \<times> ('c, 't) world) option" where
  "VlanPortAdd env z vlanID portName tagged w =
    (if \<not> VlanValid vlanID then Some (Err VlanRangeErr ''Invalid VlanID'', w)
     else if \<not> Created (vlan z vlanID w) then Some (Err VlaNotExistErr ''Vlan not created'', w)
     else (case PortFindByName z portName w of
         None \<Rightarrow> Some (Err VlanPortPhyErr ''Phy port not created'', w)
       | Some q \<Rightarrow>
          (let p = port w q; v = vlan z vlanID w; memb = portName @ ''.'' @ dec_int vlanID in
           if tagged then
             if has (PortType (SInfo p)) PortVxlanBr then Some (Err VlanPortTaggedErr ''vxlan can not be tagged'', w)
             else if \<not> in_bounds (PortNo p) then None
             else if gm_get (TaggedPorts v) (PortNo p) \<noteq> None then Some (Err VlanPortExistErr ''vlan tag port exists'', w)
             else
               do { (r, w1) \<leftarrow> PortAdd env z memb (4000 + vlanID * MaxRealInterfaces + PortNo p) PortVlanSif (v_Zone v)
                      ((HInfo p) \<lparr> hw_Real := p_Name p, hw_Master := v_Name v \<rparr>) \<lparr> IsPvid = False, Vid = vlanID \<rparr> w;
                    Some (if r \<noteq> Ok then (Err VlanPortCreateErr ''vlan tag port create failed in DP'', w1)
                      else (case PortFindByName z memb w1 of
                          None \<Rightarrow> (Err VlanPortCreateErr ''vlan tag port not created'', w1)
                        | Some tp \<Rightarrow> (Ok, set_vlan z vlanID (\<lambda>v. v \<lparr> TaggedPorts := gm_put (PortNo p) tp (TaggedPorts v),
                            NumTagPorts := NumTagPorts v + 1 \<rparr>) w1))) }
           else
             if \<not> in_bounds (PortNo p) then None
             else if gm_get (UnTaggedPorts v) (PortNo p) \<noteq> None then Some (Err VlanPortExistErr ''vlan untag port exists'', w)
             else
               do { (r, w1) \<leftarrow> PortAdd env z portName (OsID (SInfo p)) PortVlanSif (v_Zone v)
                      ((HInfo p) \<lparr> hw_Master := v_Name v \<rparr>) \<lparr> IsPvid = True, Vid = vlanID \<rparr> w;
                    Some (if r \<noteq> Ok then (Err VlanPortCreateErr ''vlan untag port create failed in DP'', w1)
                      else (Ok, set_vlan z vlanID (\<lambda>v. v \<lparr> UnTaggedPorts := gm_put (PortNo p) q (UnTaggedPorts v),
                          NumUnTagPorts := NumUnTagPorts v + 1 \<rparr>) w1)) })))"

subsection \<open>Listing and statistics\<close>

definition stat_msg :: "DpWorkT \<Rightarrow> string \<Rightarrow> u32 \<Rightarrow> DpWork" where
  "stat_msg work name mark = StatQ \<lparr> sw_Work = work, sw_Name = name, sw_Mark = mark \<rparr>"

definition Vlan_DP :: "DpWorkT \<Rightarrow> Vlan \<Rightarrow> ('c, 't) world \<Rightarrow> int \<times> ('c, 't) world" where
  "Vlan_DP work v w =
    (if work = DpStatsGet then
       (0, to_dp [stat_msg work ''RXBD'' (of_int (VlanID v)), stat_msg work ''TXBD'' (of_int (VlanID v))] w)
     else if work = DpStatsClr then (0, to_dp [stat_msg work ''BD'' (of_int (VlanID v))] w)
     else (-1, w))"

definition vlans_created :: "nat \<Rightarrow> ('c, 't) world \<Rightarrow> int list" where
  "vlans_created z w = filter (\<lambda>i. Created (vlan z i w)) [0..MaximumVlans - 1]"

record VlanPortMod =
  vp_Vid :: int
  vp_Dev :: string
  vp_Tagged :: bool

record VlanGet_t =
  vg_Vid :: int
  vg_Dev :: string
  vg_Member :: "VlanPortMod list"
  vg_Stat :: vlanStat

definition vlan_members :: "('c, 't) world \<Rightarrow> int \<Rightarrow> bool \<Rightarrow> (int, nat) gomap \<Rightarrow> VlanPortMod list" where
  "vlan_members w k tg m = map (\<lambda>(_, q). \<lparr> vp_Vid = k, vp_Dev = p_Name (port w q), vp_Tagged = tg \<rparr>) (sort_key fst m)"

definition VlanGet :: "nat \<Rightarrow> ('c, 't) world \<Rightarrow> VlanGet_t list" where
  "VlanGet z w = map (\<lambda>k. let v = vlan z k w in
     \<lparr> vg_Vid = k, vg_Dev = v_Name v,
       vg_Member = (if NumTagPorts v \<noteq> 0 then vlan_members w k True (TaggedPorts v) else []) @
         (if NumUnTagPorts v \<noteq> 0 then vlan_members w k False (UnTaggedPorts v) else []),
       vg_Stat = v_Stat v \<rparr>) (vlans_created z w)"

definition VlansSync :: "nat \<Rightarrow> ('c, 't) world \<Rightarrow> ('c, 't) world" where
  "VlansSync z w = fold (\<lambda>i w. snd (Vlan_DP DpStatsGet (vlan z i w) w)) (vlans_created z w) w"

end
