(* ===== verification/NeighOps.thy ===== *)
theory NeighOps
  imports VlanOps
begin

text \<open>Neighbours (\<open>neighbor.go\<close>) up to the operations that call the route table: tunnel
end-points, what neighbours and end-points send to the data path, activation by ARP, resolution through
tunnels, lookup and pairing with routes.\<close>

subsection \<open>Data path\<close>

definition mac6 :: "u8 list \<Rightarrow> u8 list option" where
  "mac6 a = (if length a < 6 then None else Some (take 6 a))"

definition zero_mac :: "u8 list" where "zero_mac = replicate 6 0"

definition oif_mac :: "Neigh \<Rightarrow> ('c, 't) world \<Rightarrow> u8 list \<times> int" where
  "oif_mac ne w = (case OifPort ne of None \<Rightarrow> (zero_mac, 0)
     | Some q \<Rightarrow> (hw_MacAddr (HInfo (port w q)), Vid (p_L2 (port w q))))"

definition Neigh_DP :: "DpWorkT \<Rightarrow> nat \<Rightarrow> ('c, 't) world \<Rightarrow> ('c, 't) world option" where
  "Neigh_DP work n w = (let ne = neigh w n in
    if Dummy ne then Some w
    else
      (let rec = (NhType ne AND NhRecursive = NhRecursive);
           byfdb = (case tFdb ne of None \<Rightarrow> False | Some f \<Rightarrow> t_ep (FdbTun_p (fdb w f)) \<noteq> None);
           bytun = (case OifPort ne of None \<Rightarrow> False | Some q \<Rightarrow> IsL3TunPort (port w q));
           (src, bd) = oif_mac ne w in
       do { dst \<leftarrow> mac6 (HardwareAddr (n_Attr ne));
            Some (to_dp [NextHopQ \<lparr> nh_Work = work, nh_TunNh = False, nh_TunID = 0, nh_TunType = DpTunNone, nh_RIP = [], nh_SIP = [],
              nh_NNextHopNum = (if rec \<and> (byfdb \<or> bytun) then go_int (RMark ne) else 0), nh_NextHopNum = go_int (n_Mark ne),
              nh_Resolved = (Resolved ne \<and> (rec \<longrightarrow> byfdb \<or> bytun)), nh_DstAddr = dst, nh_SrcAddr = src, nh_BD = bd \<rparr>] w) }))"

definition Tep_DP :: "DpWorkT \<Rightarrow> nat \<Rightarrow> ('c, 't) world \<Rightarrow> ('c, 't) world option" where
  "Tep_DP work t w = (let te = tep w t; ne = neigh w (te_Parent te); full = (te_tunID te \<noteq> 0 \<or> te_tunType te = DpTunIPIP);
      (src, bd) = (if full then oif_mac ne w else (zero_mac, 0)) in
    do { dst \<leftarrow> (if full then mac6 (HardwareAddr (n_Attr ne)) else Some zero_mac);
         Some (to_dp [NextHopQ \<lparr> nh_Work = work, nh_TunNh = True, nh_TunID = te_tunID te, nh_TunType = te_tunType te,
           nh_RIP = te_rIP te, nh_SIP = te_sIP te, nh_NNextHopNum = 0, nh_NextHopNum = go_int (te_Mark te),
           nh_Resolved = Resolved ne, nh_DstAddr = dst, nh_SrcAddr = src, nh_BD = bd \<rparr>] w) })"

subsection \<open>Tunnel end-points\<close>

definition set_nh :: "nat \<Rightarrow> ('c NeighH \<Rightarrow> 'c NeighH) \<Rightarrow> ('c, 't) world \<Rightarrow> ('c, 't) world" where
  "set_nh z f = set_zone z (\<lambda>zo. zo \<lparr> Nh := f (Nh zo) \<rparr>)"

definition get_tid :: "('c, 't) net_env \<Rightarrow> nat \<Rightarrow> ('c, 't) world \<Rightarrow> (u64 \<times> bool) \<times> ('c, 't) world" where
  "get_tid env z w = (case nGetCounter env (NeighTID (Nh (zone w z))) of (r, c) \<Rightarrow> (r, set_nh z (\<lambda>h. h \<lparr> NeighTID := c \<rparr>) w))"

definition put_tid :: "('c, 't) net_env \<Rightarrow> nat \<Rightarrow> u64 \<Rightarrow> ('c, 't) world \<Rightarrow> ('c, 't) world" where
  "put_tid env z i = set_nh z (\<lambda>h. h \<lparr> NeighTID := nPutCounter env i (NeighTID h) \<rparr>)"

text \<open>The result is the end-point, \<open>None\<close> inside the option for the return value -1.\<close>

definition NeighAddTunEP :: "('c, 't) net_env \<Rightarrow> nat \<Rightarrow> nat \<Rightarrow> IP \<Rightarrow> IP \<Rightarrow> u32 \<Rightarrow> DpTunT \<Rightarrow> bool \<Rightarrow> ('c, 't) world \<Rightarrow>
    (nat option \<times> ('c, 't) world) option" where
  "NeighAddTunEP env z n rIP sIP tunID tunType sync w =
    (case OifPort (neigh w n) of
       None \<Rightarrow> Some (None, w)
     | Some q \<Rightarrow>
        if PortOvl (SInfo (port w q)) = None \<and> tunType \<noteq> DpTunIPIP then Some (None, w)
        else (case find (\<lambda>t. IP_Equal (te_rIP (tep w t)) rIP \<and> te_tunID (tep w t) = tunID \<and> te_tunType (tep w t) = tunType) (TunEps (neigh w n)) of
            Some t \<Rightarrow> Some (Some t, w)
          | None \<Rightarrow>
             (let (e, src, _) = (if sIP = [] then IfaSelect (l3_ports env z w) (L3 (zone w z)) (p_Name (port w q)) rIP False else (0, sIP, [])) in
              if e \<noteq> 0 then Some (None, w)
              else
                (let ((idx, ok), w1) = get_tid env z w in
                 if \<not> ok then Some (None, w1)
                 else
                   (let t = length (teps w1);
                        te = \<lparr> te_sIP = src, te_rIP = rIP, te_tunID = tunID, te_tunType = tunType, te_Mark = idx, te_Parent = n,
                          te_Inactive = False, te_Sync = DpStatusOk \<rparr>;
                        w2 = set_neigh n (\<lambda>ne. ne \<lparr> TunEps := TunEps ne @ [t], NhType := NhType ne OR NhTun \<rparr>) (w1 \<lparr> teps := teps w1 @ [te] \<rparr>) in
                    do { w3 \<leftarrow> (if sync then Tep_DP DpCreate t w2 else Some w2); Some (Some t, w3) })))))"

text \<open>\<open>NeighRemoveTunEP\<close> shifts the rest of the slice in place; the caller keeps the old length,
so the last element appears twice afterwards.\<close>

definition NeighRemoveTunEP :: "nat \<Rightarrow> nat list \<Rightarrow> nat list" where
  "NeighRemoveTunEP i ts = take i ts @ drop (Suc i) ts @ drop (length ts - 1) ts"

primrec del_teps :: "('c, 't) net_env \<Rightarrow> nat \<Rightarrow> nat \<Rightarrow> nat \<Rightarrow> nat \<Rightarrow> ('c, 't) world \<Rightarrow> ('c, 't) world option" where
  "del_teps env z n 0 i w = Some w"
| "del_teps env z n (Suc k) i w = (let t = TunEps (neigh w n) ! i in
    do { w1 \<leftarrow> Tep_DP DpRemove t w;
         (let w2 = put_tid env z (te_Mark (tep w1 t)) w1;
              w3 = w2 \<lparr> teps := (teps w2) [t := (tep w2 t) \<lparr> te_Inactive := True \<rparr>] \<rparr> in
          del_teps env z n k (Suc i) (set_neigh n (\<lambda>ne. ne \<lparr> TunEps := NeighRemoveTunEP i (TunEps ne) \<rparr>) w3)) })"

definition NeighDelAllTunEP :: "('c, 't) net_env \<Rightarrow> nat \<Rightarrow> nat \<Rightarrow> ('c, 't) world \<Rightarrow> ('c, 't) world option" where
  "NeighDelAllTunEP env z n w = del_teps env z n (length (TunEps (neigh w n))) 0 w"

subsection \<open>Routes as the neighbours see them\<close>

definition RtFind :: "nat \<Rightarrow> IPNet \<Rightarrow> string \<Rightarrow> ('c, 't) world \<Rightarrow> nat option" where
  "RtFind z dst zns w = gm_get (RtMap (z_Rt (zone w z))) (IPNet_String dst, zns)"

text \<open>The environment of the address table: ports as above and the name of the port to which the
longest matching prefix leads.\<close>

definition trie_port :: "('c, 't) net_env \<Rightarrow> nat \<Rightarrow> IP \<Rightarrow> ('c, 't) world \<Rightarrow> (nat \<times> string) option" where
  "trie_port env z addr w =
    (case FindTrie env (IP_String addr) (if IsNetIPv4 (n_host env) (IP_String addr) then Trie4 (z_Rt (zone w z)) else Trie6 (z_Rt (zone w z))) of
       None \<Rightarrow> None
     | Some (net, TrieNeigh n) \<Rightarrow> Some (mask_ones net, case OifPort (neigh w n) of None \<Rightarrow> [] | Some q \<Rightarrow> p_Name (port w q))
     | Some (net, TrieIfi r) \<Rightarrow> Some (mask_ones net, case PortFindByOSID z (Ifi (r_Attr (rt w r))) w of None \<Rightarrow> [] | Some q \<Rightarrow> p_Name (port w q)))"

definition l3_trie :: "('c, 't) net_env \<Rightarrow> nat \<Rightarrow> ('c, 't) world \<Rightarrow> ('c, 't) world l3_env" where
  "l3_trie env z w = (l3_ports env z w) \<lparr> trieFind := trie_port env z \<rparr>"

subsection \<open>Activation and resolution\<close>

definition ping :: "IP \<Rightarrow> IP \<Rightarrow> string \<Rightarrow> ('c, 't) world \<Rightarrow> ('c, 't) world" where
  "ping addr src name w = w \<lparr> pings := pings w @ [(addr, src, name)] \<rparr>"

abbreviation NeighAts :: int where "NeighAts \<equiv> 20000000000"

definition Activate :: "('c, 't) net_env \<Rightarrow> nat \<Rightarrow> nat \<Rightarrow> ('c, 't) world \<Rightarrow> ('c, 't) world" where
  "Activate env z n w = (let ne = neigh w n in
    case OifPort ne of
      None \<Rightarrow> w
    | Some q \<Rightarrow>
       if IsNetIPv6 (n_host env) (IP_String (n_Addr ne)) \<or> Dummy ne \<or> Resolved ne \<or> now w - Ats ne < NeighAts \<or> p_Name (port w q) = ''lo'' then w
       else
         (let addr = (if IsIPinIPTunPort (port w q) then hw_TunDst (HInfo (port w q)) else n_Addr ne);
              (ret, src, name) = (if IsIPinIPTunPort (port w q)
                then IfaSelectAny (l3_trie env z w) (L3 (zone w z)) w addr False
                else (case IfaSelect (l3_trie env z w) (L3 (zone w z)) (p_Name (port w q)) addr True of (r, s, _) \<Rightarrow> (r, s, p_Name (port w q)))) in
          if ret \<noteq> 0 then w
          else set_neigh n (\<lambda>ne. ne \<lparr> Ats := now w \<rparr>) (ping addr src name w)))"

definition L2FdbFind :: "nat \<Rightarrow> FdbKey \<Rightarrow> ('c, 't) world \<Rightarrow> nat option" where
  "L2FdbFind z key w = gm_get (L2 (zone w z)) key"

definition unresolve :: "Neigh \<Rightarrow> Neigh" where
  "unresolve ne = ne \<lparr> Resolved := False, RMark := 0 \<rparr>"

text \<open>A neighbour behind an IP-in-IP tunnel: its tunnel end-point hangs on the neighbour that leads to
the far end.\<close>

definition resolve_iptun :: "('c, 't) net_env \<Rightarrow> nat \<Rightarrow> nat \<Rightarrow> PortHwInfo \<Rightarrow> ('c, 't) world \<Rightarrow> (bool \<times> ('c, 't) world) option" where
  "resolve_iptun env z n hw w = (case FindTrie env (IP_String (hw_TunDst hw)) (Trie4 (z_Rt (zone w z))) of
      None \<Rightarrow> Some (False, w)
    | Some (net, TrieIfi _) \<Rightarrow> Some (False, set_neigh n unresolve w)
    | Some (net, TrieNeigh nh) \<Rightarrow>
       if Inactive (neigh w nh) then Some (False, w)
       else (case RtFind z net (z_Name (zone w z)) w of
           None \<Rightarrow> Some (False, set_neigh n unresolve w)
         | Some r \<Rightarrow>
            if RMark (neigh w n) = 0 \<or> RecNh (neigh w n) \<noteq> Some nh then
              do { (ep, w1) \<leftarrow> NeighAddTunEP env z nh (hw_TunDst hw) (hw_TunSrc hw) (hw_TunID hw) DpTunIPIP True w;
                   Some (True, case ep of
                       None \<Rightarrow> w1
                     | Some t \<Rightarrow> set_neigh n (\<lambda>ne. ne \<lparr> RMark := te_Mark (tep w1 t), Resolved := True, RecNh := Some nh,
                         NhType := NhType ne OR NhRecursive \<rparr>) (set_rt r (\<lambda>r. r \<lparr> RtDepObjs := RtDepObjs r @ [DepNeigh nh] \<rparr>) w1)) }
            else Some (False, w)))"

definition resolve_fdb :: "('c, 't) net_env \<Rightarrow> nat \<Rightarrow> nat \<Rightarrow> nat \<Rightarrow> ('c, 't) world \<Rightarrow> (bool \<times> ('c, 't) world) option" where
  "resolve_fdb env z n q w = do { mac \<leftarrow> mac6 (HardwareAddr (n_Attr (neigh w n)));
     Some (case L2FdbFind z (mac, Vid (p_L2 (port w q))) w of
         None \<Rightarrow> (False, if PortHasTunSlaves z (p_Name (port w q)) PortVxlanSif w
            then set_neigh n (\<lambda>ne. unresolve ne \<lparr> tFdb := None \<rparr>) w else w)
       | Some f \<Rightarrow>
           if FdbType (f_Attr (fdb w f)) \<noteq> FdbTun then (False, w)
           else if unReach (fdb w f) then (False, set_neigh n unresolve w)
           else (case t_ep (FdbTun_p (fdb w f)) of
               None \<Rightarrow> (False, set_neigh n unresolve w)
             | Some t \<Rightarrow> (tFdb (neigh w n) \<noteq> Some f \<or> RMark (neigh w n) \<noteq> te_Mark (tep w t),
                 set_neigh n (\<lambda>ne. ne \<lparr> tFdb := Some f, RMark := te_Mark (tep w t), NhType := NhType ne OR NhRecursive \<rparr>) w))) }"

definition NeighRecursiveResolve :: "('c, 't) net_env \<Rightarrow> nat \<Rightarrow> nat \<Rightarrow> ('c, 't) world \<Rightarrow> (bool \<times> ('c, 't) world) option" where
  "NeighRecursiveResolve env z n w = (case OifPort (neigh w n) of
      None \<Rightarrow> Some (False, w)
    | Some q \<Rightarrow>
       (let w1 = set_neigh n (\<lambda>ne. ne \<lparr> Resolved := (HardwareAddr (n_Attr ne) \<noteq> zero_mac) \<rparr>) w;
            stale = (case tFdb (neigh w1 n) of None \<Rightarrow> False | Some f \<Rightarrow> f_inActive (fdb w1 f) \<or> unReach (fdb w1 f));
            w2 = (if stale then set_neigh n (\<lambda>ne. unresolve ne \<lparr> NhType := NhType ne AND NOT NhRecursive, tFdb := None \<rparr>) w1 else w1) in
        if \<not> Resolved (neigh w2 n) then Some (False, w2)
        else if IsIPinIPTunPort (port w2 q) then resolve_iptun env z n (HInfo (port w2 q)) w2
        else resolve_fdb env z n q w2))"

subsection \<open>Lookup and pairing\<close>

definition NeighFind :: "nat \<Rightarrow> IP \<Rightarrow> string \<Rightarrow> int \<Rightarrow> ('c, 't) world \<Rightarrow> nat option" where
  "NeighFind z addr zns link w = (case gm_get (NeighMap (Nh (zone w z))) (IP_String addr, zns, link) of
      None \<Rightarrow> None
    | Some n \<Rightarrow> if Inactive (neigh w n) then None else Some n)"

definition NeighPairRt :: "nat \<Rightarrow> nat \<Rightarrow> ('c, 't) world \<Rightarrow> ('c, 't) world" where
  "NeighPairRt n r w = (if gm_get (NhRtm (neigh w n)) (r_Key (rt w r)) \<noteq> None then w
     else set_neigh n (\<lambda>ne. ne \<lparr> NhRtm := gm_put (r_Key (rt w r)) r (NhRtm ne) \<rparr>) w)"

record NeighMod =
  nm_IP :: IP
  nm_LinkIndex :: int
  nm_State :: DpStatusT
  nm_HardwareAddr :: "u8 list"

text \<open>The listing reads the port of every neighbour and panics when one has none.\<close>

fun neigh_get :: "nat list \<Rightarrow> ('c, 't) world \<Rightarrow> NeighMod list option" where
  "neigh_get [] w = Some []"
| "neigh_get (n # ns) w = (let ne = neigh w n in
    do { q \<leftarrow> OifPort ne; ms \<leftarrow> neigh_get ns w;
         Some (\<lparr> nm_IP = n_Addr ne, nm_LinkIndex = OsID (SInfo (port w q)), nm_State = n_Sync ne,
           nm_HardwareAddr = HardwareAddr (n_Attr ne) \<rparr> # ms) })"

definition NeighGet :: "nat \<Rightarrow> ('c, 't) world \<Rightarrow> NeighMod list option" where
  "NeighGet z w = neigh_get (map snd (NeighMap (Nh (zone w z)))) w"

end
