(* ===== verification/L2Ops.thy ===== *)
theory L2Ops
  imports NeighOps
begin

text \<open>The forwarding table (\<open>layer2.go\<close>): addition, deletion, resolution of tunnel entries
through routes and neighbours, the ticker and what an entry sends to the data path.\<close>

subsection \<open>Data path\<close>

abbreviation L2SameFdbErr :: int where "L2SameFdbErr \<equiv> -2999"
abbreviation L2OifErr :: int where "L2OifErr \<equiv> -2998"
abbreviation L2NoFdbErr :: int where "L2NoFdbErr \<equiv> -2997"
abbreviation L2VxattrErr :: int where "L2VxattrErr \<equiv> -2996"
abbreviation FdbGts :: int where "FdbGts \<equiv> 10"

definition set_fsync :: "nat \<Rightarrow> DpStatusT \<Rightarrow> ('c, 't) world \<Rightarrow> ('c, 't) world" where
  "set_fsync f s = set_fdb f (\<lambda>e. e \<lparr> f_Sync := s \<rparr>)"

definition fdb_msg :: "DpWorkT \<Rightarrow> FdbEnt \<Rightarrow> Port \<Rightarrow> int \<Rightarrow> ('c, 't) world \<Rightarrow> DpWork" where
  "fdb_msg work e p no w = L2AddrQ \<lparr> l2_Work = work, l2_L2Addr = fst (f_Key e),
     l2_Tun = (if has (PortType (SInfo p)) PortVxlanBr then DpTunVxlan else DpTunNone),
     l2_NhNum = (case t_nh (FdbTun_p e) of None \<Rightarrow> 0 | Some n \<Rightarrow> go_int (n_Mark (neigh w n))),
     l2_PortNum = no, l2_BD = Vid (p_L2 p), l2_Tagged = (if IsPvid (p_L2 p) then 0 else 1) \<rparr>"

definition Fdb_DP :: "DpWorkT \<Rightarrow> nat \<Rightarrow> ('c, 't) world \<Rightarrow> int \<times> ('c, 't) world" where
  "Fdb_DP work f w = (let e = fdb w f; p = port w (f_Port e); real = PortReal_p (SInfo p) in
    if p_Name p = ''lo'' then (-1, set_fsync f DpCreateErr w)
    else if work = DpCreate \<and> unReach e then (0, w)
    else if Vid (p_L2 p) \<noteq> snd (f_Key e) then (-1, set_fsync f DpCreateErr w)
    else if \<not> IsPvid (p_L2 p) \<and> real = None then (-1, set_fsync f DpUknownErr w)
    else
      (let no = (if IsPvid (p_L2 p) then PortNo p else (case real of None \<Rightarrow> 0 | Some r \<Rightarrow> PortNo (port w r)));
           w1 = to_dp [fdb_msg work e p no w] w in
       if \<not> has (PortType (SInfo p)) PortVxlanBr then (0, w1)
       else (case (real, t_ep (FdbTun_p e)) of
           (Some up, Some t) \<Rightarrow>
             (0, to_dp [RouterMacQ \<lparr> rm_Work = work, rm_L2Addr = fst (f_Key e), rm_PortNum = PortNo (port w up), rm_BD = Vid (p_L2 p),
                rm_TunID = hw_TunID (HInfo p), rm_TunType = DpTunVxlan, rm_NhNum = go_int (te_Mark (tep w t)) \<rparr>] w1)
         | _ \<Rightarrow> (-1, set_fsync f DpUknownErr w1))))"

subsection \<open>Resolution of tunnel entries\<close>

definition tryResolveUpper :: "('c, 't) net_env \<Rightarrow> nat \<Rightarrow> nat \<Rightarrow> IP \<Rightarrow> ('c, 't) world \<Rightarrow> ('c, 't) world" where
  "tryResolveUpper env zn f addr w =
    (let p = port w (f_Port (fdb w f));
         name = (case PortReal_p (SInfo p) of None \<Rightarrow> p_Name p | Some r \<Rightarrow> p_Name (port w r));
         (ret, src, _) = IfaSelect (l3_trie env zn w) (L3 (zone w zn)) name addr True in
     if ret \<noteq> 0 then w else ping addr src name w)"

definition L2FdbResolveNh :: "('c, 't) net_env \<Rightarrow> nat \<Rightarrow> ('c, 't) world \<Rightarrow> (bool \<times> go_ret \<times> ('c, 't) world) option" where
  "L2FdbResolveNh env f w = (let e = fdb w f; p = port w (f_Port e); dst = f_Dst (f_Attr e) in
    case fst (Zonefind (p_Zone p) w) of
      None \<Rightarrow> Some (True, Err L2VxattrErr ''fdb zone error'', w)
    | Some zn \<Rightarrow>
       if \<not> has (PortType (SInfo p)) PortVxlanBr then Some (False, Ok, w)
       else if FdbType (f_Attr e) \<noteq> FdbTun then Some (True, Err L2VxattrErr ''fdb attr error'', w)
       else if To4 dst = [] then Some (True, Err L2VxattrErr ''fdb v6 dst unsupported'', w)
       else (case FindTrie env (IP_String dst) (Trie4 (z_Rt (zone w zn))) of
           None \<Rightarrow> Some (True, Ok, w)
         | Some (net, TrieIfi _) \<Rightarrow> Some (True, Err (-1) ''no neigh found'', tryResolveUpper env zn f dst w)
         | Some (net, TrieNeigh nh) \<Rightarrow>
            if Inactive (neigh w nh) \<or> Dummy (neigh w nh) then Some (False, Ok, w)
            else (case RtFind zn net (z_Name (zone w zn)) w of
                None \<Rightarrow> Some (True, Ok, w)
              | Some r \<Rightarrow>
                 do { (ep, w1) \<leftarrow> NeighAddTunEP env zn nh dst [] (hw_TunID (HInfo p)) DpTunVxlan True w;
                      Some (case ep of
                          None \<Rightarrow> (True, Ok, w1)
                        | Some t \<Rightarrow> (False, Ok, set_fdb f (\<lambda>e. e \<lparr> FdbTun_p := \<lparr> t_rt = Some r, t_nh = Some nh, t_ep = Some t \<rparr> \<rparr>)
                            (set_rt r (\<lambda>r. r \<lparr> RtDepObjs := RtDepObjs r @ [DepFdb f] \<rparr>) w1))) })))"

subsection \<open>Deletion\<close>

definition rtRemoveDepObj :: "nat \<Rightarrow> RtDepObj list \<Rightarrow> RtDepObj list" where
  "rtRemoveDepObj i ds = take i ds @ drop (Suc i) ds"

fun dep_index :: "RtDepObj \<Rightarrow> RtDepObj list \<Rightarrow> nat option" where
  "dep_index d [] = None"
| "dep_index d (x # xs) = (if x = d then Some 0 else map_option Suc (dep_index d xs))"

definition drop_dep :: "RtDepObj \<Rightarrow> Rt \<Rightarrow> Rt" where
  "drop_dep d r = (case dep_index d (RtDepObjs r) of None \<Rightarrow> r | Some i \<Rightarrow> r \<lparr> RtDepObjs := rtRemoveDepObj i (RtDepObjs r) \<rparr>)"

definition fdb_untie :: "nat \<Rightarrow> ('c, 't) world \<Rightarrow> ('c, 't) world" where
  "fdb_untie f w =
    (let a = FdbTun_p (fdb w f);
         w1 = (case t_rt a of None \<Rightarrow> w | Some r \<Rightarrow> set_rt r (drop_dep (DepFdb f)) w);
         w2 = (case t_nh a of None \<Rightarrow> w1 | Some n \<Rightarrow> set_neigh n (\<lambda>ne. ne \<lparr> Resolved := False \<rparr>) w1) in
     set_fdb f (\<lambda>e. e \<lparr> FdbTun_p := \<lparr> t_rt = None, t_nh = None, t_ep = None \<rparr> \<rparr>) w2)"

definition L2FdbDel :: "nat \<Rightarrow> FdbKey \<Rightarrow> ('c, 't) world \<Rightarrow> go_ret \<times> ('c, 't) world" where
  "L2FdbDel z key w = (case L2FdbFind z key w of
      None \<Rightarrow> (Err L2NoFdbErr ''no such fdb'', w)
    | Some f \<Rightarrow>
       if FdbType (f_Attr (fdb w f)) = FdbPhy \<and> hCnt (fdb w f) > 0 then (Ok, set_fdb f (\<lambda>e. e \<lparr> hCnt := hCnt e - 1 \<rparr>) w)
       else
         (let w1 = (if PortType (SInfo (port w (f_Port (fdb w f)))) = PortVxlanBr then fdb_untie f w else w);
              w2 = set_fdb f (\<lambda>e. e \<lparr> f_inActive := True \<rparr>) (snd (Fdb_DP DpRemove f w1)) in
          (Ok, set_zone z (\<lambda>zo. zo \<lparr> L2 := gm_del (f_Key (fdb w2 f)) (L2 zo) \<rparr>) w2)))"

subsection \<open>Addition\<close>

definition l2FdbAttrEqual :: "FdbAttr \<Rightarrow> FdbAttr \<Rightarrow> bool" where
  "l2FdbAttrEqual a b \<longleftrightarrow> FdbType a = FdbType b \<and> Oif a = Oif b \<and> IP_Equal (f_Dst a) (f_Dst b)"

text \<open>Entries of ports that are missing or inactive are parked on the loopback port.\<close>

definition fdb_port :: "nat \<Rightarrow> string \<Rightarrow> ('c, 't) world \<Rightarrow> nat option" where
  "fdb_port z oif w = (case PortFindByName z oif w of
      Some q \<Rightarrow> if PortActive (SInfo (port w q)) then Some q else PortFindByName z ''lo'' w
    | None \<Rightarrow> PortFindByName z ''lo'' w)"

definition fdb_create :: "('c, 't) net_env \<Rightarrow> nat \<Rightarrow> FdbKey \<Rightarrow> FdbAttr \<Rightarrow> nat \<Rightarrow> ('c, 't) world \<Rightarrow> (go_ret \<times> ('c, 't) world) option" where
  "fdb_create env z key attr q w =
    (let f = length (fdbs w);
         e = \<lparr> f_Key = key, f_Attr = attr, FdbTun_p = \<lparr> t_rt = None, t_nh = None, t_ep = None \<rparr>, f_Port = q, stime = now w,
               unReach = False, f_inActive = False, hCnt = 0, f_Sync = DpStatusOk \<rparr>;
         w1 = w \<lparr> fdbs := fdbs w @ [e] \<rparr> in
     do { w2 \<leftarrow> (if has (PortType (SInfo (port w1 q))) PortVxlanBr
             then do { (un, _, w') \<leftarrow> L2FdbResolveNh env f w1; Some (set_fdb f (\<lambda>e. e \<lparr> unReach := un \<rparr>) w') } else Some w1);
          Some (Ok, snd (Fdb_DP DpCreate f (set_zone z (\<lambda>zo. zo \<lparr> L2 := gm_put key f (L2 zo) \<rparr>) w2))) })"

definition L2FdbAdd :: "('c, 't) net_env \<Rightarrow> nat \<Rightarrow> FdbKey \<Rightarrow> FdbAttr \<Rightarrow> ('c, 't) world \<Rightarrow> (go_ret \<times> ('c, 't) world) option" where
  "L2FdbAdd env z key attr w = (case fdb_port z (Oif attr) w of
      None \<Rightarrow> Some (Err L2OifErr ''no such port'', w)
    | Some q \<Rightarrow> (case L2FdbFind z key w of
        None \<Rightarrow> fdb_create env z key attr q w
      | Some f \<Rightarrow>
         if l2FdbAttrEqual attr (f_Attr (fdb w f)) then
           Some (if FdbType attr = FdbPhy then (Ok, set_fdb f (\<lambda>e. e \<lparr> hCnt := hCnt e + 1 \<rparr>) w)
                 else (Err L2SameFdbErr ''same fdb'', w))
         else fdb_create env z key attr q (snd (L2FdbDel z key w))))"

subsection \<open>Ticker, notifications and destruction\<close>

text \<open>The code compares the bridge of the entry with the VLAN of the port it is parked on, not with that
of the port it is waiting for.\<close>

definition FdbTicker :: "('c, 't) net_env \<Rightarrow> nat \<Rightarrow> nat \<Rightarrow> ('c, 't) world \<Rightarrow> ('c, 't) world option" where
  "FdbTicker env z f w = (let e = fdb w f; p = port w (f_Port e); done = set_fdb f (\<lambda>e. e \<lparr> stime := now w \<rparr>) in
    if \<not> now w - stime e > FdbGts then Some w
    else if p_Name p = ''lo'' \<or> snd (f_Key e) \<noteq> Vid (p_L2 p) then
      (case PortFindByName z (Oif (f_Attr e)) w of
         None \<Rightarrow> Some (done w)
       | Some q \<Rightarrow>
          if \<not> PortActive (SInfo (port w q)) then Some (done w)
          else if Vid (p_L2 p) \<noteq> snd (f_Key e) then Some w
          else Some (done (set_fdb f (\<lambda>e. e \<lparr> f_Port := q, f_Sync := DpCreateErr \<rparr>) w)))
    else if \<not> PortActive (SInfo p) then Some (done (snd (L2FdbDel z (f_Key e) w)))
    else if unReach e then
      do { (un, _, w1) \<leftarrow> L2FdbResolveNh env f w;
           Some (done (if unReach (fdb w1 f) \<noteq> un then snd (Fdb_DP DpCreate f (set_fdb f (\<lambda>e. e \<lparr> unReach := un \<rparr>) w1)) else w1)) }
    else if f_Sync e \<noteq> DpStatusOk then Some (done (snd (Fdb_DP DpCreate f w)))
    else Some (done w))"

text \<open>A \<open>range\<close> loop over a map visits the entries that are still there when it gets to them.\<close>

fun range_map :: "('w \<Rightarrow> ('k, 'v) gomap) \<Rightarrow> ('v \<Rightarrow> 'w \<Rightarrow> 'w option) \<Rightarrow> 'k list \<Rightarrow> 'w \<Rightarrow> 'w option" where
  "range_map m body [] w = Some w"
| "range_map m body (k # ks) w = (case gm_get (m w) k of
      None \<Rightarrow> range_map m body ks w
    | Some v \<Rightarrow> (case body v w of None \<Rightarrow> None | Some w' \<Rightarrow> range_map m body ks w'))"

abbreviation l2_map :: "nat \<Rightarrow> ('c, 't) world \<Rightarrow> (FdbKey, nat) gomap" where "l2_map z w \<equiv> L2 (zone w z)"

definition FdbsTicker :: "('c, 't) net_env \<Rightarrow> nat \<Rightarrow> ('c, 't) world \<Rightarrow> ('c, 't) world option" where
  "FdbsTicker env z w = range_map (l2_map z) (FdbTicker env z) (map fst (l2_map z w)) w"

text \<open>The test of the event type is always true: \<open>&\<close> and \<open>|\<close> bind tighter than
\<open>!=\<close>.\<close>

definition L2_PortNotifier :: "nat \<Rightarrow> string \<Rightarrow> ('c, 't) world \<Rightarrow> ('c, 't) world option" where
  "L2_PortNotifier z name w = range_map (l2_map z)
     (\<lambda>f w. Some (if Oif (f_Attr (fdb w f)) = name then snd (L2FdbDel z (f_Key (fdb w f)) w) else w)) (map fst (l2_map z w)) w"

definition L2DestructAll :: "nat \<Rightarrow> ('c, 't) world \<Rightarrow> ('c, 't) world option" where
  "L2DestructAll z w = range_map (l2_map z) (\<lambda>f w. Some (snd (L2FdbDel z (f_Key (fdb w f)) w))) (map fst (l2_map z w)) w"

end
