(* ===== verification/RtOps.thy ===== *)
theory RtOps
  imports L2Ops
begin

text \<open>Routes (\<open>route.go\<close>) and the operations on neighbours that call them
(\<open>neighbor.go\<close>).  The two components call each other: deleting a route may delete a neighbour
that was waiting for it, which deletes the host route of the neighbour; adding a route adds its next
hops, and adding a neighbour adds its host route.  Each operation takes the operations of the other
component as arguments, and the recursion is closed with a depth that the invariant of the tables
shows to be enough.\<close>

subsection \<open>Data path\<close>

abbreviation RtExistsErr :: int where "RtExistsErr \<equiv> -4999"
abbreviation RtNhErr :: int where "RtNhErr \<equiv> -4998"
abbreviation RtNoEntErr :: int where "RtNoEntErr \<equiv> -4997"
abbreviation RtModErr :: int where "RtModErr \<equiv> -4995"
abbreviation RtTrieAddErr :: int where "RtTrieAddErr \<equiv> -4994"
abbreviation NeighExistsErr :: int where "NeighExistsErr \<equiv> -3999"
abbreviation NeighOifErr :: int where "NeighOifErr \<equiv> -3998"
abbreviation NeighNoEntErr :: int where "NeighNoEntErr \<equiv> -3997"
abbreviation NeighRangeErr :: int where "NeighRangeErr \<equiv> -3996"
abbreviation NeighHostRtErr :: int where "NeighHostRtErr \<equiv> -3995"
abbreviation NeighMacErr :: int where "NeighMacErr \<equiv> -3994"

definition RtGetNhMark :: "Rt \<Rightarrow> nat \<Rightarrow> ('c, 't) world \<Rightarrow> u64" where
  "RtGetNhMark r i w = (if i < length (NextHops r) then n_Mark (neigh w (NextHops r ! i)) else NOT 0)"

definition Rt_DP :: "DpWorkT \<Rightarrow> nat \<Rightarrow> ('c, 't) world \<Rightarrow> int \<times> ('c, 't) world" where
  "Rt_DP work r w = (let e = rt w r in
    case ParseCIDR (fst (r_Key e)) of
      None \<Rightarrow> (-1, w)
    | Some (_, net) \<Rightarrow>
       if work = DpStatsGet then (0, to_dp [stat_msg work ''RT4'' (ucast (r_Mark e))] w)
       else
         (let k = min 8 (length (NextHops e)) in
          (0, to_dp [RouteQ \<lparr> rt_Work = work, rt_ZoneNum = r_ZoneNum e, rt_Dst = net, rt_RtType = TFlags e, rt_RtMark = go_int (r_Mark e),
             rt_NMax = int k, rt_NMark = map (\<lambda>i. go_int (RtGetNhMark e i w)) [0..<k] @ replicate (8 - k) 0 \<rparr>] w)))"

subsection \<open>Deletion\<close>

type_synonym ('c, 't) neigh_deleter = "nat \<Rightarrow> IP \<Rightarrow> string \<Rightarrow> int \<Rightarrow> ('c, 't) world \<Rightarrow> (go_ret \<times> ('c, 't) world) option"
type_synonym ('c, 't) route_deleter = "nat \<Rightarrow> IPNet \<Rightarrow> string \<Rightarrow> bool \<Rightarrow> ('c, 't) world \<Rightarrow> (go_ret \<times> ('c, 't) world) option"

fun clear_dep :: "RtDepObj \<Rightarrow> ('c, 't) world \<Rightarrow> ('c, 't) world" where
  "clear_dep (DepFdb f) w = set_fdb f (\<lambda>e. e \<lparr> FdbTun_p := (FdbTun_p e) \<lparr> t_rt := None, t_nh := None \<rparr>, unReach := True \<rparr>) w"
| "clear_dep (DepNeigh n) w = set_neigh n (\<lambda>ne. unresolve ne \<lparr> NhType := NhType ne AND NOT NhRecursive \<rparr>) w"

definition rtClearDeps :: "nat \<Rightarrow> ('c, 't) world \<Rightarrow> ('c, 't) world" where
  "rtClearDeps r w = fold clear_dep (RtDepObjs (rt w r)) w"

definition NeighUnPairRt :: "('c, 't) neigh_deleter \<Rightarrow> nat \<Rightarrow> nat \<Rightarrow> nat \<Rightarrow> ('c, 't) world \<Rightarrow> ('c, 't) world option" where
  "NeighUnPairRt nd z n r w =
    (if gm_get (NhRtm (neigh w n)) (r_Key (rt w r)) = None then Some w
     else
       (let w1 = set_neigh n (\<lambda>ne. ne \<lparr> NhRtm := gm_del (r_Key (rt w r)) (NhRtm ne) \<rparr>) w; ne = neigh w1 n in
        if length (NhRtm ne) < 1 \<and> Inactive ne
        then do { (_, w2) \<leftarrow> nd z (n_Addr ne) (fst (snd (n_Key ne))) (snd (snd (n_Key ne))) w1; Neigh_DP DpRemove n w2 }
        else Some w1))"

fun unpair_all :: "('c, 't) neigh_deleter \<Rightarrow> nat \<Rightarrow> nat list \<Rightarrow> nat \<Rightarrow> ('c, 't) world \<Rightarrow> ('c, 't) world option" where
  "unpair_all nd z [] r w = Some w"
| "unpair_all nd z (n # ns) r w = do { w1 \<leftarrow> NeighUnPairRt nd z n r w; unpair_all nd z ns r w1 }"

definition set_rth :: "nat \<Rightarrow> (('c, 't) RtH \<Rightarrow> ('c, 't) RtH) \<Rightarrow> ('c, 't) world \<Rightarrow> ('c, 't) world" where
  "set_rth z f = set_zone z (\<lambda>zo. zo \<lparr> z_Rt := f (z_Rt zo) \<rparr>)"

definition set_trie :: "('c, 't) net_env \<Rightarrow> nat \<Rightarrow> IPNet \<Rightarrow> ('t \<Rightarrow> int \<times> 't) \<Rightarrow> ('c, 't) world \<Rightarrow> int \<times> ('c, 't) world" where
  "set_trie env z dst f w =
    (if IsNetIPv4 (n_host env) (IP_String (net_IP dst))
     then (case f (Trie4 (z_Rt (zone w z))) of (r, t) \<Rightarrow> (r, set_rth z (\<lambda>h. h \<lparr> Trie4 := t \<rparr>) w))
     else (case f (Trie6 (z_Rt (zone w z))) of (r, t) \<Rightarrow> (r, set_rth z (\<lambda>h. h \<lparr> Trie6 := t \<rparr>) w)))"

definition rt_forget :: "('c, 't) net_env \<Rightarrow> nat \<Rightarrow> RtKey \<Rightarrow> ('c, 't) world \<Rightarrow> ('c, 't) world" where
  "rt_forget env z key = set_rth z (\<lambda>h. h \<lparr> RtMap := gm_del key (RtMap h) \<rparr>)"

definition rt_unmark :: "('c, 't) net_env \<Rightarrow> nat \<Rightarrow> nat \<Rightarrow> ('c, 't) world \<Rightarrow> ('c, 't) world" where
  "rt_unmark env z r w = set_rth z (\<lambda>h. h \<lparr> RtMark_c := nPutCounter env (r_Mark (rt w r)) (RtMark_c h) \<rparr>) w"

definition rt_skip :: "('c, 't) net_env \<Rightarrow> IPNet \<Rightarrow> bool" where
  "rt_skip env dst \<longleftrightarrow> FallBack env \<and> IsUnspecified (net_IP dst)"

definition rt_remove :: "('c, 't) net_env \<Rightarrow> ('c, 't) neigh_deleter \<Rightarrow> nat \<Rightarrow> IPNet \<Rightarrow> nat \<Rightarrow> ('c, 't) world \<Rightarrow> ('c, 't) world option" where
  "rt_remove env nd z dst r w =
    do { w1 \<leftarrow> unpair_all nd z (NextHops (rt w r)) r (rtClearDeps r w);
         (let w2 = snd (set_trie env z dst (DelTrie env (IPNet_String dst)) w1) in
          Some (rt_unmark env z r (snd (Rt_DP DpRemove r (rt_forget env z (r_Key (rt w r)) w2))))) }"

definition rtDeleteCommon :: "('c, 't) net_env \<Rightarrow> ('c, 't) neigh_deleter \<Rightarrow> ('c, 't) route_deleter" where
  "rtDeleteCommon env nd z dst zns host w =
    (if rt_skip env dst then Some (Ok, w)
     else (case RtFind z dst zns w of
         None \<Rightarrow> Some (Err RtNoEntErr ''no such route'', w)
       | Some r \<Rightarrow>
          (let a = r_Attr (rt w r) in
           if host \<and> \<not> HostRoute a then Some (Err RtNoEntErr ''no such host-route'', w)
           else if host \<and> IfRoute a then
             Some (Ok, set_rt r (\<lambda>e. e \<lparr> r_Attr := (r_Attr e) \<lparr> HostRoute := False \<rparr>, TFlags := TFlags e XOR RtTypeHost \<rparr>) w)
           else if \<not> host \<and> HostRoute a \<and> IfRoute a then
             Some (Ok, set_rt r (\<lambda>e. e \<lparr> r_Attr := (r_Attr e) \<lparr> IfRoute := False \<rparr>, TFlags := TFlags e XOR RtTypeIntf \<rparr>) w)
           else do { w1 \<leftarrow> rt_remove env nd z dst r w; Some (Ok, w1) })))"

definition host_net :: "('c, 't) net_env \<Rightarrow> IP \<Rightarrow> IPNet" where
  "host_net env addr = \<lparr> net_IP = addr, net_Mask = (if IsNetIPv4 (n_host env) (IP_String addr) then CIDRMask 32 32 else CIDRMask 128 128) \<rparr>"

definition deactivate :: "Neigh \<Rightarrow> Neigh" where
  "deactivate ne = ne \<lparr> Resolved := False, Inactive := True, n_Attr := (n_Attr ne) \<lparr> HardwareAddr := zero_mac \<rparr> \<rparr>"

definition neigh_forget :: "nat \<Rightarrow> NeighKey \<Rightarrow> ('c, 't) world \<Rightarrow> ('c, 't) world" where
  "neigh_forget z key = set_nh z (\<lambda>h. h \<lparr> NeighMap := gm_del key (NeighMap h) \<rparr>)"

definition has_pair :: "Neigh \<Rightarrow> ('c, 't) world \<Rightarrow> bool" where
  "has_pair ne w \<longleftrightarrow> (case OifPort ne of None \<Rightarrow> False | Some q \<Rightarrow> \<not> IsSlavePort (port w q) \<and> IsLeafPort (port w q) \<and> Resolved ne)"

definition unpair_l2 :: "nat \<Rightarrow> nat \<Rightarrow> ('c, 't) world \<Rightarrow> ('c, 't) world option" where
  "unpair_l2 z n w = (case OifPort (neigh w n) of
      None \<Rightarrow> Some w
    | Some q \<Rightarrow> if has_pair (neigh w n) w
        then do { mac \<leftarrow> mac6 (HardwareAddr (n_Attr (neigh w n))); Some (snd (L2FdbDel z (mac, Vid (p_L2 (port w q))) w)) } else Some w)"

definition neigh_release :: "('c, 't) net_env \<Rightarrow> nat \<Rightarrow> nat \<Rightarrow> ('c, 't) world \<Rightarrow> ('c, 't) world option" where
  "neigh_release env z n w =
    do { w1 \<leftarrow> NeighDelAllTunEP env z n w;
         (let w2 = set_nh z (\<lambda>h. h \<lparr> NeighID := nPutCounter env (n_Mark (neigh w1 n)) (NeighID h) \<rparr>) w1;
              w3 = set_neigh n (\<lambda>ne. ne \<lparr> tFdb := None, n_Mark := NOT 0, OifPort := None, Inactive := True, Resolved := False \<rparr>) w2 in
          Some (neigh_forget z (n_Key (neigh w3 n)) w3)) }"

definition neigh_delete :: "('c, 't) net_env \<Rightarrow> ('c, 't) route_deleter \<Rightarrow> ('c, 't) neigh_deleter" where
  "neigh_delete env rd z addr zns link w = (case gm_get (NeighMap (Nh (zone w z))) (IP_String addr, zns, link) of
      None \<Rightarrow> Some (Err NeighNoEntErr ''no-nh error'', w)
    | Some n \<Rightarrow>
       if Dummy (neigh w n) then
         Some (Ok, if length (NhRtm (neigh w n)) > 0 then set_neigh n deactivate w else neigh_forget z (n_Key (neigh w n)) w)
       else
         do { w1 \<leftarrow> unpair_l2 z n w;
              (_, w2) \<leftarrow> rd z (host_net env addr) zns True w1;
              w3 \<leftarrow> Neigh_DP DpRemove n w2;
              (if length (NhRtm (neigh w3 n)) > 0 then Some (Ok, Activate env z n (set_neigh n deactivate w3))
               else do { w4 \<leftarrow> neigh_release env z n w3; Some (Ok, w4) }) })"

text \<open>A deletion of a route that deletes a neighbour has removed a pair of a neighbour and a route before,
and nothing below it adds one, so the depth is at most the number of pairs.\<close>

primrec rt_del_to :: "nat \<Rightarrow> ('c, 't) net_env \<Rightarrow> ('c, 't) route_deleter" where
  "rt_del_to 0 env = (\<lambda>z dst zns host w. None)"
| "rt_del_to (Suc k) env = rtDeleteCommon env (neigh_delete env (rt_del_to k env))"

definition pairs :: "('c, 't) world \<Rightarrow> nat" where
  "pairs w = sum_list (map (length \<circ> NhRtm) (neighs w))"

definition rt_del :: "('c, 't) net_env \<Rightarrow> ('c, 't) route_deleter" where
  "rt_del env z dst zns host w = rt_del_to (pairs w + 1) env z dst zns host w"

definition RtDelete :: "('c, 't) net_env \<Rightarrow> nat \<Rightarrow> IPNet \<Rightarrow> string \<Rightarrow> ('c, 't) world \<Rightarrow> (go_ret \<times> ('c, 't) world) option" where
  "RtDelete env z dst zns w = rt_del env z dst zns False w"

definition RtDeleteHost :: "('c, 't) net_env \<Rightarrow> nat \<Rightarrow> IPNet \<Rightarrow> string \<Rightarrow> ('c, 't) world \<Rightarrow> (go_ret \<times> ('c, 't) world) option" where
  "RtDeleteHost env z dst zns w = rt_del env z dst zns True w"

definition NeighDelete :: "('c, 't) net_env \<Rightarrow> ('c, 't) neigh_deleter" where
  "NeighDelete env z addr zns link w = neigh_delete env (rt_del env) z addr zns link w"

subsection \<open>Addition\<close>

type_synonym ('c, 't) neigh_adder = "nat \<Rightarrow> IP \<Rightarrow> string \<Rightarrow> NeighAttr \<Rightarrow> ('c, 't) world \<Rightarrow> (go_ret \<times> ('c, 't) world) option"
type_synonym ('c, 't) route_adder = "nat \<Rightarrow> IPNet \<Rightarrow> string \<Rightarrow> RtAttr \<Rightarrow> RtNhAttr list \<Rightarrow> ('c, 't) world \<Rightarrow> (go_ret \<times> ('c, 't) world) option"

text \<open>The next hops of a new route: those found, those made for it, and whether all are there.\<close>

fun add_hops :: "('c, 't) neigh_adder \<Rightarrow> nat \<Rightarrow> string \<Rightarrow> RtAttr \<Rightarrow> nat \<Rightarrow> RtNhAttr list \<Rightarrow> nat list \<Rightarrow> ('c, 't) world \<Rightarrow>
    (string option \<times> nat list \<times> ('c, 't) world) option" where
  "add_hops na z zns a r [] news w = Some (None, news, w)"
| "add_hops na z zns a r (h # hs) news w = (case NeighFind z (NhAddr h) zns (LinkIndex h) w of
      Some n \<Rightarrow> add_hops na z zns a r hs news (set_rt r (\<lambda>e. e \<lparr> NextHops := NextHops e @ [n] \<rparr>) w)
    | None \<Rightarrow>
       if HostRoute a \<and> \<not> IfRoute a then Some (Some ''rt-neigh host error'', news, w)
       else
         do { (_, w1) \<leftarrow> na z (NhAddr h) zns \<lparr> OSLinkIndex = LinkIndex h, OSState = 0, HardwareAddr = zero_mac \<rparr> w;
              (case NeighFind z (NhAddr h) zns (LinkIndex h) w1 of
                 None \<Rightarrow> Some (Some ''rt-neigh error'', news, w1)
               | Some n \<Rightarrow> add_hops na z zns a r hs (news @ [n]) (set_rt r (\<lambda>e. e \<lparr> NextHops := NextHops e @ [n] \<rparr>) w1)) })"

fun del_hops :: "('c, 't) neigh_deleter \<Rightarrow> nat \<Rightarrow> string \<Rightarrow> nat list \<Rightarrow> ('c, 't) world \<Rightarrow> ('c, 't) world option" where
  "del_hops nd z zns [] w = Some w"
| "del_hops nd z zns (n # ns) w =
    do { (_, w1) \<leftarrow> nd z (n_Addr (neigh w n)) zns (OSLinkIndex (n_Attr (neigh w n))) w; del_hops nd z zns ns w1 }"

definition rt_flags :: "RtAttr \<Rightarrow> RtNhAttr list \<Rightarrow> int" where
  "rt_flags a hs = (if hs = [] then RtTypeSelf
     else RtTypeInd OR (if HostRoute a then RtTypeHost else 0) OR (if IfRoute a then RtTypeIntf else 0))"

definition rt_alloc :: "('c, 't) net_env \<Rightarrow> nat \<Rightarrow> RtKey \<Rightarrow> RtAttr \<Rightarrow> RtNhAttr list \<Rightarrow> ('c, 't) world \<Rightarrow> nat \<times> ('c, 't) world" where
  "rt_alloc env z key a hs w =
    (let ((m, _), c) = nGetCounter env (RtMark_c (z_Rt (zone w z))); r = length (rts w);
         e = \<lparr> r_Key = key, r_Attr = a, TFlags = rt_flags a hs, r_Sync = DpStatusOk, r_ZoneNum = ZoneNum (zone w z), r_Mark = m,
               NhAttr = hs, NextHops = [], RtDepObjs = [] \<rparr> in
     (r, set_rth z (\<lambda>h. h \<lparr> RtMark_c := c, RtMap := gm_put key r (RtMap h) \<rparr>) (w \<lparr> rts := rts w @ [e] \<rparr>)))"

definition rt_trie_add :: "('c, 't) net_env \<Rightarrow> nat \<Rightarrow> IPNet \<Rightarrow> nat \<Rightarrow> ('c, 't) world \<Rightarrow> int \<times> ('c, 't) world" where
  "rt_trie_add env z dst r w =
    (if (mask_ones dst \<noteq> 32 \<and> mask_ones dst \<noteq> 128) \<or> \<not> nIsIPRuleVIP env (net_IP dst)
     then set_trie env z dst (AddTrie env (IPNet_String dst) (case NextHops (rt w r) of [] \<Rightarrow> TrieIfi r | n # _ \<Rightarrow> TrieNeigh n)) w
     else (0, w))"

definition rt_create :: "('c, 't) net_env \<Rightarrow> ('c, 't) neigh_adder \<Rightarrow> nat \<Rightarrow> IPNet \<Rightarrow> string \<Rightarrow> RtAttr \<Rightarrow> RtNhAttr list \<Rightarrow> ('c, 't) world \<Rightarrow>
    (go_ret \<times> ('c, 't) world) option" where
  "rt_create env na z dst zns a hs w =
    (let key = (IPNet_String dst, zns); (r, w1) = rt_alloc env z key a hs w; undo = (\<lambda>w. rt_unmark env z r (rt_forget env z key w)) in
     do { (err, news, w2) \<leftarrow> add_hops na z zns a r hs [] w1;
          (case err of
             Some e \<Rightarrow> Some (Err RtNhErr e, undo w2)
           | None \<Rightarrow>
              (let w3 = fold (\<lambda>n. NeighPairRt n r) (NextHops (rt w2 r)) w2; (tret, w4) = rt_trie_add env z dst r w3 in
               if tret \<noteq> 0 then do { w5 \<leftarrow> del_hops (NeighDelete env) z zns news w4; Some (Err RtTrieAddErr ''RT Trie Err'', undo w5) }
               else Some (Ok, snd (Rt_DP DpCreate r w4)))) })"

definition rt_changed :: "RtNhAttr list \<Rightarrow> RtNhAttr list \<Rightarrow> bool" where
  "rt_changed new old \<longleftrightarrow> length old \<noteq> length new \<or> list_ex (\<lambda>(a, b). \<not> IP_Equal (NhAddr a) (NhAddr b)) (zip new old)"

definition rt_merge :: "nat \<Rightarrow> RtAttr \<Rightarrow> ('c, 't) world \<Rightarrow> go_ret \<times> ('c, 't) world" where
  "rt_merge r a w = (let b = r_Attr (rt w r) in
    if \<not> IfRoute b \<and> IfRoute a \<and> HostRoute b then
      (Ok, set_rt r (\<lambda>e. e \<lparr> r_Attr := (r_Attr e) \<lparr> IfRoute := True \<rparr>, TFlags := TFlags e OR RtTypeIntf \<rparr>) w)
    else if \<not> HostRoute b \<and> HostRoute a \<and> IfRoute b then
      (Ok, set_rt r (\<lambda>e. e \<lparr> r_Attr := (r_Attr e) \<lparr> HostRoute := True \<rparr>, TFlags := TFlags e OR RtTypeHost \<rparr>) w)
    else (Err RtExistsErr ''rt exists'', w))"

text \<open>\<open>again\<close> is the recursive call after the deletion of a route whose next hops change.\<close>

definition rt_add_step :: "('c, 't) net_env \<Rightarrow> ('c, 't) neigh_adder \<Rightarrow> ('c, 't) route_adder \<Rightarrow> ('c, 't) route_adder" where
  "rt_add_step env na again z dst zns a hs w =
    (if rt_skip env dst then Some (Ok, w)
     else (case RtFind z dst zns w of
         None \<Rightarrow> rt_create env na z dst zns a hs w
       | Some r \<Rightarrow>
          if rt_changed hs (NhAttr (rt w r)) then
            do { (ret, w1) \<leftarrow> RtDelete env z dst zns w;
                 (if ret \<noteq> Ok then Some (Err RtModErr ''rt mod error'', w1) else again z dst zns a hs w1) }
          else Some (rt_merge r a w)))"

definition pair_l2 :: "('c, 't) net_env \<Rightarrow> nat \<Rightarrow> nat \<Rightarrow> nat \<Rightarrow> ('c, 't) world \<Rightarrow> (go_ret \<times> ('c, 't) world) option" where
  "pair_l2 env z n q w =
    (if \<not> IsSlavePort (port w q) \<and> IsLeafPort (port w q) \<and> Resolved (neigh w n)
     then do { mac \<leftarrow> mac6 (HardwareAddr (n_Attr (neigh w n)));
               L2FdbAdd env z (mac, Vid (p_L2 (port w q))) \<lparr> Oif = p_Name (port w q), f_Dst = ParseIP ''0.0.0.0'', FdbType = FdbPhy \<rparr> w }
     else Some (Ok, w))"

definition err_code :: "go_ret \<Rightarrow> int" where
  "err_code r = (case r of Ok \<Rightarrow> 0 | Err c _ \<Rightarrow> c)"

text \<open>The end of an addition: the host route and the forwarding entry of the neighbour.\<close>

definition neigh_finish :: "('c, 't) net_env \<Rightarrow> ('c, 't) route_adder \<Rightarrow> nat \<Rightarrow> IP \<Rightarrow> string \<Rightarrow> int \<Rightarrow> nat \<Rightarrow> nat \<Rightarrow> ('c, 't) world \<Rightarrow>
    (go_ret \<times> ('c, 't) world) option" where
  "neigh_finish env ra z addr zns link n q w =
    do { (r, w1) \<leftarrow> ra z (host_net env addr) zns \<lparr> Protocol = 0, OSFlags = 0, HostRoute = True, Ifi = link, IfRoute = False \<rparr>
             [\<lparr> NhAddr = addr, LinkIndex = link \<rparr>] w;
         (if r \<noteq> Ok \<and> err_code r \<noteq> RtExistsErr then
            do { (_, w2) \<leftarrow> NeighDelete env z addr zns link w1; Some (Err NeighHostRtErr ''nh-hostrt error'', w2) }
          else
            do { (r2, w2) \<leftarrow> pair_l2 env z n q w1;
                 (if r2 \<noteq> Ok \<and> err_code r2 \<noteq> L2SameFdbErr then
                    do { (_, w3) \<leftarrow> RtDeleteHost env z (host_net env addr) zns w2;
                         (_, w4) \<leftarrow> NeighDelete env z addr zns link w3;
                         Some (Err NeighMacErr ''nh-mac error'', w4) }
                  else Some (Ok, Activate env z n w2)) }) }"

definition neigh_mark :: "('c, 't) net_env \<Rightarrow> nat \<Rightarrow> Neigh \<Rightarrow> ('c, 't) world \<Rightarrow> Neigh option \<times> ('c, 't) world" where
  "neigh_mark env z ne w =
    (if n_Mark ne \<noteq> 0 then (Some ne, w)
     else (case nGetCounter env (NeighID (Nh (zone w z))) of
         ((m, ok), c) \<Rightarrow> (if ok then Some (ne \<lparr> n_Mark := m \<rparr>) else None, set_nh z (\<lambda>h. h \<lparr> NeighID := c \<rparr>) w)))"

definition neigh_put :: "nat \<Rightarrow> NeighKey \<Rightarrow> nat \<Rightarrow> ('c, 't) world \<Rightarrow> ('c, 't) world" where
  "neigh_put z key n = set_nh z (\<lambda>h. h \<lparr> NeighMap := gm_put key n (NeighMap h) \<rparr>)"

definition neigh_store :: "nat option \<Rightarrow> Neigh \<Rightarrow> ('c, 't) world \<Rightarrow> nat \<times> ('c, 't) world" where
  "neigh_store old ne w = (case old of
      None \<Rightarrow> (length (neighs w), w \<lparr> neighs := neighs w @ [ne] \<rparr>)
    | Some n \<Rightarrow> (n, set_neigh n (\<lambda>_. ne) w))"

text \<open>A neighbour that is new or was the dummy \<open>old\<close>.\<close>

definition neigh_install :: "('c, 't) net_env \<Rightarrow> ('c, 't) route_adder \<Rightarrow> nat \<Rightarrow> IP \<Rightarrow> string \<Rightarrow> NeighAttr \<Rightarrow> nat \<Rightarrow> nat option \<Rightarrow> ('c, 't) world \<Rightarrow>
    (go_ret \<times> ('c, 't) world) option" where
  "neigh_install env ra z addr zns attr q old w =
    (let ne0 = (case old of None \<Rightarrow> zero_neigh \<lparr> n_Key := (IP_String addr, zns, OSLinkIndex attr) \<rparr> | Some n \<Rightarrow> neigh w n) in
     case neigh_mark env z ne0 w of
       (None, w1) \<Rightarrow> Some (Err NeighRangeErr ''nh-hwm error'', w1)
     | (Some ne, w1) \<Rightarrow>
        (let (n, w2) = neigh_store old (ne \<lparr> Dummy := False, n_Addr := addr, n_Attr := attr, OifPort := Some q,
               NhType := NhType ne OR NhNormal, Inactive := False \<rparr>) w1 in
         do { (_, w3) \<leftarrow> NeighRecursiveResolve env z n w2;
              w4 \<leftarrow> Neigh_DP DpCreate n (if old = None then neigh_put z (n_Key (neigh w3 n)) n w3 else w3);
              neigh_finish env ra z addr zns (OSLinkIndex attr) n q w4 }))"

definition neigh_refresh :: "('c, 't) net_env \<Rightarrow> ('c, 't) route_adder \<Rightarrow> nat \<Rightarrow> IP \<Rightarrow> string \<Rightarrow> NeighAttr \<Rightarrow> nat \<Rightarrow> nat \<Rightarrow> ('c, 't) world \<Rightarrow>
    (go_ret \<times> ('c, 't) world) option" where
  "neigh_refresh env ra z addr zns attr q n w0 =
    (let w = set_neigh n (\<lambda>ne. ne \<lparr> Inactive := False, Dummy := False \<rparr>) w0; ne = neigh w n in
     if HardwareAddr attr = zero_mac then Some (Err NeighExistsErr ''nh exists'', set_neigh n (\<lambda>ne. ne \<lparr> Resolved := False \<rparr>) w)
     else if HardwareAddr attr \<noteq> HardwareAddr (n_Attr ne) \<or> \<not> Resolved ne then
       do { (_, w1) \<leftarrow> NeighRecursiveResolve env z n (set_neigh n (\<lambda>ne. ne \<lparr> Resolved := True,
                n_Attr := (n_Attr ne) \<lparr> HardwareAddr := HardwareAddr attr \<rparr> \<rparr>) w);
            w2 \<leftarrow> Neigh_DP DpCreate n w1;
            neigh_finish env ra z addr zns (OSLinkIndex attr) n q w2 }
     else Some (Err NeighExistsErr ''nh exists'', w))"

definition tun_mac :: "u8 list" where "tun_mac = [0x00, 0x11, 0x22, 0x33, 0x44, 0x55]"

definition neigh_add :: "('c, 't) net_env \<Rightarrow> ('c, 't) route_adder \<Rightarrow> ('c, 't) neigh_adder" where
  "neigh_add env ra z addr zns attr0 w =
    (let key = (IP_String addr, zns, OSLinkIndex attr0); old = gm_get (NeighMap (Nh (zone w z))) key in
     case PortFindByOSID z (OSLinkIndex attr0) w of
       None \<Rightarrow> Some (Err NeighOifErr ''nh-oif error'',
         (case old of
            None \<Rightarrow> neigh_put z key (length (neighs w)) (w \<lparr> neighs := neighs w @
               [zero_neigh \<lparr> n_Key := key, Dummy := True, n_Addr := addr, n_Attr := attr0, Inactive := True \<rparr>] \<rparr>)
          | Some n \<Rightarrow> set_neigh n (\<lambda>ne. ne \<lparr> Dummy := True, OifPort := None \<rparr>) w))
     | Some q \<Rightarrow>
        (let attr = (if IsL3TunPort (port w q) then attr0 \<lparr> HardwareAddr := tun_mac \<rparr> else attr0) in
         case old of
           None \<Rightarrow> neigh_install env ra z addr zns attr q None w
         | Some n \<Rightarrow> if Dummy (neigh w n) then neigh_install env ra z addr zns attr q (Some n) w
             else neigh_refresh env ra z addr zns attr q n w))"

text \<open>A route is deleted at most twice before it is added, because the first deletion may only take back
one of its two roles; its new next hops add their host routes, whose next hop is there.\<close>

primrec rt_add_to :: "nat \<Rightarrow> ('c, 't) net_env \<Rightarrow> ('c, 't) route_adder" where
  "rt_add_to 0 env = (\<lambda>z dst zns a hs w. None)"
| "rt_add_to (Suc k) env = rt_add_step env (neigh_add env (rt_add_to k env)) (rt_add_to k env)"

definition RtAdd :: "('c, 't) net_env \<Rightarrow> ('c, 't) route_adder" where
  "RtAdd env = rt_add_to 6 env"

definition NeighAdd :: "('c, 't) net_env \<Rightarrow> ('c, 't) neigh_adder" where
  "NeighAdd env = neigh_add env (RtAdd env)"

subsection \<open>Loops over the tables\<close>

abbreviation nh_map :: "nat \<Rightarrow> ('c, 't) world \<Rightarrow> (NeighKey, nat) gomap" where "nh_map z w \<equiv> NeighMap (Nh (zone w z))"
abbreviation rt_map :: "nat \<Rightarrow> ('c, 't) world \<Rightarrow> (RtKey, nat) gomap" where "rt_map z w \<equiv> RtMap (z_Rt (zone w z))"

fun rt_del_hops :: "('c, 't) net_env \<Rightarrow> nat \<Rightarrow> string \<Rightarrow> IPNet \<Rightarrow> nat list \<Rightarrow> ('c, 't) world \<Rightarrow> ('c, 't) world option" where
  "rt_del_hops env z name dst [] w = Some w"
| "rt_del_hops env z name dst (n # ns) w =
    (if (case OifPort (neigh w n) of None \<Rightarrow> False | Some q \<Rightarrow> p_Name (port w q) = name)
     then do { (_, w1) \<leftarrow> RtDelete env z dst (z_Name (zone w z)) w; rt_del_hops env z name dst ns w1 }
     else rt_del_hops env z name dst ns w)"

definition RtDeleteByPort :: "('c, 't) net_env \<Rightarrow> nat \<Rightarrow> string \<Rightarrow> ('c, 't) world \<Rightarrow> ('c, 't) world option" where
  "RtDeleteByPort env z name w = range_map (rt_map z)
     (\<lambda>r w. if HostRoute (r_Attr (rt w r)) then Some w
        else (case ParseCIDR (fst (r_Key (rt w r))) of
            None \<Rightarrow> Some w
          | Some (_, dst) \<Rightarrow> rt_del_hops env z name dst (NextHops (rt w r)) w)) (map fst (rt_map z w)) w"

definition RtDestructAll :: "('c, 't) net_env \<Rightarrow> nat \<Rightarrow> ('c, 't) world \<Rightarrow> ('c, 't) world option" where
  "RtDestructAll env z w = range_map (rt_map z)
     (\<lambda>r w. case ParseCIDR (fst (r_Key (rt w r))) of
        None \<Rightarrow> Some w
      | Some (_, dst) \<Rightarrow> map_option snd (RtDelete env z dst (snd (r_Key (rt w r))) w)) (map fst (rt_map z w)) w"

definition RoutesSync :: "nat \<Rightarrow> ('c, 't) world \<Rightarrow> ('c, 't) world" where
  "RoutesSync z w = fold (\<lambda>r w. snd (Rt_DP DpStatsGet r w)) (map snd (rt_map z w)) w"

definition neigh_del_key :: "('c, 't) net_env \<Rightarrow> nat \<Rightarrow> IP \<Rightarrow> nat \<Rightarrow> ('c, 't) world \<Rightarrow> ('c, 't) world option" where
  "neigh_del_key env z addr n w = map_option snd (NeighDelete env z addr (fst (snd (n_Key (neigh w n)))) (snd (snd (n_Key (neigh w n)))) w)"

definition on_port :: "string \<Rightarrow> nat \<Rightarrow> ('c, 't) world \<Rightarrow> bool" where
  "on_port name n w \<longleftrightarrow> (case OifPort (neigh w n) of None \<Rightarrow> False | Some q \<Rightarrow> p_Name (port w q) = name)"

definition NeighDeleteByPort :: "('c, 't) net_env \<Rightarrow> nat \<Rightarrow> string \<Rightarrow> ('c, 't) world \<Rightarrow> ('c, 't) world option" where
  "NeighDeleteByPort env z name w = range_map (nh_map z)
     (\<lambda>n w. if on_port name n w then neigh_del_key env z (n_Addr (neigh w n)) n w else Some w) (map fst (nh_map z w)) w"

definition Neigh_PortNotifier :: "('c, 't) net_env \<Rightarrow> nat \<Rightarrow> string \<Rightarrow> ('c, 't) world \<Rightarrow> ('c, 't) world option" where
  "Neigh_PortNotifier env z name w = range_map (nh_map z)
     (\<lambda>n w. if on_port name n w then neigh_del_key env z (ParseIP (fst (n_Key (neigh w n)))) n w else Some w) (map fst (nh_map z w)) w"

definition NeighDestructAll :: "('c, 't) net_env \<Rightarrow> nat \<Rightarrow> ('c, 't) world \<Rightarrow> ('c, 't) world option" where
  "NeighDestructAll env z w = range_map (nh_map z)
     (\<lambda>n w. neigh_del_key env z (ParseIP (fst (n_Key (neigh w n)))) n w) (map fst (nh_map z w)) w"

definition NeighTicker :: "('c, 't) net_env \<Rightarrow> nat \<Rightarrow> nat \<Rightarrow> ('c, 't) world \<Rightarrow> ('c, 't) world option" where
  "NeighTicker env z n w =
    (let k = n_Key (neigh w n);
         finish = (\<lambda>w. do { (chg, w1) \<leftarrow> NeighRecursiveResolve env z n (Activate env z n w); (if chg then Neigh_DP DpCreate n w1 else Some w1) }) in
     if \<not> Dummy (neigh w n) then finish w
     else (case fst (Zonefind (fst (snd k)) w) of
         None \<Rightarrow> Some (neigh_forget z k w)
       | Some zn \<Rightarrow> do { (_, w1) \<leftarrow> NeighAdd env zn (ParseIP (fst k)) (fst (snd k)) (n_Attr (neigh w n)) w; finish w1 }))"

definition NeighsTicker :: "('c, 't) net_env \<Rightarrow> nat \<Rightarrow> ('c, 't) world \<Rightarrow> ('c, 't) world option" where
  "NeighsTicker env z w = range_map (nh_map z) (NeighTicker env z) (map fst (nh_map z w)) w"

subsection \<open>Listing\<close>

definition GetFlagToString :: "int \<Rightarrow> string" where
  "GetFlagToString flag = (if flag AND RtTypeInd \<noteq> 0 then ''Ind '' else []) @ (if flag AND RtTypeDyn \<noteq> 0 then ''Dyn '' else []) @
     (if flag AND RtTypeSelf \<noteq> 0 then ''Self '' else []) @ (if flag AND RtTypeHost \<noteq> 0 then ''Host '' else []) @
     (if flag AND RtTypeIntf \<noteq> 0 then ''Interface '' else [])"

fun join_comma :: "string list \<Rightarrow> string" where
  "join_comma [] = []"
| "join_comma [s] = s"
| "join_comma (s # ss) = s @ '','' @ join_comma ss"

record RouteGet_t =
  rg_Dst :: string
  rg_Flags :: string
  rg_Gw :: string
  rg_HardwareMark :: int
  rg_Protocol :: int
  rg_Sync :: DpStatusT

text \<open>The counters of a route are written by the data path and left out.\<close>

definition RouteGet :: "nat \<Rightarrow> ('c, 't) world \<Rightarrow> RouteGet_t list" where
  "RouteGet z w = map (\<lambda>(k, r). let e = rt w r in
     \<lparr> rg_Dst = fst k, rg_Flags = GetFlagToString (TFlags e), rg_Gw = join_comma (map (\<lambda>n. IP_String (n_Addr (neigh w n))) (NextHops e)),
       rg_HardwareMark = go_int (r_Mark e), rg_Protocol = Protocol (r_Attr e), rg_Sync = r_Sync e \<rparr>) (rt_map z w)"

end
