(* ===== verification/SessOps.thy ===== *)
theory SessOps
  imports VlanOps
begin

text \<open>User sessions with their uplink classifiers (\<open>session.go\<close>).  A classifier takes two
numbers of the counter, one per direction.\<close>

abbreviation SessModErr :: int where "SessModErr \<equiv> -101999"
abbreviation SessNoExistErr :: int where "SessNoExistErr \<equiv> -101998"
abbreviation SessExistsErr :: int where "SessExistsErr \<equiv> -101997"
abbreviation SessUlClExistErr :: int where "SessUlClExistErr \<equiv> -101996"
abbreviation SessUlClNoExistErr :: int where "SessUlClNoExistErr \<equiv> -101994"

definition SessTun_Equal :: "SessTun \<Rightarrow> SessTun \<Rightarrow> bool" where
  "SessTun_Equal a b \<longleftrightarrow> TeID a = TeID b \<and> IP_Equal (st_Addr a) (st_Addr b)"

abbreviation sessh :: "nat \<Rightarrow> ('c, 't) world \<Rightarrow> 'c SessH" where "sessh z w \<equiv> Sess (zone w z)"

definition set_sess :: "nat \<Rightarrow> ('c SessH \<Rightarrow> 'c SessH) \<Rightarrow> ('c, 't) world \<Rightarrow> ('c, 't) world" where
  "set_sess z f = set_zone z (\<lambda>zo. zo \<lparr> Sess := f (Sess zo) \<rparr>)"

definition put_user :: "nat \<Rightarrow> string \<Rightarrow> UserSess \<Rightarrow> ('c, 't) world \<Rightarrow> ('c, 't) world" where
  "put_user z user us = set_sess z (\<lambda>s. s \<lparr> UserMap := gm_put user us (UserMap s) \<rparr>)"

definition SessInit :: "('c, 't) net_env \<Rightarrow> 'c SessH" where
  "SessInit env = \<lparr> UserMap = [], sess_Mark = NewCounter env 1 20000 \<rparr>"

subsection \<open>Data path\<close>

definition UlCl_DP :: "DpWorkT \<Rightarrow> UserSess \<Rightarrow> UlClInf \<Rightarrow> ('c, 't) world \<Rightarrow> ('c, 't) world" where
  "UlCl_DP work us c w =
    (if work = DpStatsGet then
       to_dp [stat_msg work ''ULCL'' (ucast (NumUl c)), stat_msg work ''ULCL'' (ucast (NumDl c))] w
     else
       to_dp [UlClQ \<lparr> ul_Work = work, ul_MDip = uc_Addr c, ul_MSip = us_Addr us, ul_mTeID = TeID (CnTun us), ul_Zone = us_Zone us,
                ul_Qfi = Qfi c, ul_Mark = go_int (NumUl c), ul_TDip = [], ul_TSip = [], ul_TTeID = 0, ul_Type = DpTunNone \<rparr>,
              UlClQ \<lparr> ul_Work = work, ul_MDip = us_Addr us, ul_MSip = uc_Addr c, ul_mTeID = 0, ul_Zone = us_Zone us,
                ul_Qfi = Qfi c, ul_Mark = go_int (NumDl c), ul_TDip = st_Addr (AnTun us), ul_TSip = st_Addr (CnTun us),
                ul_TTeID = TeID (AnTun us), ul_Type = DpTunNone \<rparr>] w)"

subsection \<open>Classifiers\<close>

definition get_mark :: "('c, 't) net_env \<Rightarrow> nat \<Rightarrow> ('c, 't) world \<Rightarrow> u64 \<times> ('c, 't) world" where
  "get_mark env z w = (case nGetCounter env (sess_Mark (sessh z w)) of ((m, _), c) \<Rightarrow> (m, set_sess z (\<lambda>s. s \<lparr> sess_Mark := c \<rparr>) w))"

definition UlClAddCls :: "('c, 't) net_env \<Rightarrow> nat \<Rightarrow> string \<Rightarrow> IP \<Rightarrow> u8 \<Rightarrow> ('c, 't) world \<Rightarrow> go_ret \<times> ('c, 't) world" where
  "UlClAddCls env z user addr qfi w = (case gm_get (UserMap (sessh z w)) user of
      None \<Rightarrow> (Err SessNoExistErr ''no-user error'', w)
    | Some us \<Rightarrow>
       if gm_get (UlCl us) (IP_String addr) \<noteq> None then (Err SessUlClExistErr ''ulcl-exists error'', w)
       else
         (let (ul, w1) = get_mark env z w; (dl, w2) = get_mark env z w1;
              c = \<lparr> uc_Addr = addr, Qfi = qfi, NumUl = ul, NumDl = dl \<rparr> in
          (Ok, UlCl_DP DpCreate us c (put_user z user (us \<lparr> UlCl := gm_put (IP_String addr) c (UlCl us) \<rparr>) w2))))"

definition UlClDeleteCls :: "('c, 't) net_env \<Rightarrow> nat \<Rightarrow> string \<Rightarrow> IP \<Rightarrow> ('c, 't) world \<Rightarrow> go_ret \<times> ('c, 't) world" where
  "UlClDeleteCls env z user addr w = (case gm_get (UserMap (sessh z w)) user of
      None \<Rightarrow> (Err SessNoExistErr ''no-user error'', w)
    | Some us \<Rightarrow> (case gm_get (UlCl us) (IP_String addr) of
        None \<Rightarrow> (Err SessUlClNoExistErr ''no-ulcl error'', w)
      | Some c \<Rightarrow>
         (Ok, put_user z user (us \<lparr> UlCl := gm_del (IP_String addr) (UlCl us) \<rparr>)
            (set_sess z (\<lambda>s. s \<lparr> sess_Mark := nPutCounter env (NumUl c) (sess_Mark s) \<rparr>) (UlCl_DP DpRemove us c w)))))"

subsection \<open>Sessions\<close>

definition SessDelete :: "('c, 't) net_env \<Rightarrow> nat \<Rightarrow> string \<Rightarrow> ('c, 't) world \<Rightarrow> go_ret \<times> ('c, 't) world" where
  "SessDelete env z user w = (case gm_get (UserMap (sessh z w)) user of
      None \<Rightarrow> (Err SessNoExistErr ''no-user error'', w)
    | Some us \<Rightarrow>
       (Ok, set_sess z (\<lambda>s. s \<lparr> UserMap := gm_del user (UserMap s) \<rparr>)
          (fold (\<lambda>(_, c) w. snd (UlClDeleteCls env z user (uc_Addr c) w)) (UlCl us) w)))"

definition new_sess :: "nat \<Rightarrow> string \<Rightarrow> IP \<Rightarrow> SessTun \<Rightarrow> SessTun \<Rightarrow> ('c, 't) world \<Rightarrow> go_ret \<times> ('c, 't) world" where
  "new_sess z user ip an cn w = (Ok, put_user z user \<lparr> us_Key = user, us_Addr = ip, us_Zone = ZoneNum (zone w z),
     AnTun = an, CnTun = cn, UlCl = [] \<rparr> w)"

definition SessAdd :: "('c, 't) net_env \<Rightarrow> nat \<Rightarrow> string \<Rightarrow> IP \<Rightarrow> SessTun \<Rightarrow> SessTun \<Rightarrow> ('c, 't) world \<Rightarrow> go_ret \<times> ('c, 't) world" where
  "SessAdd env z user ip an cn w = (case gm_get (UserMap (sessh z w)) user of
      None \<Rightarrow> new_sess z user ip an cn w
    | Some us \<Rightarrow>
       if \<not> SessTun_Equal (AnTun us) an \<or> SessTun_Equal (CnTun us) cn then
         (case SessDelete env z user w of
            (Ok, w1) \<Rightarrow> new_sess z user ip an cn w1
          | (Err _ _, w1) \<Rightarrow> (Err SessModErr ''sess-mod error'', w1))
       else (Err SessExistsErr ''sess-exists error'', w))"

record SessionMod =
  sm_Ident :: string
  sm_IP :: IP
  sm_AnTun :: SessTun
  sm_CnTun :: SessTun

definition SessGet :: "nat \<Rightarrow> ('c, 't) world \<Rightarrow> SessionMod list" where
  "SessGet z w = map (\<lambda>(k, us). \<lparr> sm_Ident = k, sm_IP = us_Addr us, sm_AnTun = AnTun us, sm_CnTun = CnTun us \<rparr>) (UserMap (sessh z w))"

definition SessUlclGet :: "nat \<Rightarrow> ('c, 't) world \<Rightarrow> (string \<times> u8 \<times> IP) list" where
  "SessUlclGet z w = concat (map (\<lambda>(k, us). map (\<lambda>(_, c). (k, Qfi c, uc_Addr c)) (UlCl us)) (UserMap (sessh z w)))"

definition SessionsSync :: "nat \<Rightarrow> ('c, 't) world \<Rightarrow> ('c, 't) world" where
  "SessionsSync z w = fold (\<lambda>(_, us) w. fold (\<lambda>(_, c) w. UlCl_DP DpStatsGet us c w) (UlCl us) w) (UserMap (sessh z w)) w"

end
