(* ===== verification/PolMirr.thy ===== *)
theory PolMirr
  imports VlanOps
begin

text \<open>Policers (\<open>qospol.go\<close>) and mirrors (\<open>mirror.go\<close>).  Both are named entries with a
number, attached to ports through a property of the port.  The value 1 of \<open>Sync\<close> is the
status \<open>DpCreateErr\<close>.\<close>

subsection \<open>Attachments\<close>

text \<open>\<open>PolObj2DP\<close> and \<open>MirrObj2DP\<close> differ in the property.\<close>

definition obj_dp :: "u8 \<Rightarrow> nat \<Rightarrow> u64 \<Rightarrow> DpWorkT \<Rightarrow> attached \<Rightarrow> ('c, 't) world \<Rightarrow> attached \<times> ('c, 't) world" where
  "obj_dp prop z num work ob w =
    (if AttachMent (o_Args ob) \<noteq> AttachPort then (ob, w)
     else (case PortFindByName z (ObjName (o_Args ob)) w of
         None \<Rightarrow> (ob \<lparr> o_Sync := DpCreateErr \<rparr>, w)
       | Some q \<Rightarrow>
          if work = DpCreate then
            (case PortUpdateProp z (p_Name (port w q)) prop (z_Name (zone w z)) True (go_int num) w of
               (Ok, w1) \<Rightarrow> (ob \<lparr> o_Sync := DpStatusOk \<rparr>, w1)
             | (Err _ _, w1) \<Rightarrow> (ob \<lparr> o_Sync := DpCreateErr \<rparr>, w1))
          else if work = DpRemove then
            (ob \<lparr> o_Sync := DpStatusOk \<rparr>, snd (PortUpdateProp z (p_Name (port w q)) prop (z_Name (zone w z)) False 0 w))
          else (ob \<lparr> o_Sync := DpStatusOk \<rparr>, w)))"

definition PolObj2DP :: "nat \<Rightarrow> PolEntry \<Rightarrow> DpWorkT \<Rightarrow> attached \<Rightarrow> ('c, 't) world \<Rightarrow> attached \<times> ('c, 't) world" where
  "PolObj2DP z p = obj_dp PortPropPol z (pl_HwNum p)"

definition MirrObj2DP :: "nat \<Rightarrow> MirrEntry \<Rightarrow> DpWorkT \<Rightarrow> attached \<Rightarrow> ('c, 't) world \<Rightarrow> attached \<times> ('c, 't) world" where
  "MirrObj2DP z m = obj_dp PortPropSpan z (mi_HwNum m)"

definition obj_validate :: "attach \<Rightarrow> bool" where
  "obj_validate a \<longleftrightarrow> AttachMent a = AttachPort \<or> AttachMent a = AttachRule"

text \<open>One object in the ticker of an entry that is in sync: it is attached again, or found missing.\<close>

definition obj_tick :: "(DpWorkT \<Rightarrow> attached \<Rightarrow> ('c, 't) world \<Rightarrow> attached \<times> ('c, 't) world) \<Rightarrow> nat \<Rightarrow> attached \<Rightarrow> ('c, 't) world \<Rightarrow>
    attached \<times> ('c, 't) world" where
  "obj_tick dp z ob w =
    (if o_Sync ob \<noteq> DpStatusOk then dp DpCreate ob w
     else if AttachMent (o_Args ob) = AttachPort \<and> PortFindByName z (ObjName (o_Args ob)) w = None
     then (ob \<lparr> o_Sync := DpCreateErr \<rparr>, w) else (ob, w))"

fun map_objs :: "(attached \<Rightarrow> ('c, 't) world \<Rightarrow> attached \<times> ('c, 't) world) \<Rightarrow> attached list \<Rightarrow> ('c, 't) world \<Rightarrow>
    attached list \<times> ('c, 't) world" where
  "map_objs f [] w = ([], w)"
| "map_objs f (x # xs) w = (let (y, w1) = f x w; (ys, w2) = map_objs f xs w1 in (y # ys, w2))"

definition port_gone :: "string \<Rightarrow> attached \<Rightarrow> attached" where
  "port_gone name ob = (if AttachMent (o_Args ob) = AttachPort \<and> ObjName (o_Args ob) = name then ob \<lparr> o_Sync := DpCreateErr \<rparr> else ob)"

subsection \<open>Policers\<close>

abbreviation PolInfoErr :: int where "PolInfoErr \<equiv> -99998"
abbreviation PolAttachErr :: int where "PolAttachErr \<equiv> -99997"
abbreviation PolNoExistErr :: int where "PolNoExistErr \<equiv> -99996"
abbreviation PolExistsErr :: int where "PolExistsErr \<equiv> -99995"
abbreviation MinPolRate :: u64 where "MinPolRate \<equiv> 8"
abbreviation DflPolBlkSz :: u64 where "DflPolBlkSz \<equiv> 30000000"

definition PolInit :: "('c, 't) net_env \<Rightarrow> 'c PolH" where
  "PolInit env = \<lparr> PolMap = [], pol_Mark = NewCounter env 1 8192 \<rparr>"

abbreviation polh :: "nat \<Rightarrow> ('c, 't) world \<Rightarrow> 'c PolH" where "polh z w \<equiv> Pols (zone w z)"

definition set_polh :: "nat \<Rightarrow> ('c PolH \<Rightarrow> 'c PolH) \<Rightarrow> ('c, 't) world \<Rightarrow> ('c, 't) world" where
  "set_polh z f = set_zone z (\<lambda>zo. zo \<lparr> Pols := f (Pols zo) \<rparr>)"

definition put_pol :: "nat \<Rightarrow> string \<Rightarrow> PolEntry \<Rightarrow> ('c, 't) world \<Rightarrow> ('c, 't) world" where
  "put_pol z name p = set_polh z (\<lambda>h. h \<lparr> PolMap := gm_put name p (PolMap h) \<rparr>)"

definition PolInfoXlateValidate :: "PolInfo \<Rightarrow> PolInfo option" where
  "PolInfoXlateValidate i =
    (if CommittedInfoRate i < MinPolRate then None
     else if PeakInfoRate i < MinPolRate then None
     else
       (let cbs = (if CommittedBlkSize i = 0 then DflPolBlkSz else CommittedBlkSize i) in
        Some (i \<lparr> CommittedInfoRate := CommittedInfoRate i * 1000000, PeakInfoRate := PeakInfoRate i * 1000000,
          CommittedBlkSize := cbs, ExcessBlkSize := 2 * cbs \<rparr>)))"

definition Pol_DP :: "DpWorkT \<Rightarrow> PolEntry \<Rightarrow> ('c, 't) world \<Rightarrow> ('c, 't) world" where
  "Pol_DP work p w =
    (if work = DpStatsGet then to_dp [stat_msg work ''IPOL'' (ucast (pl_HwNum p))] w
     else to_dp [PolQ \<lparr> po_Work = work, po_Name = [], po_Mark = go_int (pl_HwNum p), po_Cir = CommittedInfoRate (pl_Info p),
       po_Pir = PeakInfoRate (pl_Info p), po_Cbs = CommittedBlkSize (pl_Info p), po_Ebs = ExcessBlkSize (pl_Info p),
       po_Color = ColorAware (pl_Info p), po_Srt = False \<rparr>] w)"

definition PolDelete :: "('c, 't) net_env \<Rightarrow> nat \<Rightarrow> string \<Rightarrow> ('c, 't) world \<Rightarrow> go_ret \<times> ('c, 't) world" where
  "PolDelete env z name w = (case gm_get (PolMap (polh z w)) name of
      None \<Rightarrow> (Err PolNoExistErr ''no such policer error'', w)
    | Some p \<Rightarrow>
       (let w1 = fold (\<lambda>ob w. snd (PolObj2DP z p DpRemove ob w)) (PObjs p) w in
        (Ok, set_polh z (\<lambda>h. h \<lparr> PolMap := gm_del (pl_Key p) (PolMap h), pol_Mark := nPutCounter env (pl_HwNum p) (pol_Mark h) \<rparr>)
           (Pol_DP DpRemove p w1))))"

definition pol_create :: "('c, 't) net_env \<Rightarrow> nat \<Rightarrow> string \<Rightarrow> PolInfo \<Rightarrow> attach \<Rightarrow> ('c, 't) world \<Rightarrow> go_ret \<times> ('c, 't) world" where
  "pol_create env z name info args w =
    (let ((m, _), c) = nGetCounter env (pol_Mark (polh z w)); p = \<lparr> pl_Key = name, pl_Info = info, pl_HwNum = m, pl_Sync = DpStatusOk, PObjs = [] \<rparr>;
         w1 = Pol_DP DpCreate p (put_pol z name p (set_polh z (\<lambda>h. h \<lparr> pol_Mark := c \<rparr>) w));
         (ob, w2) = PolObj2DP z p DpCreate \<lparr> o_Args = args, o_Sync = DpStatusOk \<rparr> w1 in
     (Ok, put_pol z name (p \<lparr> PObjs := [ob] \<rparr>) w2))"

definition PolAdd :: "('c, 't) net_env \<Rightarrow> nat \<Rightarrow> string \<Rightarrow> PolInfo \<Rightarrow> attach \<Rightarrow> ('c, 't) world \<Rightarrow> go_ret \<times> ('c, 't) world" where
  "PolAdd env z name info args w =
    (if \<not> obj_validate args then (Err PolAttachErr ''pol-attachpoint error'', w)
     else (case PolInfoXlateValidate info of
         None \<Rightarrow> (Err PolInfoErr ''pol-info error'', w)
       | Some i \<Rightarrow> (case gm_get (PolMap (polh z w)) name of
           None \<Rightarrow> pol_create env z name i args w
         | Some p \<Rightarrow> if pl_Info p \<noteq> i then pol_create env z name i args (snd (PolDelete env z name w))
             else (Err PolExistsErr ''pol-exists error'', w))))"

record PolMod =
  pm_Ident :: string
  pm_Info :: PolInfo
  pm_Target :: attach

definition PolGetAll :: "nat \<Rightarrow> ('c, 't) world \<Rightarrow> PolMod list" where
  "PolGetAll z w = map (\<lambda>(k, p). \<lparr> pm_Ident = k,
     pm_Info = (pl_Info p) \<lparr> PeakInfoRate := PeakInfoRate (pl_Info p) div 1000000, CommittedInfoRate := CommittedInfoRate (pl_Info p) div 1000000 \<rparr>,
     pm_Target = (case PObjs p of [] \<Rightarrow> \<lparr> ObjName = [], AttachMent = 0 \<rparr> | obs \<Rightarrow> o_Args (last obs)) \<rparr>) (PolMap (polh z w))"

definition PolPortDelete :: "nat \<Rightarrow> string \<Rightarrow> ('c, 't) world \<Rightarrow> ('c, 't) world" where
  "PolPortDelete z name = set_polh z (\<lambda>h. h \<lparr> PolMap := map (\<lambda>(k, p). (k, p \<lparr> PObjs := map (port_gone name) (PObjs p) \<rparr>)) (PolMap h) \<rparr>)"

definition PolDestructAll :: "('c, 't) net_env \<Rightarrow> nat \<Rightarrow> ('c, 't) world \<Rightarrow> ('c, 't) world" where
  "PolDestructAll env z w = fold (\<lambda>(_, p) w. snd (PolDelete env z (pl_Key p) w)) (PolMap (polh z w)) w"

definition pol_tick :: "nat \<Rightarrow> string \<times> PolEntry \<Rightarrow> ('c, 't) world \<Rightarrow> ('c, 't) world" where
  "pol_tick z kp w = (let (k, p) = kp in
    if pl_Sync p \<noteq> DpStatusOk then fold (\<lambda>ob w. snd (PolObj2DP z p DpCreate ob w)) (PObjs p) (Pol_DP DpCreate p w)
    else (let (obs, w1) = map_objs (obj_tick (PolObj2DP z p) z) (PObjs p) (Pol_DP DpStatsGet p w) in put_pol z k (p \<lparr> PObjs := obs \<rparr>) w1))"

definition PolTicker :: "nat \<Rightarrow> ('c, 't) world \<Rightarrow> ('c, 't) world" where
  "PolTicker z w = fold (pol_tick z) (PolMap (polh z w)) w"

subsection \<open>Mirrors\<close>

abbreviation MirrInfoErr :: int where "MirrInfoErr \<equiv> -100998"
abbreviation MirrAttachErr :: int where "MirrAttachErr \<equiv> -100997"
abbreviation MirrNoExistErr :: int where "MirrNoExistErr \<equiv> -100996"
abbreviation MirrExistsErr :: int where "MirrExistsErr \<equiv> -100995"
abbreviation MirrTypeSpan :: int where "MirrTypeSpan \<equiv> 0"
abbreviation MirrTypeRspan :: int where "MirrTypeRspan \<equiv> 1"
abbreviation MirrTypeErspan :: int where "MirrTypeErspan \<equiv> 2"

definition MirrInit :: "('c, 't) net_env \<Rightarrow> 'c MirrH" where
  "MirrInit env = \<lparr> MirrMap = [], mirr_Mark = NewCounter env 1 32 \<rparr>"

abbreviation mirrh :: "nat \<Rightarrow> ('c, 't) world \<Rightarrow> 'c MirrH" where "mirrh z w \<equiv> Mirrs (zone w z)"

definition set_mirrh :: "nat \<Rightarrow> ('c MirrH \<Rightarrow> 'c MirrH) \<Rightarrow> ('c, 't) world \<Rightarrow> ('c, 't) world" where
  "set_mirrh z f = set_zone z (\<lambda>zo. zo \<lparr> Mirrs := f (Mirrs zo) \<rparr>)"

definition put_mirr :: "nat \<Rightarrow> string \<Rightarrow> MirrEntry \<Rightarrow> ('c, 't) world \<Rightarrow> ('c, 't) world" where
  "put_mirr z name m = set_mirrh z (\<lambda>h. h \<lparr> MirrMap := gm_put name m (MirrMap h) \<rparr>)"

definition MirrInfoValidate :: "MirrInfo \<Rightarrow> bool" where
  "MirrInfoValidate i \<longleftrightarrow> MirrType i \<in> {MirrTypeSpan, MirrTypeRspan, MirrTypeErspan} \<and>
     \<not> (MirrType i = MirrTypeRspan \<and> MirrVlan i \<noteq> 0) \<and>
     \<not> (MirrType i = MirrTypeErspan \<and> (IsUnspecified (MirrRip i) \<or> IsUnspecified (MirrSip i) \<or> MirrTid i = 0))"

definition MirrInfoCmp :: "MirrInfo \<Rightarrow> MirrInfo \<Rightarrow> bool" where
  "MirrInfoCmp a b \<longleftrightarrow> MirrType a = MirrType b \<and> MirrPort a = MirrPort b \<and> MirrVlan a = MirrVlan b \<and>
     IP_Equal (MirrRip a) (MirrRip b) \<and> IP_Equal (MirrSip a) (MirrSip b) \<and> MirrTid a = MirrTid b"

definition Mirr_DP :: "nat \<Rightarrow> DpWorkT \<Rightarrow> MirrEntry \<Rightarrow> ('c, 't) world \<Rightarrow> MirrEntry \<times> ('c, 't) world" where
  "Mirr_DP z work m w =
    (let msg = \<lparr> mw_Work = work, mw_Name = [], mw_Mark = go_int (mi_HwNum m), mw_MiPortNum = 0, mw_MiBD = 0 \<rparr> in
     if MirrType (mi_Info m) = MirrTypeErspan then (m, w)
     else if work = DpCreate then
       (case PortFindByName z (MirrPort (mi_Info m)) w of
          None \<Rightarrow> (m \<lparr> mi_Sync := DpCreateErr \<rparr>, w)
        | Some q \<Rightarrow> (m, to_dp [MirrQ (msg \<lparr> mw_MiPortNum := PortNo (port w q), mw_MiBD := MirrVlan (mi_Info m) \<rparr>)] w))
     else (m, to_dp [MirrQ msg] w))"

definition MirrDelete :: "('c, 't) net_env \<Rightarrow> nat \<Rightarrow> string \<Rightarrow> ('c, 't) world \<Rightarrow> go_ret \<times> ('c, 't) world" where
  "MirrDelete env z name w = (case gm_get (MirrMap (mirrh z w)) name of
      None \<Rightarrow> (Err MirrNoExistErr ''no such mirror error'', w)
    | Some m \<Rightarrow>
       (let w1 = fold (\<lambda>ob w. snd (MirrObj2DP z m DpRemove ob w)) (MObjs m) w in
        (Ok, set_mirrh z (\<lambda>h. h \<lparr> MirrMap := gm_del (mi_Key m) (MirrMap h), mirr_Mark := nPutCounter env (mi_HwNum m) (mirr_Mark h) \<rparr>)
           (snd (Mirr_DP z DpRemove m w1)))))"

definition mirr_create :: "('c, 't) net_env \<Rightarrow> nat \<Rightarrow> string \<Rightarrow> MirrInfo \<Rightarrow> attach \<Rightarrow> ('c, 't) world \<Rightarrow> go_ret \<times> ('c, 't) world" where
  "mirr_create env z name info args w =
    (let ((k, _), c) = nGetCounter env (mirr_Mark (mirrh z w)); m = \<lparr> mi_Key = name, mi_Info = info, mi_HwNum = k, mi_Sync = DpStatusOk, MObjs = [] \<rparr>;
         (m1, w1) = Mirr_DP z DpCreate m (put_mirr z name m (set_mirrh z (\<lambda>h. h \<lparr> mirr_Mark := c \<rparr>) w));
         (ob, w2) = MirrObj2DP z m1 DpCreate \<lparr> o_Args = args, o_Sync = DpStatusOk \<rparr> w1 in
     (Ok, put_mirr z name (m1 \<lparr> MObjs := [ob] \<rparr>) w2))"

definition MirrAdd :: "('c, 't) net_env \<Rightarrow> nat \<Rightarrow> string \<Rightarrow> MirrInfo \<Rightarrow> attach \<Rightarrow> ('c, 't) world \<Rightarrow> go_ret \<times> ('c, 't) world" where
  "MirrAdd env z name info args w =
    (if \<not> obj_validate args then (Err MirrAttachErr ''mirr-attachpoint error'', w)
     else if \<not> MirrInfoValidate info then (Err MirrInfoErr ''mirr-info error'', w)
     else (case gm_get (MirrMap (mirrh z w)) name of
         None \<Rightarrow> mirr_create env z name info args w
       | Some m \<Rightarrow> if \<not> MirrInfoCmp (mi_Info m) info then mirr_create env z name info args (snd (MirrDelete env z name w))
           else (Err MirrExistsErr ''mirr-exists error'', w)))"

record MirrGetMod =
  mg_Ident :: string
  mg_Info :: MirrInfo
  mg_Sync :: DpStatusT
  mg_Target :: attach

text \<open>The listing reads the first object of every mirror.\<close>

fun mirr_get :: "(string, MirrEntry) gomap \<Rightarrow> MirrGetMod list option" where
  "mirr_get [] = Some []"
| "mirr_get ((k, m) # ms) = (case MObjs m of
      [] \<Rightarrow> None
    | ob # _ \<Rightarrow> map_option (Cons \<lparr> mg_Ident = k, mg_Info = mi_Info m, mg_Sync = mi_Sync m, mg_Target = o_Args ob \<rparr>) (mirr_get ms))"

definition MirrGet :: "nat \<Rightarrow> ('c, 't) world \<Rightarrow> MirrGetMod list option" where
  "MirrGet z w = mirr_get (MirrMap (mirrh z w))"

definition MirrPortDelete :: "nat \<Rightarrow> string \<Rightarrow> ('c, 't) world \<Rightarrow> ('c, 't) world" where
  "MirrPortDelete z name = set_mirrh z (\<lambda>h. h \<lparr> MirrMap := map (\<lambda>(k, m). (k, m \<lparr> MObjs := map (port_gone name) (MObjs m) \<rparr>)) (MirrMap h) \<rparr>)"

definition MirrDestructAll :: "('c, 't) net_env \<Rightarrow> nat \<Rightarrow> ('c, 't) world \<Rightarrow> ('c, 't) world" where
  "MirrDestructAll env z w = fold (\<lambda>(_, m) w. snd (MirrDelete env z (mi_Key m) w)) (MirrMap (mirrh z w)) w"

definition mirr_tick :: "nat \<Rightarrow> string \<times> MirrEntry \<Rightarrow> ('c, 't) world \<Rightarrow> ('c, 't) world" where
  "mirr_tick z km w = (let (k, m) = km in
    if mi_Sync m \<noteq> DpStatusOk then
      (let (m1, w1) = Mirr_DP z DpCreate m w in fold (\<lambda>ob w. snd (MirrObj2DP z m1 DpCreate ob w)) (MObjs m1) (put_mirr z k m1 w1))
    else (let (obs, w1) = map_objs (obj_tick (MirrObj2DP z m) z) (MObjs m) w in put_mirr z k (m \<lparr> MObjs := obs \<rparr>) w1))"

definition MirrTicker :: "nat \<Rightarrow> ('c, 't) world \<Rightarrow> ('c, 't) world" where
  "MirrTicker z w = fold (mirr_tick z) (MirrMap (mirrh z w)) w"

end
