(* ===== verification/ZoneOps.thy ===== *)
theory ZoneOps
  imports RtOps SessOps PolMirr
begin

text \<open>Deletion of ports (\<open>port.go\<close>) and VLANs (\<open>vlan.go\<close>), interface addresses with
their routes, and zones (\<open>zones.go\<close>): creation, destruction and the ticker of all components.\<close>

subsection \<open>Interface addresses with their routes\<close>

text \<open>The self-routes of the addresses go to the root zone, which is the first zone made
(\<open>mh.zr\<close>).  The state of the routes is the world, \<open>None\<close> after a panic; the ports do not
change during these calls.\<close>

definition put_l3 :: "nat \<Rightarrow> L3H \<Rightarrow> ('c, 't) world \<Rightarrow> ('c, 't) world" where
  "put_l3 z l3 = set_zone z (\<lambda>zo. zo \<lparr> L3 := l3 \<rparr>)"

abbreviation RootZone :: string where "RootZone \<equiv> ''root''"

definition on_world :: "(('c, 't) world \<Rightarrow> (go_ret \<times> ('c, 't) world) option) \<Rightarrow> ('c, 't) world option \<Rightarrow> bool \<times> ('c, 't) world option" where
  "on_world f r = (case Option.bind r f of None \<Rightarrow> (True, None) | Some (ret, w) \<Rightarrow> (ret = Ok, Some w))"

definition l3_routes :: "('c, 't) net_env \<Rightarrow> nat \<Rightarrow> ('c, 't) world \<Rightarrow> ('c, 't) world option l3_env" where
  "l3_routes env z w0 = \<lparr> findPort = findPort (l3_ports env z w0), l2match = l2match (l3_ports env z w0), l3_host = n_host env,
     rt_add = (\<lambda>l3 net ifi. on_world (\<lambda>w. RtAdd env 0 net RootZone
        \<lparr> Protocol = 0, OSFlags = 0, HostRoute = False, Ifi = ifi, IfRoute = False \<rparr> [] (put_l3 z l3 w))),
     rt_del = (\<lambda>l3 net. on_world (\<lambda>w. RtDelete env 0 net RootZone (put_l3 z l3 w))),
     trieFind = (\<lambda>a r. Option.bind r (trie_port env z a)) \<rparr>"

definition run_l3 :: "('c, 't) net_env \<Rightarrow> nat \<Rightarrow> (('c, 't) world option l3_env \<Rightarrow> ('c, 't) world option l3_st \<Rightarrow> 'a \<times> ('c, 't) world option l3_st) \<Rightarrow>
    ('c, 't) world \<Rightarrow> ('a \<times> ('c, 't) world) option" where
  "run_l3 env z f w = (case f (l3_routes env z w) (L3 (zone w z), Some w, []) of
     (ret, l3, r, q) \<Rightarrow> map_option (\<lambda>w'. (ret, to_dp (map RouterMacQ q) (put_l3 z l3 w'))) r)"

definition zn_IfaAdd :: "('c, 't) net_env \<Rightarrow> nat \<Rightarrow> string \<Rightarrow> string \<Rightarrow> ('c, 't) world \<Rightarrow> (go_ret \<times> ('c, 't) world) option" where
  "zn_IfaAdd env z ob cidr = run_l3 env z (\<lambda>e. IfaAdd e ob cidr)"

definition zn_IfaDelete :: "('c, 't) net_env \<Rightarrow> nat \<Rightarrow> string \<Rightarrow> string \<Rightarrow> ('c, 't) world \<Rightarrow> (go_ret \<times> ('c, 't) world) option" where
  "zn_IfaDelete env z ob cidr = run_l3 env z (\<lambda>e. IfaDelete e ob cidr)"

definition zn_IfaDeleteAll :: "('c, 't) net_env \<Rightarrow> nat \<Rightarrow> string \<Rightarrow> ('c, 't) world \<Rightarrow> ('c, 't) world option" where
  "zn_IfaDeleteAll env z ob w = map_option snd (run_l3 env z (\<lambda>e st. ((), IfaDeleteAll e ob st)) w)"

subsection \<open>Deletion of ports and VLANs\<close>

abbreviation PortMapErr :: int where "PortMapErr \<equiv> -995"

type_synonym ('c, 't) port_deleter = "nat \<Rightarrow> string \<Rightarrow> int \<Rightarrow> ('c, 't) world \<Rightarrow> (go_ret \<times> ('c, 't) world) option"
type_synonym ('c, 't) vlan_deleter = "nat \<Rightarrow> int \<Rightarrow> ('c, 't) world \<Rightarrow> (go_ret \<times> ('c, 't) world) option"

text \<open>A port that is a member of a VLAN or a bond only leaves it; the result is what it becomes.\<close>

definition port_leave :: "nat \<Rightarrow> int \<Rightarrow> ('c, 't) world \<Rightarrow> ('c, 't) world option" where
  "port_leave q ptype w0 =
    (let p = port w0 q; ty = PortType (SInfo p); w = dp_port DpRemove q w0;
         vid = (\<lambda>v w. dp_port DpCreate q (set_l2 q \<lparr> IsPvid = True, Vid = v \<rparr> w)); free = set_hinfo q (\<lambda>h. h \<lparr> hw_Master := [] \<rparr>) in
     if has ty (PortReal OR PortVlanSif) \<and> ptype = PortVlanSif then
       Some (vid (PortNo p + RealPortIDB) (free (set_sinfo q (\<lambda>s. del_type PortVlanSif (s \<lparr> PortReal_p := None \<rparr>)) w)))
     else if has ty (PortVxlanBr OR PortVlanSif) \<and> ptype = PortVxlanBr then
       Some (vid (uint (hw_TunID (HInfo p))) (free (set_sinfo q (del_type PortVlanSif) w)))
     else if has ty (PortBond OR PortVlanSif) \<and> ptype = PortVlanSif then
       Some (vid (PortNo p + BondIDB) (set_sinfo q (del_type PortVlanSif) w))
     else if has ty (PortReal OR PortBondSif) \<and> ptype = PortBondSif then
       Some (vid (PortNo p + RealPortIDB) (free (set_sinfo q (del_type PortBondSif) w)))
     else None)"

text \<open>Go's \<open>switch\<close> does not fall through: only VTI ports delete the VLAN that was made for
them.\<close>

definition port_untype :: "('c, 't) net_env \<Rightarrow> ('c, 't) vlan_deleter \<Rightarrow> nat option \<Rightarrow> nat \<Rightarrow> ('c, 't) world \<Rightarrow> ('c, 't) world option" where
  "port_untype env vd zo q w = (let ty = PortType (SInfo (port w q)) in
    if ty = PortVxlanBr then
      Some (case PortReal_p (SInfo (port w q)) of None \<Rightarrow> w | Some r \<Rightarrow> set_sinfo r (\<lambda>s. s \<lparr> PortOvl := None \<rparr>) w)
    else if ty = PortVti then
      (case zo of None \<Rightarrow> Some w | Some zn \<Rightarrow> map_option snd (vd zn (Vid (p_L2 (port w q))) w))
    else if ty = PortIPTun then
      (case zo of
         None \<Rightarrow> None
       | Some zn \<Rightarrow> Some (set_sess zn (\<lambda>s. s \<lparr> sess_Mark := nPutCounter env (SessMark (SInfo (port w q))) (sess_Mark s) \<rparr>) w))
    else Some w)"

definition port_drop :: "('c, 't) net_env \<Rightarrow> nat \<Rightarrow> string \<Rightarrow> nat option \<Rightarrow> nat \<Rightarrow> ('c, 't) world \<Rightarrow> ('c, 't) world option" where
  "port_drop env z name zo q w =
    (let w1 = snd (ZonePortDelete name (set_sinfo q (\<lambda>s. s \<lparr> PortReal_p := None, PortActive := False \<rparr>) w)); p = port w1 q;
         w2 = set_zone z (\<lambda>zn. zn \<lparr> Ports := (Ports zn) \<lparr> portOmap := gm_del (OsID (SInfo p)) (portOmap (Ports zn)),
           portSmap := gm_del name (portSmap (Ports zn)), portImap := gm_del (PortNo p) (portImap (Ports zn)) \<rparr> \<rparr>) w1 in
     case zo of
       None \<Rightarrow> Some w2
     | Some zn \<Rightarrow> do { w3 \<leftarrow> RtDeleteByPort env zn (p_Name p) w2; w4 \<leftarrow> NeighDeleteByPort env zn (p_Name p) w3; zn_IfaDeleteAll env zn (p_Name p) w4 })"

definition port_del :: "('c, 't) net_env \<Rightarrow> ('c, 't) vlan_deleter \<Rightarrow> ('c, 't) port_deleter" where
  "port_del env vd z name ptype w = (case PortFindByName z name w of
      None \<Rightarrow> Some (Err PortNotExistErr ''no-port error'', w)
    | Some q \<Rightarrow> (case port_leave q ptype w of
        Some w1 \<Rightarrow> Some (Ok, w1)
      | None \<Rightarrow>
         (let p = port w q; P = Ports (zone w z) in
          if \<not> in_bounds (PortNo p) then None
          else if gm_get (portImap P) (PortNo p) = None then Some (Err PortMapErr ''no-portimap error'', w)
          else if gm_get (portOmap P) (OsID (SInfo p)) = None then Some (Err PortMapErr ''no-portomap error'', w)
          else
            (let w1 = dp_port DpRemove q w; zo = GetPortZone (p_Name p) w1 in
             do { w2 \<leftarrow> port_untype env vd zo q w1; w3 \<leftarrow> port_drop env z name zo q w2; Some (Ok, w3) }))))"

definition vlan_delete :: "('c, 't) port_deleter \<Rightarrow> ('c, 't) vlan_deleter" where
  "vlan_delete pd z vlanID w =
    (let v = vlan z vlanID w in
     if \<not> VlanValid vlanID then Some (Err VlanRangeErr ''Invalid VlanID'', w)
     else if \<not> Created v then Some (Err VlaNotExistErr ''Vlan not yet created'', w)
     else if NumTagPorts v \<noteq> 0 \<or> NumUnTagPorts v \<noteq> 0 then Some (Err VlanMpExistErr ''Vlan has ports configured'', w)
     else
       do { (_, w1) \<leftarrow> pd z (v_Name v) PortVlanBr (snd (ZoneBrDelete (v_Name v) w));
            Some (Ok, set_vlan z vlanID (\<lambda>v. v \<lparr> v_Name := [], VlanID := 0, Created := False, v_Zone := [] \<rparr>)
              (snd (Vlan_DP DpStatsClr (vlan z vlanID w1) w1))) })"

text \<open>A deletion of a VTI port deletes its VLAN, which deletes the port of the VLAN.  A chain of such calls
that reaches the same VLAN twice never ends, so a depth of one more than the number of VLANs tells whether
the call returns.\<close>

primrec port_del_to :: "nat \<Rightarrow> ('c, 't) net_env \<Rightarrow> ('c, 't) port_deleter" where
  "port_del_to 0 env = (\<lambda>z name ptype w. None)"
| "port_del_to (Suc k) env = port_del env (vlan_delete (port_del_to k env))"

definition PortDel :: "('c, 't) net_env \<Rightarrow> ('c, 't) port_deleter" where
  "PortDel env z name ptype w = port_del_to (sum_list (map (length \<circ> Vlans) (zones w)) + 2) env z name ptype w"

definition VlanDelete :: "('c, 't) net_env \<Rightarrow> ('c, 't) vlan_deleter" where
  "VlanDelete env = vlan_delete (PortDel env)"

definition VlanPortDelete :: "('c, 't) net_env \<Rightarrow> nat \<Rightarrow> int \<Rightarrow> string \<Rightarrow> bool \<Rightarrow> ('c, 't) world \<Rightarrow> (go_ret \<times> ('c, 't) world) option" where
  "VlanPortDelete env z vlanID portName tagged w =
    (if \<not> VlanValid vlanID then Some (Err VlanRangeErr ''Invalid VlanID'', w)
     else if \<not> Created (vlan z vlanID w) then Some (Err VlaNotExistErr ''Vlan not created'', w)
     else (case PortFindByName z portName w of
         None \<Rightarrow> Some (Err VlanPortPhyErr ''Phy port not created'', w)
       | Some q \<Rightarrow>
          (let no = PortNo (port w q) in
           if \<not> in_bounds no then None
           else if tagged then
             if gm_get (TaggedPorts (vlan z vlanID w)) no = None then Some (Err VlanNoPortErr ''No such tag port'', w)
             else
               do { (_, w1) \<leftarrow> PortDel env z (portName @ ''.'' @ dec_int vlanID) PortVlanSif w;
                    Some (Ok, set_vlan z vlanID (\<lambda>v. v \<lparr> TaggedPorts := gm_del (PortNo (port w1 q)) (TaggedPorts v), NumTagPorts := NumTagPorts v - 1 \<rparr>) w1) }
           else
             do { (_, w1) \<leftarrow> PortDel env z portName PortVlanSif w;
                  Some (Ok, set_vlan z vlanID (\<lambda>v. v \<lparr> UnTaggedPorts := gm_del (PortNo (port w1 q)) (UnTaggedPorts v), NumUnTagPorts := NumUnTagPorts v - 1 \<rparr>) w1) })))"

subsection \<open>Destruction\<close>

fun opt_fold :: "('a \<Rightarrow> 'w \<Rightarrow> 'w option) \<Rightarrow> 'a list \<Rightarrow> 'w \<Rightarrow> 'w option" where
  "opt_fold f [] w = Some w"
| "opt_fold f (x # xs) w = Option.bind (f x w) (opt_fold f xs)"

definition vlan_destruct :: "('c, 't) net_env \<Rightarrow> nat \<Rightarrow> int \<Rightarrow> ('c, 't) world \<Rightarrow> ('c, 't) world option" where
  "vlan_destruct env z i w = (let v = vlan z i w in
    if \<not> Created v \<or> PortFindByName z (v_Name v) w = None then Some w
    else
      do { w1 \<leftarrow> opt_fold (\<lambda>(_, q) w. map_option snd (VlanPortDelete env z i (p_Name (port w q)) True w)) (sort_key fst (TaggedPorts v)) w;
           w2 \<leftarrow> opt_fold (\<lambda>(_, q) w. map_option snd (VlanPortDelete env z i (p_Name (port w q)) False w)) (sort_key fst (UnTaggedPorts v)) w1;
           map_option snd (VlanDelete env z i w2) })"

definition VlanDestructAll :: "('c, 't) net_env \<Rightarrow> nat \<Rightarrow> ('c, 't) world \<Rightarrow> ('c, 't) world option" where
  "VlanDestructAll env z w = opt_fold (vlan_destruct env z) [0..MaximumVlans - 1] w"

definition ports_of_type :: "nat \<Rightarrow> int \<Rightarrow> ('c, 't) world \<Rightarrow> nat list" where
  "ports_of_type z ty w = filter (\<lambda>q. has (PortType (SInfo (port w q))) ty) (map snd (smap z w))"

definition PortDestructAll :: "('c, 't) net_env \<Rightarrow> nat \<Rightarrow> ('c, 't) world \<Rightarrow> ('c, 't) world option" where
  "PortDestructAll env z w = opt_fold (\<lambda>(q, ty) w. map_option snd (PortDel env z (p_Name (port w q)) ty w))
     (concat (map (\<lambda>ty. map (\<lambda>q. (q, ty)) (ports_of_type z ty w))
        [PortVxlanSif, PortVlanSif, PortBondSif, PortBond, PortVlanBr, PortVxlanBr, PortReal])) w"

subsection \<open>Zones\<close>

definition PortInit :: "('c, 't) net_env \<Rightarrow> 'c PortsH" where
  "PortInit env = \<lparr> portImap = [], portSmap = [], portOmap = [], portMark = NewCounter env 1 512, bondMark = NewCounter env 1 8,
     wGMark = NewCounter env 1 8, vtiMark = NewCounter env 1 8 \<rparr>"

definition NeighInit :: "('c, 't) net_env \<Rightarrow> 'c NeighH" where
  "NeighInit env = \<lparr> NeighMap = [], NeighID = NewCounter env 1 3072, NeighTID = NewCounter env 3073 1024 \<rparr>"

definition RtInit :: "('c, 't) net_env \<Rightarrow> ('c, 't) RtH" where
  "RtInit env = \<lparr> RtMap = [], Trie4 = TrieInit env False, Trie6 = TrieInit env True, RtMark_c = NewCounter env 1 40960 \<rparr>"

definition ZoneInit :: "('c, 't) net_env \<Rightarrow> int \<Rightarrow> ('c, 't) world" where
  "ZoneInit env t = \<lparr> zones = [], ZoneMap = [], ZoneBrs = [], ZonePorts = [], ZoneMark = NewCounter env 1 256, ports = [], neighs = [],
     fdbs = [], rts = [], teps = [], toDp = [], pings = [], now = t \<rparr>"

text \<open>The rules of a zone have a state of their own (\<open>RuleState\<close>).\<close>

definition ZoneAdd :: "('c, 't) net_env \<Rightarrow> string \<Rightarrow> ('c, 't) world \<Rightarrow> go_ret \<times> ('c, 't) world" where
  "ZoneAdd env name w =
    (if gm_get (ZoneMap w) name \<noteq> None then (Err ZoneExistsErr ''existing zone'', w)
     else (case nGetCounter env (ZoneMark w) of
         ((m, ok), c) \<Rightarrow>
           if \<not> ok then (Err ZoneNumberErr ''zone number err'', w \<lparr> ZoneMark := c \<rparr>)
           else (Ok, w \<lparr> ZoneMark := c, ZoneMap := gm_put name (length (zones w)) (ZoneMap w), zones := zones w @
             [\<lparr> z_Name = name, ZoneNum = go_int m, Ports = PortInit env, Vlans = [], L2 = [], Nh = NeighInit env, z_Rt = RtInit env,
                L3 = [], Sess = SessInit env, Pols = PolInit env, Mirrs = MirrInit env \<rparr>] \<rparr>)))"

definition ZoneDelete :: "('c, 't) net_env \<Rightarrow> string \<Rightarrow> ('c, 't) world \<Rightarrow> (go_ret \<times> ('c, 't) world) option" where
  "ZoneDelete env name w = (case gm_get (ZoneMap w) name of
      None \<Rightarrow> Some (Err ZoneNotExistErr ''no such zone'', w)
    | Some z \<Rightarrow>
       do { w1 \<leftarrow> RtDestructAll env z (PolDestructAll env z (MirrDestructAll env z w));
            w2 \<leftarrow> NeighDestructAll env z w1;
            w3 \<leftarrow> L2DestructAll z w2;
            w4 \<leftarrow> VlanDestructAll env z w3;
            w5 \<leftarrow> PortDestructAll env z w4;
            Some (Ok, w5 \<lparr> ZoneMap := gm_del name (ZoneMap w5) \<rparr>) })"

text \<open>The ticker takes the lock of the process once per zone and releases it when the function returns,
so with two zones it never returns; a tick of one zone:\<close>

definition zone_tick :: "('c, 't) net_env \<Rightarrow> nat \<Rightarrow> ('c, 't) world \<Rightarrow> ('c, 't) world option" where
  "zone_tick env z w =
    do { w1 \<leftarrow> FdbsTicker env z w;
         w2 \<leftarrow> NeighsTicker env z w1;
         Some (PortTicker z (zn_ifas_ticker env z False (MirrTicker z (PolTicker z (SessionsSync z w2))))) }"

definition ZoneTicker :: "('c, 't) net_env \<Rightarrow> ('c, 't) world \<Rightarrow> ('c, 't) world option" where
  "ZoneTicker env w = (case map snd (ZoneMap w) of [] \<Rightarrow> Some w | [z] \<Rightarrow> zone_tick env z w | _ \<Rightarrow> None)"

end
