(* ===== verification/NetWf.thy ===== *)
theory NetWf
  imports RtOps
begin

text \<open>Well-formed stores: every pointer of a port, neighbour, forwarding entry, route or tunnel end-point
refers to an object, the tables of a zone hold objects with the key they are stored under, and hardware
addresses have six bytes.  The operations on neighbours, routes and forwarding entries keep this and
return.\<close>

subsection \<open>Shapes\<close>

record shape =
  s_ports :: nat
  s_neighs :: "NeighKey list"
  s_fdbs :: "FdbKey list"
  s_rts :: "RtKey list"
  s_teps :: nat

definition shape_of :: "('c, 't) world \<Rightarrow> shape" where
  "shape_of w = \<lparr> s_ports = length (ports w), s_neighs = map n_Key (neighs w), s_fdbs = map f_Key (fdbs w),
     s_rts = map r_Key (rts w), s_teps = length (teps w) \<rparr>"

definition shape_le :: "shape \<Rightarrow> shape \<Rightarrow> bool" where
  "shape_le S T \<longleftrightarrow> s_ports S \<le> s_ports T \<and> prefix (s_neighs S) (s_neighs T) \<and> prefix (s_fdbs S) (s_fdbs T) \<and>
     prefix (s_rts S) (s_rts T) \<and> s_teps S \<le> s_teps T"

lemma shape_le_refl [simp]: "shape_le S S"
  by (simp add: shape_le_def)

lemma shape_le_trans: "shape_le S T \<Longrightarrow> shape_le T U \<Longrightarrow> shape_le S U"
  unfolding shape_le_def by (auto intro: order_trans prefix_order.trans)

definition opt_lt :: "nat option \<Rightarrow> nat \<Rightarrow> bool" where
  "opt_lt p n \<longleftrightarrow> (case p of None \<Rightarrow> True | Some i \<Rightarrow> i < n)"

lemma opt_lt_simps [simp]: "opt_lt None n" "opt_lt (Some i) n \<longleftrightarrow> i < n"
  by (simp_all add: opt_lt_def)

lemma opt_lt_mono: "opt_lt p m \<Longrightarrow> m \<le> n \<Longrightarrow> opt_lt p n"
  by (cases p) simp_all

definition neigh_ok :: "shape \<Rightarrow> Neigh \<Rightarrow> bool" where
  "neigh_ok S ne \<longleftrightarrow> 6 \<le> length (HardwareAddr (n_Attr ne)) \<and> opt_lt (OifPort ne) (s_ports S) \<and>
     opt_lt (tFdb ne) (length (s_fdbs S)) \<and> (\<forall>t \<in> set (TunEps ne). t < s_teps S)"

definition fdb_ok :: "shape \<Rightarrow> FdbEnt \<Rightarrow> bool" where
  "fdb_ok S e \<longleftrightarrow> f_Port e < s_ports S \<and> opt_lt (t_rt (FdbTun_p e)) (length (s_rts S)) \<and>
     opt_lt (t_nh (FdbTun_p e)) (length (s_neighs S)) \<and> opt_lt (t_ep (FdbTun_p e)) (s_teps S)"

fun dep_ok :: "shape \<Rightarrow> RtDepObj \<Rightarrow> bool" where
  "dep_ok S (DepFdb f) \<longleftrightarrow> f < length (s_fdbs S)"
| "dep_ok S (DepNeigh n) \<longleftrightarrow> n < length (s_neighs S)"

definition rt_ok :: "shape \<Rightarrow> Rt \<Rightarrow> bool" where
  "rt_ok S r \<longleftrightarrow> (\<forall>n \<in> set (NextHops r). n < length (s_neighs S)) \<and> (\<forall>d \<in> set (RtDepObjs r). dep_ok S d)"

definition tep_ok :: "shape \<Rightarrow> NeighTunEp \<Rightarrow> bool" where
  "tep_ok S te \<longleftrightarrow> te_Parent te < length (s_neighs S)"

definition port_ok :: "shape \<Rightarrow> Port \<Rightarrow> bool" where
  "port_ok S p \<longleftrightarrow> opt_lt (PortReal_p (SInfo p)) (s_ports S) \<and> opt_lt (PortOvl (SInfo p)) (s_ports S)"

fun data_ok :: "shape \<Rightarrow> trie_data \<Rightarrow> bool" where
  "data_ok S (TrieNeigh n) \<longleftrightarrow> n < length (s_neighs S)"
| "data_ok S (TrieIfi r) \<longleftrightarrow> r < length (s_rts S)"

text \<open>A table holds positions of objects that have the key they are stored under.\<close>

definition tab_ok :: "'k list \<Rightarrow> ('k, nat) gomap \<Rightarrow> bool" where
  "tab_ok ks m \<longleftrightarrow> (\<forall>k i. gm_get m k = Some i \<longrightarrow> i < length ks \<and> ks ! i = k)"

definition ptr_ok :: "nat \<Rightarrow> ('k, nat) gomap \<Rightarrow> bool" where
  "ptr_ok n m \<longleftrightarrow> (\<forall>(k, i) \<in> set m. i < n)"

text \<open>\<open>D\<close> gives the data a trie holds.\<close>

definition zone_ok :: "('t \<Rightarrow> trie_data set) \<Rightarrow> shape \<Rightarrow> ('c, 't) Zone \<Rightarrow> bool" where
  "zone_ok D S zo \<longleftrightarrow> tab_ok (s_neighs S) (NeighMap (Nh zo)) \<and> tab_ok (s_fdbs S) (L2 zo) \<and> tab_ok (s_rts S) (RtMap (z_Rt zo)) \<and>
     ptr_ok (s_ports S) (portSmap (Ports zo)) \<and> ptr_ok (s_ports S) (portOmap (Ports zo)) \<and>
     (\<forall>d \<in> D (Trie4 (z_Rt zo)) \<union> D (Trie6 (z_Rt zo)). data_ok S d)"

definition net_ok :: "('t \<Rightarrow> trie_data set) \<Rightarrow> shape \<Rightarrow> ('c, 't) world \<Rightarrow> bool" where
  "net_ok D S w \<longleftrightarrow> list_all (neigh_ok S) (neighs w) \<and> list_all (fdb_ok S) (fdbs w) \<and> list_all (rt_ok S) (rts w) \<and>
     list_all (tep_ok S) (teps w) \<and> list_all (port_ok S) (ports w) \<and> list_all (zone_ok D S) (zones w) \<and>
     ptr_ok (length (zones w)) (ZoneMap w) \<and> ptr_ok (length (zones w)) (ZonePorts w)"

definition net_wf :: "('t \<Rightarrow> trie_data set) \<Rightarrow> ('c, 't) world \<Rightarrow> bool" where
  "net_wf D w \<longleftrightarrow> net_ok D (shape_of w) w"

text \<open>What is used of the library of prefix tries: a lookup returns data that was added.\<close>

definition trie_laws :: "('c, 't) net_env \<Rightarrow> ('t \<Rightarrow> trie_data set) \<Rightarrow> bool" where
  "trie_laws env D \<longleftrightarrow> (\<forall>s t net d. FindTrie env s t = Some (net, d) \<longrightarrow> d \<in> D t) \<and>
     (\<forall>s d t. D (snd (AddTrie env s d t)) \<subseteq> insert d (D t)) \<and> (\<forall>s t. D (snd (DelTrie env s t)) \<subseteq> D t) \<and>
     (\<forall>v6. D (TrieInit env v6) = {})"

subsection \<open>Growing shapes\<close>

lemma shape_leD:
  assumes "shape_le S T"
  shows "s_ports S \<le> s_ports T" "length (s_neighs S) \<le> length (s_neighs T)" "length (s_fdbs S) \<le> length (s_fdbs T)"
    "length (s_rts S) \<le> length (s_rts T)" "s_teps S \<le> s_teps T"
  using assms by (auto simp: shape_le_def dest: prefix_length_le)

lemma neigh_ok_mono: "neigh_ok S ne \<Longrightarrow> shape_le S T \<Longrightarrow> neigh_ok T ne"
  unfolding neigh_ok_def by (auto intro: opt_lt_mono less_le_trans shape_leD)

lemma fdb_ok_mono: "fdb_ok S e \<Longrightarrow> shape_le S T \<Longrightarrow> fdb_ok T e"
  unfolding fdb_ok_def by (auto intro: opt_lt_mono less_le_trans shape_leD)

lemma dep_ok_mono: "dep_ok S d \<Longrightarrow> shape_le S T \<Longrightarrow> dep_ok T d"
  using shape_leD [of S T] by (cases d) auto

lemma rt_ok_mono: "rt_ok S r \<Longrightarrow> shape_le S T \<Longrightarrow> rt_ok T r"
  unfolding rt_ok_def by (auto intro: dep_ok_mono less_le_trans shape_leD)

lemma tep_ok_mono: "tep_ok S te \<Longrightarrow> shape_le S T \<Longrightarrow> tep_ok T te"
  unfolding tep_ok_def by (auto intro: less_le_trans shape_leD)

lemma port_ok_mono: "port_ok S p \<Longrightarrow> shape_le S T \<Longrightarrow> port_ok T p"
  unfolding port_ok_def by (auto intro: opt_lt_mono shape_leD)

lemma data_ok_mono: "data_ok S d \<Longrightarrow> shape_le S T \<Longrightarrow> data_ok T d"
  using shape_leD [of S T] by (cases d) auto

lemma tab_ok_mono:
  assumes "tab_ok ks m" "prefix ks ls"
  shows "tab_ok ls m"
  using assms by (fastforce simp: tab_ok_def prefix_def nth_append)

lemma ptr_ok_mono: "ptr_ok n m \<Longrightarrow> n \<le> n' \<Longrightarrow> ptr_ok n' m"
  unfolding ptr_ok_def by (auto intro: less_le_trans)

lemma ptr_ok_get: "ptr_ok n m \<Longrightarrow> gm_get m k = Some i \<Longrightarrow> i < n"
  by (auto simp: ptr_ok_def dest!: map_of_SomeD)

lemma ptr_ok_put: "ptr_ok n m \<Longrightarrow> i < n \<Longrightarrow> ptr_ok n (gm_put k i m)"
  by (induction m) (auto simp: ptr_ok_def)

lemma ptr_ok_del: "ptr_ok n m \<Longrightarrow> ptr_ok n (gm_del k m)"
  by (auto simp: ptr_ok_def AList.delete_eq)

lemma zone_ok_mono: "zone_ok D S zo \<Longrightarrow> shape_le S T \<Longrightarrow> zone_ok D T zo"
  unfolding zone_ok_def
  by (auto simp: shape_le_def intro: tab_ok_mono ptr_ok_mono) (auto intro: data_ok_mono simp: shape_le_def)

lemma net_ok_mono: "net_ok D S w \<Longrightarrow> shape_le S T \<Longrightarrow> net_ok D T w"
  unfolding net_ok_def
  by (auto simp: list_all_iff intro: neigh_ok_mono fdb_ok_mono rt_ok_mono tep_ok_mono port_ok_mono zone_ok_mono)

subsection \<open>Good steps\<close>

text \<open>\<open>good D w w'\<close>: the step from \<open>w\<close> leads to a well-formed world in which no object has
gone or changed its key.\<close>

definition good :: "('t \<Rightarrow> trie_data set) \<Rightarrow> ('c, 't) world \<Rightarrow> ('c, 't) world \<Rightarrow> bool" where
  "good D w w' \<longleftrightarrow> net_wf D w' \<and> shape_le (shape_of w) (shape_of w') \<and> length (zones w') = length (zones w)"

lemma good_refl [simp]: "good D w w \<longleftrightarrow> net_wf D w"
  by (simp add: good_def)

lemma good_trans: "good D w w1 \<Longrightarrow> good D w1 w2 \<Longrightarrow> good D w w2"
  unfolding good_def by (auto intro: shape_le_trans)

lemma good_wf: "good D w w' \<Longrightarrow> net_wf D w'"
  by (simp add: good_def)

lemma good_fold:
  assumes "net_wf D w" "\<And>x w. x \<in> set xs \<Longrightarrow> net_wf D w \<Longrightarrow> good D w (f x w)"
  shows "good D w (fold f xs w)"
  using assms
proof (induction xs arbitrary: w)
  case (Cons x xs)
  have 1: "good D w (f x w)" using Cons.prems by simp
  then show ?case using good_trans [OF 1 Cons.IH [OF good_wf [OF 1]]] Cons.prems(2) by simp
qed simp

lemma list_all_update:
  assumes "list_all P xs" "i < length xs \<Longrightarrow> P (f (xs ! i))"
  shows "list_all P (xs [i := f (xs ! i)])"
  using assms by (cases "i < length xs") (auto simp: list_all_length nth_list_update)

lemma map_update_key:
  assumes "i < length xs \<Longrightarrow> g (f (xs ! i)) = g (xs ! i)"
  shows "map g (xs [i := f (xs ! i)]) = map g xs"
  using assms by (cases "i < length xs") (simp_all add: map_update list_update_same_conv list_update_beyond)

lemma goodI:
  assumes "shape_of w' = shape_of w" "net_ok D (shape_of w) w'" "length (zones w') = length (zones w)"
  shows "good D w w'"
  using assms by (simp add: good_def net_wf_def)

lemma list_all_at: "list_all P xs \<Longrightarrow> i < length xs \<Longrightarrow> P (xs ! i)"
  by (simp add: list_all_length)

lemma good_set_neigh:
  assumes "net_wf D w" "\<And>ne. neigh_ok (shape_of w) ne \<Longrightarrow> n_Key (f ne) = n_Key ne \<and> neigh_ok (shape_of w) (f ne)"
  shows "good D w (set_neigh n f w)"
proof (rule goodI)
  have ne: "n < length (neighs w) \<Longrightarrow> neigh_ok (shape_of w) (neigh w n)"
    using assms(1) by (auto simp: net_wf_def net_ok_def dest: list_all_at)
  show "shape_of (set_neigh n f w) = shape_of w"
    using map_update_key [of n "neighs w" n_Key f] assms(2) ne by (simp add: shape_of_def set_neigh_def)
  show "net_ok D (shape_of w) (set_neigh n f w)"
    using assms(1) list_all_update [of "neigh_ok (shape_of w)" "neighs w" n f] assms(2) ne
    by (simp add: net_wf_def net_ok_def set_neigh_def)
qed (simp add: set_neigh_def)

lemma good_set_fdb:
  assumes "net_wf D w" "\<And>e. fdb_ok (shape_of w) e \<Longrightarrow> f_Key (f e) = f_Key e \<and> fdb_ok (shape_of w) (f e)"
  shows "good D w (set_fdb n f w)"
proof (rule goodI)
  have ok: "n < length (fdbs w) \<Longrightarrow> fdb_ok (shape_of w) (fdb w n)"
    using assms(1) by (auto simp: net_wf_def net_ok_def dest: list_all_at)
  show "shape_of (set_fdb n f w) = shape_of w"
    using map_update_key [of n "fdbs w" f_Key f] assms(2) ok by (simp add: shape_of_def set_fdb_def)
  show "net_ok D (shape_of w) (set_fdb n f w)"
    using assms(1) list_all_update [of "fdb_ok (shape_of w)" "fdbs w" n f] assms(2) ok
    by (simp add: net_wf_def net_ok_def set_fdb_def)
qed (simp add: set_fdb_def)

lemma good_set_rt:
  assumes "net_wf D w" "\<And>r. rt_ok (shape_of w) r \<Longrightarrow> r_Key (f r) = r_Key r \<and> rt_ok (shape_of w) (f r)"
  shows "good D w (set_rt n f w)"
proof (rule goodI)
  have ok: "n < length (rts w) \<Longrightarrow> rt_ok (shape_of w) (rt w n)"
    using assms(1) by (auto simp: net_wf_def net_ok_def dest: list_all_at)
  show "shape_of (set_rt n f w) = shape_of w"
    using map_update_key [of n "rts w" r_Key f] assms(2) ok by (simp add: shape_of_def set_rt_def)
  show "net_ok D (shape_of w) (set_rt n f w)"
    using assms(1) list_all_update [of "rt_ok (shape_of w)" "rts w" n f] assms(2) ok
    by (simp add: net_wf_def net_ok_def set_rt_def)
qed (simp add: set_rt_def)

lemma good_set_zone:
  assumes "net_wf D w" "\<And>zo. z < length (zones w) \<Longrightarrow> zo = zone w z \<Longrightarrow> zone_ok D (shape_of w) zo \<Longrightarrow> zone_ok D (shape_of w) (f zo)"
  shows "good D w (set_zone z f w)"
proof (rule goodI)
  have ok: "z < length (zones w) \<Longrightarrow> zone_ok D (shape_of w) (zone w z)"
    using assms(1) by (auto simp: net_wf_def net_ok_def dest: list_all_at)
  show "net_ok D (shape_of w) (set_zone z f w)"
    using assms(1) list_all_update [of "zone_ok D (shape_of w)" "zones w" z f] assms(2) ok
    by (simp add: net_wf_def net_ok_def set_zone_def)
qed (simp_all add: shape_of_def set_zone_def)

lemma good_to_dp [simp]: "net_wf D w \<Longrightarrow> good D w (to_dp ms w)"
  by (rule goodI) (simp_all add: shape_of_def to_dp_def net_wf_def net_ok_def)

lemma good_ping [simp]: "net_wf D w \<Longrightarrow> good D w (ping a s n w)"
  by (rule goodI) (simp_all add: shape_of_def ping_def net_wf_def net_ok_def)

lemma good_set_tep:
  assumes "net_wf D w" "te_Parent te = te_Parent (tep w t)"
  shows "good D w (w \<lparr> teps := (teps w) [t := te] \<rparr>)"
proof (rule goodI)
  have ok: "list_all (tep_ok (shape_of w)) (teps w)" using assms(1) by (simp add: net_wf_def net_ok_def)
  have "list_all (tep_ok (shape_of w)) ((teps w) [t := (\<lambda>_. te) (tep w t)])"
    by (rule list_all_update [OF ok]) (use list_all_at [OF ok, of t] assms(2) in \<open>simp add: tep_ok_def\<close>)
  then show "net_ok D (shape_of w) (w \<lparr> teps := (teps w) [t := te] \<rparr>)" using assms(1) by (simp add: net_wf_def net_ok_def)
qed (simp_all add: shape_of_def)

subsection \<open>Steps that only take away\<close>

text \<open>\<open>shrink D w w'\<close>: a good step that adds no pair of a neighbour and a route, no route to a
table of routes and no neighbour to a table of neighbours, and that leaves ports and VLANs alone.\<close>

definition ports_of :: "('c, 't) world \<Rightarrow> Port list \<times> 'c PortsH list \<times> VlansH list" where
  "ports_of w = (ports w, map Ports (zones w), map Vlans (zones w))"

definition shrink :: "('t \<Rightarrow> trie_data set) \<Rightarrow> ('c, 't) world \<Rightarrow> ('c, 't) world \<Rightarrow> bool" where
  "shrink D w w' \<longleftrightarrow> good D w w' \<and> pairs w' \<le> pairs w \<and> ports_of w' = ports_of w \<and>
     (\<forall>z < length (zones w). (\<forall>k r. gm_get (rt_map z w') k = Some r \<longrightarrow> gm_get (rt_map z w) k = Some r) \<and>
        (\<forall>k n. gm_get (nh_map z w') k = Some n \<longrightarrow> gm_get (nh_map z w) k = Some n))"

lemma shrink_rtD: "shrink D w w' \<Longrightarrow> z < length (zones w) \<Longrightarrow> gm_get (rt_map z w') k = Some r \<Longrightarrow> gm_get (rt_map z w) k = Some r"
  unfolding shrink_def by blast

lemma shrink_nhD: "shrink D w w' \<Longrightarrow> z < length (zones w) \<Longrightarrow> gm_get (nh_map z w') k = Some n \<Longrightarrow> gm_get (nh_map z w) k = Some n"
  unfolding shrink_def by blast

lemma shrink_ports: "shrink D w w' \<Longrightarrow> ports_of w' = ports_of w"
  by (simp add: shrink_def)

lemma shrinkI:
  assumes "good D w w'" "pairs w' \<le> pairs w" "ports_of w' = ports_of w"
    "\<And>z k r. z < length (zones w) \<Longrightarrow> gm_get (rt_map z w') k = Some r \<Longrightarrow> gm_get (rt_map z w) k = Some r"
    "\<And>z k n. z < length (zones w) \<Longrightarrow> gm_get (nh_map z w') k = Some n \<Longrightarrow> gm_get (nh_map z w) k = Some n"
  shows "shrink D w w'"
  using assms unfolding shrink_def by blast

lemma shrink_refl [simp]: "shrink D w w \<longleftrightarrow> net_wf D w"
  by (simp add: shrink_def)

lemma shrink_trans:
  assumes "shrink D w w1" "shrink D w1 w2"
  shows "shrink D w w2"
proof -
  have z: "length (zones w1) = length (zones w)" using assms(1) by (simp add: shrink_def good_def)
  have g: "good D w w1" "good D w1 w2" "pairs w1 \<le> pairs w" "pairs w2 \<le> pairs w1" "ports_of w2 = ports_of w"
    using assms by (simp_all add: shrink_def)
  show ?thesis
    by (rule shrinkI) (use z g good_trans shrink_rtD [OF assms(1)] shrink_rtD [OF assms(2)] shrink_nhD [OF assms(1)] shrink_nhD [OF assms(2)] in auto)
qed

lemma shrink_wf: "shrink D w w' \<Longrightarrow> net_wf D w'"
  by (simp add: shrink_def good_def)

lemma shrink_good: "shrink D w w' \<Longrightarrow> good D w w'"
  by (simp add: shrink_def)

lemma shrink_rt_None: "shrink D w w' \<Longrightarrow> z < length (zones w) \<Longrightarrow> gm_get (rt_map z w) k = None \<Longrightarrow> gm_get (rt_map z w') k = None"
  using shrink_rtD [of D w w' z k] by (cases "gm_get (rt_map z w') k") simp_all

lemma shrink_step:
  assumes "shrink D w w1" "net_wf D w1 \<Longrightarrow> shrink D w1 w2"
  shows "shrink D w w2"
  using shrink_trans [OF assms(1) assms(2) [OF shrink_wf [OF assms(1)]]] .

lemma shrink_fold:
  assumes "net_wf D w" "\<And>x w. x \<in> set xs \<Longrightarrow> net_wf D w \<Longrightarrow> shrink D w (f x w)"
  shows "shrink D w (fold f xs w)"
  using assms
proof (induction xs arbitrary: w)
  case (Cons x xs)
  have 1: "shrink D w (f x w)" using Cons.prems by simp
  show ?case using shrink_step [OF 1, of "fold f (x # xs) w"] Cons.IH Cons.prems(2) by simp
qed simp

lemma pairs_update:
  assumes "\<And>ne. n < length (neighs w) \<Longrightarrow> ne = neigh w n \<Longrightarrow> length (NhRtm (f ne)) \<le> length (NhRtm ne)"
  shows "pairs (set_neigh n f w) \<le> pairs w"
proof (cases "n < length (neighs w)")
  case True
  have a: "sum_list (map (length \<circ> NhRtm) ((neighs w) [n := f (neigh w n)])) =
    sum_list (map (length \<circ> NhRtm) (neighs w)) + length (NhRtm (f (neigh w n))) - length (NhRtm (neigh w n))"
    using sum_list_update [of n "map (length \<circ> NhRtm) (neighs w)" "length (NhRtm (f (neigh w n)))"] True
    by (simp add: map_update)
  show ?thesis using assms [OF True refl] True unfolding pairs_def set_neigh_def by (simp add: a)
qed (simp add: set_neigh_def list_update_beyond pairs_def)

lemma shrink_set_neigh:
  assumes "net_wf D w" "\<And>ne. neigh_ok (shape_of w) ne \<Longrightarrow> n_Key (f ne) = n_Key ne \<and> neigh_ok (shape_of w) (f ne)"
    "\<And>ne. length (NhRtm (f ne)) \<le> length (NhRtm ne)"
  shows "shrink D w (set_neigh n f w)"
  using good_set_neigh [OF assms(1,2)] pairs_update [of n w f, OF assms(3)]
  by (simp add: shrink_def set_neigh_def ports_of_def)

lemma shrink_set_fdb:
  assumes "net_wf D w" "\<And>e. fdb_ok (shape_of w) e \<Longrightarrow> f_Key (f e) = f_Key e \<and> fdb_ok (shape_of w) (f e)"
  shows "shrink D w (set_fdb n f w)"
  using good_set_fdb [OF assms] by (simp add: shrink_def set_fdb_def pairs_def ports_of_def)

lemma shrink_set_rt:
  assumes "net_wf D w" "\<And>r. rt_ok (shape_of w) r \<Longrightarrow> r_Key (f r) = r_Key r \<and> rt_ok (shape_of w) (f r)"
  shows "shrink D w (set_rt n f w)"
  using good_set_rt [OF assms] by (simp add: shrink_def set_rt_def pairs_def ports_of_def)

lemma ports_of_set_zone:
  assumes "\<And>zo. Ports (f zo) = Ports zo \<and> Vlans (f zo) = Vlans zo"
  shows "ports_of (set_zone z f w) = ports_of w"
  using map_update_key [of z "zones w" Ports f] map_update_key [of z "zones w" Vlans f] assms by (simp add: ports_of_def set_zone_def)

lemma shrink_set_zone:
  assumes "net_wf D w" "\<And>zo. zone_ok D (shape_of w) zo \<Longrightarrow> zone_ok D (shape_of w) (f zo)"
    "\<And>zo k r. gm_get (RtMap (z_Rt (f zo))) k = Some r \<Longrightarrow> gm_get (RtMap (z_Rt zo)) k = Some r"
    "\<And>zo k n. gm_get (NeighMap (Nh (f zo))) k = Some n \<Longrightarrow> gm_get (NeighMap (Nh zo)) k = Some n"
    "\<And>zo. Ports (f zo) = Ports zo \<and> Vlans (f zo) = Vlans zo"
  shows "shrink D w (set_zone z f w)"
proof -
  have "gm_get (rt_map y w) k = Some r" if "y < length (zones w)" "gm_get (rt_map y (set_zone z f w)) k = Some r" for y k r
    using that assms(3) [of "zone w z" k r] by (cases "y = z") (simp_all add: set_zone_def)
  moreover have "gm_get (nh_map y w) k = Some n" if "y < length (zones w)" "gm_get (nh_map y (set_zone z f w)) k = Some n" for y k n
    using that assms(4) [of "zone w z" k n] by (cases "y = z") (simp_all add: set_zone_def)
  moreover have "pairs (set_zone z f w) = pairs w" by (simp add: pairs_def set_zone_def)
  ultimately show ?thesis using good_set_zone [of D w z f] assms(1,2) ports_of_set_zone [OF assms(5)] by (intro shrinkI) simp_all
qed

lemma shrink_to_dp [simp]: "net_wf D w \<Longrightarrow> shrink D w (to_dp ms w)"
  using good_to_dp [of D w ms] by (simp add: shrink_def to_dp_def pairs_def ports_of_def)

lemma shrink_ping [simp]: "net_wf D w \<Longrightarrow> shrink D w (ping a s n w)"
  using good_ping [of D w a s n] by (simp add: shrink_def ping_def pairs_def ports_of_def)

lemma shrink_set_tep:
  "net_wf D w \<Longrightarrow> te_Parent te = te_Parent (tep w t) \<Longrightarrow> shrink D w (w \<lparr> teps := (teps w) [t := te] \<rparr>)"
  using good_set_tep [of D w te t] by (simp add: shrink_def pairs_def ports_of_def)

subsection \<open>Facts of well-formed worlds\<close>

lemma good_len:
  assumes "good D w w'"
  shows "length (neighs w) \<le> length (neighs w')" "length (fdbs w) \<le> length (fdbs w')" "length (rts w) \<le> length (rts w')"
    "length (teps w) \<le> length (teps w')" "length (ports w) \<le> length (ports w')" "length (zones w') = length (zones w)"
  using assms shape_leD [of "shape_of w" "shape_of w'"] by (simp_all add: good_def shape_of_def)

lemma prefix_nth: "prefix xs ys \<Longrightarrow> i < length xs \<Longrightarrow> ys ! i = xs ! i"
  by (auto simp: prefix_def nth_append)

lemma good_n_Key: "good D w w' \<Longrightarrow> n < length (neighs w) \<Longrightarrow> n_Key (neigh w' n) = n_Key (neigh w n)"
  using good_len(1) [of D w w'] prefix_nth [of "map n_Key (neighs w)" "map n_Key (neighs w')" n]
  by (simp add: good_def shape_le_def shape_of_def)

lemma net_wf_neigh: "net_wf D w \<Longrightarrow> n < length (neighs w) \<Longrightarrow> neigh_ok (shape_of w) (neigh w n)"
  by (simp add: net_wf_def net_ok_def list_all_length)

lemma net_wf_rt: "net_wf D w \<Longrightarrow> r < length (rts w) \<Longrightarrow> rt_ok (shape_of w) (rt w r)"
  by (simp add: net_wf_def net_ok_def list_all_length)

lemma net_wf_tep: "net_wf D w \<Longrightarrow> t < length (teps w) \<Longrightarrow> te_Parent (tep w t) < length (neighs w)"
  by (simp add: net_wf_def net_ok_def list_all_length tep_ok_def shape_of_def)

lemma net_wf_zone: "net_wf D w \<Longrightarrow> z < length (zones w) \<Longrightarrow> zone_ok D (shape_of w) (zone w z)"
  by (simp add: net_wf_def net_ok_def list_all_length)

lemma net_wf_Zonefind: "net_wf D w \<Longrightarrow> fst (Zonefind s w) = Some z \<Longrightarrow> z < length (zones w)"
  by (auto simp: net_wf_def net_ok_def Zonefind_def intro: ptr_ok_get split: option.splits)

lemma tab_okD: "tab_ok ks m \<Longrightarrow> gm_get m k = Some i \<Longrightarrow> i < length ks \<and> ks ! i = k"
  by (simp add: tab_ok_def)

lemma tab_ok_sub: "tab_ok ks m \<Longrightarrow> (\<And>k i. gm_get m' k = Some i \<Longrightarrow> gm_get m k = Some i) \<Longrightarrow> tab_ok ks m'"
  unfolding tab_ok_def by blast

lemma net_wf_GetPortZone: "net_wf D w \<Longrightarrow> GetPortZone s w = Some z \<Longrightarrow> z < length (zones w)"
  by (auto simp: net_wf_def net_ok_def GetPortZone_def intro: ptr_ok_get)

lemma net_wf_nh:
  assumes "net_wf D w" "z < length (zones w)" "gm_get (nh_map z w) k = Some n"
  shows "n < length (neighs w) \<and> n_Key (neigh w n) = k"
  using net_wf_zone [OF assms(1,2)] by (auto simp: zone_ok_def shape_of_def dest!: tab_okD [OF _ assms(3)])

lemma net_wf_l2:
  assumes "net_wf D w" "z < length (zones w)" "gm_get (l2_map z w) k = Some f"
  shows "f < length (fdbs w) \<and> f_Key (fdb w f) = k"
  using net_wf_zone [OF assms(1,2)] by (auto simp: zone_ok_def shape_of_def dest!: tab_okD [OF _ assms(3)])

lemma net_wf_rt_map:
  assumes "net_wf D w" "z < length (zones w)" "gm_get (rt_map z w) k = Some r"
  shows "r < length (rts w) \<and> r_Key (rt w r) = k"
  using net_wf_zone [OF assms(1,2)] by (auto simp: zone_ok_def shape_of_def dest!: tab_okD [OF _ assms(3)])

lemma net_wf_mac: "net_wf D w \<Longrightarrow> n < length (neighs w) \<Longrightarrow> mac6 (HardwareAddr (n_Attr (neigh w n))) = Some (take 6 (HardwareAddr (n_Attr (neigh w n))))"
  using net_wf_neigh [of D w n] by (simp add: neigh_ok_def mac6_def)

lemma net_wf_teps: "net_wf D w \<Longrightarrow> n < length (neighs w) \<Longrightarrow> t \<in> set (TunEps (neigh w n)) \<Longrightarrow> t < length (teps w)"
  using net_wf_neigh [of D w n] by (simp add: neigh_ok_def shape_of_def)

lemma net_wf_hops: "net_wf D w \<Longrightarrow> r < length (rts w) \<Longrightarrow> n \<in> set (NextHops (rt w r)) \<Longrightarrow> n < length (neighs w)"
  using net_wf_rt [of D w r] by (simp add: rt_ok_def shape_of_def)

lemma tab_ok_del [intro]: "tab_ok ks m \<Longrightarrow> tab_ok ks (gm_del k m)"
  by (simp add: tab_ok_def)

lemma gm_del_less: "gm_get m k \<noteq> None \<Longrightarrow> length (gm_del k m) < length m"
proof (induction m)
  case (Cons p m)
  have "length (gm_del k m) \<le> length m" by (simp add: length_delete_le)
  then show ?case using Cons by (cases p) auto
qed simp

subsection \<open>Data path and tunnel end-points\<close>

text \<open>Results of operations that return and only take away.\<close>

definition shrinks :: "('t \<Rightarrow> trie_data set) \<Rightarrow> ('c, 't) world \<Rightarrow> ('c, 't) world option \<Rightarrow> bool" where
  "shrinks D w x \<longleftrightarrow> (\<exists>w'. x = Some w' \<and> shrink D w w')"

lemma shrinks_Some [simp]: "shrinks D w (Some w') \<longleftrightarrow> shrink D w w'"
  by (simp add: shrinks_def)

lemma shrinks_bind:
  assumes "shrinks D w x" "\<And>w1. x = Some w1 \<Longrightarrow> shrink D w w1 \<Longrightarrow> shrinks D w1 (f w1)"
  shows "shrinks D w (x \<bind> f)"
proof -
  obtain w1 where 1: "x = Some w1" "shrink D w w1" using assms(1) by (auto simp: shrinks_def)
  then show ?thesis using assms(2) [OF 1] shrink_trans [OF 1(2)] by (auto simp: shrinks_def)
qed

lemma shrinks_after: "shrink D w w1 \<Longrightarrow> shrinks D w1 x \<Longrightarrow> shrinks D w x"
  by (auto simp: shrinks_def intro: shrink_trans)

lemma shrink_len: "shrink D w w' \<Longrightarrow> length (neighs w) \<le> length (neighs w')" "shrink D w w' \<Longrightarrow> length (rts w) \<le> length (rts w')"
    "shrink D w w' \<Longrightarrow> length (fdbs w) \<le> length (fdbs w')" "shrink D w w' \<Longrightarrow> length (zones w') = length (zones w)"
    "shrink D w w' \<Longrightarrow> pairs w' \<le> pairs w"
  using good_len by (auto simp: shrink_def)

lemma Neigh_DP_shrinks: "net_wf D w \<Longrightarrow> n < length (neighs w) \<Longrightarrow> shrinks D w (Neigh_DP work n w)"
  by (simp add: Neigh_DP_def Let_def net_wf_mac split: prod.split)

lemma Tep_DP_eq:
  assumes "net_wf D w" "t < length (teps w)"
  shows "\<exists>ms. Tep_DP work t w = Some (to_dp ms w)"
proof -
  have p: "te_Parent (tep w t) < length (neighs w)" using net_wf_tep [OF assms] .
  show ?thesis
    by (cases "te_tunID (tep w t) \<noteq> 0 \<or> te_tunType (tep w t) = DpTunIPIP")
      (auto simp: Tep_DP_def Let_def net_wf_mac [OF assms(1) p] split_beta)
qed

lemma shrink_set_nh:
  assumes "net_wf D w" "\<And>h k n. gm_get (NeighMap (f h)) k = Some n \<Longrightarrow> gm_get (NeighMap h) k = Some n"
  shows "shrink D w (set_nh z f w)"
  unfolding set_nh_def
proof (rule shrink_set_zone [OF assms(1)])
  fix zo :: "('b, 'a) Zone"
  assume "zone_ok D (shape_of w) zo"
  then show "zone_ok D (shape_of w) (zo \<lparr> Nh := f (Nh zo) \<rparr>)" using assms(2) [of "Nh zo"] by (auto simp: zone_ok_def intro: tab_ok_sub)
next
  fix zo k n
  assume "gm_get (NeighMap (Nh (zo \<lparr> Nh := f (Nh zo) \<rparr>))) k = Some n"
  then show "gm_get (NeighMap (Nh zo)) k = Some n" using assms(2) [of "Nh zo" k n] by simp
qed simp_all

lemma set_RemoveTunEP: "i < length ts \<Longrightarrow> set (NeighRemoveTunEP i ts) \<subseteq> set ts" "i < length ts \<Longrightarrow> length (NeighRemoveTunEP i ts) = length ts"
  by (auto simp: NeighRemoveTunEP_def dest: in_set_takeD in_set_dropD)

lemma del_teps_shrinks:
  assumes "net_wf D w" "n < length (neighs w)" "i + k \<le> length (TunEps (neigh w n))"
  shows "shrinks D w (del_teps env z n k i w)"
  using assms
proof (induction k arbitrary: i w)
  case (Suc k)
  let ?t = "TunEps (neigh w n) ! i"
  have i: "i < length (TunEps (neigh w n))" using Suc.prems(3) by simp
  then have "?t < length (teps w)" using net_wf_teps [OF Suc.prems(1,2)] by simp
  then obtain ms where ms: "Tep_DP DpRemove ?t w = Some (to_dp ms w)" using Tep_DP_eq [OF Suc.prems(1)] by blast
  define w1 where "w1 = to_dp ms w"
  define w2 where "w2 = put_tid env z (te_Mark (tep w1 ?t)) w1"
  define w3 where "w3 = w2 \<lparr> teps := (teps w2) [?t := (tep w2 ?t) \<lparr> te_Inactive := True \<rparr>] \<rparr>"
  define w4 where "w4 = set_neigh n (\<lambda>ne. ne \<lparr> TunEps := NeighRemoveTunEP i (TunEps ne) \<rparr>) w3"
  have s1: "shrink D w w1" using Suc.prems(1) by (simp add: w1_def)
  have s2: "shrink D w1 w2" unfolding w2_def put_tid_def by (rule shrink_set_nh [OF shrink_wf [OF s1]]) simp
  have s3: "shrink D w2 w3" unfolding w3_def by (rule shrink_set_tep [OF shrink_wf [OF s2]]) simp
  have n3: "neighs w3 = neighs w" by (simp add: w3_def w2_def w1_def put_tid_def set_nh_def set_zone_def to_dp_def)
  have ok3: "neigh_ok (shape_of w3) (neigh w n)" using net_wf_neigh [OF shrink_wf [OF s3], of n] Suc.prems(2) n3 by simp
  have s4: "shrink D w3 w4"
  proof -
    have "w4 = set_neigh n (\<lambda>ne. ne \<lparr> TunEps := if i < length (TunEps ne) then NeighRemoveTunEP i (TunEps ne) else TunEps ne \<rparr>) w3"
      using i n3 by (simp add: w4_def set_neigh_def)
    moreover have "shrink D w3 \<dots>"
      by (rule shrink_set_neigh [OF shrink_wf [OF s3]]) (use set_RemoveTunEP(1) in \<open>auto simp: neigh_ok_def\<close>)
    ultimately show ?thesis by simp
  qed
  have "shrink D w w4" using shrink_trans [OF shrink_trans [OF shrink_trans [OF s1 s2] s3] s4] .
  moreover have "shrinks D w4 (del_teps env z n k (Suc i) w4)"
  proof (rule Suc.IH [OF shrink_wf [OF s4]])
    show "n < length (neighs w4)" using Suc.prems(2) n3 by (simp add: w4_def set_neigh_def)
    show "Suc i + k \<le> length (TunEps (neigh w4 n))"
      using Suc.prems(2,3) n3 set_RemoveTunEP(2) [OF i] by (simp add: w4_def set_neigh_def)
  qed
  moreover have "del_teps env z n (Suc k) i w = del_teps env z n k (Suc i) w4"
    using ms by (simp add: Let_def w1_def w2_def w3_def w4_def)
  ultimately show ?case by (simp add: shrinks_after)
qed simp

subsection \<open>Forwarding entries\<close>

lemma shrink_set_fsync [simp]: "net_wf D w \<Longrightarrow> shrink D w (set_fsync f s w)"
  unfolding set_fsync_def by (rule shrink_set_fdb) (auto simp: fdb_ok_def)

lemma Fdb_DP_shrink:
  assumes "net_wf D w"
  shows "shrink D w (snd (Fdb_DP work f w))"
proof -
  have "shrink D w (to_dp a (to_dp b w))" for a b
    by (rule shrink_step [OF shrink_to_dp [OF assms, of b]]) simp
  moreover have "shrink D w (set_fsync f s (to_dp a w))" for a s
    by (rule shrink_step [OF shrink_to_dp [OF assms, of a]]) simp
  ultimately show ?thesis using assms by (simp add: Fdb_DP_def Let_def split: option.split)
qed

lemma drop_dep_ok: "rt_ok S r \<Longrightarrow> r_Key (drop_dep d r) = r_Key r \<and> rt_ok S (drop_dep d r)"
  by (auto simp: drop_dep_def rtRemoveDepObj_def rt_ok_def dest: in_set_takeD in_set_dropD split: option.split)

lemma shrink_unresolved [simp]: "net_wf D w \<Longrightarrow> shrink D w (set_neigh n (\<lambda>ne. ne \<lparr> Resolved := False \<rparr>) w)"
  by (rule shrink_set_neigh) (auto simp: neigh_ok_def)

lemma fdb_untie_shrink:
  assumes "net_wf D w"
  shows "shrink D w (fdb_untie f w)"
proof -
  define w1 where "w1 = (case t_rt (FdbTun_p (fdb w f)) of None \<Rightarrow> w | Some r \<Rightarrow> set_rt r (drop_dep (DepFdb f)) w)"
  define w2 where "w2 = (case t_nh (FdbTun_p (fdb w f)) of None \<Rightarrow> w1 | Some n \<Rightarrow> set_neigh n (\<lambda>ne. ne \<lparr> Resolved := False \<rparr>) w1)"
  have s1: "shrink D w w1" using assms drop_dep_ok by (auto simp: w1_def intro: shrink_set_rt split: option.split)
  have s2: "shrink D w1 w2" using shrink_wf [OF s1] by (auto simp: w2_def split: option.split)
  have "shrink D w2 (set_fdb f (\<lambda>e. e \<lparr> FdbTun_p := \<lparr> t_rt = None, t_nh = None, t_ep = None \<rparr> \<rparr>) w2)"
    by (rule shrink_set_fdb [OF shrink_wf [OF s2]]) (simp add: fdb_ok_def)
  from shrink_trans [OF shrink_trans [OF s1 s2] this] show ?thesis unfolding fdb_untie_def w1_def w2_def Let_def .
qed

lemma shrink_set_l2:
  assumes "net_wf D w"
  shows "shrink D w (set_zone z (\<lambda>zo. zo \<lparr> L2 := gm_del k (L2 zo) \<rparr>) w)"
  by (rule shrink_set_zone [OF assms]) (simp_all add: zone_ok_def tab_ok_del)

lemma L2FdbDel_shrink:
  assumes "net_wf D w"
  shows "shrink D w (snd (L2FdbDel z key w))"
proof (cases "L2FdbFind z key w")
  case None
  then show ?thesis using assms by (simp add: L2FdbDel_def)
next
  case (Some f)
  show ?thesis
  proof (cases "FdbType (f_Attr (fdb w f)) = FdbPhy \<and> hCnt (fdb w f) > 0")
    case True
    have "shrink D w (set_fdb f (\<lambda>e. e \<lparr> hCnt := hCnt e - 1 \<rparr>) w)" by (rule shrink_set_fdb [OF assms]) (simp add: fdb_ok_def)
    then show ?thesis using True Some by (simp add: L2FdbDel_def)
  next
    case False
    define w1 where "w1 = (if PortType (SInfo (port w (f_Port (fdb w f)))) = PortVxlanBr then fdb_untie f w else w)"
    define w2 where "w2 = snd (Fdb_DP DpRemove f w1)"
    define w3 where "w3 = set_fdb f (\<lambda>e. e \<lparr> f_inActive := True \<rparr>) w2"
    have s1: "shrink D w w1" using assms by (simp add: w1_def fdb_untie_shrink)
    have s2: "shrink D w1 w2" using Fdb_DP_shrink [OF shrink_wf [OF s1]] by (simp add: w2_def)
    have s3: "shrink D w2 w3" unfolding w3_def by (rule shrink_set_fdb [OF shrink_wf [OF s2]]) (simp add: fdb_ok_def)
    have s4: "shrink D w3 (set_zone z (\<lambda>zo. zo \<lparr> L2 := gm_del (f_Key (fdb w3 f)) (L2 zo) \<rparr>) w3)"
      by (rule shrink_set_l2 [OF shrink_wf [OF s3]])
    show ?thesis using Some False shrink_trans [OF shrink_trans [OF shrink_trans [OF s1 s2] s3] s4]
      by (simp only: L2FdbDel_def Let_def w1_def w2_def w3_def option.case if_False snd_conv)
  qed
qed

subsection \<open>Deletion of routes and neighbours\<close>

text \<open>An operation that returns, on worlds with fewer than \<open>k\<close> pairs, and only takes away.\<close>

definition returns :: "('t \<Rightarrow> trie_data set) \<Rightarrow> ('c, 't) world \<Rightarrow> ('a \<times> ('c, 't) world) option \<Rightarrow> bool" where
  "returns D w x \<longleftrightarrow> (\<exists>r w'. x = Some (r, w') \<and> shrink D w w')"

definition deletes :: "('t \<Rightarrow> trie_data set) \<Rightarrow> nat \<Rightarrow> (nat \<Rightarrow> 'x \<Rightarrow> string \<Rightarrow> 'y \<Rightarrow> ('c, 't) world \<Rightarrow> (go_ret \<times> ('c, 't) world) option) \<Rightarrow> bool" where
  "deletes D k f \<longleftrightarrow> (\<forall>z x s y w. net_wf D w \<and> z < length (zones w) \<and> pairs w < k \<longrightarrow> returns D w (f z x s y w))"

lemma net_returns_Some [simp]: "returns D w (Some (r, w')) \<longleftrightarrow> shrink D w w'"
  by (simp add: returns_def)

lemma deletesD: "deletes D k f \<Longrightarrow> net_wf D w \<Longrightarrow> z < length (zones w) \<Longrightarrow> pairs w < k \<Longrightarrow> returns D w (f z x s y w)"
  by (auto simp: deletes_def)

lemma returns_bind_shrinks:
  assumes "returns D w x" "\<And>r w1. x = Some (r, w1) \<Longrightarrow> shrink D w w1 \<Longrightarrow> shrinks D w1 (f (r, w1))"
  shows "shrinks D w (x \<bind> f)"
proof -
  obtain r w1 where 1: "x = Some (r, w1)" "shrink D w w1" using assms(1) by (auto simp: returns_def)
  then show ?thesis using assms(2) [OF 1] shrinks_after [OF 1(2)] by simp
qed

lemma returns_after: "shrink D w w1 \<Longrightarrow> returns D w1 x \<Longrightarrow> returns D w x"
  by (auto simp: returns_def intro: shrink_trans)

lemma clear_dep_shrink: "net_wf D w \<Longrightarrow> shrink D w (clear_dep d w)"
  by (cases d) (auto intro!: shrink_set_fdb shrink_set_neigh simp: fdb_ok_def neigh_ok_def unresolve_def)

lemma rtClearDeps_shrink: "net_wf D w \<Longrightarrow> shrink D w (rtClearDeps r w)"
  unfolding rtClearDeps_def by (rule shrink_fold) (simp_all add: clear_dep_shrink)

lemma Activate_shrink: "net_wf D w \<Longrightarrow> shrink D w (Activate env z n w)"
proof -
  assume w: "net_wf D w"
  have "shrink D w (set_neigh n (\<lambda>ne. ne \<lparr> Ats := now w \<rparr>) (ping a s nm w))" for a s nm
    by (rule shrink_step [OF shrink_ping [OF w]], rule shrink_set_neigh) (auto simp: neigh_ok_def)
  then show ?thesis using w by (simp add: Activate_def Let_def split: option.split prod.split)
qed

lemma pairs_unpair:
  assumes "n < length (neighs w)" "length (NhRtm (f (neigh w n))) < length (NhRtm (neigh w n))"
  shows "pairs (set_neigh n f w) < pairs w"
proof -
  let ?l = "length \<circ> NhRtm"
  have m: "NhRtm (neigh w n) \<in> set (map NhRtm (neighs w))" using assms(1) by simp
  have "length (NhRtm (neigh w n)) \<le> sum_list (map ?l (neighs w))"
    using member_le_sum_list [of "length (NhRtm (neigh w n))" "map ?l (neighs w)"] assms(1) by simp
  moreover have "sum_list (map ?l ((neighs w) [n := f (neigh w n)])) =
    sum_list (map ?l (neighs w)) + length (NhRtm (f (neigh w n))) - length (NhRtm (neigh w n))"
    using sum_list_update [of n "map ?l (neighs w)" "length (NhRtm (f (neigh w n)))"] assms(1)
    by (simp add: map_update)
  ultimately show ?thesis using assms(2) by (simp add: pairs_def set_neigh_def)
qed

lemma NeighUnPairRt_shrinks:
  assumes "deletes D k nd" "net_wf D w" "z < length (zones w)" "pairs w < Suc k" "n < length (neighs w)"
  shows "shrinks D w (NeighUnPairRt nd z n r w)"
proof (cases "gm_get (NhRtm (neigh w n)) (r_Key (rt w r)) = None")
  case False
  define w1 where "w1 = set_neigh n (\<lambda>ne. ne \<lparr> NhRtm := gm_del (r_Key (rt w r)) (NhRtm ne) \<rparr>) w"
  have s1: "shrink D w w1" unfolding w1_def
    by (rule shrink_set_neigh [OF assms(2)]) (auto simp: neigh_ok_def length_delete_le)
  have "pairs w1 < pairs w" unfolding w1_def by (rule pairs_unpair) (use assms(5) gm_del_less [OF False] in simp_all)
  then have "returns D w1 (nd z a s y w1)" for a s y
    using deletesD [OF assms(1) shrink_wf [OF s1]] assms(3,4) shrink_len(4) [OF s1] by simp
  moreover have "shrinks D w2 (Neigh_DP DpRemove n w2)" if "shrink D w1 w2" for w2
    using Neigh_DP_shrinks [OF shrink_wf [OF that]] assms(5) shrink_len(1) [OF s1] shrink_len(1) [OF that] by simp
  ultimately show ?thesis
    using False s1 by (auto simp: NeighUnPairRt_def Let_def w1_def [symmetric] intro!: shrinks_after [OF s1] returns_bind_shrinks)
qed (use assms in \<open>simp add: NeighUnPairRt_def\<close>)

lemma unpair_all_shrinks:
  assumes "deletes D k nd" "net_wf D w" "z < length (zones w)" "pairs w < Suc k" "\<forall>n \<in> set ns. n < length (neighs w)"
  shows "shrinks D w (unpair_all nd z ns r w)"
  using assms(2-)
proof (induction ns arbitrary: w)
  case (Cons n ns)
  have 1: "shrinks D w (NeighUnPairRt nd z n r w)" using NeighUnPairRt_shrinks [OF assms(1)] Cons.prems by simp
  show ?case unfolding unpair_all.simps
  proof (rule shrinks_bind [OF 1])
    fix w1 assume w1: "shrink D w w1"
    show "shrinks D w1 (unpair_all nd z ns r w1)"
      using Cons.IH [OF shrink_wf [OF w1]] Cons.prems shrink_len [OF w1] by fastforce
  qed
qed simp

lemma shrink_set_rth:
  assumes "net_wf D w" "\<And>h k r. gm_get (RtMap (f h)) k = Some r \<Longrightarrow> gm_get (RtMap h) k = Some r"
    "\<And>h. h = z_Rt (zone w z) \<Longrightarrow> D (Trie4 (f h)) \<union> D (Trie6 (f h)) \<subseteq> D (Trie4 h) \<union> D (Trie6 h)"
  shows "shrink D w (set_rth z f w)"
proof -
  have "zone_ok D (shape_of w) (zo \<lparr> z_Rt := f (z_Rt zo) \<rparr>)" if "zo = zone w z" "zone_ok D (shape_of w) zo" for zo
    using that assms(2) [of "z_Rt zo"] assms(3) [of "z_Rt zo"] unfolding zone_ok_def by (auto intro: tab_ok_sub)
  then have "good D w (set_rth z f w)" unfolding set_rth_def by (intro good_set_zone [OF assms(1)]) simp
  moreover have "gm_get (rt_map y w) k = Some r" if "y < length (zones w)" "gm_get (rt_map y (set_rth z f w)) k = Some r" for y k r
    using that assms(2) [of "z_Rt (zone w z)" k r] by (cases "y = z") (simp_all add: set_rth_def set_zone_def)
  moreover have "nh_map y (set_rth z f w) = nh_map y w" if "y < length (zones w)" for y
    using that by (cases "y = z") (simp_all add: set_rth_def set_zone_def)
  moreover have "pairs (set_rth z f w) = pairs w" "ports_of (set_rth z f w) = ports_of w"
    by (simp add: pairs_def set_rth_def set_zone_def, simp add: set_rth_def ports_of_set_zone)
  ultimately show ?thesis by (intro shrinkI) simp_all
qed

lemma DelTrie_shrink:
  assumes "trie_laws env D" "net_wf D w"
  shows "shrink D w (snd (set_trie env z dst (DelTrie env s) w))"
proof -
  have d: "D (snd (DelTrie env s t)) \<subseteq> D t" for t using assms(1) by (simp add: trie_laws_def)
  have "shrink D w (set_rth z (\<lambda>h. h \<lparr> Trie4 := snd (DelTrie env s (Trie4 (z_Rt (zone w z)))) \<rparr>) w)"
    "shrink D w (set_rth z (\<lambda>h. h \<lparr> Trie6 := snd (DelTrie env s (Trie6 (z_Rt (zone w z)))) \<rparr>) w)"
    using d [of "Trie4 (z_Rt (zone w z))"] d [of "Trie6 (z_Rt (zone w z))"] by (auto intro!: shrink_set_rth [OF assms(2)])
  then show ?thesis by (simp add: set_trie_def split_beta)
qed

lemma rt_forget_shrink: "net_wf D w \<Longrightarrow> shrink D w (rt_forget env z k w)"
  unfolding rt_forget_def by (rule shrink_set_rth) (auto split: if_splits)

lemma rt_unmark_shrink: "net_wf D w \<Longrightarrow> shrink D w (rt_unmark env z r w)"
  unfolding rt_unmark_def by (rule shrink_set_rth) auto

lemma Rt_DP_eq: "\<exists>ms. snd (Rt_DP work r w) = to_dp ms w"
proof -
  have "to_dp [] w = w" by (simp add: to_dp_def)
  then have "\<exists>ms. w = to_dp ms w" by metis
  then show ?thesis by (auto simp: Rt_DP_def Let_def split: option.split prod.split)
qed

lemma Rt_DP_shrink: "net_wf D w \<Longrightarrow> shrink D w (snd (Rt_DP work r w))"
  using Rt_DP_eq [of work r w] by auto

lemma rt_remove_spec:
  assumes "trie_laws env D" "deletes D k nd" "net_wf D w" "z < length (zones w)" "pairs w < Suc k" "r < length (rts w)"
  shows "\<exists>w'. rt_remove env nd z dst r w = Some w' \<and> shrink D w w' \<and> gm_get (rt_map z w') (r_Key (rt w r)) = None"
proof -
  define w0 where "w0 = rtClearDeps r w"
  have s0: "shrink D w w0" using rtClearDeps_shrink [OF assms(3)] by (simp add: w0_def)
  have "shrinks D w0 (unpair_all nd z (NextHops (rt w r)) r w0)"
    using unpair_all_shrinks [OF assms(2) shrink_wf [OF s0]] assms(4,5) shrink_len [OF s0] net_wf_hops [OF assms(3,6)] by fastforce
  then obtain w1 where e1: "unpair_all nd z (NextHops (rt w r)) r w0 = Some w1" and s1: "shrink D w0 w1" by (auto simp: shrinks_def)
  define w2 where "w2 = snd (set_trie env z dst (DelTrie env (IPNet_String dst)) w1)"
  define w3 where "w3 = rt_forget env z (r_Key (rt w r)) w2"
  define w4 where "w4 = snd (Rt_DP DpRemove r w3)"
  have s2: "shrink D w1 w2" unfolding w2_def by (rule DelTrie_shrink [OF assms(1) shrink_wf [OF s1]])
  have s3: "shrink D w2 w3" unfolding w3_def by (rule rt_forget_shrink [OF shrink_wf [OF s2]])
  have s4: "shrink D w3 w4" unfolding w4_def by (rule Rt_DP_shrink [OF shrink_wf [OF s3]])
  have s5: "shrink D w4 (rt_unmark env z r w4)" by (rule rt_unmark_shrink [OF shrink_wf [OF s4]])
  have z2: "z < length (zones w2)" using assms(4) shrink_len(4) [OF s0] shrink_len(4) [OF s1] shrink_len(4) [OF s2] by simp
  have g3: "gm_get (rt_map z w3) (r_Key (rt w r)) = None" using z2 by (simp add: w3_def rt_forget_def set_rth_def set_zone_def)
  have "shrink D w3 (rt_unmark env z r w4)" using shrink_trans [OF s4 s5] .
  then have "gm_get (rt_map z (rt_unmark env z r w4)) (r_Key (rt w r)) = None"
    using g3 z2 shrink_len(4) [OF s3] by (simp add: shrink_rt_None)
  moreover have "rt_remove env nd z dst r w = Some (rt_unmark env z r w4)"
    using e1 by (simp add: rt_remove_def w0_def w2_def w3_def w4_def Let_def)
  ultimately show ?thesis using shrink_trans [OF s0 shrink_trans [OF s1 shrink_trans [OF s2 shrink_trans [OF s3 shrink_trans [OF s4 s5]]]]]
    by auto
qed

text \<open>What a deletion of a route does.\<close>

definition rt_deleted :: "('c, 't) net_env \<Rightarrow> nat \<Rightarrow> IPNet \<Rightarrow> string \<Rightarrow> bool \<Rightarrow> ('c, 't) world \<Rightarrow> go_ret \<Rightarrow> ('c, 't) world \<Rightarrow> bool" where
  "rt_deleted env z dst zns host w ret w' \<longleftrightarrow>
    (if rt_skip env dst then ret = Ok \<and> w' = w
     else (case RtFind z dst zns w of
         None \<Rightarrow> ret = Err RtNoEntErr ''no such route'' \<and> w' = w
       | Some r \<Rightarrow>
          (let a = r_Attr (rt w r) in
           if host \<and> \<not> HostRoute a then ret = Err RtNoEntErr ''no such host-route'' \<and> w' = w
           else if IfRoute a \<and> HostRoute a then
             ret = Ok \<and> RtFind z dst zns w' = Some r \<and> NhAttr (rt w' r) = NhAttr (rt w r) \<and>
             r_Attr (rt w' r) = (if host then a \<lparr> HostRoute := False \<rparr> else a \<lparr> IfRoute := False \<rparr>)
           else ret = Ok \<and> RtFind z dst zns w' = None)))"

lemma set_role_shrink: "net_wf D w \<Longrightarrow> shrink D w (set_rt r (\<lambda>e. e \<lparr> r_Attr := g (r_Attr e), TFlags := h (TFlags e) \<rparr>) w)"
  by (rule shrink_set_rt) (simp_all add: rt_ok_def)

lemma rtDeleteCommon_spec:
  assumes "trie_laws env D" "deletes D k nd" "net_wf D w" "z < length (zones w)" "pairs w < Suc k"
  shows "\<exists>ret w'. rtDeleteCommon env nd z dst zns host w = Some (ret, w') \<and> shrink D w w' \<and> rt_deleted env z dst zns host w ret w'"
proof (cases "RtFind z dst zns w")
  case (Some r)
  have r: "r < length (rts w)" "r_Key (rt w r) = (IPNet_String dst, zns)"
    using net_wf_rt_map [OF assms(3,4), of "(IPNet_String dst, zns)"] Some by (simp_all add: RtFind_def)
  have s: "shrink D w (set_rt r (\<lambda>e. e \<lparr> r_Attr := g (r_Attr e), TFlags := h (TFlags e) \<rparr>) w)" for g h
    by (rule set_role_shrink [OF assms(3)])
  obtain w' where w': "rt_remove env nd z dst r w = Some w'" "shrink D w w'" "gm_get (rt_map z w') (r_Key (rt w r)) = None"
    using rt_remove_spec [OF assms r(1)] by blast
  show ?thesis
  proof (cases "host \<and> \<not> HostRoute (r_Attr (rt w r)) \<or> rt_skip env dst")
    case True
    then show ?thesis using Some assms(3) by (auto simp: rtDeleteCommon_def rt_deleted_def Let_def)
  next
    case False
    consider "HostRoute (r_Attr (rt w r))" "IfRoute (r_Attr (rt w r))" | "\<not> (IfRoute (r_Attr (rt w r)) \<and> HostRoute (r_Attr (rt w r)))"
      by blast
    then show ?thesis
    proof cases
      case 1
      then show ?thesis using False Some s
        by (cases host) (auto simp: rtDeleteCommon_def rt_deleted_def Let_def RtFind_def set_rt_def r)
    next
      case 2
      then have "\<not> (host \<and> IfRoute (r_Attr (rt w r)))" "\<not> (\<not> host \<and> HostRoute (r_Attr (rt w r)) \<and> IfRoute (r_Attr (rt w r)))"
        using False by auto
      then show ?thesis using 2 False Some w' r(2) by (auto simp: rtDeleteCommon_def rt_deleted_def Let_def RtFind_def)
    qed
  qed
qed (use assms(3) in \<open>auto simp: rtDeleteCommon_def rt_deleted_def\<close>)

lemma neigh_forget_shrink: "net_wf D w \<Longrightarrow> shrink D w (neigh_forget z k w)"
  unfolding neigh_forget_def by (rule shrink_set_nh) (auto split: if_splits)

lemma deactivate_shrink: "net_wf D w \<Longrightarrow> shrink D w (set_neigh n deactivate w)"
  by (rule shrink_set_neigh) (auto simp: neigh_ok_def deactivate_def zero_mac_def)

lemma unpair_l2_shrinks:
  assumes "net_wf D w" "n < length (neighs w)"
  shows "shrinks D w (unpair_l2 z n w)"
  using assms L2FdbDel_shrink [OF assms(1)] by (simp add: unpair_l2_def net_wf_mac split: option.split)

lemma neigh_forget_gone: "z < length (zones w) \<Longrightarrow> gm_get (nh_map z (neigh_forget z k w)) k = None"
  by (simp add: neigh_forget_def set_nh_def set_zone_def)

lemma neigh_release_spec:
  assumes "net_wf D w" "z < length (zones w)" "n < length (neighs w)"
  shows "\<exists>w'. neigh_release env z n w = Some w' \<and> shrink D w w' \<and> gm_get (nh_map z w') (n_Key (neigh w n)) = None"
proof -
  have "shrinks D w (NeighDelAllTunEP env z n w)" unfolding NeighDelAllTunEP_def by (rule del_teps_shrinks [OF assms(1,3)]) simp
  then obtain w1 where e1: "NeighDelAllTunEP env z n w = Some w1" and s1: "shrink D w w1" by (auto simp: shrinks_def)
  define w2 where "w2 = set_nh z (\<lambda>h. h \<lparr> NeighID := nPutCounter env (n_Mark (neigh w1 n)) (NeighID h) \<rparr>) w1"
  define w3 where "w3 = set_neigh n (\<lambda>ne. ne \<lparr> tFdb := None, n_Mark := NOT 0, OifPort := None, Inactive := True, Resolved := False \<rparr>) w2"
  have s2: "shrink D w1 w2" unfolding w2_def by (rule shrink_set_nh [OF shrink_wf [OF s1]]) simp
  have s3: "shrink D w2 w3" unfolding w3_def by (rule shrink_set_neigh [OF shrink_wf [OF s2]]) (auto simp: neigh_ok_def)
  have s13: "shrink D w w3" using shrink_trans [OF s1 shrink_trans [OF s2 s3]] .
  have k: "n_Key (neigh w3 n) = n_Key (neigh w n)" using good_n_Key [OF shrink_good [OF s13] assms(3)] .
  have "shrink D w (neigh_forget z (n_Key (neigh w3 n)) w3)" using shrink_trans [OF s13 neigh_forget_shrink [OF shrink_wf [OF s3]]] .
  moreover have "neigh_release env z n w = Some (neigh_forget z (n_Key (neigh w3 n)) w3)"
    using e1 by (simp add: neigh_release_def w2_def w3_def Let_def)
  ultimately show ?thesis using neigh_forget_gone [of z w3 "n_Key (neigh w3 n)"] assms(2) shrink_len(4) [OF s13] by (simp add: k)
qed

lemma neigh_inactive_gone:
  assumes "net_wf D w" "z < length (zones w)" "gm_get (nh_map z w) (IP_String addr, zns, link) = Some n" "shrink D w w'" "Inactive (neigh w' n)"
  shows "NeighFind z addr zns link w' = None"
  using shrink_nhD [OF assms(4,2), of "(IP_String addr, zns, link)"] assms(3,5)
  by (cases "gm_get (nh_map z w') (IP_String addr, zns, link)") (simp_all add: NeighFind_def)

lemma Activate_Inactive: "n < length (neighs w) \<Longrightarrow> Inactive (neigh (Activate env z n w) n) = Inactive (neigh w n)"
  by (simp add: Activate_def Let_def set_neigh_def ping_def split: option.split prod.split)

text \<open>What a deletion of a neighbour does.\<close>

definition neigh_deleted :: "nat \<Rightarrow> IP \<Rightarrow> string \<Rightarrow> int \<Rightarrow> ('c, 't) world \<Rightarrow> go_ret \<Rightarrow> ('c, 't) world \<Rightarrow> bool" where
  "neigh_deleted z addr zns link w ret w' \<longleftrightarrow>
    (if gm_get (nh_map z w) (IP_String addr, zns, link) = None then ret = Err NeighNoEntErr ''no-nh error'' \<and> w' = w
     else ret = Ok \<and> NeighFind z addr zns link w' = None)"

lemma neigh_delete_dummy:
  assumes "net_wf D w" "z < length (zones w)" "gm_get (nh_map z w) (IP_String addr, zns, link) = Some n" "Dummy (neigh w n)"
  shows "\<exists>ret w'. neigh_delete env rd z addr zns link w = Some (ret, w') \<and> shrink D w w' \<and> neigh_deleted z addr zns link w ret w'"
proof (cases "length (NhRtm (neigh w n)) > 0")
  case True
  have n: "n < length (neighs w)" using net_wf_nh [OF assms(1-3)] by simp
  have "Inactive (neigh (set_neigh n deactivate w) n)" using n by (simp add: set_neigh_def deactivate_def)
  then show ?thesis using True assms deactivate_shrink [OF assms(1), of n] neigh_inactive_gone [OF assms(1-3)]
    by (simp add: neigh_delete_def neigh_deleted_def)
next
  case False
  have "NeighFind z addr zns link (neigh_forget z (n_Key (neigh w n)) w) = None"
    using net_wf_nh [OF assms(1-3)] neigh_forget_gone [OF assms(2), of "n_Key (neigh w n)"] by (simp add: NeighFind_def)
  then show ?thesis using False assms neigh_forget_shrink [OF assms(1)] by (simp add: neigh_delete_def neigh_deleted_def)
qed

lemma neigh_delete_spec:
  assumes "deletes D k rd" "net_wf D w" "z < length (zones w)" "pairs w < k"
  shows "\<exists>ret w'. neigh_delete env rd z addr zns link w = Some (ret, w') \<and> shrink D w w' \<and> neigh_deleted z addr zns link w ret w'"
proof (cases "gm_get (nh_map z w) (IP_String addr, zns, link)")
  case None
  then show ?thesis using assms by (simp add: neigh_delete_def neigh_deleted_def)
next
  case (Some n)
  have n: "n < length (neighs w)" "n_Key (neigh w n) = (IP_String addr, zns, link)" using net_wf_nh [OF assms(2,3) Some] by simp_all
  show ?thesis
  proof (cases "Dummy (neigh w n)")
    case False
    obtain w1 where e1: "unpair_l2 z n w = Some w1" and s1: "shrink D w w1"
      using unpair_l2_shrinks [OF assms(2) n(1)] by (auto simp: shrinks_def)
    obtain r w2 where e2: "rd z (host_net env addr) zns True w1 = Some (r, w2)" and s2: "shrink D w1 w2"
      using deletesD [OF assms(1) shrink_wf [OF s1]] assms(3,4) shrink_len(4,5) [OF s1] by (force simp: returns_def)
    have n2: "n < length (neighs w2)" using n(1) shrink_len(1) [OF s1] shrink_len(1) [OF s2] by simp
    obtain w3 where e3: "Neigh_DP DpRemove n w2 = Some w3" and s3: "shrink D w2 w3"
      using Neigh_DP_shrinks [OF shrink_wf [OF s2] n2] by (auto simp: shrinks_def)
    have s13: "shrink D w w3" using shrink_trans [OF s1 shrink_trans [OF s2 s3]] .
    have n3: "n < length (neighs w3)" "z < length (zones w3)" using n2 shrink_len(1) [OF s3] assms(3) shrink_len(4) [OF s13] by simp_all
    show ?thesis
    proof (cases "length (NhRtm (neigh w3 n)) > 0")
      case True
      define w4 where "w4 = Activate env z n (set_neigh n deactivate w3)"
      have "shrink D w3 w4" unfolding w4_def
        by (rule shrink_step [OF deactivate_shrink [OF shrink_wf [OF s3]] Activate_shrink])
      then have s4: "shrink D w w4" using shrink_trans [OF s13] by blast
      have "Inactive (neigh w4 n)" using n3 by (simp add: w4_def Activate_Inactive set_neigh_def deactivate_def)
      then have "NeighFind z addr zns link w4 = None" using neigh_inactive_gone [OF assms(2,3) Some s4] by simp
      then show ?thesis using Some False e1 e2 e3 True s4 by (simp add: neigh_delete_def neigh_deleted_def w4_def)
    next
      case no: False
      obtain w4 where e4: "neigh_release env z n w3 = Some w4" and s4: "shrink D w3 w4" and g: "gm_get (nh_map z w4) (n_Key (neigh w3 n)) = None"
        using neigh_release_spec [OF shrink_wf [OF s13] n3(2,1)] by blast
      have "n_Key (neigh w3 n) = (IP_String addr, zns, link)" using good_n_Key [OF shrink_good [OF s13] n(1)] n(2) by simp
      then have "NeighFind z addr zns link w4 = None" using g by (simp add: NeighFind_def)
      then show ?thesis using Some False e1 e2 e3 no e4 shrink_trans [OF s13 s4] by (simp add: neigh_delete_def neigh_deleted_def)
    qed
  qed (rule neigh_delete_dummy [OF assms(2,3) Some])
qed

subsection \<open>The depth of a deletion is enough\<close>

lemma neigh_delete_deletes: "deletes D k rd \<Longrightarrow> deletes D k (neigh_delete env rd)"
  unfolding deletes_def [of D k "neigh_delete env rd"] using neigh_delete_spec by (fastforce simp: returns_def)

lemma rt_del_to_deletes: "trie_laws env D \<Longrightarrow> deletes D k (rt_del_to k env)"
proof (induction k)
  case (Suc k)
  then have "deletes D k (neigh_delete env (rt_del_to k env))" by (simp add: neigh_delete_deletes)
  then show ?case using rtDeleteCommon_spec [OF Suc.prems] by (fastforce simp: deletes_def [of D "Suc k"] returns_def)
qed (simp add: deletes_def)

lemma rt_del_spec:
  assumes "trie_laws env D" "net_wf D w" "z < length (zones w)"
  shows "\<exists>ret w'. rt_del env z dst zns host w = Some (ret, w') \<and> shrink D w w' \<and> rt_deleted env z dst zns host w ret w'"
proof -
  have "deletes D (pairs w) (neigh_delete env (rt_del_to (pairs w) env))"
    by (rule neigh_delete_deletes [OF rt_del_to_deletes [OF assms(1)]])
  from rtDeleteCommon_spec [OF assms(1) this assms(2,3)] show ?thesis by (simp add: rt_del_def)
qed

lemma rt_del_deletes: "trie_laws env D \<Longrightarrow> deletes D k (rt_del env)"
  using rt_del_spec by (fastforce simp: deletes_def returns_def)

lemma NeighDelete_spec:
  assumes "trie_laws env D" "net_wf D w" "z < length (zones w)"
  shows "\<exists>ret w'. NeighDelete env z addr zns link w = Some (ret, w') \<and> shrink D w w' \<and> neigh_deleted z addr zns link w ret w'"
  unfolding NeighDelete_def by (rule neigh_delete_spec [OF rt_del_deletes [OF assms(1), of "Suc (pairs w)"] assms(2,3)]) simp

end
