(* ===== verification/NetAdd.thy ===== *)
theory NetAdd
  imports NetWf
begin

text \<open>Additions of forwarding entries, neighbours and routes on well-formed stores: they return, keep the
stores well-formed, and the depth to which a route and its next hops add each other is bounded.\<close>

subsection \<open>New objects\<close>

lemma good_newI:
  assumes "net_wf D w" "shape_le (shape_of w) (shape_of w')" "net_ok D (shape_of w') w \<Longrightarrow> net_ok D (shape_of w') w'" "length (zones w') = length (zones w)"
  shows "good D w w'"
  using assms net_ok_mono [of D "shape_of w" w "shape_of w'"] by (simp add: good_def net_wf_def)

lemma good_new_neigh:
  assumes "net_wf D w" "neigh_ok (shape_of w) ne"
  shows "good D w (w \<lparr> neighs := neighs w @ [ne] \<rparr>)"
proof (rule good_newI [OF assms(1)])
  let ?w = "w \<lparr> neighs := neighs w @ [ne] \<rparr>"
  show le: "shape_le (shape_of w) (shape_of ?w)" by (simp add: shape_le_def shape_of_def)
  show "net_ok D (shape_of ?w) w \<Longrightarrow> net_ok D (shape_of ?w) ?w" using neigh_ok_mono [OF assms(2) le] by (simp add: net_ok_def)
qed simp

lemma good_new_fdb:
  assumes "net_wf D w" "fdb_ok (shape_of w) e"
  shows "good D w (w \<lparr> fdbs := fdbs w @ [e] \<rparr>)"
proof (rule good_newI [OF assms(1)])
  let ?w = "w \<lparr> fdbs := fdbs w @ [e] \<rparr>"
  show le: "shape_le (shape_of w) (shape_of ?w)" by (simp add: shape_le_def shape_of_def)
  show "net_ok D (shape_of ?w) w \<Longrightarrow> net_ok D (shape_of ?w) ?w" using fdb_ok_mono [OF assms(2) le] by (simp add: net_ok_def)
qed simp

lemma good_new_rt:
  assumes "net_wf D w" "rt_ok (shape_of w) e"
  shows "good D w (w \<lparr> rts := rts w @ [e] \<rparr>)"
proof (rule good_newI [OF assms(1)])
  let ?w = "w \<lparr> rts := rts w @ [e] \<rparr>"
  show le: "shape_le (shape_of w) (shape_of ?w)" by (simp add: shape_le_def shape_of_def)
  show "net_ok D (shape_of ?w) w \<Longrightarrow> net_ok D (shape_of ?w) ?w" using rt_ok_mono [OF assms(2) le] by (simp add: net_ok_def)
qed simp

lemma good_new_tep:
  assumes "net_wf D w" "te_Parent te < length (neighs w)"
  shows "good D w (w \<lparr> teps := teps w @ [te] \<rparr>)"
proof (rule good_newI [OF assms(1)])
  let ?w = "w \<lparr> teps := teps w @ [te] \<rparr>"
  show "shape_le (shape_of w) (shape_of ?w)" by (simp add: shape_le_def shape_of_def)
  show "net_ok D (shape_of ?w) w \<Longrightarrow> net_ok D (shape_of ?w) ?w" using assms(2) by (simp add: net_ok_def tep_ok_def shape_of_def)
qed simp

lemma tab_ok_put: "tab_ok ks m \<Longrightarrow> i < length ks \<Longrightarrow> ks ! i = k \<Longrightarrow> tab_ok ks (gm_put k i m)"
  unfolding tab_ok_def by (metis gm_get_put option.inject)

lemma good_put_neigh:
  assumes "net_wf D w" "n < length (neighs w)" "n_Key (neigh w n) = k"
  shows "good D w (neigh_put z k n w)"
  unfolding neigh_put_def set_nh_def
  by (rule good_set_zone [OF assms(1)]) (use assms(2,3) in \<open>simp add: zone_ok_def tab_ok_put shape_of_def\<close>)

lemma good_put_l2:
  assumes "net_wf D w" "f < length (fdbs w)" "f_Key (fdb w f) = k"
  shows "good D w (set_zone z (\<lambda>zo. zo \<lparr> L2 := gm_put k f (L2 zo) \<rparr>) w)"
  by (rule good_set_zone [OF assms(1)]) (use assms(2,3) in \<open>simp add: zone_ok_def tab_ok_put shape_of_def\<close>)

lemma good_put_rt:
  assumes "net_wf D w" "r < length (rts w)" "r_Key (rt w r) = k"
  shows "good D w (set_rth z (\<lambda>h. h \<lparr> RtMark_c := c, RtMap := gm_put k r (RtMap h) \<rparr>) w)"
  unfolding set_rth_def
  by (rule good_set_zone [OF assms(1)]) (use assms(2,3) in \<open>simp add: zone_ok_def tab_ok_put shape_of_def\<close>)

lemma good_AddTrie:
  assumes "trie_laws env D" "net_wf D w" "data_ok (shape_of w) d"
  shows "good D w (snd (set_trie env z dst (AddTrie env s d) w))"
proof -
  have a: "D (snd (AddTrie env s d t)) \<subseteq> insert d (D t)" for t using assms(1) by (simp add: trie_laws_def)
  have "good D w (set_rth z (\<lambda>h. h \<lparr> Trie4 := snd (AddTrie env s d (Trie4 (z_Rt (zone w z)))) \<rparr>) w)" unfolding set_rth_def
    by (rule good_set_zone [OF assms(2)]) (use assms(3) a [of "Trie4 (z_Rt (zone w z))"] in \<open>auto simp: zone_ok_def\<close>)
  moreover have "good D w (set_rth z (\<lambda>h. h \<lparr> Trie6 := snd (AddTrie env s d (Trie6 (z_Rt (zone w z)))) \<rparr>) w)" unfolding set_rth_def
    by (rule good_set_zone [OF assms(2)]) (use assms(3) a [of "Trie6 (z_Rt (zone w z))"] in \<open>auto simp: zone_ok_def\<close>)
  ultimately show ?thesis by (simp add: set_trie_def split_beta)
qed

subsection \<open>Results that are good\<close>

definition goods :: "('t \<Rightarrow> trie_data set) \<Rightarrow> ('c, 't) world \<Rightarrow> ('c, 't) world option \<Rightarrow> bool" where
  "goods D w x \<longleftrightarrow> (\<exists>w'. x = Some w' \<and> good D w w')"

definition gives :: "('t \<Rightarrow> trie_data set) \<Rightarrow> ('c, 't) world \<Rightarrow> ('a \<times> ('c, 't) world) option \<Rightarrow> bool" where
  "gives D w x \<longleftrightarrow> (\<exists>r w'. x = Some (r, w') \<and> good D w w')"

lemma goods_Some [simp]: "goods D w (Some w') \<longleftrightarrow> good D w w'"
  by (simp add: goods_def)

lemma gives_Some [simp]: "gives D w (Some (r, w')) \<longleftrightarrow> good D w w'"
  by (simp add: gives_def)

lemma goods_after: "good D w w1 \<Longrightarrow> goods D w1 x \<Longrightarrow> goods D w x"
  by (auto simp: goods_def intro: good_trans)

lemma gives_after: "good D w w1 \<Longrightarrow> gives D w1 x \<Longrightarrow> gives D w x"
  by (auto simp: gives_def intro: good_trans)

lemma good_step: "good D w w1 \<Longrightarrow> (net_wf D w1 \<Longrightarrow> good D w1 w2) \<Longrightarrow> good D w w2"
  using good_trans good_wf by blast

lemma gives_bind_goods:
  assumes "gives D w x" "\<And>r w1. x = Some (r, w1) \<Longrightarrow> good D w w1 \<Longrightarrow> goods D w1 (f (r, w1))"
  shows "goods D w (x \<bind> f)"
proof -
  obtain r w1 where 1: "x = Some (r, w1)" "good D w w1" using assms(1) by (auto simp: gives_def)
  then show ?thesis using assms(2) [OF 1] goods_after [OF 1(2)] by simp
qed

lemma shrinks_goods: "shrinks D w x \<Longrightarrow> goods D w x"
  by (auto simp: shrinks_def goods_def shrink_def)

lemma RtDelete_gives: "trie_laws env D \<Longrightarrow> net_wf D w \<Longrightarrow> z < length (zones w) \<Longrightarrow> gives D w (RtDelete env z dst zns w)"
  using rt_del_spec [of env D w z dst zns False] by (auto simp: gives_def RtDelete_def shrink_def)

lemma RtDeleteHost_gives: "trie_laws env D \<Longrightarrow> net_wf D w \<Longrightarrow> z < length (zones w) \<Longrightarrow> gives D w (RtDeleteHost env z dst zns w)"
  using rt_del_spec [of env D w z dst zns True] by (auto simp: gives_def RtDeleteHost_def shrink_def)

lemma NeighDelete_gives: "trie_laws env D \<Longrightarrow> net_wf D w \<Longrightarrow> z < length (zones w) \<Longrightarrow> gives D w (NeighDelete env z addr zns link w)"
  using NeighDelete_spec [of env D w z addr zns link] by (auto simp: gives_def shrink_def)

lemma Neigh_DP_goods: "net_wf D w \<Longrightarrow> n < length (neighs w) \<Longrightarrow> goods D w (Neigh_DP work n w)"
  by (rule shrinks_goods [OF Neigh_DP_shrinks])

subsection \<open>Tunnel end-points and resolution\<close>

lemma trie_data:
  assumes "trie_laws env D" "net_wf D w" "z < length (zones w)" "FindTrie env s (Trie4 (z_Rt (zone w z))) = Some (net, d)"
  shows "data_ok (shape_of w) d"
proof -
  have "d \<in> D (Trie4 (z_Rt (zone w z)))" using assms(1,4) by (auto simp: trie_laws_def)
  then show ?thesis using net_wf_zone [OF assms(2,3)] by (auto simp: zone_ok_def)
qed

lemma get_tid_good: "net_wf D w \<Longrightarrow> good D w (snd (get_tid env z w))"
  unfolding get_tid_def by (auto split: prod.split intro!: shrink_good [OF shrink_set_nh])

lemma get_tid_neighs [simp]: "neighs (snd (get_tid env z w)) = neighs w"
  by (simp add: get_tid_def set_nh_def set_zone_def split: prod.split)

text \<open>The end-point that is added is in the store.\<close>

definition adds_tep :: "('t \<Rightarrow> trie_data set) \<Rightarrow> ('c, 't) world \<Rightarrow> (nat option \<times> ('c, 't) world) option \<Rightarrow> bool" where
  "adds_tep D w x \<longleftrightarrow> (\<exists>ep w'. x = Some (ep, w') \<and> good D w w' \<and> opt_lt ep (length (teps w')))"

lemma new_tep_good:
  assumes "net_wf D w" "n < length (neighs w)" "te_Parent te = n" "t = length (teps w)"
  shows "good D w (set_neigh n (\<lambda>ne. ne \<lparr> TunEps := TunEps ne @ [t], NhType := NhType ne OR NhTun \<rparr>) (w \<lparr> teps := teps w @ [te] \<rparr>))"
proof (rule good_step [OF good_new_tep [OF assms(1), of te]])
  show "te_Parent te < length (neighs w)" using assms by simp
  assume "net_wf D (w \<lparr> teps := teps w @ [te] \<rparr>)"
  then show "good D (w \<lparr> teps := teps w @ [te] \<rparr>)
      (set_neigh n (\<lambda>ne. ne \<lparr> TunEps := TunEps ne @ [t], NhType := NhType ne OR NhTun \<rparr>) (w \<lparr> teps := teps w @ [te] \<rparr>))"
    by (rule good_set_neigh) (use assms(4) in \<open>auto simp: neigh_ok_def shape_of_def\<close>)
qed

lemma NeighAddTunEP_adds:
  assumes "net_wf D w" "n < length (neighs w)"
  shows "adds_tep D w (NeighAddTunEP env z n rIP sIP tunID tunType sync w)"
proof (cases "OifPort (neigh w n)")
  case None
  then show ?thesis using assms by (simp add: NeighAddTunEP_def adds_tep_def)
next
  case (Some q)
  let ?f = "find (\<lambda>t. IP_Equal (te_rIP (tep w t)) rIP \<and> te_tunID (tep w t) = tunID \<and> te_tunType (tep w t) = tunType) (TunEps (neigh w n))"
  let ?e = "if sIP = [] then IfaSelect (l3_ports env z w) (L3 (zone w z)) (p_Name (port w q)) rIP False else (0, sIP, [])"
  show ?thesis
  proof (cases "PortOvl (SInfo (port w q)) = None \<and> tunType \<noteq> DpTunIPIP")
    case True
    then show ?thesis using Some assms by (simp add: NeighAddTunEP_def adds_tep_def)
  next
    case ovl: False
    show ?thesis
    proof (cases ?f)
      case (Some t)
      then have "t \<in> set (TunEps (neigh w n))" by (auto simp: find_Some_iff)
      then have "t < length (teps w)" by (rule net_wf_teps [OF assms])
      then show ?thesis using \<open>OifPort (neigh w n) = Some q\<close> ovl Some assms
        by (simp only: NeighAddTunEP_def adds_tep_def option.case if_False) (simp add: ovl)
    next
      case None
      obtain e src x where esrc: "?e = (e, src, x)" by (cases ?e)
      obtain idx ok w1 where tid: "get_tid env z w = ((idx, ok), w1)" by (metis prod.collapse)
      have g1: "good D w w1" "neighs w1 = neighs w" using get_tid_good [OF assms(1), of env z] get_tid_neighs [of env z w] tid by simp_all
      define te where "te = \<lparr> te_sIP = src, te_rIP = rIP, te_tunID = tunID, te_tunType = tunType, te_Mark = idx, te_Parent = n,
                          te_Inactive = False, te_Sync = DpStatusOk \<rparr>"
      define t where "t = length (teps w1)"
      define w2 where "w2 = set_neigh n (\<lambda>ne. ne \<lparr> TunEps := TunEps ne @ [t], NhType := NhType ne OR NhTun \<rparr>) (w1 \<lparr> teps := teps w1 @ [te] \<rparr>)"
      have g2: "good D w1 w2" unfolding w2_def by (rule new_tep_good [OF good_wf [OF g1(1)]]) (use assms(2) g1 in \<open>simp_all add: te_def t_def\<close>)
      have t2: "t < length (teps w2)" by (simp add: w2_def t_def set_neigh_def)
      obtain ms where ms: "Tep_DP DpCreate t w2 = Some (to_dp ms w2)" using Tep_DP_eq [OF good_wf [OF g2] t2] by blast
      have "good D w2 (to_dp ms w2)" using good_wf [OF g2] by simp
      moreover have "teps (to_dp ms w2) = teps w2" by (simp add: to_dp_def)
      ultimately have fin: "adds_tep D w ((if sync then Tep_DP DpCreate t w2 else Some w2) \<bind> (\<lambda>w3. Some (Some t, w3)))"
        using ms t2 good_trans [OF g1(1) g2] good_trans [OF good_trans [OF g1(1) g2]] by (auto simp: adds_tep_def)
      have eq: "NeighAddTunEP env z n rIP sIP tunID tunType sync w = (if e \<noteq> 0 then Some (None, w) else if \<not> ok then Some (None, w1)
          else (if sync then Tep_DP DpCreate t w2 else Some w2) \<bind> (\<lambda>w3. Some (Some t, w3)))"
        unfolding NeighAddTunEP_def \<open>OifPort (neigh w n) = Some q\<close> option.case None esrc tid
        by (simp only: ovl if_False w2_def t_def te_def Let_def prod.case)
      show ?thesis using fin assms(1) g1(1) unfolding eq by (auto simp: adds_tep_def)
    qed
  qed
qed

lemma good_unresolve [simp]: "net_wf D w \<Longrightarrow> good D w (set_neigh n unresolve w)"
  by (rule good_set_neigh) (auto simp: neigh_ok_def unresolve_def)

lemma good_add_dep:
  assumes "net_wf D w" "dep_ok (shape_of w) d"
  shows "good D w (set_rt r (\<lambda>r. r \<lparr> RtDepObjs := RtDepObjs r @ [d] \<rparr>) w)"
  by (rule good_set_rt [OF assms(1)]) (use assms(2) in \<open>auto simp: rt_ok_def\<close>)

lemma net_wf_RtFind: "net_wf D w \<Longrightarrow> z < length (zones w) \<Longrightarrow> RtFind z dst zns w = Some r \<Longrightarrow> r < length (rts w) \<and> r_Key (rt w r) = (IPNet_String dst, zns)"
  using net_wf_rt_map [of D w z "(IPNet_String dst, zns)" r] by (simp add: RtFind_def)

lemma net_wf_L2FdbFind: "net_wf D w \<Longrightarrow> z < length (zones w) \<Longrightarrow> L2FdbFind z k w = Some f \<Longrightarrow> f < length (fdbs w)"
  using net_wf_l2 [of D w z k f] by (simp add: L2FdbFind_def)

lemma resolve_iptun_gives:
  assumes "trie_laws env D" "net_wf D w" "z < length (zones w)"
  shows "gives D w (resolve_iptun env z n hw w)"
proof (cases "FindTrie env (IP_String (hw_TunDst hw)) (Trie4 (z_Rt (zone w z)))")
  case None
  then show ?thesis using assms by (simp add: resolve_iptun_def)
next
  case (Some nd)
  obtain net d where nd: "nd = (net, d)" by (cases nd)
  show ?thesis
  proof (cases d)
    case (TrieIfi i)
    then show ?thesis using Some nd assms by (simp add: resolve_iptun_def)
  next
    case (TrieNeigh nh)
    have nh: "nh < length (neighs w)" using trie_data [OF assms(1-3)] Some nd TrieNeigh by (fastforce simp: shape_of_def)
    obtain ep w1 where ep: "NeighAddTunEP env z nh (hw_TunDst hw) (hw_TunSrc hw) (hw_TunID hw) DpTunIPIP True w = Some (ep, w1)"
        and g1: "good D w w1"
      using NeighAddTunEP_adds [OF assms(2) nh] by (force simp: adds_tep_def)
    have "good D w1 (set_neigh n (\<lambda>ne. ne \<lparr> RMark := te_Mark (tep w1 t), Resolved := True, RecNh := Some nh,
        NhType := NhType ne OR NhRecursive \<rparr>) (set_rt r (\<lambda>r. r \<lparr> RtDepObjs := RtDepObjs r @ [DepNeigh nh] \<rparr>) w1))" for t r
      by (rule good_step [OF good_add_dep [OF good_wf [OF g1], of "DepNeigh nh" r]], use nh good_len(1) [OF g1] in \<open>simp add: shape_of_def\<close>)
        (rule good_set_neigh, auto simp: neigh_ok_def)
    from good_trans [OF g1 this]
    show ?thesis using Some nd TrieNeigh assms(2) ep g1 by (simp add: resolve_iptun_def split: option.split)
  qed
qed

lemma resolve_fdb_gives:
  assumes "net_wf D w" "z < length (zones w)" "n < length (neighs w)"
  shows "gives D w (resolve_fdb env z n q w)"
proof -
  have g: "good D w (set_neigh n (\<lambda>ne. ne \<lparr> tFdb := Some f, RMark := m, NhType := NhType ne OR NhRecursive \<rparr>) w)" if "f < length (fdbs w)" for f m
    by (rule good_set_neigh [OF assms(1)]) (use that in \<open>auto simp: neigh_ok_def shape_of_def\<close>)
  have u: "good D w (set_neigh n (\<lambda>ne. unresolve ne \<lparr> tFdb := None \<rparr>) w)"
    by (rule good_set_neigh [OF assms(1)]) (auto simp: neigh_ok_def unresolve_def)
  show ?thesis using assms(1) g u net_wf_L2FdbFind [OF assms(1,2)] by (auto simp: resolve_fdb_def net_wf_mac [OF assms(1,3)] split: option.split)
qed

lemma NeighRecursiveResolve_gives:
  assumes "trie_laws env D" "net_wf D w" "z < length (zones w)" "n < length (neighs w)"
  shows "gives D w (NeighRecursiveResolve env z n w)"
proof (cases "OifPort (neigh w n)")
  case None
  then show ?thesis using assms by (simp add: NeighRecursiveResolve_def)
next
  case (Some q)
  define w1 where "w1 = set_neigh n (\<lambda>ne. ne \<lparr> Resolved := (HardwareAddr (n_Attr ne) \<noteq> zero_mac) \<rparr>) w"
  define stale where "stale = (case tFdb (neigh w1 n) of None \<Rightarrow> False | Some f \<Rightarrow> f_inActive (fdb w1 f) \<or> unReach (fdb w1 f))"
  define w2 where "w2 = (if stale then set_neigh n (\<lambda>ne. unresolve ne \<lparr> NhType := NhType ne AND NOT NhRecursive, tFdb := None \<rparr>) w1 else w1)"
  have g1: "good D w w1" unfolding w1_def by (rule good_set_neigh [OF assms(2)]) (auto simp: neigh_ok_def)
  have "good D w1 (set_neigh n (\<lambda>ne. unresolve ne \<lparr> NhType := NhType ne AND NOT NhRecursive, tFdb := None \<rparr>) w1)"
    by (rule good_set_neigh [OF good_wf [OF g1]]) (auto simp: neigh_ok_def unresolve_def)
  then have g2: "good D w1 w2" using good_wf [OF g1] by (simp add: w2_def)
  have g: "good D w w2" using good_trans [OF g1 g2] .
  have b: "z < length (zones w2)" "n < length (neighs w2)" using assms(3,4) good_len(1,6) [OF g] by simp_all
  have "gives D w2 (if \<not> Resolved (neigh w2 n) then Some (False, w2)
     else if IsIPinIPTunPort (port w2 q) then resolve_iptun env z n (HInfo (port w2 q)) w2 else resolve_fdb env z n q w2)"
    using good_wf [OF g] resolve_iptun_gives [OF assms(1) good_wf [OF g] b(1)] resolve_fdb_gives [OF good_wf [OF g] b] by simp
  from gives_after [OF g this] show ?thesis
    unfolding NeighRecursiveResolve_def Some Let_def option.case w2_def stale_def w1_def .
qed

subsection \<open>Forwarding entries\<close>

lemma tryResolveUpper_good: "net_wf D w \<Longrightarrow> good D w (tryResolveUpper env zn f addr w)"
  by (simp add: tryResolveUpper_def Let_def split: prod.split)

lemma L2FdbResolveNh_gives:
  assumes "trie_laws env D" "net_wf D w" "f < length (fdbs w)"
  shows "\<exists>x. L2FdbResolveNh env f w = Some x \<and> good D w (snd (snd x))"
proof (cases "fst (Zonefind (p_Zone (port w (f_Port (fdb w f)))) w)")
  case None
  then show ?thesis using assms by (simp add: L2FdbResolveNh_def Let_def)
next
  case (Some zn)
  have zn: "zn < length (zones w)" using net_wf_Zonefind [OF assms(2) Some] .
  let ?dst = "f_Dst (f_Attr (fdb w f))" and ?p = "port w (f_Port (fdb w f))"
  have tun: "\<exists>ep w1. NeighAddTunEP env zn nh ?dst [] (hw_TunID (HInfo ?p)) DpTunVxlan True w = Some (ep, w1) \<and> good D w w1 \<and>
      (\<forall>t r. ep = Some t \<longrightarrow> r < length (rts w) \<longrightarrow>
         good D w (set_fdb f (\<lambda>e. e \<lparr> FdbTun_p := \<lparr> t_rt = Some r, t_nh = Some nh, t_ep = Some t \<rparr> \<rparr>)
            (set_rt r (\<lambda>r. r \<lparr> RtDepObjs := RtDepObjs r @ [DepFdb f] \<rparr>) w1)))"
    if nh: "nh < length (neighs w)" for nh
  proof -
    obtain ep w1 where ep: "NeighAddTunEP env zn nh ?dst [] (hw_TunID (HInfo ?p)) DpTunVxlan True w = Some (ep, w1)"
        and g1: "good D w w1" and t: "opt_lt ep (length (teps w1))"
      using NeighAddTunEP_adds [OF assms(2) nh] by (force simp: adds_tep_def)
    have "good D w1 (set_fdb f (\<lambda>e. e \<lparr> FdbTun_p := \<lparr> t_rt = Some r, t_nh = Some nh, t_ep = Some t \<rparr> \<rparr>)
            (set_rt r (\<lambda>r. r \<lparr> RtDepObjs := RtDepObjs r @ [DepFdb f] \<rparr>) w1))" if "ep = Some t" "r < length (rts w)" for t r
      by (rule good_step [OF good_add_dep [OF good_wf [OF g1], of "DepFdb f" r]], use assms(3) good_len(2) [OF g1] in \<open>simp add: shape_of_def\<close>)
        (rule good_set_fdb, use that t nh good_len(1,3) [OF g1] in \<open>auto simp: fdb_ok_def shape_of_def set_rt_def\<close>)
    then show ?thesis using ep g1 good_trans [OF g1] by blast
  qed
  show ?thesis
  proof (cases "\<exists>net nh. FindTrie env (IP_String ?dst) (Trie4 (z_Rt (zone w zn))) = Some (net, TrieNeigh nh)")
    case True
    then obtain net nh where tr: "FindTrie env (IP_String ?dst) (Trie4 (z_Rt (zone w zn))) = Some (net, TrieNeigh nh)" by blast
    have "nh < length (neighs w)" using trie_data [OF assms(1,2) zn tr] by (simp add: shape_of_def)
    from tun [OF this] show ?thesis using Some tr assms(2) net_wf_RtFind [OF assms(2) zn]
      by (auto simp: L2FdbResolveNh_def Let_def split: option.split)
  next
    case False
    then have "\<exists>x. L2FdbResolveNh env f w = Some x \<and> (snd (snd x) = w \<or> snd (snd x) = tryResolveUpper env zn f ?dst w)"
      using Some by (auto simp: L2FdbResolveNh_def Let_def split: option.split trie_data.split)
    then show ?thesis using assms(2) tryResolveUpper_good [OF assms(2)] by fastforce
  qed
qed

lemma net_wf_PortFindByName: "net_wf D w \<Longrightarrow> z < length (zones w) \<Longrightarrow> PortFindByName z s w = Some q \<Longrightarrow> q < length (ports w)"
  using net_wf_zone [of D w z] by (auto simp: zone_ok_def PortFindByName_def shape_of_def intro: ptr_ok_get)

lemma net_wf_PortFindByOSID: "net_wf D w \<Longrightarrow> z < length (zones w) \<Longrightarrow> PortFindByOSID z i w = Some q \<Longrightarrow> q < length (ports w)"
  using net_wf_zone [of D w z] by (auto simp: zone_ok_def PortFindByOSID_def shape_of_def intro: ptr_ok_get)

lemma Fdb_DP_good: "net_wf D w \<Longrightarrow> good D w (snd (Fdb_DP work f w))"
  by (rule shrink_good [OF Fdb_DP_shrink])

lemma good_f_Key: "good D w w' \<Longrightarrow> f < length (fdbs w) \<Longrightarrow> f_Key (fdb w' f) = f_Key (fdb w f)"
  using good_len(2) [of D w w'] prefix_nth [of "map f_Key (fdbs w)" "map f_Key (fdbs w')" f]
  by (simp add: good_def shape_le_def shape_of_def)

lemma good_fdb_flag: "net_wf D w \<Longrightarrow> good D w (set_fdb f (\<lambda>e. e \<lparr> unReach := u \<rparr>) w)"
  by (rule good_set_fdb) (auto simp: fdb_ok_def)

lemma fdb_create_gives:
  assumes "trie_laws env D" "net_wf D w" "q < length (ports w)"
  shows "gives D w (fdb_create env z key attr q w)"
proof -
  define e where "e = \<lparr> f_Key = key, f_Attr = attr, FdbTun_p = \<lparr> t_rt = None, t_nh = None, t_ep = None \<rparr>, f_Port = q, stime = now w,
               unReach = False, f_inActive = False, hCnt = 0, f_Sync = DpStatusOk \<rparr>"
  define f where "f = length (fdbs w)"
  define w1 where "w1 = w \<lparr> fdbs := fdbs w @ [e] \<rparr>"
  define x where "x = (if has (PortType (SInfo (port w1 q))) PortVxlanBr
             then do { (un, _, w') \<leftarrow> L2FdbResolveNh env f w1; Some (set_fdb f (\<lambda>e. e \<lparr> unReach := un \<rparr>) w') } else Some w1)"
  have g1: "good D w w1" unfolding w1_def by (rule good_new_fdb [OF assms(2)]) (use assms(3) in \<open>simp add: e_def fdb_ok_def shape_of_def\<close>)
  have f1: "f < length (fdbs w1)" "f_Key (fdb w1 f) = key" by (simp_all add: w1_def f_def e_def)
  obtain y where y: "L2FdbResolveNh env f w1 = Some y" "good D w1 (snd (snd y))"
    using L2FdbResolveNh_gives [OF assms(1) good_wf [OF g1] f1(1)] by blast
  have "goods D w1 x" using y good_wf [OF g1] good_step [OF y(2) good_fdb_flag] by (cases y) (simp add: x_def)
  then obtain w2 where w2: "x = Some w2" "good D w1 w2" by (auto simp: goods_def)
  define w3 where "w3 = set_zone z (\<lambda>zo. zo \<lparr> L2 := gm_put key f (L2 zo) \<rparr>) w2"
  have g3: "good D w2 w3" unfolding w3_def
    by (rule good_put_l2 [OF good_wf [OF w2(2)]]) (use f1 good_len(2) [OF w2(2)] good_f_Key [OF w2(2) f1(1)] in simp_all)
  have "good D w (snd (Fdb_DP DpCreate f w3))"
    using good_trans [OF g1 good_trans [OF w2(2) good_trans [OF g3 Fdb_DP_good [OF good_wf [OF g3]]]]] .
  moreover have "fdb_create env z key attr q w = Some (Ok, snd (Fdb_DP DpCreate f w3))"
    using w2(1) unfolding x_def fdb_create_def Let_def f_def [symmetric] e_def [symmetric] w1_def [symmetric] w3_def by simp
  ultimately show ?thesis by simp
qed

lemma L2FdbDel_good: "net_wf D w \<Longrightarrow> good D w (snd (L2FdbDel z key w))"
  by (rule shrink_good [OF L2FdbDel_shrink])

lemma L2FdbAdd_gives:
  assumes "trie_laws env D" "net_wf D w" "z < length (zones w)"
  shows "gives D w (L2FdbAdd env z key attr w)"
proof (cases "fdb_port z (Oif attr) w")
  case None
  then show ?thesis using assms by (simp add: L2FdbAdd_def)
next
  case (Some q)
  have q: "q < length (ports w)" using Some net_wf_PortFindByName [OF assms(2,3)] by (auto simp: fdb_port_def split: option.splits if_splits)
  have d: "gives D w (fdb_create env z key attr q (snd (L2FdbDel z key w)))"
    using gives_after [OF L2FdbDel_good [OF assms(2)] fdb_create_gives [OF assms(1) good_wf [OF L2FdbDel_good [OF assms(2)]]]]
      q good_len(5) [OF L2FdbDel_good [OF assms(2)], of z key] by simp
  have "good D w (set_fdb f (\<lambda>e. e \<lparr> hCnt := hCnt e + 1 \<rparr>) w)" for f by (rule good_set_fdb [OF assms(2)]) (auto simp: fdb_ok_def)
  then show ?thesis using Some assms(2) fdb_create_gives [OF assms(1,2) q] d by (simp add: L2FdbAdd_def split: option.split)
qed

lemma FdbTicker_goods:
  assumes "trie_laws env D" "net_wf D w" "z < length (zones w)" "f < length (fdbs w)"
  shows "goods D w (FdbTicker env z f w)"
proof -
  let ?fin = "set_fdb f (\<lambda>e. e \<lparr> stime := now w \<rparr>)"
  have fin: "good D w (?fin w')" if "good D w w'" for w'
    by (rule good_step [OF that good_set_fdb]) (auto simp: fdb_ok_def)
  have p: "good D w (set_fdb f (\<lambda>e. e \<lparr> f_Port := q, f_Sync := DpCreateErr \<rparr>) w)" if "q < length (ports w)" for q
    by (rule good_set_fdb [OF assms(2)]) (use that in \<open>auto simp: fdb_ok_def shape_of_def\<close>)
  obtain u r w1 where x: "L2FdbResolveNh env f w = Some (u, r, w1)" "good D w w1"
    using L2FdbResolveNh_gives [OF assms(1,2,4)] by (metis prod.collapse)
  have x2: "good D w (snd (Fdb_DP DpCreate f (set_fdb f (\<lambda>e. e \<lparr> unReach := u \<rparr>) w1)))"
    by (rule good_trans [OF x(2) good_step [OF good_fdb_flag [OF good_wf [OF x(2)]] Fdb_DP_good]])
  show ?thesis
    using assms(2) x fin [OF x2] fin [OF x(2)] fin [of w] fin [OF L2FdbDel_good [OF assms(2)]] fin [OF Fdb_DP_good [OF assms(2)]]
      fin [OF p] net_wf_PortFindByName [OF assms(2,3)]
    by (auto simp: FdbTicker_def Let_def split: option.split)
qed

lemma range_map_goods:
  assumes "\<And>w k v. net_wf D w \<Longrightarrow> length (zones w) = n \<Longrightarrow> gm_get (m w) k = Some v \<Longrightarrow> goods D w (body v w)"
    "net_wf D w" "length (zones w) = n"
  shows "goods D w (range_map m body ks w)"
  using assms(2,3)
proof (induction ks arbitrary: w)
  case (Cons k ks)
  show ?case
  proof (cases "gm_get (m w) k")
    case (Some v)
    obtain w1 where w1: "body v w = Some w1" "good D w w1" using assms(1) [OF Cons.prems Some] by (auto simp: goods_def)
    then show ?thesis using Some Cons.IH [OF good_wf [OF w1(2)]] Cons.prems(2) good_len(6) [OF w1(2)] goods_after [OF w1(2)] by simp
  qed (use Cons in simp)
qed simp

lemma FdbsTicker_goods:
  assumes "trie_laws env D" "net_wf D w" "z < length (zones w)"
  shows "goods D w (FdbsTicker env z w)"
  unfolding FdbsTicker_def
  by (rule range_map_goods [OF _ assms(2) refl]) (use assms(1,3) FdbTicker_goods net_wf_l2 in \<open>metis\<close>)

lemma pair_l2_gives:
  assumes "trie_laws env D" "net_wf D w" "z < length (zones w)" "n < length (neighs w)"
  shows "gives D w (pair_l2 env z n q w)"
  using assms(2) L2FdbAdd_gives [OF assms(1-3)] by (simp add: pair_l2_def net_wf_mac [OF assms(2,4)])

subsection \<open>Neighbours\<close>

definition adder :: "('t \<Rightarrow> trie_data set) \<Rightarrow> ('c, 't) neigh_adder \<Rightarrow> bool" where
  "adder D na \<longleftrightarrow> (\<forall>z addr zns attr w. net_wf D w \<and> z < length (zones w) \<and> 6 \<le> length (HardwareAddr attr) \<longrightarrow> gives D w (na z addr zns attr w))"

definition host_adder :: "('t \<Rightarrow> trie_data set) \<Rightarrow> ('c, 't) route_adder \<Rightarrow> bool" where
  "host_adder D ra \<longleftrightarrow> (\<forall>z dst zns a hs w. net_wf D w \<and> z < length (zones w) \<and> HostRoute a \<and> \<not> IfRoute a \<longrightarrow> gives D w (ra z dst zns a hs w))"

lemma Activate_good: "net_wf D w \<Longrightarrow> good D w (Activate env z n w)"
  by (rule shrink_good [OF Activate_shrink])

lemma neigh_finish_gives:
  assumes "trie_laws env D" "host_adder D ra" "net_wf D w" "z < length (zones w)" "n < length (neighs w)"
  shows "gives D w (neigh_finish env ra z addr zns link n q w)"
proof -
  let ?a = "\<lparr> Protocol = 0, OSFlags = 0, HostRoute = True, Ifi = link, IfRoute = False \<rparr>"
  have "gives D w (ra z (host_net env addr) zns ?a [\<lparr> NhAddr = addr, LinkIndex = link \<rparr>] w)"
    using assms(2-4) by (simp add: host_adder_def)
  then obtain r w1 where e1: "ra z (host_net env addr) zns ?a [\<lparr> NhAddr = addr, LinkIndex = link \<rparr>] w = Some (r, w1)" and g1: "good D w w1"
    by (auto simp: gives_def)
  have wf1: "net_wf D w1" "z < length (zones w1)" "n < length (neighs w1)" using g1 assms(4,5) good_len [OF g1] good_wf [OF g1] by simp_all
  obtain r' w1' where e1': "NeighDelete env z addr zns link w1 = Some (r', w1')" "good D w1 w1'"
    using NeighDelete_gives [OF assms(1) wf1(1,2)] by (force simp: gives_def)
  obtain r2 w2 where e2: "pair_l2 env z n q w1 = Some (r2, w2)" and g2: "good D w1 w2"
    using pair_l2_gives [OF assms(1) wf1] by (force simp: gives_def)
  have wf2: "net_wf D w2" "z < length (zones w2)" using wf1 good_len [OF g2] good_wf [OF g2] by simp_all
  obtain r3 w3 where e3: "RtDeleteHost env z (host_net env addr) zns w2 = Some (r3, w3)" and g3: "good D w2 w3"
    using RtDeleteHost_gives [OF assms(1) wf2] by (force simp: gives_def)
  obtain r4 w4 where e4: "NeighDelete env z addr zns link w3 = Some (r4, w4)" and g4: "good D w3 w4"
    using NeighDelete_gives [OF assms(1) good_wf [OF g3]] wf2(2) good_len(6) [OF g3] by (force simp: gives_def)
  show ?thesis
    using good_trans [OF g1 e1'(2)] good_trans [OF g1 good_trans [OF g2 good_trans [OF g3 g4]]] good_trans [OF g1 good_trans [OF g2 Activate_good [OF wf2(1)]]]
    by (simp add: neigh_finish_def e1 e1'(1) e2 e3 e4)
qed

lemma neigh_mark_spec:
  assumes "net_wf D w" "neigh_mark env z ne w = (x, w1)"
  shows "good D w w1 \<and> neighs w1 = neighs w \<and> (\<forall>ne'. x = Some ne' \<longrightarrow> (\<exists>m. ne' = ne \<lparr> n_Mark := m \<rparr>))"
proof (cases "n_Mark ne \<noteq> 0")
  case True
  then have "x = Some ne" "w1 = w" using assms(2) by (simp_all add: neigh_mark_def)
  then show ?thesis using assms(1) by (auto intro: exI [of _ "n_Mark ne"])
next
  case False
  obtain m ok c where c: "nGetCounter env (NeighID (Nh (zone w z))) = ((m, ok), c)" by (metis prod.collapse)
  have w1: "w1 = set_nh z (\<lambda>h. h \<lparr> NeighID := c \<rparr>) w" and x: "x = (if ok then Some (ne \<lparr> n_Mark := m \<rparr>) else None)"
    using assms(2) False c by (auto simp: neigh_mark_def)
  have "good D w w1" unfolding w1 by (rule shrink_good [OF shrink_set_nh [OF assms(1)]]) simp
  moreover have "neighs w1 = neighs w" by (simp add: w1 set_nh_def set_zone_def)
  ultimately show ?thesis using x by auto
qed

lemma neigh_store_good:
  assumes "net_wf D w" "neigh_ok (shape_of w) ne" "\<And>n. old = Some n \<Longrightarrow> n < length (neighs w) \<and> n_Key ne = n_Key (neigh w n)"
    "neigh_store old ne w = (n, w')"
  shows "good D w w' \<and> n < length (neighs w') \<and> neigh w' n = ne"
proof (cases old)
  case None
  then show ?thesis using assms(4) good_new_neigh [OF assms(1,2)] by (auto simp: neigh_store_def)
next
  case (Some m)
  then have m: "m < length (neighs w)" "n_Key ne = n_Key (neigh w m)" "n = m" "w' = set_neigh m (\<lambda>_. ne) w"
    using assms(3,4) by (auto simp: neigh_store_def)
  have "set_neigh m (\<lambda>_. ne) w = set_neigh m (\<lambda>e. if n_Key e = n_Key ne then ne else e) w" using m(2) by (simp add: set_neigh_def)
  moreover have "good D w (set_neigh m (\<lambda>e. if n_Key e = n_Key ne then ne else e) w)"
    by (rule good_set_neigh [OF assms(1)]) (use assms(2) in auto)
  ultimately show ?thesis using m by (simp add: set_neigh_def)
qed

lemma neigh_install_gives:
  assumes "trie_laws env D" "host_adder D ra" "net_wf D w" "z < length (zones w)" "q < length (ports w)" "6 \<le> length (HardwareAddr attr)"
    "\<And>n. old = Some n \<Longrightarrow> n < length (neighs w)"
  shows "gives D w (neigh_install env ra z addr zns attr q old w)"
proof -
  define ne0 where "ne0 = (case old of None \<Rightarrow> zero_neigh \<lparr> n_Key := (IP_String addr, zns, OSLinkIndex attr) \<rparr> | Some n \<Rightarrow> neigh w n)"
  obtain x w1 where mk: "neigh_mark env z ne0 w = (x, w1)" by (cases "neigh_mark env z ne0 w")
  have g1: "good D w w1" and n1: "neighs w1 = neighs w" and x: "\<And>ne. x = Some ne \<Longrightarrow> \<exists>m. ne = ne0 \<lparr> n_Mark := m \<rparr>"
    using neigh_mark_spec [OF assms(3) mk] by auto
  show ?thesis
  proof (cases x)
    case None
    then show ?thesis using g1 mk by (simp add: neigh_install_def ne0_def [symmetric] Let_def)
  next
    case (Some ne)
    then obtain m where ne: "ne = ne0 \<lparr> n_Mark := m \<rparr>" using x by blast
    define ne2 where "ne2 = ne \<lparr> Dummy := False, n_Addr := addr, n_Attr := attr, OifPort := Some q, NhType := NhType ne OR NhNormal, Inactive := False \<rparr>"
    obtain n w2 where st: "neigh_store old ne2 w1 = (n, w2)" by (cases "neigh_store old ne2 w1")
    have old: "neigh_ok (shape_of w1) (neigh w k)" if "old = Some k" for k
      using net_wf_neigh [OF good_wf [OF g1], of k] assms(7) [OF that] n1 by simp
    have ok: "neigh_ok (shape_of w1) ne2"
      using assms(5,6) old good_len(5) [OF g1] by (auto simp: ne2_def ne ne0_def neigh_ok_def zero_neigh_def shape_of_def split: option.split)
    have key: "old = Some k \<Longrightarrow> k < length (neighs w1) \<and> n_Key ne2 = n_Key (neigh w1 k)" for k
      using assms(7) n1 by (simp add: ne2_def ne ne0_def)
    have g2: "good D w1 w2" "n < length (neighs w2)" using neigh_store_good [OF good_wf [OF g1] ok key st] by simp_all
    have z2: "z < length (zones w2)" using assms(4) good_len(6) [OF g1] good_len(6) [OF g2(1)] by simp
    obtain c w3 where e3: "NeighRecursiveResolve env z n w2 = Some (c, w3)" and g3: "good D w2 w3"
      using NeighRecursiveResolve_gives [OF assms(1) good_wf [OF g2(1)] z2 g2(2)] by (force simp: gives_def)
    define w3' where "w3' = (if old = None then neigh_put z (n_Key (neigh w3 n)) n w3 else w3)"
    have n3: "n < length (neighs w3)" using g2(2) good_len(1) [OF g3] by simp
    have g3': "good D w3 w3'" using good_wf [OF g3] good_put_neigh [OF good_wf [OF g3] n3 refl] by (simp add: w3'_def)
    have "n < length (neighs w3')" using n3 good_len(1) [OF g3'] by simp
    then obtain w4 where e4: "Neigh_DP DpCreate n w3' = Some w4" and g4: "good D w3' w4"
      using Neigh_DP_goods [OF good_wf [OF g3']] by (force simp: goods_def)
    have g: "good D w w4" using good_trans [OF g1 good_trans [OF g2(1) good_trans [OF g3 good_trans [OF g3' g4]]]] .
    have "gives D w4 (neigh_finish env ra z addr zns (OSLinkIndex attr) n q w4)"
      by (rule neigh_finish_gives [OF assms(1,2) good_wf [OF g4]])
        (use assms(4) good_len(6) [OF g] n3 good_len(1) [OF g3'] good_len(1) [OF g4] in simp_all)
    from gives_after [OF g this] show ?thesis
      using mk Some st e3 e4 by (simp add: neigh_install_def ne0_def [symmetric] ne2_def [symmetric] w3'_def Let_def)
  qed
qed

lemma neigh_refresh_gives:
  assumes "trie_laws env D" "host_adder D ra" "net_wf D w0" "z < length (zones w0)" "6 \<le> length (HardwareAddr attr)" "n < length (neighs w0)"
  shows "gives D w0 (neigh_refresh env ra z addr zns attr q n w0)"
proof -
  define w where "w = set_neigh n (\<lambda>ne. ne \<lparr> Inactive := False, Dummy := False \<rparr>) w0"
  define w' where "w' = set_neigh n (\<lambda>ne. ne \<lparr> Resolved := True, n_Attr := (n_Attr ne) \<lparr> HardwareAddr := HardwareAddr attr \<rparr> \<rparr>) w"
  have g: "good D w0 w" unfolding w_def by (rule good_set_neigh [OF assms(3)]) (auto simp: neigh_ok_def)
  have g': "good D w w'" unfolding w'_def by (rule good_set_neigh [OF good_wf [OF g]]) (use assms(5) in \<open>auto simp: neigh_ok_def\<close>)
  have gw: "good D w0 w'" using good_trans [OF g g'] .
  have b: "z < length (zones w')" "n < length (neighs w')" using assms(4,6) good_len(1,6) [OF gw] by simp_all
  obtain c w1 where e1: "NeighRecursiveResolve env z n w' = Some (c, w1)" and g1: "good D w' w1"
    using NeighRecursiveResolve_gives [OF assms(1) good_wf [OF gw] b] by (force simp: gives_def)
  have n1: "n < length (neighs w1)" using b(2) good_len(1) [OF g1] by simp
  obtain w2 where e2: "Neigh_DP DpCreate n w1 = Some w2" and g2: "good D w1 w2" using Neigh_DP_goods [OF good_wf [OF g1] n1] by (force simp: goods_def)
  have "gives D w2 (neigh_finish env ra z addr zns (OSLinkIndex attr) n q w2)"
    by (rule neigh_finish_gives [OF assms(1,2) good_wf [OF g2]]) (use b n1 good_len [OF g1] good_len [OF g2] in simp_all)
  from gives_after [OF good_trans [OF gw good_trans [OF g1 g2]] this]
  have "gives D w0 (NeighRecursiveResolve env z n w' \<bind> (\<lambda>(_, w1). Neigh_DP DpCreate n w1 \<bind> neigh_finish env ra z addr zns (OSLinkIndex attr) n q))"
    by (simp add: e1 e2)
  moreover have "good D w0 (set_neigh n (\<lambda>ne. ne \<lparr> Resolved := False \<rparr>) w)"
    using good_step [OF g shrink_good [OF shrink_unresolved]] .
  ultimately show ?thesis using g unfolding neigh_refresh_def Let_def w_def [symmetric] w'_def [symmetric] by simp
qed

lemma neigh_add_adder:
  fixes D :: "'t \<Rightarrow> trie_data set" and env :: "('c, 't) net_env"
  assumes "trie_laws env D" "host_adder D ra"
  shows "adder D (neigh_add env ra)"
  unfolding adder_def
proof (intro allI impI, elim conjE)
  fix z addr and zns :: string and attr0 :: NeighAttr and w :: "('c, 't) world"
  assume w: "net_wf D w" "z < length (zones w)" "6 \<le> length (HardwareAddr attr0)"
  let ?key = "(IP_String addr, zns, OSLinkIndex attr0)"
  let ?old = "gm_get (nh_map z w) ?key"
  let ?ne = "zero_neigh \<lparr> n_Key := ?key, Dummy := True, n_Addr := addr, n_Attr := attr0, Inactive := True \<rparr>"
  have "good D w (neigh_put z ?key (length (neighs w)) (w \<lparr> neighs := neighs w @ [?ne] \<rparr>))"
    by (rule good_step [OF good_new_neigh [OF w(1), of ?ne] good_put_neigh])
      (use w(3) in \<open>simp_all add: neigh_ok_def zero_neigh_def\<close>)
  moreover have "good D w (set_neigh n (\<lambda>ne. ne \<lparr> Dummy := True, OifPort := None \<rparr>) w)" for n
    by (rule good_set_neigh [OF w(1)]) (auto simp: neigh_ok_def)
  moreover have "6 \<le> length tun_mac" by (simp add: tun_mac_def)
  ultimately show "gives D w (neigh_add env ra z addr zns attr0 w)"
    using net_wf_nh [OF w(1,2), of ?key] w(3) neigh_install_gives [OF assms w(1,2) net_wf_PortFindByOSID [OF w(1,2)]]
      neigh_refresh_gives [OF assms w(1,2)]
    by (auto simp: neigh_add_def Let_def split: option.split)
qed

subsection \<open>Routes\<close>

lemma net_wf_NeighFind: "net_wf D w \<Longrightarrow> z < length (zones w) \<Longrightarrow> NeighFind z addr zns link w = Some n \<Longrightarrow> n < length (neighs w)"
  using net_wf_nh [of D w z "(IP_String addr, zns, link)" n] by (auto simp: NeighFind_def split: option.splits if_splits)

lemma good_add_hop: "net_wf D w \<Longrightarrow> n < length (neighs w) \<Longrightarrow> good D w (set_rt r (\<lambda>e. e \<lparr> NextHops := NextHops e @ [n] \<rparr>) w)"
  by (rule good_set_rt) (auto simp: rt_ok_def shape_of_def)

lemma add_hops_gives:
  assumes "HostRoute a \<and> \<not> IfRoute a \<or> adder D na" "net_wf D w" "z < length (zones w)"
  shows "\<exists>err ns w'. add_hops na z zns a r hs news w = Some (err, ns, w') \<and> good D w w'"
  using assms(2,3)
proof (induction hs arbitrary: w news)
  case (Cons h hs)
  have rest: "\<exists>err ns w'. add_hops na z zns a r hs news' (set_rt r (\<lambda>e. e \<lparr> NextHops := NextHops e @ [n] \<rparr>) w1) = Some (err, ns, w') \<and> good D w w'"
    if "good D w w1" "n < length (neighs w1)" for w1 n news'
  proof -
    have g: "good D w1 (set_rt r (\<lambda>e. e \<lparr> NextHops := NextHops e @ [n] \<rparr>) w1)" by (rule good_add_hop [OF good_wf [OF that(1)] that(2)])
    show ?thesis using Cons.IH [OF good_wf [OF g]] Cons.prems(2) good_len(6) [OF that(1)] good_len(6) [OF g]
      good_trans [OF good_trans [OF that(1) g]] by fastforce
  qed
  show ?case
  proof (cases "NeighFind z (NhAddr h) zns (LinkIndex h) w")
    case (Some n)
    then show ?thesis using rest [of w n] Cons.prems net_wf_NeighFind [OF Cons.prems] by simp
  next
    case None
    show ?thesis
    proof (cases "HostRoute a \<and> \<not> IfRoute a")
      case True
      then show ?thesis using None Cons.prems by simp
    next
      case False
      let ?x = "na z (NhAddr h) zns \<lparr> OSLinkIndex = LinkIndex h, OSState = 0, HardwareAddr = zero_mac \<rparr> w"
      have "adder D na" using False assms(1) by blast
      then have "gives D w ?x" using Cons.prems by (simp add: adder_def zero_mac_def)
      then obtain ret w1 where w1: "?x = Some (ret, w1)" "good D w w1" by (auto simp: gives_def)
      have z1: "z < length (zones w1)" using Cons.prems(2) good_len(6) [OF w1(2)] by simp
      show ?thesis
      proof (cases "NeighFind z (NhAddr h) zns (LinkIndex h) w1")
        case None
        then show ?thesis using \<open>NeighFind z (NhAddr h) zns (LinkIndex h) w = None\<close> False w1 by auto
      next
        case (Some n)
        then show ?thesis using \<open>NeighFind z (NhAddr h) zns (LinkIndex h) w = None\<close> False w1
          rest [OF w1(2) net_wf_NeighFind [OF good_wf [OF w1(2)] z1 Some]] by auto
      qed
    qed
  qed
qed simp

lemma del_hops_goods:
  assumes "trie_laws env D" "net_wf D w" "z < length (zones w)"
  shows "goods D w (del_hops (NeighDelete env) z zns ns w)"
  using assms(2,3)
proof (induction ns arbitrary: w)
  case (Cons n ns)
  obtain r w1 where w1: "NeighDelete env z (n_Addr (neigh w n)) zns (OSLinkIndex (n_Attr (neigh w n))) w = Some (r, w1)" "good D w w1"
    using NeighDelete_gives [OF assms(1) Cons.prems] by (force simp: gives_def)
  then show ?case using Cons.IH [OF good_wf [OF w1(2)]] Cons.prems(2) good_len(6) [OF w1(2)] goods_after [OF w1(2)] by simp
qed simp

lemma NeighPairRt_good: "net_wf D w \<Longrightarrow> good D w (NeighPairRt n r w)"
  unfolding NeighPairRt_def by (auto intro!: good_set_neigh simp: neigh_ok_def)

lemma rt_alloc_spec:
  assumes "net_wf D w" "rt_alloc env z key a hs w = (r, w1)"
  shows "good D w w1 \<and> r < length (rts w1)"
proof -
  obtain m ok c where c: "nGetCounter env (RtMark_c (z_Rt (zone w z))) = ((m, ok), c)" by (metis prod.collapse)
  define e where "e = \<lparr> r_Key = key, r_Attr = a, TFlags = rt_flags a hs, r_Sync = DpStatusOk, r_ZoneNum = ZoneNum (zone w z), r_Mark = m,
               NhAttr = hs, NextHops = [], RtDepObjs = [] \<rparr>"
  let ?w = "w \<lparr> rts := rts w @ [e] \<rparr>"
  have r: "r = length (rts w)" and w1: "w1 = set_rth z (\<lambda>h. h \<lparr> RtMark_c := c, RtMap := gm_put key r (RtMap h) \<rparr>) ?w"
    using assms(2) c by (auto simp: rt_alloc_def e_def Let_def)
  have g: "good D w ?w" by (rule good_new_rt [OF assms(1)]) (simp add: e_def rt_ok_def)
  have "good D w w1" unfolding w1 by (rule good_step [OF g good_put_rt]) (simp_all add: r e_def)
  then show ?thesis by (simp add: w1 r set_rth_def set_zone_def)
qed

lemma rt_trie_add_good:
  assumes "trie_laws env D" "net_wf D w" "r < length (rts w)"
  shows "good D w (snd (rt_trie_add env z dst r w))"
proof -
  have "data_ok (shape_of w) (case NextHops (rt w r) of [] \<Rightarrow> TrieIfi r | n # _ \<Rightarrow> TrieNeigh n)"
    using assms(3) net_wf_hops [OF assms(2,3)] by (simp add: shape_of_def split: list.split)
  then show ?thesis using assms(2) good_AddTrie [OF assms(1,2)] by (simp add: rt_trie_add_def)
qed

lemma rt_create_gives:
  assumes "trie_laws env D" "HostRoute a \<and> \<not> IfRoute a \<or> adder D na" "net_wf D w" "z < length (zones w)"
  shows "gives D w (rt_create env na z dst zns a hs w)"
proof -
  let ?key = "(IPNet_String dst, zns)"
  obtain r w1 where al: "rt_alloc env z ?key a hs w = (r, w1)" by (cases "rt_alloc env z ?key a hs w")
  have g1: "good D w w1" "r < length (rts w1)" using rt_alloc_spec [OF assms(3) al] by simp_all
  have z1: "z < length (zones w1)" using assms(4) good_len(6) [OF g1(1)] by simp
  obtain err news w2 where ah: "add_hops na z zns a r hs [] w1 = Some (err, news, w2)" and g2: "good D w1 w2"
    using add_hops_gives [OF assms(2) good_wf [OF g1(1)] z1] by blast
  define w3 where "w3 = fold (\<lambda>n. NeighPairRt n r) (NextHops (rt w2 r)) w2"
  have g3: "good D w2 w3" unfolding w3_def by (rule good_fold [OF good_wf [OF g2]]) (rule NeighPairRt_good)
  have r3: "r < length (rts w3)" using g1(2) good_len(3) [OF g2] good_len(3) [OF g3] by simp
  obtain tret w4 where tr: "rt_trie_add env z dst r w3 = (tret, w4)" by (cases "rt_trie_add env z dst r w3")
  have g4: "good D w3 w4" using rt_trie_add_good [OF assms(1) good_wf [OF g3] r3, of z dst] tr by simp
  have w14: "good D w w4" using good_trans [OF g1(1) good_trans [OF g2 good_trans [OF g3 g4]]] .
  obtain w5 where dh: "del_hops (NeighDelete env) z zns news w4 = Some w5" and g5: "good D w4 w5"
    using del_hops_goods [OF assms(1) good_wf [OF g4]] assms(4) good_len(6) [OF w14] by (force simp: goods_def)
  have undo: "good D w (rt_unmark env z r (rt_forget env z ?key w'))" if "good D w w'" for w'
    using good_trans [OF that shrink_good [OF shrink_step [OF rt_forget_shrink [OF good_wf [OF that]] rt_unmark_shrink]]] .
  have dp: "good D w (snd (Rt_DP DpCreate r w4))" using good_trans [OF w14 shrink_good [OF Rt_DP_shrink [OF good_wf [OF g4]]]] .
  show ?thesis using al ah tr dh undo [OF good_trans [OF g1(1) g2]] undo [OF good_trans [OF w14 g5]] dp
    by (simp add: rt_create_def Let_def w3_def [symmetric] split: option.split)
qed

subsection \<open>The depth of an addition is enough\<close>

lemma rt_merge_good: "net_wf D w \<Longrightarrow> good D w (snd (rt_merge r a w))"
  by (auto simp: rt_merge_def Let_def rt_ok_def intro!: good_set_rt)

definition creates :: "('c, 't) net_env \<Rightarrow> ('t \<Rightarrow> trie_data set) \<Rightarrow> nat \<Rightarrow> RtAttr \<Rightarrow> bool" where
  "creates env D k a \<longleftrightarrow> (\<forall>z dst zns hs w. net_wf D w \<and> z < length (zones w) \<and> RtFind z dst zns w = None \<longrightarrow>
     gives D w (rt_add_to k env z dst zns a hs w))"

text \<open>The second deletion of a route finds it in one role only.\<close>

lemma RtDelete_again:
  assumes "trie_laws env D" "net_wf D w" "z < length (zones w)" "RtFind z dst zns w = Some r" "\<not> rt_skip env dst"
  obtains w' where "RtDelete env z dst zns w = Some (Ok, w')" "good D w w'"
    "RtFind z dst zns w' = None \<or> RtFind z dst zns w' = Some r \<and> NhAttr (rt w' r) = NhAttr (rt w r) \<and> \<not> IfRoute (r_Attr (rt w' r)) \<and> IfRoute (r_Attr (rt w r))"
proof -
  obtain ret w' where e: "rt_del env z dst zns False w = Some (ret, w')" "shrink D w w'" "rt_deleted env z dst zns False w ret w'"
    using rt_del_spec [OF assms(1-3)] by blast
  show thesis
    by (rule that [of w']) (use e assms(4,5) in \<open>auto simp: RtDelete_def rt_deleted_def Let_def shrink_def split: if_splits\<close>)
qed

lemma rt_add_to_gives:
  assumes "trie_laws env D" "creates env D k a" "creates env D (Suc k) a" "creates env D (Suc (Suc k)) a" "net_wf D w" "z < length (zones w)"
  shows "gives D w (rt_add_to (Suc (Suc k)) env z dst zns a hs w)"
proof (cases "RtFind z dst zns w")
  case None
  then show ?thesis using assms(4-6) unfolding creates_def by blast
next
  case (Some r)
  show ?thesis
  proof (cases "rt_skip env dst \<or> \<not> rt_changed hs (NhAttr (rt w r))")
    case True
    then show ?thesis using Some assms(5) rt_merge_good [OF assms(5), of r a] by (cases "rt_merge r a w") (auto simp: rt_add_step_def)
  next
    case False
    obtain w1 where e1: "RtDelete env z dst zns w = Some (Ok, w1)" and g1: "good D w w1" and
      f1: "RtFind z dst zns w1 = None \<or> RtFind z dst zns w1 = Some r \<and> NhAttr (rt w1 r) = NhAttr (rt w r) \<and> \<not> IfRoute (r_Attr (rt w1 r)) \<and> IfRoute (r_Attr (rt w r))"
      using RtDelete_again [OF assms(1,5,6) Some] False by blast
    have z1: "z < length (zones w1)" using assms(6) good_len(6) [OF g1] by simp
    have "gives D w1 (rt_add_to (Suc k) env z dst zns a hs w1)"
    proof (cases "RtFind z dst zns w1")
      case None
      then show ?thesis using assms(3) good_wf [OF g1] z1 unfolding creates_def by blast
    next
      case (Some r')
      then have r: "RtFind z dst zns w1 = Some r" "NhAttr (rt w1 r) = NhAttr (rt w r)" "\<not> IfRoute (r_Attr (rt w1 r))" using f1 by auto
      obtain w2 where e2: "RtDelete env z dst zns w1 = Some (Ok, w2)" and g2: "good D w1 w2" and f2: "RtFind z dst zns w2 = None"
        using RtDelete_again [OF assms(1) good_wf [OF g1] z1 r(1)] False r(3) by metis
      have "gives D w2 (rt_add_to k env z dst zns a hs w2)" using assms(2) good_wf [OF g2] z1 good_len(6) [OF g2] f2 unfolding creates_def by simp
      then show ?thesis using gives_after [OF g2] r e2 False by (simp add: rt_add_step_def)
    qed
    then show ?thesis using gives_after [OF g1] Some e1 False by (simp add: rt_add_step_def)
  qed
qed

lemma creates_Suc:
  assumes "trie_laws env D" "HostRoute a \<and> \<not> IfRoute a \<or> adder D (neigh_add env (rt_add_to k env))"
  shows "creates env D (Suc k) a"
  using rt_create_gives [OF assms] by (simp add: creates_def rt_add_step_def)

lemma rt_add_to_host:
  fixes D :: "'t \<Rightarrow> trie_data set" and env :: "('c, 't) net_env"
  assumes "trie_laws env D"
  shows "host_adder D (rt_add_to (Suc (Suc (Suc k))) env)"
  unfolding host_adder_def
proof (intro allI impI, elim conjE)
  fix z dst zns hs and w :: "('c, 't) world" and a :: RtAttr
  assume w: "net_wf D w" "z < length (zones w)" "HostRoute a" "\<not> IfRoute a"
  have c: "creates env D (Suc m) a" for m using creates_Suc [OF assms] w(3,4) by blast
  show "gives D w (rt_add_to (Suc (Suc (Suc k))) env z dst zns a hs w)" by (rule rt_add_to_gives [OF assms c c c w(1,2)])
qed

lemma RtAdd_gives:
  assumes "trie_laws env D" "net_wf D w" "z < length (zones w)"
  shows "gives D w (RtAdd env z dst zns a hs w)"
proof -
  have c: "creates env D (Suc (Suc (Suc (Suc m)))) a" for m
    by (rule creates_Suc [OF assms(1)]) (use neigh_add_adder [OF assms(1) rt_add_to_host [OF assms(1)]] in blast)
  show ?thesis using rt_add_to_gives [OF assms(1) c [of 0] c [of 1, simplified] _ assms(2,3)] c [of 2] by (simp add: RtAdd_def numeral_eq_Suc)
qed

lemma NeighAdd_gives:
  assumes "trie_laws env D" "net_wf D w" "z < length (zones w)" "6 \<le> length (HardwareAddr attr)"
  shows "gives D w (NeighAdd env z addr zns attr w)"
proof -
  have "host_adder D (RtAdd env)" using RtAdd_gives [OF assms(1)] by (simp add: host_adder_def)
  from neigh_add_adder [OF assms(1) this] show ?thesis using assms(2-4) by (simp add: adder_def NeighAdd_def)
qed

end
