(* ===== verification/NetPorts.thy ===== *)
theory NetPorts
  imports NetAdd ZoneOps
begin

text \<open>Ports, VLANs, interface addresses, sessions, policers and mirrors on well-formed stores: whenever an
operation returns, the stores are well-formed again.  Operations on ports may panic (the table of ports by
number has a fixed size), so the statements are about results.\<close>

subsection \<open>Ports\<close>

lemma good_set_port:
  assumes "net_wf D w" "\<And>p. port_ok (shape_of w) p \<Longrightarrow> port_ok (shape_of w) (f p)"
  shows "good D w (set_port q f w)"
proof (rule goodI)
  have ok: "q < length (ports w) \<Longrightarrow> port_ok (shape_of w) (port w q)"
    using assms(1) by (simp add: net_wf_def net_ok_def list_all_length)
  show "shape_of (set_port q f w) = shape_of w" by (simp add: shape_of_def set_port_def)
  show "net_ok D (shape_of w) (set_port q f w)"
    using assms(1) list_all_update [of "port_ok (shape_of w)" "ports w" q f] assms(2) ok
    by (simp add: net_wf_def net_ok_def set_port_def)
qed (simp add: set_port_def)

lemma good_set_sinfo:
  assumes "net_wf D w" "\<And>s. PortReal_p (f s) = PortReal_p s \<or> opt_lt (PortReal_p (f s)) (length (ports w))"
    "\<And>s. PortOvl (f s) = PortOvl s \<or> opt_lt (PortOvl (f s)) (length (ports w))"
  shows "good D w (set_sinfo q f w)"
  unfolding set_sinfo_def
proof (rule good_set_port [OF assms(1)])
  fix p assume "port_ok (shape_of w) p"
  then show "port_ok (shape_of w) (p \<lparr> SInfo := f (SInfo p) \<rparr>)"
    using assms(2,3) [of "SInfo p"] by (auto simp: port_ok_def shape_of_def)
qed

lemma good_set_hinfo: "net_wf D w \<Longrightarrow> good D w (set_hinfo q f w)"
  unfolding set_hinfo_def by (rule good_set_port) (simp_all add: port_ok_def)

lemma good_set_l2: "net_wf D w \<Longrightarrow> good D w (set_l2 q l w)"
  unfolding set_l2_def by (rule good_set_port) (simp_all add: port_ok_def)

lemma good_set_type:
  "net_wf D w \<Longrightarrow> good D w (set_sinfo q (add_type t) w)" "net_wf D w \<Longrightarrow> good D w (set_sinfo q (del_type t) w)"
  by (rule good_set_sinfo, simp_all add: add_type_def del_type_def)+

lemma good_zone_same:
  assumes "net_wf D w" "\<And>zo. NeighMap (Nh (f zo)) = NeighMap (Nh zo) \<and> L2 (f zo) = L2 zo \<and> z_Rt (f zo) = z_Rt zo \<and>
    portSmap (Ports (f zo)) = portSmap (Ports zo) \<and> portOmap (Ports (f zo)) = portOmap (Ports zo)"
  shows "good D w (set_zone z f w)"
proof (rule good_set_zone [OF assms(1)])
  fix zo :: "('b, 'a) Zone" assume "zone_ok D (shape_of w) zo"
  then show "zone_ok D (shape_of w) (f zo)" using assms(2) [of zo] by (simp add: zone_ok_def)
qed

lemma port_leaf_good:
  assumes "net_wf D w"
  shows "good D w (port_leaf work z q m w)"
proof -
  have "good D w (set_sinfo q (\<lambda>s. s \<lparr> BpfLoaded := b \<rparr>) w)" for b by (rule good_set_sinfo [OF assms]) simp_all
  then have "good D w (to_dp ms (set_sinfo q (\<lambda>s. s \<lparr> BpfLoaded := b \<rparr>) w))" for b ms using good_step good_to_dp by blast
  then show ?thesis using assms by (simp add: port_leaf_def Let_def)
qed

lemma Port_DP_good: "net_wf D w \<Longrightarrow> good D w (dp_port work q w)"
  using port_leaf_good by (auto simp: Port_DP_def Let_def split: option.split prod.split)

text \<open>Chains of steps.\<close>

lemma good_next: "good D w w1 \<Longrightarrow> (\<And>w. net_wf D w \<Longrightarrow> good D w (f w)) \<Longrightarrow> good D w (f w1)"
  using good_step [of D w w1 "f w1"] by simp

lemma good_td: "good D w w1 \<Longrightarrow> good D w (to_dp ms w1)" by (rule good_next [OF _ good_to_dp])

lemma zn_ifas_ticker_good:
  assumes "net_wf D w"
  shows "good D w (zn_ifas_ticker env z force w)"
proof -
  have "good D w (set_zone z (\<lambda>zo. zo \<lparr> L3 := l3 \<rparr>) w)" for l3 by (rule good_zone_same [OF assms]) simp
  then show ?thesis by (simp add: zn_ifas_ticker_def Let_def split_beta good_td)
qed

lemma good_dp: "good D w w1 \<Longrightarrow> good D w (dp_port work q w1)" by (rule good_next [OF _ Port_DP_good])
lemma good_hi: "good D w w1 \<Longrightarrow> good D w (set_hinfo q f w1)" by (rule good_next [OF _ good_set_hinfo])
lemma good_l2: "good D w w1 \<Longrightarrow> good D w (set_l2 q l w1)" by (rule good_next [OF _ good_set_l2])
lemma good_ty: "good D w w1 \<Longrightarrow> good D w (set_sinfo q (add_type t) w1)" by (rule good_next [OF _ good_set_type(1)])
lemma good_dty: "good D w w1 \<Longrightarrow> good D w (set_sinfo q (del_type t) w1)" by (rule good_next [OF _ good_set_type(2)])
lemma good_tk: "good D w w1 \<Longrightarrow> good D w (zn_ifas_ticker env z force w1)" by (rule good_next [OF _ zn_ifas_ticker_good])

lemmas good_chain = good_td good_dp good_hi good_l2 good_ty good_dty good_tk

lemma port_refresh_good: "net_wf D w \<Longrightarrow> good D w (port_refresh env zn q hwi w)"
  by (simp add: port_refresh_def Let_def good_chain)

lemma good_real_p:
  assumes "good D w w1" "opt_lt rp (length (ports w1))"
  shows "good D w (set_sinfo q (\<lambda>s. s \<lparr> PortReal_p := rp, BpfLoaded := b \<rparr>) w1)"
  by (rule good_trans [OF assms(1) good_set_sinfo [OF good_wf [OF assms(1)]]]) (use assms(2) in simp_all)

lemma good_bpf: "good D w w1 \<Longrightarrow> good D w (set_sinfo q (\<lambda>s. s \<lparr> BpfLoaded := b \<rparr>) w1)"
  by (rule good_trans, assumption, rule good_set_sinfo [OF good_wf]) simp_all

lemma real_modify_good:
  assumes "net_wf D w" "z < length (zones w)"
  shows "good D w (snd (real_modify z q ptype hwi l2i w))"
proof -
  define w1 where "w1 = set_sinfo q (add_type ptype) (set_hinfo q (\<lambda>h. h \<lparr> hw_Master := hw_Master hwi \<rparr>) w)"
  have g1: "good D w w1" using assms by (simp add: w1_def good_chain)
  have z1: "z < length (zones w1)" using assms(2) good_len(6) [OF g1] by simp
  define rp where "rp = (if hw_Real hwi \<noteq> [] then PortFindByName z (hw_Real hwi) w1 else None)"
  define w2 where "w2 = (if hw_Real hwi \<noteq> [] then w1 else set_sinfo q (\<lambda>s. s \<lparr> BpfLoaded := False \<rparr>) w1)"
  define w3 where "w3 = set_l2 q l2i (dp_port DpRemove q w2)"
  have g2: "good D w1 w2" using good_wf [OF g1] by (simp add: w2_def good_bpf)
  have g3: "good D w1 w3" using g2 by (simp add: w3_def good_chain)
  have "opt_lt rp (length (ports w3))" using net_wf_PortFindByName [OF good_wf [OF g1] z1] good_len(5) [OF g3]
    by (cases "PortFindByName z (hw_Real hwi) w1") (auto simp: rp_def dest: less_le_trans)
  then have "good D w1 (dp_port DpCreate q (set_sinfo q (\<lambda>s. s \<lparr> PortReal_p := rp, BpfLoaded := b \<rparr>) w3))" for b
    using g3 by (simp add: good_chain good_real_p)
  from good_trans [OF g1 this] show ?thesis using assms(1) g1
    unfolding real_modify_def Let_def w3_def w2_def rp_def w1_def [symmetric]
    by (auto split: option.split simp: good_chain)
qed

lemma port_modify_good:
  assumes "net_wf D w" "z < length (zones w)"
  shows "good D w (snd (port_modify env z zn q ptype hwi l2i w))"
proof -
  define w0 where "w0 = port_refresh env zn q hwi w"
  have g0: "good D w w0" using port_refresh_good [OF assms(1)] by (simp add: w0_def)
  have z0: "z < length (zones w0)" using assms(2) good_len(6) [OF g0] by simp
  define rw where "rw = (if PortType (SInfo (port w0 q)) = PortReal then real_modify z q ptype hwi l2i w0
           else if PortType (SInfo (port w0 q)) = PortBond \<and> ptype = PortVlanSif \<and> IsPvid l2i \<and> p_L2 (port w0 q) \<noteq> l2i then
             (Some Ok, dp_port DpCreate q (set_sinfo q (add_type ptype) (set_l2 q l2i (dp_port DpRemove q w0))))
           else (None, w0))"
  have g1: "good D w (snd rw)" using g0 good_trans [OF g0 real_modify_good [OF good_wf [OF g0] z0]] by (simp add: rw_def good_chain)
  obtain r w1 where rw: "rw = (r, w1)" by (cases rw)
  have "good D w w1" using g1 rw by simp
  then show ?thesis
    unfolding port_modify_def Let_def w0_def [symmetric] rw_def [symmetric] rw prod.case by (simp add: good_chain split: option.split)
qed


subsection \<open>New ports and VLANs\<close>

text \<open>Results, when there are any, are good.\<close>

definition keeps :: "('t \<Rightarrow> trie_data set) \<Rightarrow> ('c, 't) world \<Rightarrow> ('a \<times> ('c, 't) world) option \<Rightarrow> bool" where
  "keeps D w x \<longleftrightarrow> (\<forall>r w'. x = Some (r, w') \<longrightarrow> good D w w')"

definition kept :: "('t \<Rightarrow> trie_data set) \<Rightarrow> ('c, 't) world \<Rightarrow> ('c, 't) world option \<Rightarrow> bool" where
  "kept D w x \<longleftrightarrow> (\<forall>w'. x = Some w' \<longrightarrow> good D w w')"

lemma keeps_simps [simp]: "keeps D w None" "keeps D w (Some (r, w')) \<longleftrightarrow> good D w w'" "kept D w None" "kept D w (Some w') \<longleftrightarrow> good D w w'"
  by (simp_all add: keeps_def kept_def)

lemma keeps_Some: "keeps D w (Some x) \<longleftrightarrow> good D w (snd x)"
  by (cases x) simp

lemma keeps_bind:
  assumes "keeps D w x" "\<And>r w1. x = Some (r, w1) \<Longrightarrow> good D w w1 \<Longrightarrow> keeps D w1 (f (r, w1))"
  shows "keeps D w (x \<bind> f)"
proof (cases x)
  case (Some p)
  obtain r w1 where p: "p = (r, w1)" by (cases p)
  then have "good D w w1" "keeps D w1 (f (r, w1))" using assms Some by simp_all
  then show ?thesis using Some p good_trans [of D w w1] by (simp add: keeps_def)
qed simp

lemma kept_bind_keeps:
  assumes "kept D w x" "\<And>w1. x = Some w1 \<Longrightarrow> good D w w1 \<Longrightarrow> keeps D w1 (f w1)"
  shows "keeps D w (x \<bind> f)"
proof (cases x)
  case (Some w1)
  then have "good D w w1" "keeps D w1 (f w1)" using assms by simp_all
  then show ?thesis using Some good_trans [of D w w1] by (simp add: keeps_def)
qed simp

lemma kept_bind:
  assumes "kept D w x" "\<And>w1. x = Some w1 \<Longrightarrow> good D w w1 \<Longrightarrow> kept D w1 (f w1)"
  shows "kept D w (x \<bind> f)"
proof (cases x)
  case (Some w1)
  then have "good D w w1" "kept D w1 (f w1)" using assms by simp_all
  then show ?thesis using Some good_trans [of D w w1] by (simp add: kept_def)
qed simp

lemma keeps_after: "good D w w1 \<Longrightarrow> keeps D w1 x \<Longrightarrow> keeps D w x"
  by (auto simp: keeps_def intro: good_trans)

lemma kept_after: "good D w w1 \<Longrightarrow> kept D w1 x \<Longrightarrow> kept D w x"
  by (auto simp: kept_def intro: good_trans)

lemma kept_snd: "keeps D w x \<Longrightarrow> kept D w (map_option snd x)"
  by (auto simp: keeps_def kept_def)

lemma goods_kept: "goods D w x \<Longrightarrow> kept D w x"
  by (auto simp: goods_def kept_def)

definition adds_ports :: "('t \<Rightarrow> trie_data set) \<Rightarrow> ('c, 't) port_adder \<Rightarrow> bool" where
  "adds_ports D pa \<longleftrightarrow> (\<forall>z name osid ptype zns hwi l2i w. net_wf D w \<and> z < length (zones w) \<longrightarrow> keeps D w (pa z name osid ptype zns hwi l2i w))"

definition adds_vlans :: "('t \<Rightarrow> trie_data set) \<Rightarrow> ('c, 't) vlan_adder \<Rightarrow> bool" where
  "adds_vlans D va \<longleftrightarrow> (\<forall>z vid name zns osid hwi w. net_wf D w \<and> z < length (zones w) \<longrightarrow> keeps D w (va z vid name zns osid hwi w))"

lemma good_brs: "net_wf D w \<Longrightarrow> good D w (w \<lparr> ZoneBrs := m \<rparr>)"
  by (rule goodI) (simp_all add: shape_of_def net_wf_def net_ok_def)

lemma ZoneBrAdd_good: "net_wf D w \<Longrightarrow> good D w (snd (ZoneBrAdd name zns w))"
  by (auto simp: ZoneBrAdd_def good_brs split: option.split)

lemma ZoneBrDelete_good: "net_wf D w \<Longrightarrow> good D w (snd (ZoneBrDelete name w))"
  by (auto simp: ZoneBrDelete_def good_brs split: option.split)

lemma good_zports: "net_wf D w \<Longrightarrow> ptr_ok (length (zones w)) m \<Longrightarrow> good D w (w \<lparr> ZonePorts := m \<rparr>)"
  by (rule goodI) (simp_all add: shape_of_def net_wf_def net_ok_def)

lemma net_wf_ZonePorts: "net_wf D w \<Longrightarrow> ptr_ok (length (zones w)) (ZonePorts w)"
  by (simp add: net_wf_def net_ok_def)

lemma ZonePortAdd_good: "net_wf D w \<Longrightarrow> good D w (snd (ZonePortAdd name zns w))"
  using net_wf_ZonePorts [of D w] net_wf_Zonefind [of D w zns]
  by (auto simp: ZonePortAdd_def intro!: good_zports ptr_ok_put split: option.split)

lemma ZonePortDelete_good: "net_wf D w \<Longrightarrow> good D w (snd (ZonePortDelete name w))"
  using net_wf_ZonePorts [of D w] by (auto simp: ZonePortDelete_def intro!: good_zports ptr_ok_del split: option.split)

lemma good_set_vlan: "net_wf D w \<Longrightarrow> good D w (set_vlan z i f w)"
  unfolding set_vlan_def by (rule good_zone_same) simp_all

lemma vlan_add_keeps:
  fixes D :: "'t \<Rightarrow> trie_data set" and pa :: "('c, 't) port_adder"
  assumes "adds_ports D pa"
  shows "adds_vlans D (vlan_add pa)"
  unfolding adds_vlans_def
proof (intro allI impI, elim conjE)
  fix z vid name zns osid hwi and w :: "('c, 't) world"
  assume w: "net_wf D w" "z < length (zones w)"
  obtain r w1 where br: "ZoneBrAdd name zns w = (r, w1)" by (cases "ZoneBrAdd name zns w")
  have g1: "good D w w1" using ZoneBrAdd_good [OF w(1), of name zns] br by simp
  have "keeps D w1 (pa z name osid PortVlanBr zns hwi \<lparr> IsPvid = False, Vid = vid \<rparr> w1)"
    using assms good_wf [OF g1] w(2) good_len(6) [OF g1] by (simp add: adds_ports_def)
  then have "keeps D w1 (pa z name osid PortVlanBr zns hwi \<lparr> IsPvid = False, Vid = vid \<rparr> w1 \<bind> (\<lambda>(r, w2).
      Some (if r \<noteq> Ok then (Err VlanAddBrpErr ''Can't add vlan bridge'', snd (ZoneBrDelete name w2))
                     else (Ok, set_vlan z vid (\<lambda>v. v \<lparr> v_Name := name, VlanID := vid, Created := True, v_Zone := zns \<rparr>) w2))))"
    by (rule keeps_bind) (auto simp: ZoneBrDelete_good good_wf good_set_vlan)
  from keeps_after [OF g1 this] show "keeps D w (vlan_add pa z vid name zns osid hwi w)"
    using w(1) br g1 by (simp add: vlan_add_def split: go_ret.split)
qed

lemma good_new_port:
  assumes "net_wf D w" "port_ok (shape_of w) p"
  shows "good D w (w \<lparr> ports := ports w @ [p] \<rparr>)"
proof (rule good_newI [OF assms(1)])
  let ?w = "w \<lparr> ports := ports w @ [p] \<rparr>"
  show le: "shape_le (shape_of w) (shape_of ?w)" by (simp add: shape_le_def shape_of_def)
  show "net_ok D (shape_of ?w) w \<Longrightarrow> net_ok D (shape_of ?w) ?w" using port_ok_mono [OF assms(2) le] by (simp add: net_ok_def)
qed simp

lemma port_by_type_kept:
  assumes "adds_vlans D va" "net_wf D w" "zn < length (zones w)" "q < length (ports w)"
  shows "kept D w (port_by_type env va zn q ptype zns rid l2i w)"
proof (cases "vid_base ptype")
  case (Some b)
  have g: "good D w (set_l2 q \<lparr> IsPvid = True, Vid = rid + b \<rparr> w)" by (rule good_set_l2 [OF assms(2)])
  have "keeps D (set_l2 q \<lparr> IsPvid = True, Vid = rid + b \<rparr> w) (va zn (rid + b) (''vlan'' @ dec_int (rid + b)) zns (-1) bridge_hw
      (set_l2 q \<lparr> IsPvid = True, Vid = rid + b \<rparr> w))"
    using assms(1,3) good_wf [OF g] good_len(6) [OF g] by (simp add: adds_vlans_def)
  from kept_after [OF g kept_snd [OF this]] show ?thesis using Some by (simp add: port_by_type_def)
next
  case None
  have o: "good D w (set_hinfo r (\<lambda>h. h \<lparr> hw_Master := m \<rparr>) (set_sinfo r (\<lambda>s. add_type PortVxlanSif (s \<lparr> PortOvl := Some q \<rparr>)) w))" for r m
    by (rule good_hi, rule good_set_sinfo [OF assms(2)]) (simp_all add: add_type_def assms(4))
  have m: "good D w (set_zone zn (\<lambda>z. z \<lparr> Sess := (Sess z) \<lparr> sess_Mark := c \<rparr> \<rparr>) w)" for c by (rule good_zone_same [OF assms(2)]) simp
  have "good D w (set_l2 q l2i (set_sinfo q (\<lambda>s. s \<lparr> SessMark := k \<rparr>) (set_zone zn (\<lambda>z. z \<lparr> Sess := (Sess z) \<lparr> sess_Mark := c \<rparr> \<rparr>) w)))" for c k
    by (rule good_l2, rule good_trans [OF m], rule good_set_sinfo [OF good_wf [OF m]]) simp_all
  then show ?thesis using None o assms(2) by (simp add: port_by_type_def good_chain Let_def split: option.split prod.split)
qed

lemma port_counter_maps:
  "portSmap (snd (port_counter env ptype P)) = portSmap P" "portOmap (snd (port_counter env ptype P)) = portOmap P"
  by (simp_all add: port_counter_def split: prod.split)

lemma port_create_keeps:
  fixes D :: "'t \<Rightarrow> trie_data set" and va :: "('c, 't) vlan_adder"
  assumes "adds_vlans D va" "net_wf D w" "z < length (zones w)" "zn < length (zones w)"
  shows "keeps D w (port_create env va z zn name osid ptype zns hwi l2i w)"
proof -
  obtain rid ok P where c: "port_counter env ptype (Ports (zone w z)) = ((rid, ok), P)" by (metis prod.collapse)
  define w1 where "w1 = set_zone z (\<lambda>zo. zo \<lparr> Ports := P \<rparr>) w"
  have P: "portSmap P = portSmap (Ports (zone w z))" "portOmap P = portOmap (Ports (zone w z))"
    using port_counter_maps [of env ptype "Ports (zone w z)"] c by simp_all
  have g1: "good D w w1" unfolding w1_def by (rule good_set_zone [OF assms(2)]) (use P in \<open>simp add: zone_ok_def\<close>)
  have z1: "z < length (zones w1)" "zn < length (zones w1)" using assms(3,4) good_len(6) [OF g1] by simp_all
  define rp where "rp = (if hw_Real hwi \<noteq> [] then PortFindByName z (hw_Real hwi) w1 else None)"
  define q where "q = length (ports w1)"
  define p where "p = \<lparr> p_Name = name, PortNo = go_int rid, p_Zone = zns,
                  SInfo = \<lparr> OsID = osid, PortType = ptype, PortProp = 0, PortPolNum = 0, PortMirNum = 0, PortActive = True,
                    PortReal_p = rp, PortOvl = None, SessMark = 0, BpfLoaded = False \<rparr>,
                  HInfo = hwi, p_Stats = zero_pstats, p_L2 = \<lparr> IsPvid = False, Vid = 0 \<rparr>, p_Sync = DpStatusOk \<rparr>"
  define w2 where "w2 = w1 \<lparr> ports := ports w1 @ [p] \<rparr>"
  have "opt_lt rp (length (ports w1))" using net_wf_PortFindByName [OF good_wf [OF g1] z1(1)]
    by (cases "PortFindByName z (hw_Real hwi) w1") (auto simp: rp_def)
  then have g2: "good D w1 w2" unfolding w2_def by (intro good_new_port [OF good_wf [OF g1]]) (simp add: p_def port_ok_def shape_of_def)
  have q2: "q < length (ports w2)" by (simp add: w2_def q_def)
  define fin where "fin = (\<lambda>w2 :: ('c, 't) world. dp_port DpCreate q (snd (ZonePortAdd name zns (set_zone z (\<lambda>zo. zo \<lparr> Ports := (Ports zo)
                 \<lparr> portSmap := gm_put name q (portSmap (Ports zo)), portImap := gm_put (uint rid) q (portImap (Ports zo)),
                   portOmap := (if osid > 0 then gm_put osid q (portOmap (Ports zo)) else portOmap (Ports zo)) \<rparr> \<rparr>) w2))))"
  have fin: "good D w3 (fin w3)" if "good D w2 w3" for w3
    unfolding fin_def
  proof (intro good_dp good_step [OF _ ZonePortAdd_good] good_set_zone [OF good_wf [OF that]])
    fix zo :: "('c, 't) Zone" assume "zone_ok D (shape_of w3) zo"
    then show "zone_ok D (shape_of w3) (zo \<lparr> Ports := (Ports zo)
                 \<lparr> portSmap := gm_put name q (portSmap (Ports zo)), portImap := gm_put (uint rid) q (portImap (Ports zo)),
                   portOmap := (if osid > 0 then gm_put osid q (portOmap (Ports zo)) else portOmap (Ports zo)) \<rparr> \<rparr>)"
      using q2 good_len(5) [OF that] by (simp add: zone_ok_def ptr_ok_put shape_of_def)
  qed
  have "kept D w2 (port_by_type env va zn q ptype zns (go_int rid) l2i w2)"
    by (rule port_by_type_kept [OF assms(1) good_wf [OF g2] _ q2]) (use z1(2) good_len(6) [OF g2] in simp)
  then have "keeps D w2 (port_by_type env va zn q ptype zns (go_int rid) l2i w2 \<bind>
      (\<lambda>w2. if in_bounds (uint rid) then Some (Ok, fin w2) else None))"
    by (rule kept_bind_keeps) (simp add: fin)
  from keeps_after [OF good_trans [OF g1 g2] this]
  show ?thesis using g1 unfolding port_create_def c Let_def prod.case w1_def [symmetric] rp_def [symmetric] q_def [symmetric] p_def [symmetric]
      w2_def [symmetric] fin_def by simp
qed

lemma port_add_keeps:
  fixes D :: "'t \<Rightarrow> trie_data set" and va :: "('c, 't) vlan_adder"
  assumes "adds_vlans D va"
  shows "adds_ports D (port_add env va)"
  unfolding adds_ports_def
proof (intro allI impI, elim conjE)
  fix z name osid ptype zns hwi l2i and w :: "('c, 't) world"
  assume w: "net_wf D w" "z < length (zones w)"
  show "keeps D w (port_add env va z name osid ptype zns hwi l2i w)"
    using w port_modify_good [OF w] net_wf_Zonefind [OF w(1)] port_create_keeps [OF assms w]
    by (auto simp: port_add_def keeps_Some split: option.split)
qed

lemma port_add_to_keeps: "adds_ports D (port_add_to k env)"
proof (induction k)
  case (Suc k)
  then show ?case by (simp add: port_add_keeps vlan_add_keeps)
qed (simp add: adds_ports_def)

lemma PortAdd_keeps: "net_wf D w \<Longrightarrow> z < length (zones w) \<Longrightarrow> keeps D w (PortAdd env z name osid ptype zns hwi l2i w)"
  using port_add_to_keeps [of D 2 env] by (simp add: adds_ports_def PortAdd_def)

lemma VlanAdd_keeps: "net_wf D w \<Longrightarrow> z < length (zones w) \<Longrightarrow> keeps D w (VlanAdd env z vid name zns osid hwi w)"
  using vlan_add_keeps [OF port_add_to_keeps [of D 2 env]] by (simp add: adds_vlans_def VlanAdd_def PortAdd_def)

lemma VlanPortAdd_keeps:
  fixes D :: "'t \<Rightarrow> trie_data set" and w :: "('c, 't) world"
  assumes "net_wf D w" "z < length (zones w)"
  shows "keeps D w (VlanPortAdd env z vid name tagged w)"
proof -
  have "keeps D w (PortAdd env z nm osid ptype zns hwi l2i w \<bind> f)"
    if "\<And>r w1. good D w w1 \<Longrightarrow> keeps D w1 (f (r, w1))" for nm osid ptype zns hwi l2i and f :: "go_ret \<times> ('c, 't) world \<Rightarrow> (go_ret \<times> ('c, 't) world) option"
    by (rule keeps_bind [OF PortAdd_keeps [OF assms] that])
  then show ?thesis using assms(1)
    by (auto simp: VlanPortAdd_def Let_def keeps_Some good_wf good_set_vlan split: option.split)
qed

subsection \<open>Interface addresses\<close>

definition l3_keeps :: "'r l3_env \<Rightarrow> ('r \<Rightarrow> bool) \<Rightarrow> bool" where
  "l3_keeps env P \<longleftrightarrow> (\<forall>l3 net ifi r. P r \<longrightarrow> P (snd (rt_add env l3 net ifi r)) \<and> P (snd (l3_env.rt_del env l3 net r)))"

lemma del_self_routes_keeps: "l3_keeps env P \<Longrightarrow> P r \<Longrightarrow> P (del_self_routes env l3 addr net r)"
  by (simp add: del_self_routes_def l3_keeps_def Let_def split: option.split)

lemma IfaDelete_keeps: "l3_keeps env P \<Longrightarrow> P (fst (snd st)) \<Longrightarrow> P (fst (snd (snd (IfaDelete env ob cidr st))))"
  by (cases st) (simp add: IfaDelete_def Let_def del_self_routes_keeps split: option.split)

lemma del_all_keeps: "l3_keeps env P \<Longrightarrow> P (fst (snd st)) \<Longrightarrow> P (fst (snd (del_all env ob n i arr m st)))"
proof (induction n arbitrary: i arr m st)
  case (Suc n)
  have "P (fst (snd (del_all env ob n (Suc i) a k (snd (IfaDelete env ob cidr st)))))" for a k cidr
    by (rule Suc.IH [OF Suc.prems(1) IfaDelete_keeps [OF Suc.prems]])
  then show ?case by (simp add: Let_def split: option.split)
qed simp

lemma IfaDeleteAll_keeps: "l3_keeps env P \<Longrightarrow> P (fst (snd st)) \<Longrightarrow> P (fst (snd (IfaDeleteAll env ob st)))"
  by (simp add: IfaDeleteAll_def del_all_keeps Let_def split_beta split: option.split)

lemma add_self_routes_keeps: "l3_keeps env P \<Longrightarrow> P r \<Longrightarrow> P (snd (add_self_routes env l3 addr net ifi r))"
  by (simp add: add_self_routes_def l3_keeps_def Let_def split_beta split: option.split)

lemma ifa_insert_keeps: "l3_keeps env P \<Longrightarrow> P (fst (snd st)) \<Longrightarrow> P (fst (snd (snd (ifa_insert env ob addr net st))))"
  using add_self_routes_keeps [of env P "fst (snd st)"]
  by (cases st) (simp add: ifa_insert_def Let_def split_beta split: option.split)

lemma IfaAdd_keeps:
  assumes "l3_keeps env P" "P (fst (snd st))"
  shows "P (fst (snd (snd (IfaAdd env ob cidr st))))"
proof -
  have "P (fst (snd (drop_rule_ifa env ob addr st)))" for addr
    using IfaDelete_keeps [of env P st] assms by (simp add: drop_rule_ifa_def)
  then show ?thesis using assms ifa_insert_keeps [OF assms(1)] by (simp add: IfaAdd_def split: option.split prod.split)
qed

lemma good_put_l3: "net_wf D w \<Longrightarrow> good D w (put_l3 z l3 w)"
  unfolding put_l3_def by (rule good_zone_same) simp_all

lemma goods_on_world:
  assumes "goods D w r" "\<And>w1. good D w w1 \<Longrightarrow> gives D w1 (f w1)"
  shows "goods D w (snd (on_world f r))"
proof -
  obtain w1 where 1: "r = Some w1" "good D w w1" using assms(1) by (auto simp: goods_def)
  then obtain ret w2 where "f w1 = Some (ret, w2)" "good D w1 w2" using assms(2) by (force simp: gives_def)
  then show ?thesis using 1 good_trans [OF 1(2)] by (simp add: on_world_def)
qed

lemma l3_routes_keeps:
  assumes "trie_laws env D" "zones w \<noteq> []"
  shows "l3_keeps (l3_routes env z w0) (goods D w)"
proof -
  have 1: "gives D w1 (RtAdd env 0 net RootZone a [] (put_l3 z l3 w1))" if "good D w w1" for w1 l3 net a
    by (rule gives_after [OF good_put_l3 [OF good_wf [OF that]] RtAdd_gives [OF assms(1) good_wf [OF good_put_l3 [OF good_wf [OF that]]]]])
      (use assms(2) good_len(6) [OF that] in \<open>simp add: put_l3_def set_zone_def\<close>)
  have 2: "gives D w1 (RtDelete env 0 net RootZone (put_l3 z l3 w1))" if "good D w w1" for w1 l3 net
    by (rule gives_after [OF good_put_l3 [OF good_wf [OF that]] RtDelete_gives [OF assms(1) good_wf [OF good_put_l3 [OF good_wf [OF that]]]]])
      (use assms(2) good_len(6) [OF that] in \<open>simp add: put_l3_def set_zone_def\<close>)
  show ?thesis unfolding l3_keeps_def l3_routes_def by (auto intro!: goods_on_world 1 2)
qed

lemma run_l3_gives:
  assumes "net_wf D w" "\<And>st. goods D w (fst (snd st)) \<Longrightarrow> goods D w (fst (snd (snd (f (l3_routes env z w) st))))"
  shows "gives D w (run_l3 env z f w)"
proof -
  let ?x = "f (l3_routes env z w) (L3 (zone w z), Some w, [])"
  have "goods D w (fst (snd (snd ?x)))" using assms(2) [of "(L3 (zone w z), Some w, [])"] assms(1) by simp
  then obtain w1 where w1: "fst (snd (snd ?x)) = Some w1" "good D w w1" by (auto simp: goods_def)
  have "run_l3 env z f w = Some (fst ?x, to_dp (map RouterMacQ (snd (snd (snd ?x)))) (put_l3 z (fst (snd ?x)) w1))"
    using w1(1) by (simp add: run_l3_def split_beta)
  then show ?thesis using good_td [OF good_next [OF w1(2) good_put_l3]] by simp
qed

lemma zn_IfaAdd_gives: "trie_laws env D \<Longrightarrow> net_wf D w \<Longrightarrow> zones w \<noteq> [] \<Longrightarrow> gives D w (zn_IfaAdd env z ob cidr w)"
  unfolding zn_IfaAdd_def by (rule run_l3_gives) (auto intro: IfaAdd_keeps l3_routes_keeps)

lemma zn_IfaDelete_gives: "trie_laws env D \<Longrightarrow> net_wf D w \<Longrightarrow> zones w \<noteq> [] \<Longrightarrow> gives D w (zn_IfaDelete env z ob cidr w)"
  unfolding zn_IfaDelete_def by (rule run_l3_gives) (auto intro: IfaDelete_keeps l3_routes_keeps)

lemma zn_IfaDeleteAll_goods:
  assumes "trie_laws env D" "net_wf D w" "zones w \<noteq> []"
  shows "goods D w (zn_IfaDeleteAll env z ob w)"
proof -
  have "gives D w (run_l3 env z (\<lambda>e st. ((), IfaDeleteAll e ob st)) w)"
    by (rule run_l3_gives [OF assms(2)]) (simp add: IfaDeleteAll_keeps l3_routes_keeps assms)
  then show ?thesis by (auto simp: zn_IfaDeleteAll_def gives_def)
qed

subsection \<open>Loops over routes and neighbours\<close>

lemma rt_del_hops_goods:
  assumes "trie_laws env D" "net_wf D w" "z < length (zones w)"
  shows "goods D w (rt_del_hops env z name dst ns w)"
  using assms(2,3)
proof (induction ns arbitrary: w)
  case (Cons n ns)
  obtain r w1 where w1: "RtDelete env z dst (z_Name (zone w z)) w = Some (r, w1)" "good D w w1"
    using RtDelete_gives [OF assms(1) Cons.prems] by (force simp: gives_def)
  then show ?case using Cons.IH [OF good_wf [OF w1(2)]] Cons.IH [OF Cons.prems] Cons.prems(2) good_len(6) [OF w1(2)] goods_after [OF w1(2)] by simp
qed simp

lemma RtDeleteByPort_goods:
  assumes "trie_laws env D" "net_wf D w" "z < length (zones w)"
  shows "goods D w (RtDeleteByPort env z name w)"
  unfolding RtDeleteByPort_def
  by (rule range_map_goods [OF _ assms(2) refl]) (use assms(3) rt_del_hops_goods [OF assms(1)] in \<open>auto split: option.split\<close>)

lemma goods_snd: "gives D w x \<Longrightarrow> goods D w (map_option snd x)"
  by (auto simp: gives_def)

lemma RtDestructAll_goods:
  assumes "trie_laws env D" "net_wf D w" "z < length (zones w)"
  shows "goods D w (RtDestructAll env z w)"
  unfolding RtDestructAll_def
  by (rule range_map_goods [OF _ assms(2) refl]) (use assms(3) RtDelete_gives [OF assms(1)] in \<open>auto split: option.split intro!: goods_snd\<close>)

lemma neigh_del_key_goods: "trie_laws env D \<Longrightarrow> net_wf D w \<Longrightarrow> z < length (zones w) \<Longrightarrow> goods D w (neigh_del_key env z addr n w)"
  unfolding neigh_del_key_def by (rule goods_snd [OF NeighDelete_gives])

lemma NeighDeleteByPort_goods:
  assumes "trie_laws env D" "net_wf D w" "z < length (zones w)"
  shows "goods D w (NeighDeleteByPort env z name w)"
  unfolding NeighDeleteByPort_def
  by (rule range_map_goods [OF _ assms(2) refl]) (use assms(3) neigh_del_key_goods [OF assms(1)] in auto)

lemma Neigh_PortNotifier_goods:
  assumes "trie_laws env D" "net_wf D w" "z < length (zones w)"
  shows "goods D w (Neigh_PortNotifier env z name w)"
  unfolding Neigh_PortNotifier_def
  by (rule range_map_goods [OF _ assms(2) refl]) (use assms(3) neigh_del_key_goods [OF assms(1)] in auto)

lemma NeighDestructAll_goods:
  assumes "trie_laws env D" "net_wf D w" "z < length (zones w)"
  shows "goods D w (NeighDestructAll env z w)"
  unfolding NeighDestructAll_def
  by (rule range_map_goods [OF _ assms(2) refl]) (use assms(3) neigh_del_key_goods [OF assms(1)] in auto)

lemma L2_PortNotifier_goods:
  assumes "net_wf D w"
  shows "goods D w (L2_PortNotifier z name w)"
  unfolding L2_PortNotifier_def by (rule range_map_goods [OF _ assms refl]) (auto simp: L2FdbDel_good)

lemma L2DestructAll_goods:
  assumes "net_wf D w"
  shows "goods D w (L2DestructAll z w)"
  unfolding L2DestructAll_def by (rule range_map_goods [OF _ assms refl]) (auto simp: L2FdbDel_good)

lemma NeighTicker_goods:
  assumes "trie_laws env D" "net_wf D w" "z < length (zones w)" "n < length (neighs w)"
  shows "goods D w (NeighTicker env z n w)"
proof -
  define fin where "fin = (\<lambda>w. NeighRecursiveResolve env z n (Activate env z n w) \<bind> (\<lambda>(chg, w1). if chg then Neigh_DP DpCreate n w1 else Some w1))"
  have fin: "goods D w (fin w1)" if "good D w w1" for w1
  proof -
    let ?a = "Activate env z n w1"
    have ga: "good D w ?a" by (rule good_step [OF that Activate_good])
    have b: "z < length (zones ?a)" "n < length (neighs ?a)" using assms(3,4) good_len(1,6) [OF ga] by simp_all
    have r: "gives D ?a (NeighRecursiveResolve env z n ?a)" by (rule NeighRecursiveResolve_gives [OF assms(1) good_wf [OF ga] b])
    have "goods D ?a (fin w1)" unfolding fin_def
      by (rule gives_bind_goods [OF r]) (use b good_len(1) Neigh_DP_goods good_wf in \<open>fastforce\<close>)
    then show ?thesis by (rule goods_after [OF ga])
  qed
  have k: "goods D w (NeighAdd env zn addr zns (n_Attr (neigh w n)) w \<bind> (\<lambda>(_, w1). fin w1))" if "zn < length (zones w)" for zn addr zns
  proof -
    have "gives D w (NeighAdd env zn addr zns (n_Attr (neigh w n)) w)"
      by (rule NeighAdd_gives [OF assms(1,2) that]) (use net_wf_neigh [OF assms(2,4)] in \<open>simp add: neigh_ok_def\<close>)
    then obtain r w1 where "NeighAdd env zn addr zns (n_Attr (neigh w n)) w = Some (r, w1)" "good D w w1" by (auto simp: gives_def)
    then show ?thesis using fin by simp
  qed
  have f: "goods D w (Some (neigh_forget z key w))" for key using neigh_forget_shrink [OF assms(2)] by (simp add: shrink_def)
  show ?thesis using fin [of w] assms(2) f k net_wf_Zonefind [OF assms(2)]
    unfolding NeighTicker_def Let_def fin_def by (auto split: option.split)
qed

lemma NeighsTicker_goods:
  assumes "trie_laws env D" "net_wf D w" "z < length (zones w)"
  shows "goods D w (NeighsTicker env z w)"
  unfolding NeighsTicker_def
  by (rule range_map_goods [OF _ assms(2) refl]) (use assms(1,3) NeighTicker_goods net_wf_nh in \<open>metis\<close>)

subsection \<open>Deletion of ports and VLANs\<close>

definition dels_ports :: "('t \<Rightarrow> trie_data set) \<Rightarrow> ('c, 't) port_deleter \<Rightarrow> bool" where
  "dels_ports D pd \<longleftrightarrow> (\<forall>z name ptype w. net_wf D w \<and> z < length (zones w) \<longrightarrow> keeps D w (pd z name ptype w))"

definition dels_vlans :: "('t \<Rightarrow> trie_data set) \<Rightarrow> ('c, 't) vlan_deleter \<Rightarrow> bool" where
  "dels_vlans D vd \<longleftrightarrow> (\<forall>z vid w. net_wf D w \<and> z < length (zones w) \<longrightarrow> keeps D w (vd z vid w))"

lemma good_real_none:
  assumes "good D w w1"
  shows "good D w (set_sinfo q (\<lambda>s. del_type t (s \<lparr> PortReal_p := None \<rparr>)) w1)"
    "good D w (set_sinfo q (\<lambda>s. s \<lparr> PortReal_p := None, PortActive := False \<rparr>) w1)"
    "good D w (set_sinfo q (\<lambda>s. s \<lparr> PortOvl := None \<rparr>) w1)"
  by (rule good_trans [OF assms good_set_sinfo [OF good_wf [OF assms]]], simp_all add: del_type_def)+

lemma port_leave_kept: "net_wf D w \<Longrightarrow> kept D w (port_leave q ptype w)"
  by (simp add: port_leave_def Let_def good_chain good_real_none)

lemma good_sess: "net_wf D w \<Longrightarrow> good D w (set_sess z f w)"
  unfolding set_sess_def by (rule good_zone_same) simp_all

lemma port_untype_kept:
  assumes "dels_vlans D vd" "net_wf D w" "\<And>zn. zo = Some zn \<Longrightarrow> zn < length (zones w)"
  shows "kept D w (port_untype env vd zo q w)"
proof -
  have "kept D w (map_option snd (vd zn i w))" if "zo = Some zn" for zn i
    using kept_snd [of D w "vd zn i w"] assms that by (simp add: dels_vlans_def)
  then show ?thesis using assms(2) good_real_none(3) [of D w w] good_sess [OF assms(2)]
    by (simp add: port_untype_def Let_def split: option.split)
qed

lemma port_drop_kept:
  assumes "trie_laws env D" "net_wf D w" "\<And>zn. zo = Some zn \<Longrightarrow> zn < length (zones w)"
  shows "kept D w (port_drop env z name zo q w)"
proof -
  define w1 where "w1 = snd (ZonePortDelete name (set_sinfo q (\<lambda>s. s \<lparr> PortReal_p := None, PortActive := False \<rparr>) w))"
  define w2 where "w2 = set_zone z (\<lambda>zn. zn \<lparr> Ports := (Ports zn) \<lparr> portOmap := gm_del (OsID (SInfo (port w1 q))) (portOmap (Ports zn)),
           portSmap := gm_del name (portSmap (Ports zn)), portImap := gm_del (PortNo (port w1 q)) (portImap (Ports zn)) \<rparr> \<rparr>) w1"
  have g1: "good D w w1" unfolding w1_def by (rule good_step [OF good_real_none(2) ZonePortDelete_good]) (simp add: assms(2))
  have g2: "good D w1 w2" unfolding w2_def by (rule good_set_zone [OF good_wf [OF g1]]) (simp add: zone_ok_def ptr_ok_del)
  have g: "good D w w2" using good_trans [OF g1 g2] .
  show ?thesis
  proof (cases zo)
    case None
    then show ?thesis using g by (simp add: port_drop_def Let_def w1_def w2_def)
  next
    case (Some zn)
    have zn: "zn < length (zones w2)" using assms(3) [OF Some] good_len(6) [OF g] by simp
    let ?n = "p_Name (port w1 q)"
    obtain w3 where e3: "RtDeleteByPort env zn ?n w2 = Some w3" and g3: "good D w2 w3"
      using RtDeleteByPort_goods [OF assms(1) good_wf [OF g] zn] by (force simp: goods_def)
    have zn3: "zn < length (zones w3)" using zn good_len(6) [OF g3] by simp
    obtain w4 where e4: "NeighDeleteByPort env zn ?n w3 = Some w4" and g4: "good D w3 w4"
      using NeighDeleteByPort_goods [OF assms(1) good_wf [OF g3] zn3] by (force simp: goods_def)
    have zn4: "zones w4 \<noteq> []" using zn3 good_len(6) [OF g4] by auto
    have "kept D w4 (zn_IfaDeleteAll env zn ?n w4)" by (rule goods_kept [OF zn_IfaDeleteAll_goods [OF assms(1) good_wf [OF g4] zn4]])
    from kept_after [OF good_trans [OF g good_trans [OF g3 g4]] this]
    show ?thesis using Some e3 e4 by (simp add: port_drop_def Let_def w1_def w2_def)
  qed
qed

lemma port_del_keeps:
  fixes D :: "'t \<Rightarrow> trie_data set" and vd :: "('c, 't) vlan_deleter"
  assumes "trie_laws env D" "dels_vlans D vd"
  shows "dels_ports D (port_del env vd)"
  unfolding dels_ports_def
proof (intro allI impI, elim conjE)
  fix z name ptype and w :: "('c, 't) world"
  assume w: "net_wf D w" "z < length (zones w)"
  have leave: "good D w w1" if "port_leave q ptype w = Some w1" for q w1 using port_leave_kept [OF w(1)] that by (simp add: kept_def)
  have rem: "keeps D w (port_untype env vd (GetPortZone nm (dp_port DpRemove q w)) q (dp_port DpRemove q w) \<bind>
      (\<lambda>w2. port_drop env z name (GetPortZone nm (dp_port DpRemove q w)) q w2 \<bind> (\<lambda>w3. Some (Ok, w3))))" for nm q
  proof -
    let ?w1 = "dp_port DpRemove q w"
    have g1: "good D w ?w1" by (rule Port_DP_good [OF w(1)])
    have zo: "zn < length (zones ?w1)" if "GetPortZone nm ?w1 = Some zn" for zn by (rule net_wf_GetPortZone [OF good_wf [OF g1] that])
    have "keeps D ?w1 (port_untype env vd (GetPortZone nm ?w1) q ?w1 \<bind> (\<lambda>w2. port_drop env z name (GetPortZone nm ?w1) q w2 \<bind> (\<lambda>w3. Some (Ok, w3))))"
    proof (rule kept_bind_keeps [OF port_untype_kept [OF assms(2) good_wf [OF g1] zo]])
      fix w2 assume g2: "good D ?w1 w2"
      show "keeps D w2 (port_drop env z name (GetPortZone nm ?w1) q w2 \<bind> (\<lambda>w3. Some (Ok, w3)))"
        by (rule kept_bind_keeps [OF port_drop_kept [OF assms(1) good_wf [OF g2]]]) (use zo good_len(6) [OF g2] good_wf in auto)
    qed
    then show ?thesis by (rule keeps_after [OF g1])
  qed
  show "keeps D w (port_del env vd z name ptype w)"
    using w(1) leave rem by (auto simp: port_del_def Let_def split: option.split)
qed

lemma Vlan_DP_good: "net_wf D w \<Longrightarrow> good D w (snd (Vlan_DP work v w))"
  by (simp add: Vlan_DP_def)

lemma vlan_delete_keeps:
  fixes D :: "'t \<Rightarrow> trie_data set" and pd :: "('c, 't) port_deleter"
  assumes "dels_ports D pd"
  shows "dels_vlans D (vlan_delete pd)"
  unfolding dels_vlans_def
proof (intro allI impI, elim conjE)
  fix z vid and w :: "('c, 't) world"
  assume w: "net_wf D w" "z < length (zones w)"
  let ?b = "\<lambda>nm. snd (ZoneBrDelete nm w)"
  have "keeps D w (pd z nm PortVlanBr (?b nm) \<bind> (\<lambda>(_, w1). Some (Ok, set_vlan z vid (\<lambda>v. v \<lparr> v_Name := [], VlanID := 0, Created := False, v_Zone := [] \<rparr>)
              (snd (Vlan_DP DpStatsClr (vlan z vid w1) w1)))))" for nm
  proof -
    have g: "good D w (?b nm)" by (rule ZoneBrDelete_good [OF w(1)])
    have "keeps D (?b nm) (pd z nm PortVlanBr (?b nm))" using assms w(2) good_wf [OF g] good_len(6) [OF g] by (simp add: dels_ports_def)
    from keeps_after [OF g keeps_bind [OF this]] show ?thesis
      by (rule meta_mp) (auto intro!: good_step [OF Vlan_DP_good good_set_vlan] dest: good_wf)
  qed
  then show "keeps D w (vlan_delete pd z vid w)" using w(1) by (simp add: vlan_delete_def Let_def)
qed

lemma port_del_to_keeps: "trie_laws env D \<Longrightarrow> dels_ports D (port_del_to k env)"
proof (induction k)
  case (Suc k)
  then show ?case by (simp add: port_del_keeps vlan_delete_keeps)
qed (simp add: dels_ports_def)

lemma PortDel_keeps: "trie_laws env D \<Longrightarrow> net_wf D w \<Longrightarrow> z < length (zones w) \<Longrightarrow> keeps D w (PortDel env z name ptype w)"
  unfolding PortDel_def using port_del_to_keeps [of env D] unfolding dels_ports_def by blast

lemma VlanDelete_keeps: "trie_laws env D \<Longrightarrow> net_wf D w \<Longrightarrow> z < length (zones w) \<Longrightarrow> keeps D w (VlanDelete env z vid w)"
  using vlan_delete_keeps [of D "PortDel env"] PortDel_keeps [of env D] by (simp add: dels_ports_def dels_vlans_def VlanDelete_def)

lemma VlanPortDelete_keeps:
  fixes D :: "'t \<Rightarrow> trie_data set" and w :: "('c, 't) world"
  assumes "trie_laws env D" "net_wf D w" "z < length (zones w)"
  shows "keeps D w (VlanPortDelete env z vid name tagged w)"
proof -
  have "keeps D w (PortDel env z nm ptype w \<bind> f)"
    if "\<And>r w1. good D w w1 \<Longrightarrow> keeps D w1 (f (r, w1))" for nm ptype and f :: "go_ret \<times> ('c, 't) world \<Rightarrow> (go_ret \<times> ('c, 't) world) option"
    by (rule keeps_bind [OF PortDel_keeps [OF assms] that])
  then show ?thesis using assms(2)
    by (auto simp: VlanPortDelete_def Let_def good_wf good_set_vlan split: option.split)
qed

lemma opt_fold_kept:
  assumes "\<And>x w. net_wf D w \<Longrightarrow> length (zones w) = n \<Longrightarrow> kept D w (f x w)" "net_wf D w" "length (zones w) = n"
  shows "kept D w (opt_fold f xs w)"
  using assms(2,3)
proof (induction xs arbitrary: w)
  case (Cons x xs)
  show ?case unfolding opt_fold.simps
    by (rule kept_bind [OF assms(1) [OF Cons.prems]]) (use Cons.IH Cons.prems(2) good_wf good_len(6) in metis)
qed simp

lemma vlan_destruct_kept:
  assumes "trie_laws env D" "net_wf D w" "z < length (zones w)"
  shows "kept D w (vlan_destruct env z i w)"
proof -
  have d: "kept D w (opt_fold (\<lambda>(_, q) w. map_option snd (VlanPortDelete env z i (p_Name (port w q)) tg w)) xs w)" if "net_wf D w" "z < length (zones w)" for w xs tg
    by (rule opt_fold_kept [OF _ that(1) refl]) (use that(2) VlanPortDelete_keeps [OF assms(1)] kept_snd in \<open>force split: prod.split\<close>)
  have v: "kept D w (map_option snd (VlanDelete env z i w))" if "net_wf D w" "z < length (zones w)" for w
    by (rule kept_snd [OF VlanDelete_keeps [OF assms(1) that]])
  show ?thesis using assms(2) unfolding vlan_destruct_def Let_def
    by (auto intro!: kept_bind [OF d] v simp: assms good_wf good_len(6))
qed

lemma VlanDestructAll_kept: "trie_laws env D \<Longrightarrow> net_wf D w \<Longrightarrow> z < length (zones w) \<Longrightarrow> kept D w (VlanDestructAll env z w)"
  unfolding VlanDestructAll_def by (rule opt_fold_kept [OF vlan_destruct_kept]) simp_all

lemma PortDestructAll_kept:
  assumes "trie_laws env D" "net_wf D w" "z < length (zones w)"
  shows "kept D w (PortDestructAll env z w)"
  unfolding PortDestructAll_def
  by (rule opt_fold_kept [OF _ assms(2) refl]) (use assms(3) PortDel_keeps [OF assms(1)] kept_snd in \<open>force split: prod.split\<close>)

subsection \<open>Sessions, policers and mirrors\<close>

lemma good_foldl: "(\<And>x w. net_wf D w \<Longrightarrow> good D w (f x w)) \<Longrightarrow> net_wf D w \<Longrightarrow> good D w (fold f xs w)"
  by (rule good_fold) simp_all

lemma UlCl_DP_good: "net_wf D w \<Longrightarrow> good D w (UlCl_DP work us c w)"
  by (simp add: UlCl_DP_def)

lemma get_mark_good: "net_wf D w \<Longrightarrow> good D w (snd (get_mark env z w))"
  by (simp add: get_mark_def good_sess split: prod.split)

lemma put_user_good: "net_wf D w \<Longrightarrow> good D w (put_user z user us w)"
  unfolding put_user_def by (rule good_sess)

lemma UlClAddCls_good:
  assumes "net_wf D w"
  shows "good D w (snd (UlClAddCls env z user addr qfi w))"
proof -
  have "good D w (UlCl_DP DpCreate us c (put_user z user us' (snd (get_mark env z (snd (get_mark env z w))))))" for us c us'
    by (rule good_step [OF good_step [OF good_step [OF get_mark_good [OF assms] get_mark_good] put_user_good] UlCl_DP_good])
  then show ?thesis using assms by (simp add: UlClAddCls_def Let_def split_beta split: option.split)
qed

lemma UlClDeleteCls_good:
  assumes "net_wf D w"
  shows "good D w (snd (UlClDeleteCls env z user addr w))"
proof -
  have "good D w (put_user z user us' (set_sess z f (UlCl_DP DpRemove us c w)))" for us c us' f
    by (rule good_step [OF good_step [OF UlCl_DP_good [OF assms] good_sess] put_user_good])
  then show ?thesis using assms by (simp add: UlClDeleteCls_def split: option.split)
qed

lemma SessDelete_good:
  assumes "net_wf D w"
  shows "good D w (snd (SessDelete env z user w))"
proof -
  have "good D w (set_sess z f (fold (\<lambda>(_, c) w. snd (UlClDeleteCls env z user (uc_Addr c) w)) xs w))" for f and xs :: "(string \<times> UlClInf) list"
    by (rule good_step [OF good_foldl [OF _ assms] good_sess]) (simp split: prod.split add: UlClDeleteCls_good)
  then show ?thesis using assms by (simp add: SessDelete_def split: option.split)
qed

lemma SessAdd_good:
  assumes "net_wf D w"
  shows "good D w (snd (SessAdd env z user ip an cn w))"
proof -
  have n: "good D w (snd (new_sess z user ip an cn w1))" if "good D w w1" for w1
    unfolding new_sess_def snd_conv by (rule good_next [OF that]) (rule put_user_good)
  show ?thesis using assms n [of w] SessDelete_good [OF assms, of env z user] n
    by (cases "SessDelete env z user w") (auto simp: SessAdd_def split: option.split go_ret.split)
qed

lemma SessionsSync_good: "net_wf D w \<Longrightarrow> good D w (SessionsSync z w)"
  unfolding SessionsSync_def by (rule good_foldl) (auto split: prod.split intro!: good_foldl UlCl_DP_good)

lemma good_prop: "net_wf D w \<Longrightarrow> good D w (set_sinfo q (set_prop prop u v) w)"
  by (rule good_set_sinfo) (simp_all add: set_prop_def Let_def)

lemma PortUpdateProp_good:
  assumes "net_wf D w"
  shows "good D w (snd (PortUpdateProp z name prop zns u v w))"
proof -
  have "good D w (fold (\<lambda>e w. dp_port DpCreate e (set_sinfo e (set_prop prop u v) w)) qs w)" for qs
    by (rule good_foldl [OF _ assms]) (rule good_dp [OF good_prop])
  then show ?thesis using assms by (simp add: PortUpdateProp_def Let_def split: option.split)
qed

lemma obj_dp_good:
  assumes "net_wf D w"
  shows "good D w (snd (obj_dp prop z num work ob w))"
proof -
  have "good D w (snd (case PortUpdateProp z nm prop zns True v w of (Ok, w1) \<Rightarrow> (ob \<lparr> o_Sync := DpStatusOk \<rparr>, w1)
             | (Err _ _, w1) \<Rightarrow> (ob \<lparr> o_Sync := DpCreateErr \<rparr>, w1)))" for nm zns v
    using PortUpdateProp_good [OF assms, of z nm "prop" zns True v] by (auto split: prod.split go_ret.split)
  then show ?thesis using assms PortUpdateProp_good [OF assms] by (simp add: obj_dp_def split: option.split)
qed

lemma map_objs_good: "(\<And>x w. net_wf D w \<Longrightarrow> good D w (snd (f x w))) \<Longrightarrow> net_wf D w \<Longrightarrow> good D w (snd (map_objs f xs w))"
proof (induction xs arbitrary: w)
  case (Cons x xs)
  have g: "good D w (snd (f x w))" using Cons.prems by simp
  have "good D (snd (f x w)) (snd (map_objs f xs (snd (f x w))))" using Cons.IH [OF Cons.prems(1) good_wf [OF g]] .
  then show ?case using good_trans [OF g] by (simp add: Let_def split_beta)
qed simp

lemma obj_tick_good: "(\<And>x w. net_wf D w \<Longrightarrow> good D w (snd (dp DpCreate x w))) \<Longrightarrow> net_wf D w \<Longrightarrow> good D w (snd (obj_tick dp z ob w))"
  by (simp add: obj_tick_def)

lemma good_polh: "net_wf D w \<Longrightarrow> good D w (set_polh z f w)" and good_mirrh: "net_wf D w \<Longrightarrow> good D w (set_mirrh z g w)"
  unfolding set_polh_def set_mirrh_def by (rule good_zone_same, simp_all)+

lemma Pol_DP_good: "net_wf D w \<Longrightarrow> good D w (Pol_DP work p w)" and Mirr_DP_good: "net_wf D w \<Longrightarrow> good D w (snd (Mirr_DP z work m w))"
  by (simp_all add: Pol_DP_def Mirr_DP_def Let_def split: option.split)

lemma put_pol_good: "net_wf D w \<Longrightarrow> good D w (put_pol z name p w)" and put_mirr_good: "net_wf D w \<Longrightarrow> good D w (put_mirr z name m w)"
  unfolding put_pol_def put_mirr_def by (rule good_polh good_mirrh, assumption)+

lemma PolObj2DP_good: "net_wf D w \<Longrightarrow> good D w (snd (PolObj2DP z p work ob w))" and MirrObj2DP_good: "net_wf D w \<Longrightarrow> good D w (snd (MirrObj2DP z m work ob w))"
  unfolding PolObj2DP_def MirrObj2DP_def by (rule obj_dp_good, assumption)+

lemma PolDelete_good:
  assumes "net_wf D w"
  shows "good D w (snd (PolDelete env z name w))"
proof -
  have "good D w (set_polh z f (Pol_DP DpRemove p (fold (\<lambda>ob w. snd (PolObj2DP z p DpRemove ob w)) obs w)))" for f p obs
    by (rule good_step [OF good_step [OF good_foldl [OF PolObj2DP_good assms] Pol_DP_good] good_polh])
  then show ?thesis using assms by (simp add: PolDelete_def Let_def split: option.split)
qed

lemma MirrDelete_good:
  assumes "net_wf D w"
  shows "good D w (snd (MirrDelete env z name w))"
proof -
  have "good D w (set_mirrh z f (snd (Mirr_DP z DpRemove m (fold (\<lambda>ob w. snd (MirrObj2DP z m DpRemove ob w)) obs w))))" for f m obs
    by (rule good_step [OF good_step [OF good_foldl [OF MirrObj2DP_good assms] Mirr_DP_good] good_mirrh])
  then show ?thesis using assms by (simp add: MirrDelete_def Let_def split: option.split)
qed

lemma pol_create_good:
  assumes "net_wf D w"
  shows "good D w (snd (pol_create env z name info args w))"
proof -
  have "good D w (put_pol z name p' (snd (PolObj2DP z p DpCreate ob (Pol_DP DpCreate p (put_pol z name p (set_polh z f w))))))" for p p' ob f
    by (rule good_step [OF good_step [OF good_step [OF good_step [OF good_polh [OF assms] put_pol_good] Pol_DP_good] PolObj2DP_good] put_pol_good])
  then show ?thesis by (simp add: pol_create_def Let_def split_beta)
qed

lemma mirr_create_good:
  assumes "net_wf D w"
  shows "good D w (snd (mirr_create env z name info args w))"
proof -
  have "good D w (put_mirr z name m' (snd (MirrObj2DP z m1 DpCreate ob (snd (Mirr_DP z DpCreate m (put_mirr z name m (set_mirrh z f w)))))))" for m m1 m' ob f
    by (rule good_step [OF good_step [OF good_step [OF good_step [OF good_mirrh [OF assms] put_mirr_good] Mirr_DP_good] MirrObj2DP_good] put_mirr_good])
  then show ?thesis by (simp add: mirr_create_def Let_def split_beta)
qed

lemma PolAdd_good: "net_wf D w \<Longrightarrow> good D w (snd (PolAdd env z name info args w))"
  using pol_create_good [of D w] good_step [OF PolDelete_good [of D w env z name] pol_create_good]
  by (simp add: PolAdd_def split: option.split)

lemma MirrAdd_good: "net_wf D w \<Longrightarrow> good D w (snd (MirrAdd env z name info args w))"
  using mirr_create_good [of D w] good_step [OF MirrDelete_good [of D w env z name] mirr_create_good]
  by (simp add: MirrAdd_def split: option.split)

lemma PolDestructAll_good: "net_wf D w \<Longrightarrow> good D w (PolDestructAll env z w)"
  unfolding PolDestructAll_def by (rule good_foldl) (auto simp: PolDelete_good split: prod.split)

lemma MirrDestructAll_good: "net_wf D w \<Longrightarrow> good D w (MirrDestructAll env z w)"
  unfolding MirrDestructAll_def by (rule good_foldl) (auto simp: MirrDelete_good split: prod.split)

lemma pol_tick_good:
  assumes "net_wf D w"
  shows "good D w (pol_tick z kp w)"
proof -
  have "good D w (fold (\<lambda>ob w. snd (PolObj2DP z p DpCreate ob w)) obs (Pol_DP DpCreate p w))" for p obs
    by (rule good_step [OF Pol_DP_good [OF assms] good_foldl [OF PolObj2DP_good]])
  moreover have "good D w (put_pol z k p' (snd (map_objs (obj_tick (PolObj2DP z p) z) obs (Pol_DP DpStatsGet p w))))" for k p p' obs
    by (rule good_step [OF good_step [OF Pol_DP_good [OF assms] map_objs_good [OF obj_tick_good [OF PolObj2DP_good]]] put_pol_good])
  ultimately show ?thesis by (simp add: pol_tick_def Let_def split_beta)
qed

lemma mirr_tick_good:
  assumes "net_wf D w"
  shows "good D w (mirr_tick z km w)"
proof -
  have "good D w (fold (\<lambda>ob w. snd (MirrObj2DP z m1 DpCreate ob w)) obs (put_mirr z k m1 (snd (Mirr_DP z DpCreate m w))))" for k m m1 obs
    by (rule good_step [OF good_step [OF Mirr_DP_good [OF assms] put_mirr_good] good_foldl [OF MirrObj2DP_good]])
  moreover have "good D w (put_mirr z k m' (snd (map_objs (obj_tick (MirrObj2DP z m) z) obs w)))" for k m m' obs
    by (rule good_step [OF map_objs_good [OF obj_tick_good [OF MirrObj2DP_good] assms] put_mirr_good])
  ultimately show ?thesis by (simp add: mirr_tick_def Let_def split_beta)
qed

lemma PolTicker_good: "net_wf D w \<Longrightarrow> good D w (PolTicker z w)" and MirrTicker_good: "net_wf D w \<Longrightarrow> good D w (MirrTicker z w)"
  unfolding PolTicker_def MirrTicker_def by (rule good_foldl [OF pol_tick_good], assumption+) (rule good_foldl [OF mirr_tick_good], assumption+)

lemma PolPortDelete_good: "net_wf D w \<Longrightarrow> good D w (PolPortDelete z name w)" and MirrPortDelete_good: "net_wf D w \<Longrightarrow> good D w (MirrPortDelete z name w)"
  unfolding PolPortDelete_def MirrPortDelete_def by (rule good_polh good_mirrh, assumption)+

subsection \<open>Tickers and zones\<close>

lemma port_tick_good:
  assumes "net_wf D w" "z < length (zones w)" "q < length (ports w)"
  shows "good D w (port_tick z q w)"
proof -
  let ?rp = "PortFindByName z (hw_Real (HInfo (port w q))) w"
  have o: "good D w (set_sinfo r (\<lambda>s. s \<lparr> PortOvl := Some q \<rparr>) w)" for r by (rule good_set_sinfo [OF assms(1)]) (simp_all add: assms(3))
  define w1 where "w1 = (case ?rp of Some r \<Rightarrow> if PortOvl (SInfo (port w r)) = None then set_sinfo r (\<lambda>s. s \<lparr> PortOvl := Some q \<rparr>) w else w | None \<Rightarrow> w)"
  have g1: "good D w w1" using o assms(1) by (simp add: w1_def split: option.split)
  have "opt_lt ?rp (length (ports w1))" using net_wf_PortFindByName [OF assms(1,2)] good_len(5) [OF g1] by (cases ?rp) (auto dest: less_le_trans)
  then have "good D w1 (set_sinfo q (\<lambda>s. s \<lparr> PortReal_p := ?rp \<rparr>) w1)" by (intro good_set_sinfo [OF good_wf [OF g1]]) simp_all
  from good_trans [OF g1 this] show ?thesis using g1 assms(1) unfolding port_tick_def Let_def w1_def by simp
qed

lemma PortTicker_good:
  assumes "net_wf D w" "z < length (zones w)"
  shows "good D w (PortTicker z w)"
proof -
  have "good D w (fold (port_tick z) qs w)" if "\<forall>q \<in> set qs. q < n" "n \<le> length (ports w)" "net_wf D w" "z < length (zones w)" for qs n w
    using that
  proof (induction qs arbitrary: w)
    case (Cons q qs)
    have g: "good D w (port_tick z q w)" by (rule port_tick_good) (use Cons.prems in auto)
    then show ?case using good_trans [OF g Cons.IH] Cons.prems good_len(5,6) [OF g] good_wf [OF g] by simp
  qed simp
  moreover have "\<forall>q \<in> set (map snd (smap z w)). q < length (ports w)"
    using net_wf_zone [OF assms] by (auto simp: zone_ok_def ptr_ok_def shape_of_def)
  ultimately show ?thesis unfolding PortTicker_def using assms by blast
qed

end
