(* ===== verification/NetHistory.thy ===== *)
theory NetHistory
  imports NetPorts
begin

text \<open>Histories of the network state: zones, ports, VLANs, forwarding entries, neighbours, routes, interface
addresses, sessions, policers and mirrors are added and deleted in any order from the empty state, and the
tickers run in between.  Every state that is reached is well-formed, and on such a state no operation
outside the port table panics or recurses forever.\<close>

subsection \<open>Operations\<close>

datatype net_op =
    RtAddOp nat IPNet string RtAttr "RtNhAttr list"
  | RtDelOp nat IPNet string
  | NeighAddOp nat IP string NeighAttr
  | NeighDelOp nat IP string int
  | FdbAddOp nat FdbKey FdbAttr
  | FdbDelOp nat FdbKey
  | IfaAddOp nat string string
  | IfaDelOp nat string string
  | PortAddOp nat string int int string PortHwInfo PortLayer2Info
  | PortDelOp nat string int
  | VlanAddOp nat int string string int PortHwInfo
  | VlanDelOp nat int
  | VlanPortAddOp nat int string bool
  | VlanPortDelOp nat int string bool
  | SessAddOp nat string IP SessTun SessTun
  | SessDelOp nat string
  | UlClAddOp nat string IP u8
  | UlClDelOp nat string IP
  | PolAddOp nat string PolInfo attach
  | PolDelOp nat string
  | MirrAddOp nat string MirrInfo attach
  | MirrDelOp nat string
  | NotifyOp nat string
  | TickOp nat
  | WaitOp int
  | ZoneAddOp string
  | ZoneDelOp string

fun net_do :: "('c, 't) net_env \<Rightarrow> net_op \<Rightarrow> ('c, 't) world \<Rightarrow> ('c, 't) world option" where
  "net_do env (RtAddOp z dst zns a hs) w = map_option snd (RtAdd env z dst zns a hs w)"
| "net_do env (RtDelOp z dst zns) w = map_option snd (RtDelete env z dst zns w)"
| "net_do env (NeighAddOp z addr zns attr) w = map_option snd (NeighAdd env z addr zns attr w)"
| "net_do env (NeighDelOp z addr zns link) w = map_option snd (NeighDelete env z addr zns link w)"
| "net_do env (FdbAddOp z key attr) w = map_option snd (L2FdbAdd env z key attr w)"
| "net_do env (FdbDelOp z key) w = Some (snd (L2FdbDel z key w))"
| "net_do env (IfaAddOp z ob cidr) w = map_option snd (zn_IfaAdd env z ob cidr w)"
| "net_do env (IfaDelOp z ob cidr) w = map_option snd (zn_IfaDelete env z ob cidr w)"
| "net_do env (PortAddOp z name osid ptype zns hwi l2i) w = map_option snd (PortAdd env z name osid ptype zns hwi l2i w)"
| "net_do env (PortDelOp z name ptype) w = map_option snd (PortDel env z name ptype w)"
| "net_do env (VlanAddOp z vid name zns osid hwi) w = map_option snd (VlanAdd env z vid name zns osid hwi w)"
| "net_do env (VlanDelOp z vid) w = map_option snd (VlanDelete env z vid w)"
| "net_do env (VlanPortAddOp z vid name tagged) w = map_option snd (VlanPortAdd env z vid name tagged w)"
| "net_do env (VlanPortDelOp z vid name tagged) w = map_option snd (VlanPortDelete env z vid name tagged w)"
| "net_do env (SessAddOp z user ip an cn) w = Some (snd (SessAdd env z user ip an cn w))"
| "net_do env (SessDelOp z user) w = Some (snd (SessDelete env z user w))"
| "net_do env (UlClAddOp z user ip q) w = Some (snd (UlClAddCls env z user ip q w))"
| "net_do env (UlClDelOp z user ip) w = Some (snd (UlClDeleteCls env z user ip w))"
| "net_do env (PolAddOp z name i a) w = Some (snd (PolAdd env z name i a w))"
| "net_do env (PolDelOp z name) w = Some (snd (PolDelete env z name w))"
| "net_do env (MirrAddOp z name i a) w = Some (snd (MirrAdd env z name i a w))"
| "net_do env (MirrDelOp z name) w = Some (snd (MirrDelete env z name w))"
| "net_do env (NotifyOp z name) w = do { w1 \<leftarrow> L2_PortNotifier z name w; w2 \<leftarrow> Neigh_PortNotifier env z name w1;
     Some (MirrPortDelete z name (PolPortDelete z name w2)) }"
| "net_do env (TickOp z) w = zone_tick env z w"
| "net_do env (WaitOp d) w = Some (w \<lparr> now := now w + d \<rparr>)"
| "net_do env (ZoneAddOp name) w = Some (snd (ZoneAdd env name w))"
| "net_do env (ZoneDelOp name) w = map_option snd (ZoneDelete env name w)"

text \<open>The zone of an operation exists, and the hardware address of a neighbour has at least six bytes:
\<open>AddNeigh\<close> of \<open>api/loxinlp/nlp.go\<close> slices them off before it calls.\<close>

fun op_zone :: "net_op \<Rightarrow> nat option" where
  "op_zone (WaitOp _) = None"
| "op_zone (ZoneAddOp _) = None"
| "op_zone (ZoneDelOp _) = None"
| "op_zone (RtAddOp z _ _ _ _) = Some z"
| "op_zone (RtDelOp z _ _) = Some z"
| "op_zone (NeighAddOp z _ _ _) = Some z"
| "op_zone (NeighDelOp z _ _ _) = Some z"
| "op_zone (FdbAddOp z _ _) = Some z"
| "op_zone (FdbDelOp z _) = Some z"
| "op_zone (IfaAddOp z _ _) = Some z"
| "op_zone (IfaDelOp z _ _) = Some z"
| "op_zone (PortAddOp z _ _ _ _ _ _) = Some z"
| "op_zone (PortDelOp z _ _) = Some z"
| "op_zone (VlanAddOp z _ _ _ _ _) = Some z"
| "op_zone (VlanDelOp z _) = Some z"
| "op_zone (VlanPortAddOp z _ _ _) = Some z"
| "op_zone (VlanPortDelOp z _ _ _) = Some z"
| "op_zone (SessAddOp z _ _ _ _) = Some z"
| "op_zone (SessDelOp z _) = Some z"
| "op_zone (UlClAddOp z _ _ _) = Some z"
| "op_zone (UlClDelOp z _ _) = Some z"
| "op_zone (PolAddOp z _ _ _) = Some z"
| "op_zone (PolDelOp z _) = Some z"
| "op_zone (MirrAddOp z _ _ _) = Some z"
| "op_zone (MirrDelOp z _) = Some z"
| "op_zone (NotifyOp z _) = Some z"
| "op_zone (TickOp z) = Some z"

definition op_ok :: "('c, 't) world \<Rightarrow> net_op \<Rightarrow> bool" where
  "op_ok w op \<longleftrightarrow> (case op_zone op of None \<Rightarrow> True | Some z \<Rightarrow> z < length (zones w)) \<and>
     (case op of NeighAddOp _ _ _ attr \<Rightarrow> 6 \<le> length (HardwareAddr attr) | _ \<Rightarrow> True)"

text \<open>Operations on the table of ports by number may panic.\<close>

fun on_ports :: "net_op \<Rightarrow> bool" where
  "on_ports (PortAddOp _ _ _ _ _ _ _) = True"
| "on_ports (PortDelOp _ _ _) = True"
| "on_ports (VlanAddOp _ _ _ _ _ _) = True"
| "on_ports (VlanDelOp _ _) = True"
| "on_ports (VlanPortAddOp _ _ _ _) = True"
| "on_ports (VlanPortDelOp _ _ _ _) = True"
| "on_ports (ZoneDelOp _) = True"
| "on_ports _ = False"

inductive net_reach :: "('c, 't) net_env \<Rightarrow> ('c, 't) world \<Rightarrow> bool" for env where
  init: "net_reach env (ZoneInit env t)"
| step: "net_reach env w \<Longrightarrow> op_ok w op \<Longrightarrow> net_do env op w = Some w' \<Longrightarrow> net_reach env w'"

subsection \<open>Zones\<close>

lemma ZoneInit_wf: "net_wf D (ZoneInit env t)"
  by (simp add: net_wf_def net_ok_def ZoneInit_def ptr_ok_def)

lemma zone_tick_goods:
  assumes "trie_laws env D" "net_wf D w" "z < length (zones w)"
  shows "goods D w (zone_tick env z w)"
proof -
  obtain w1 where e1: "FdbsTicker env z w = Some w1" and g1: "good D w w1" using FdbsTicker_goods [OF assms] by (auto simp: goods_def)
  have z1: "z < length (zones w1)" using assms(3) good_len(6) [OF g1] by simp
  obtain w2 where e2: "NeighsTicker env z w1 = Some w2" and g2: "good D w1 w2" using NeighsTicker_goods [OF assms(1) good_wf [OF g1] z1] by (auto simp: goods_def)
  let ?w3 = "zn_ifas_ticker env z False (MirrTicker z (PolTicker z (SessionsSync z w2)))"
  have g3: "good D w2 ?w3"
    by (rule good_step [OF good_step [OF good_step [OF SessionsSync_good [OF good_wf [OF g2]] PolTicker_good] MirrTicker_good] zn_ifas_ticker_good])
  have "good D ?w3 (PortTicker z ?w3)" by (rule PortTicker_good [OF good_wf [OF g3]]) (use z1 good_len(6) [OF g2] good_len(6) [OF g3] in simp)
  from good_trans [OF g1 good_trans [OF g2 good_trans [OF g3 this]]] show ?thesis using e1 e2 by (simp add: zone_tick_def)
qed

lemma ZoneAdd_wf:
  assumes "trie_laws env D" "net_wf D w"
  shows "net_wf D (snd (ZoneAdd env name w))"
proof -
  have "net_wf D (w \<lparr> ZoneMark := c \<rparr>)" for c using assms(2) by (simp add: net_wf_def net_ok_def shape_of_def)
  moreover have "net_wf D (w \<lparr> ZoneMark := c, ZoneMap := gm_put name (length (zones w)) (ZoneMap w), zones := zones w @
             [\<lparr> z_Name = name, ZoneNum = m, Ports = PortInit env, Vlans = [], L2 = [], Nh = NeighInit env, z_Rt = RtInit env,
                L3 = [], Sess = SessInit env, Pols = PolInit env, Mirrs = MirrInit env \<rparr>] \<rparr>)" for c m
  proof -
    have t: "D (TrieInit env b) = {}" for b using assms(1) by (simp add: trie_laws_def)
    show ?thesis using assms(2) t ptr_ok_mono [of "length (zones w)" _ "Suc (length (zones w))"]
      by (auto simp: net_wf_def net_ok_def shape_of_def zone_ok_def PortInit_def NeighInit_def RtInit_def tab_ok_def intro!: ptr_ok_put) (simp add: ptr_ok_def)+
  qed
  ultimately show ?thesis using assms(2) by (simp add: ZoneAdd_def split: prod.split)
qed

lemma kept_seq:
  assumes "kept D w x" "\<And>w1. net_wf D w1 \<Longrightarrow> length (zones w1) = length (zones w) \<Longrightarrow> kept D w1 (f w1)"
  shows "kept D w (x \<bind> f)"
  by (rule kept_bind [OF assms(1)]) (simp add: assms(2) good_wf good_len(6))

lemma ZoneDelete_wf:
  assumes "trie_laws env D" "net_wf D w" "ZoneDelete env name w = Some (r, w')"
  shows "net_wf D w'"
proof (cases "gm_get (ZoneMap w) name")
  case None
  then show ?thesis using assms(2,3) by (simp add: ZoneDelete_def)
next
  case (Some z)
  have z: "z < length (zones w)" using assms(2) Some by (auto simp: net_wf_def net_ok_def intro: ptr_ok_get)
  let ?w0 = "PolDestructAll env z (MirrDestructAll env z w)"
  have g0: "good D w ?w0" by (rule good_step [OF MirrDestructAll_good [OF assms(2)] PolDestructAll_good])
  have "kept D ?w0 (do { w1 \<leftarrow> RtDestructAll env z ?w0; w2 \<leftarrow> NeighDestructAll env z w1; w3 \<leftarrow> L2DestructAll z w2;
      w4 \<leftarrow> VlanDestructAll env z w3; PortDestructAll env z w4 })"
    by (intro kept_seq goods_kept [OF RtDestructAll_goods] goods_kept [OF NeighDestructAll_goods] goods_kept [OF L2DestructAll_goods]
        VlanDestructAll_kept PortDestructAll_kept assms(1)) (use z good_len(6) [OF g0] in \<open>simp_all add: good_wf [OF g0]\<close>)
  moreover obtain w5 where w5: "do { w1 \<leftarrow> RtDestructAll env z ?w0; w2 \<leftarrow> NeighDestructAll env z w1; w3 \<leftarrow> L2DestructAll z w2;
      w4 \<leftarrow> VlanDestructAll env z w3; PortDestructAll env z w4 } = Some w5" "w' = w5 \<lparr> ZoneMap := gm_del name (ZoneMap w5) \<rparr>"
    using assms(3) Some by (auto simp: ZoneDelete_def bind_eq_Some_conv)
  ultimately have "net_wf D w5" by (simp add: good_wf)
  then show ?thesis using w5(2) by (simp add: net_wf_def net_ok_def shape_of_def ptr_ok_del)
qed


subsection \<open>Type safety\<close>

lemma keeps_wf: "keeps D w x \<Longrightarrow> map_option snd x = Some w' \<Longrightarrow> net_wf D w'"
  by (auto simp: keeps_def good_def)

lemma gives_wf: "gives D w x \<Longrightarrow> \<exists>w'. map_option snd x = Some w' \<and> net_wf D w'"
  by (auto simp: gives_def good_def)

lemma goods_wf: "goods D w x \<Longrightarrow> \<exists>w'. x = Some w' \<and> net_wf D w'"
  by (auto simp: goods_def good_def)

lemma NotifyOp_goods:
  assumes "trie_laws env D" "net_wf D w" "z < length (zones w)"
  shows "goods D w (net_do env (NotifyOp z name) w)"
proof -
  obtain w1 where e1: "L2_PortNotifier z name w = Some w1" and g1: "good D w w1" using L2_PortNotifier_goods [OF assms(2)] by (force simp: goods_def)
  obtain w2 where e2: "Neigh_PortNotifier env z name w1 = Some w2" and g2: "good D w1 w2"
    using Neigh_PortNotifier_goods [OF assms(1) good_wf [OF g1]] assms(3) good_len(6) [OF g1] by (force simp: goods_def)
  have "good D w2 (MirrPortDelete z name (PolPortDelete z name w2))"
    by (rule good_step [OF PolPortDelete_good [OF good_wf [OF g2]] MirrPortDelete_good])
  from good_trans [OF g1 good_trans [OF g2 this]] show ?thesis using e1 e2 by simp
qed

lemma wait_wf: "net_wf D w \<Longrightarrow> net_wf D (w \<lparr> now := t \<rparr>)"
  by (simp add: net_wf_def net_ok_def shape_of_def)

lemma net_do_progress:
  assumes "trie_laws env D" "net_wf D w" "op_ok w op" "\<not> on_ports op"
  shows "\<exists>w'. net_do env op w = Some w' \<and> net_wf D w'"
proof -
  have ne: "zones w \<noteq> []" if "z < length (zones w)" for z using that by auto
  show ?thesis using assms(3,4) ne gives_wf [OF RtAdd_gives [OF assms(1,2)]] gives_wf [OF RtDelete_gives [OF assms(1,2)]] gives_wf [OF NeighAdd_gives [OF assms(1,2)]]
    gives_wf [OF NeighDelete_gives [OF assms(1,2)]] gives_wf [OF L2FdbAdd_gives [OF assms(1,2)]] gives_wf [OF zn_IfaAdd_gives [OF assms(1,2) ne]]
    gives_wf [OF zn_IfaDelete_gives [OF assms(1,2) ne]] goods_wf [OF NotifyOp_goods [OF assms(1,2)]] goods_wf [OF zone_tick_goods [OF assms(1,2)]]
    good_wf [OF L2FdbDel_good [OF assms(2)]] good_wf [OF SessAdd_good [OF assms(2)]] good_wf [OF SessDelete_good [OF assms(2)]]
    good_wf [OF UlClAddCls_good [OF assms(2)]] good_wf [OF UlClDeleteCls_good [OF assms(2)]] good_wf [OF PolAdd_good [OF assms(2)]]
    good_wf [OF PolDelete_good [OF assms(2)]] good_wf [OF MirrAdd_good [OF assms(2)]] good_wf [OF MirrDelete_good [OF assms(2)]]
    wait_wf [OF assms(2)] ZoneAdd_wf [OF assms(1,2)]
    by (cases op) (simp_all add: op_ok_def)
qed

lemma net_do_keeps:
  assumes "trie_laws env D" "net_wf D w" "op_ok w op" "net_do env op w = Some w'"
  shows "net_wf D w'"
proof (cases "on_ports op")
  case False
  then show ?thesis using net_do_progress [OF assms(1-3)] assms(4) by auto
next
  case True
  have zd: "net_wf D w'" if "map_option snd (ZoneDelete env name w) = Some w'" for name
    using that ZoneDelete_wf [OF assms(1,2)] by auto
  show ?thesis using True assms(3,4) zd keeps_wf [OF PortAdd_keeps [OF assms(2)]] keeps_wf [OF PortDel_keeps [OF assms(1,2)]]
      keeps_wf [OF VlanAdd_keeps [OF assms(2)]] keeps_wf [OF VlanDelete_keeps [OF assms(1,2)]] keeps_wf [OF VlanPortAdd_keeps [OF assms(2)]]
      keeps_wf [OF VlanPortDelete_keeps [OF assms(1,2)]]
    by (cases op) (simp_all add: op_ok_def)
qed

lemma net_reach_wf: "net_reach env w \<Longrightarrow> trie_laws env D \<Longrightarrow> net_wf D w"
  by (induction rule: net_reach.induct) (auto simp: ZoneInit_wf intro: net_do_keeps)



subsection \<open>An instance of the library\<close>

text \<open>Prefixes with their data, and the longest one that covers an address.\<close>

fun lpm_find :: "string \<Rightarrow> (string \<times> trie_data) list \<Rightarrow> (IPNet \<times> trie_data) option" where
  "lpm_find s [] = None"
| "lpm_find s ((k, d) # t) = (case ParseCIDR k of
      None \<Rightarrow> lpm_find s t
    | Some (_, net) \<Rightarrow>
       if IPNet_Contains net (ParseIP s) \<and> (case lpm_find s t of None \<Rightarrow> True | Some (b, _) \<Rightarrow> mask_ones b < mask_ones net)
       then Some (net, d) else lpm_find s t)"

definition lpm_data :: "(string \<times> trie_data) list \<Rightarrow> trie_data set" where
  "lpm_data t = snd ` set t"

text \<open>A counter: the next number, the limit and the numbers given back.\<close>

fun sample_get :: "u64 \<times> u64 \<times> u64 list \<Rightarrow> (u64 \<times> bool) \<times> (u64 \<times> u64 \<times> u64 list)" where
  "sample_get (n, l, x # xs) = ((x, True), (n, l, xs))"
| "sample_get (n, l, []) = (if n < l then ((n, True), (n + 1, l, [])) else ((NOT 0, False), (n, l, [])))"

definition sample_net :: "(u64 \<times> u64 \<times> u64 list, (string \<times> trie_data) list) net_env" where
  "sample_net = \<lparr> NewCounter = (\<lambda>b l. (b, b + l, [])), nGetCounter = sample_get, counter_err = ''no counter'',
     nPutCounter = (\<lambda>i (n, l, xs). (n, l, xs @ [i])), TrieInit = (\<lambda>_. []),
     AddTrie = (\<lambda>s d t. if gm_get t s = None then (0, (s, d) # t) else (-1, t)),
     DelTrie = (\<lambda>s t. if gm_get t s = None then (-1, t) else (0, gm_del s t)), FindTrie = lpm_find,
     n_host = quiet_host, FallBack = False, BlackListed = (\<lambda>_. False), nIsIPRuleVIP = (\<lambda>_. False), NetGetIfiStats = (\<lambda>_. None) \<rparr>"

lemma lpm_find_data: "lpm_find s t = Some (net, d) \<Longrightarrow> d \<in> lpm_data t"
  by (induction s t arbitrary: net d rule: lpm_find.induct) (auto simp: lpm_data_def split: option.splits if_splits)

lemma sample_net_laws: "trie_laws sample_net lpm_data"
  unfolding trie_laws_def sample_net_def using lpm_find_data by (auto simp: lpm_data_def AList.delete_eq)

definition eth0 :: Port where
  "eth0 = \<lparr> p_Name = ''eth0'', PortNo = 1, p_Zone = ''root'',
     SInfo = \<lparr> OsID = 5, PortType = PortReal, PortProp = 0, PortPolNum = 0, PortMirNum = 0, PortActive = True, PortReal_p = None,
       PortOvl = None, SessMark = 0, BpfLoaded = True \<rparr>,
     HInfo = \<lparr> hw_MacAddr = [2, 0, 0, 0, 0, 1], hw_Link = True, hw_State = True, hw_Mtu = 1500, hw_Master = [], hw_Real = [],
       hw_TunID = 0, hw_TunSrc = [], hw_TunDst = [] \<rparr>,
     p_Stats = zero_pstats, p_L2 = \<lparr> IsPvid = True, Vid = 3801 \<rparr>, p_Sync = DpStatusOk \<rparr>"

definition lan :: IPNet where "lan = \<lparr> net_IP = [10, 1, 0, 0], net_Mask = [255, 255, 0, 0] \<rparr>"

definition gw :: IP where "gw = [10, 0, 0, 2]"

abbreviation lan_key :: RtKey where "lan_key \<equiv> (IPNet_String lan, ''root'')"
abbreviation gw_key :: NeighKey where "gw_key \<equiv> (IP_String gw, ''root'', 5)"

text \<open>A gateway behind a port with its host route, and a route through it.\<close>

definition sample_neigh :: Neigh where
  "sample_neigh = zero_neigh \<lparr> n_Key := gw_key, n_Addr := gw, n_Attr := \<lparr> OSLinkIndex = 5, OSState = 0, HardwareAddr = [2, 0, 0, 0, 0, 9] \<rparr>,
     Resolved := True, n_Mark := 1, NhType := NhNormal, OifPort := Some 0, NhRtm := [(lan_key, 0)] \<rparr>"

definition sample_rt :: Rt where
  "sample_rt = \<lparr> r_Key = lan_key, r_Attr = \<lparr> Protocol = 0, OSFlags = 0, HostRoute = False, Ifi = 5, IfRoute = True \<rparr>,
     TFlags = RtTypeInd OR RtTypeIntf, r_Sync = DpStatusOk, r_ZoneNum = 1, r_Mark = 1, NhAttr = [\<lparr> NhAddr = gw, LinkIndex = 5 \<rparr>],
     NextHops = [0], RtDepObjs = [] \<rparr>"

definition root_zone :: "(u64 \<times> u64 \<times> u64 list, (string \<times> trie_data) list) Zone" where
  "root_zone = \<lparr> z_Name = ''root'', ZoneNum = 1,
     Ports = (PortInit sample_net) \<lparr> portImap := [(1, 0)], portSmap := [(''eth0'', 0)], portOmap := [(5, 0)] \<rparr>,
     Vlans = [], L2 = [], Nh = (NeighInit sample_net) \<lparr> NeighMap := [(gw_key, 0)] \<rparr>,
     z_Rt = (RtInit sample_net) \<lparr> RtMap := [(lan_key, 0)], Trie4 := [(IPNet_String lan, TrieNeigh 0)] \<rparr>,
     L3 = [], Sess = SessInit sample_net, Pols = PolInit sample_net, Mirrs = MirrInit sample_net \<rparr>"

definition sample_world :: "(u64 \<times> u64 \<times> u64 list, (string \<times> trie_data) list) world" where
  "sample_world = (ZoneInit sample_net 0) \<lparr> zones := [root_zone], ZoneMap := [(''root'', 0)], ZonePorts := [(''eth0'', 0)],
     ports := [eth0], neighs := [sample_neigh], rts := [sample_rt] \<rparr>"

lemma sample_wf: "net_wf lpm_data sample_world"
proof -
  let ?S = "\<lparr> s_ports = 1, s_neighs = [gw_key], s_fdbs = [], s_rts = [lan_key], s_teps = 0 \<rparr>"
  have "shape_of sample_world = ?S" by (simp add: shape_of_def sample_world_def ZoneInit_def sample_neigh_def sample_rt_def)
  moreover have "neigh_ok ?S sample_neigh" by (simp add: neigh_ok_def sample_neigh_def zero_neigh_def)
  moreover have "rt_ok ?S sample_rt" by (simp add: rt_ok_def sample_rt_def)
  moreover have "port_ok ?S eth0" by (simp add: port_ok_def eth0_def)
  moreover have "zone_ok lpm_data ?S root_zone"
    by (simp add: zone_ok_def root_zone_def PortInit_def NeighInit_def RtInit_def tab_ok_def ptr_ok_def lpm_data_def sample_net_def)
  ultimately show ?thesis by (simp add: net_wf_def net_ok_def sample_world_def ZoneInit_def ptr_ok_def)
qed


text \<open>C4. Deletion of routes and neighbours on well-formed stores ends and takes effect, although each may
delete the other.  A route that is known is gone afterwards, unless it was at once the host route of a
neighbour and a route of an interface; then it stays as a host route only.  A neighbour that is known cannot
be found any more, be it removed or inactive and waiting for the routes that still use it.\<close>

theorem net_delete_effect:
  assumes "trie_laws env D" "net_wf D w" "z < length (zones w)" "RtFind z dst zns w = Some r" "\<not> rt_skip env dst"
    "gm_get (nh_map z w) (IP_String addr, zns', link) = Some n"
  shows "(\<exists>w'. RtDelete env z dst zns w = Some (Ok, w') \<and> net_wf D w' \<and> pairs w' \<le> pairs w \<and>
      (if HostRoute (r_Attr (rt w r)) \<and> IfRoute (r_Attr (rt w r))
       then RtFind z dst zns w' = Some r \<and> r_Attr (rt w' r) = (r_Attr (rt w r)) \<lparr> IfRoute := False \<rparr>
       else RtFind z dst zns w' = None)) \<and>
    (\<exists>w'. NeighDelete env z addr zns' link w = Some (Ok, w') \<and> net_wf D w' \<and> pairs w' \<le> pairs w \<and> NeighFind z addr zns' link w' = None)"
  using rt_del_spec [OF assms(1-3), of dst zns False] NeighDelete_spec [OF assms(1-3), of addr zns' link] assms(4-6)
  by (auto simp: RtDelete_def rt_deleted_def neigh_deleted_def Let_def shrink_def good_def)

theorem net_delete_effect_witness:
  "(\<exists>w'. RtDelete sample_net 0 lan ''root'' sample_world = Some (Ok, w') \<and> RtFind 0 lan ''root'' w' = None) \<and>
   (\<exists>w'. NeighDelete sample_net 0 gw ''root'' 5 sample_world = Some (Ok, w') \<and> NeighFind 0 gw ''root'' 5 w' = None)"
proof -
  have "zones sample_world = [root_zone]" "rts sample_world = [sample_rt]" by (simp_all add: sample_world_def)
  moreover have "RtFind 0 lan ''root'' sample_world = Some 0" "gm_get (nh_map 0 sample_world) gw_key = Some 0"
    by (simp_all add: RtFind_def sample_world_def root_zone_def)
  moreover have "\<not> rt_skip sample_net lan" by (simp add: rt_skip_def sample_net_def)
  ultimately show ?thesis using net_delete_effect [OF sample_net_laws sample_wf, of 0 lan "''root''" 0 gw "''root''" 5 0]
    by (auto simp: sample_rt_def)
qed

end
