(* ===== verification/NetProps.thy ===== *)
theory NetProps
  imports NetHistory
begin

text \<open>Properties of ports, VLANs and forwarding entries that go beyond well-formedness: what the deletion of a
port removes, what becomes of a port that is taken out of a VLAN it is not in, and the reference counts of
forwarding entries.\<close>

subsection \<open>Loops that only take away\<close>

lemma range_map_shrinks:
  assumes "\<And>w k v. net_wf D w \<Longrightarrow> length (zones w) = n \<Longrightarrow> gm_get (m w) k = Some v \<Longrightarrow> shrinks D w (body v w)"
    "net_wf D w" "length (zones w) = n"
  shows "shrinks D w (range_map m body ks w)"
  using assms(2,3)
proof (induction ks arbitrary: w)
  case (Cons k ks)
  show ?case
  proof (cases "gm_get (m w) k")
    case (Some v)
    obtain w1 where w1: "body v w = Some w1" "shrink D w w1" using assms(1) [OF Cons.prems Some] by (auto simp: shrinks_def)
    then show ?thesis using Some Cons.IH [OF shrink_wf [OF w1(2)]] Cons.prems(2) shrink_len(4) [OF w1(2)] shrinks_after [OF w1(2)] by simp
  qed (use Cons in simp)
qed simp

lemma RtDelete_returns: "trie_laws env D \<Longrightarrow> net_wf D w \<Longrightarrow> z < length (zones w) \<Longrightarrow> returns D w (RtDelete env z dst zns w)"
  using rt_del_spec [of env D w z dst zns False] by (auto simp: returns_def RtDelete_def)

lemma NeighDelete_returns: "trie_laws env D \<Longrightarrow> net_wf D w \<Longrightarrow> z < length (zones w) \<Longrightarrow> returns D w (NeighDelete env z addr zns link w)"
  using NeighDelete_spec [of env D w z addr zns link] by (auto simp: returns_def)

lemma shrinks_snd: "returns D w x \<Longrightarrow> shrinks D w (map_option snd x)"
  by (auto simp: returns_def)

lemma rt_del_hops_shrinks:
  assumes "trie_laws env D" "net_wf D w" "z < length (zones w)"
  shows "shrinks D w (rt_del_hops env z name dst ns w)"
  using assms(2,3)
proof (induction ns arbitrary: w)
  case (Cons n ns)
  obtain r w1 where w1: "RtDelete env z dst (z_Name (zone w z)) w = Some (r, w1)" "shrink D w w1"
    using RtDelete_returns [OF assms(1) Cons.prems] by (force simp: returns_def)
  then show ?case using Cons.IH [OF shrink_wf [OF w1(2)]] Cons.IH [OF Cons.prems] Cons.prems(2) shrink_len(4) [OF w1(2)] shrinks_after [OF w1(2)] by simp
qed simp

lemma RtDeleteByPort_shrinks:
  assumes "trie_laws env D" "net_wf D w" "z < length (zones w)"
  shows "shrinks D w (RtDeleteByPort env z name w)"
  unfolding RtDeleteByPort_def
  by (rule range_map_shrinks [OF _ assms(2) refl]) (use assms(3) rt_del_hops_shrinks [OF assms(1)] in \<open>auto split: option.split\<close>)

lemma NeighDeleteByPort_shrinks:
  assumes "trie_laws env D" "net_wf D w" "z < length (zones w)"
  shows "shrinks D w (NeighDeleteByPort env z name w)"
  unfolding NeighDeleteByPort_def neigh_del_key_def
  by (rule range_map_shrinks [OF _ assms(2) refl]) (use assms(3) NeighDelete_returns [OF assms(1)] in \<open>auto intro!: shrinks_snd\<close>)

lemma put_l3_shrink: "net_wf D w \<Longrightarrow> shrink D w (put_l3 z l3 w)"
  unfolding put_l3_def by (rule shrink_set_zone) (simp_all add: zone_ok_def)

lemma zn_IfaDeleteAll_shrinks:
  assumes "trie_laws env D" "net_wf D w" "zones w \<noteq> []"
  shows "shrinks D w (zn_IfaDeleteAll env z ob w)"
proof -
  let ?x = "IfaDeleteAll (l3_routes env z w) ob (L3 (zone w z), Some w, [])"
  define P where "P = (\<lambda>r. shrinks D w r)"
  have del: "P (snd (l3_env.rt_del (l3_routes env z w) l3 net r))" if r: "P r" for l3 net r
  proof -
    obtain w1 where w1: "r = Some w1" "shrink D w w1" using r by (auto simp: P_def shrinks_def)
    have p: "shrink D w1 (put_l3 z l3 w1)" by (rule put_l3_shrink [OF shrink_wf [OF w1(2)]])
    have "0 < length (zones (put_l3 z l3 w1))" using assms(3) shrink_len(4) [OF w1(2)] shrink_len(4) [OF p] by simp
    then obtain ret w2 where "RtDelete env 0 net RootZone (put_l3 z l3 w1) = Some (ret, w2)" "shrink D (put_l3 z l3 w1) w2"
      using RtDelete_returns [OF assms(1) shrink_wf [OF p]] by (force simp: returns_def)
    then show ?thesis using w1 shrink_trans [OF w1(2) shrink_trans [OF p]] by (simp add: P_def l3_routes_def on_world_def)
  qed
  have routes: "P (del_self_routes (l3_routes env z w) l3 addr net r)" if "P r" for l3 addr net r
    using that del by (simp add: del_self_routes_def Let_def split: option.split)
  have one: "P (fst (snd (snd (IfaDelete (l3_routes env z w) ob' cidr st))))" if "P (fst (snd st))" for ob' cidr st
    using that routes by (cases st) (simp add: IfaDelete_def Let_def split: option.split)
  have all: "P (fst (snd (del_all (l3_routes env z w) ob n i arr m st)))" if "P (fst (snd st))" for n i arr m st
    using that
  proof (induction n arbitrary: i arr m st)
    case (Suc n)
    have "P (fst (snd (del_all (l3_routes env z w) ob n (Suc i) a k (snd (IfaDelete (l3_routes env z w) ob cidr st)))))" for a k cidr
      by (rule Suc.IH [OF one [OF Suc.prems]])
    then show ?case by (simp add: Let_def split: option.split)
  qed simp
  have "P (fst (snd ?x))" using all [of "(L3 (zone w z), Some w, [])"] assms(2)
    by (simp add: IfaDeleteAll_def Let_def split_beta P_def split: option.split)
  then obtain w1 where w1: "fst (snd ?x) = Some w1" "shrink D w w1" by (auto simp: P_def shrinks_def)
  have "zn_IfaDeleteAll env z ob w = Some (to_dp (map RouterMacQ (snd (snd ?x))) (put_l3 z (fst ?x) w1))"
    using w1(1) by (simp add: zn_IfaDeleteAll_def run_l3_def split_beta)
  then show ?thesis using shrink_step [OF shrink_step [OF w1(2) put_l3_shrink] shrink_to_dp] by simp
qed

subsection \<open>Deleting a port that is no member\<close>

lemma ports_of_smap:
  assumes "ports_of w' = ports_of w" "z < length (zones w)"
  shows "smap z w' = smap z w" "Vlans (zone w' z) = Vlans (zone w z)"
proof -
  have e: "map Ports (zones w') = map Ports (zones w)" "map Vlans (zones w') = map Vlans (zones w)" using assms(1) by (simp_all add: ports_of_def)
  have l: "length (zones w') = length (zones w)" using arg_cong [OF e(1), of length] by simp
  show "smap z w' = smap z w" using arg_cong [OF e(1), of "\<lambda>xs. xs ! z"] assms(2) l by simp
  show "Vlans (zone w' z) = Vlans (zone w z)" using arg_cong [OF e(2), of "\<lambda>xs. xs ! z"] assms(2) l by simp
qed

lemma Port_DP_frame: "zones (dp_port work q w) = zones w" "length (ports (dp_port work q w)) = length (ports w)"
  by (simp_all add: Port_DP_def port_leaf_def to_dp_def set_sinfo_def set_port_def Let_def split: option.split prod.split)

lemma ZonePortDelete_zones: "zones (snd (ZonePortDelete name w)) = zones w"
  by (simp add: ZonePortDelete_def split: option.split)

lemma port_drop_gone:
  assumes "trie_laws env D" "net_wf D w" "z < length (zones w)" "\<And>zn. zo = Some zn \<Longrightarrow> zn < length (zones w)"
  shows "\<exists>w'. port_drop env z name zo q w = Some w' \<and> length (zones w') = length (zones w) \<and>
    PortFindByName z name w' = None \<and> Vlans (zone w' z) = Vlans (zone w z)"
proof -
  define w1 where "w1 = snd (ZonePortDelete name (set_sinfo q (\<lambda>s. s \<lparr> PortReal_p := None, PortActive := False \<rparr>) w))"
  define w2 where "w2 = set_zone z (\<lambda>zn. zn \<lparr> Ports := (Ports zn) \<lparr> portOmap := gm_del (OsID (SInfo (port w1 q))) (portOmap (Ports zn)),
           portSmap := gm_del name (portSmap (Ports zn)), portImap := gm_del (PortNo (port w1 q)) (portImap (Ports zn)) \<rparr> \<rparr>) w1"
  have g1: "good D w w1" unfolding w1_def by (rule good_step [OF good_real_none(2) ZonePortDelete_good]) (simp add: assms(2))
  have g2: "good D w1 w2" unfolding w2_def by (rule good_set_zone [OF good_wf [OF g1]]) (simp add: zone_ok_def ptr_ok_del)
  have g: "net_wf D w2" using good_wf [OF g2] .
  have z1: "zones w1 = zones w" by (simp add: w1_def ZonePortDelete_zones set_sinfo_def set_port_def)
  have z2: "length (zones w2) = length (zones w)" "PortFindByName z name w2 = None" "Vlans (zone w2 z) = Vlans (zone w z)"
    using assms(3) z1 by (simp_all add: w2_def set_zone_def PortFindByName_def)
  show ?thesis
  proof (cases zo)
    case None
    then show ?thesis using z2 by (simp add: port_drop_def Let_def w1_def w2_def)
  next
    case (Some zn)
    have zn: "zn < length (zones w2)" using assms(4) [OF Some] z2(1) by simp
    let ?n = "p_Name (port w1 q)"
    obtain w3 where e3: "RtDeleteByPort env zn ?n w2 = Some w3" and s3: "shrink D w2 w3"
      using RtDeleteByPort_shrinks [OF assms(1) g zn] by (force simp: shrinks_def)
    obtain w4 where e4: "NeighDeleteByPort env zn ?n w3 = Some w4" and s4: "shrink D w3 w4"
      using NeighDeleteByPort_shrinks [OF assms(1) shrink_wf [OF s3]] zn shrink_len(4) [OF s3] by (force simp: shrinks_def)
    have zn4: "zones w4 \<noteq> []" using zn shrink_len(4) [OF s3] shrink_len(4) [OF s4] by auto
    obtain w5 where e5: "zn_IfaDeleteAll env zn ?n w4 = Some w5" and s5: "shrink D w4 w5"
      using zn_IfaDeleteAll_shrinks [OF assms(1) shrink_wf [OF s4] zn4] by (force simp: shrinks_def)
    have s: "shrink D w2 w5" using shrink_trans [OF s3 shrink_trans [OF s4 s5]] .
    have z5: "z < length (zones w2)" using assms(3) z2(1) by simp
    have "port_drop env z name zo q w = Some w5" using Some e3 e4 e5 by (simp add: port_drop_def Let_def w1_def w2_def)
    then show ?thesis using z2 shrink_len(4) [OF s] ports_of_smap [OF shrink_ports [OF s] z5] by (simp add: PortFindByName_def)
  qed
qed

text \<open>C40. Taking a port out of a VLAN it does not belong to deletes the port.  \<open>VlanPortDelete\<close> for an untagged
member does not check membership; it asks \<open>PortDel\<close> to end the membership, and for a plain port that call
deletes the port itself with its routes, neighbours and addresses.  The call reports success, and the count of
untagged members of the VLAN is one less than before, so that a VLAN without members cannot be deleted
afterwards.\<close>

theorem vlan_port_delete_nonmember:
  assumes "trie_laws env D" "net_wf D w" "z < length (zones w)" "VlanValid vid" "Created (vlan z vid w)"
    "PortFindByName z name w = Some q" "PortType (SInfo (port w q)) = PortReal" "in_bounds (PortNo (port w q))"
    "gm_get (portImap (Ports (zone w z))) (PortNo (port w q)) \<noteq> None" "gm_get (portOmap (Ports (zone w z))) (OsID (SInfo (port w q))) \<noteq> None"
  shows "\<exists>w'. VlanPortDelete env z vid name False w = Some (Ok, w') \<and> PortFindByName z name w' = None \<and>
    NumUnTagPorts (vlan z vid w') = NumUnTagPorts (vlan z vid w) - 1 \<and>
    (NumUnTagPorts (vlan z vid w) = 0 \<longrightarrow> VlanDelete env z vid w' = Some (Err VlanMpExistErr ''Vlan has ports configured'', w'))"
proof -
  let ?p = "port w q" and ?w1 = "dp_port DpRemove q w"
  let ?zo = "GetPortZone (p_Name ?p) ?w1"
  have leave: "port_leave q PortVlanSif w = None" using assms(7) by (simp add: port_leave_def Let_def has_def)
  have g1: "good D w ?w1" by (rule Port_DP_good [OF assms(2)])
  have q: "q < length (ports w)" using net_wf_PortFindByName [OF assms(2,3,6)] .
  have ty: "PortType (SInfo (port ?w1 q)) = PortReal"
    using assms(7) q by (simp add: Port_DP_def port_leaf_def to_dp_def set_sinfo_def set_port_def Let_def split: option.split prod.split)
  have un: "port_untype env vd ?zo q ?w1 = Some ?w1" for vd using ty by (simp add: port_untype_def Let_def)
  have z1: "z < length (zones ?w1)" using assms(3) by (simp add: Port_DP_frame)
  obtain w2 where w2: "port_drop env z name ?zo q ?w1 = Some w2" "length (zones w2) = length (zones ?w1)"
    "PortFindByName z name w2 = None" "Vlans (zone w2 z) = Vlans (zone ?w1 z)"
    using port_drop_gone [OF assms(1) good_wf [OF g1] z1, of ?zo name q] net_wf_GetPortZone [OF good_wf [OF g1]] by blast
  have "PortDel env z name PortVlanSif w = Some (Ok, w2)"
    using assms(6,8-10) leave un w2(1) by (simp add: PortDel_def port_del_def Let_def)
  then have d: "VlanPortDelete env z vid name False w = Some (Ok, set_vlan z vid (\<lambda>v. v \<lparr> UnTaggedPorts := gm_del (PortNo (port w2 q)) (UnTaggedPorts v),
      NumUnTagPorts := NumUnTagPorts v - 1 \<rparr>) w2)" (is "_ = Some (Ok, ?w')")
    using assms(4-6,8) by (simp add: VlanPortDelete_def Let_def)
  have v: "Vlans (zone w2 z) = Vlans (zone w z)" using w2(4) by (simp add: Port_DP_frame)
  have z2: "z < length (zones w2)" using z1 w2(2) by simp
  have "PortFindByName z name ?w' = None" using w2(3) z2 by (simp add: PortFindByName_def set_vlan_def set_zone_def)
  moreover have n: "NumUnTagPorts (vlan z vid ?w') = NumUnTagPorts (vlan z vid w) - 1" "Created (vlan z vid ?w')"
    using z2 v assms(5) by (simp_all add: set_vlan_def set_zone_def VlanMap_def)
  ultimately show ?thesis using d assms(4) n by (simp add: VlanDelete_def vlan_delete_def Let_def)
qed

theorem vlan_port_delete_nonmember_witness:
  "\<exists>w w'. PortFindByName 0 ''eth0'' w = Some 0 \<and> UnTaggedPorts (vlan 0 100 w) = [] \<and>
     VlanPortDelete sample_net 0 100 ''eth0'' False w = Some (Ok, w') \<and> PortFindByName 0 ''eth0'' w' = None \<and>
     NumUnTagPorts (vlan 0 100 w') = -1 \<and> VlanDelete sample_net 0 100 w' = Some (Err VlanMpExistErr ''Vlan has ports configured'', w')"
proof -
  let ?w = "set_vlan 0 100 (\<lambda>v. v \<lparr> VlanID := 100, Created := True, v_Name := ''vlan100'' \<rparr>) sample_world"
  have z: "zones ?w = [root_zone \<lparr> Vlans := Vlans (zone ?w 0) \<rparr>]" "ports ?w = [eth0]"
    by (simp_all add: set_vlan_def set_zone_def sample_world_def)
  have wf: "net_wf lpm_data ?w" using good_wf [OF good_set_vlan [OF sample_wf]] .
  have v: "Created (vlan 0 100 ?w)" "NumUnTagPorts (vlan 0 100 ?w) = 0" "UnTaggedPorts (vlan 0 100 ?w) = []"
    by (simp_all add: set_vlan_def set_zone_def sample_world_def root_zone_def VlanMap_def zero_vlan_def)
  have f: "PortFindByName 0 ''eth0'' ?w = Some 0" by (subst PortFindByName_def, subst z) (simp add: root_zone_def)
  have p: "PortType (SInfo (port ?w 0)) = PortReal" "in_bounds (PortNo (port ?w 0))"
    "gm_get (portImap (Ports (zone ?w 0))) (PortNo (port ?w 0)) \<noteq> None" "gm_get (portOmap (Ports (zone ?w 0))) (OsID (SInfo (port ?w 0))) \<noteq> None"
    by (simp_all add: set_vlan_def set_zone_def sample_world_def root_zone_def eth0_def in_bounds_def)
  have "0 < length (zones ?w)" "VlanValid 100" by (simp_all add: set_vlan_def set_zone_def sample_world_def VlanValid_def)
  from vlan_port_delete_nonmember [OF sample_net_laws wf this v(1) f p] f v show ?thesis by auto
qed

subsection \<open>Reference counts of forwarding entries\<close>

text \<open>A number of additions or deletions of one entry, each of which must succeed.\<close>

fun fdb_adds :: "('c, 't) net_env \<Rightarrow> nat \<Rightarrow> FdbKey \<Rightarrow> FdbAttr \<Rightarrow> nat \<Rightarrow> ('c, 't) world \<Rightarrow> ('c, 't) world option" where
  "fdb_adds env z key attr 0 w = Some w"
| "fdb_adds env z key attr (Suc n) w = (case L2FdbAdd env z key attr w of Some (Ok, w') \<Rightarrow> fdb_adds env z key attr n w' | _ \<Rightarrow> None)"

fun fdb_dels :: "nat \<Rightarrow> FdbKey \<Rightarrow> nat \<Rightarrow> ('c, 't) world \<Rightarrow> ('c, 't) world option" where
  "fdb_dels z key 0 w = Some w"
| "fdb_dels z key (Suc n) w = (case L2FdbDel z key w of (Ok, w') \<Rightarrow> fdb_dels z key n w' | _ \<Rightarrow> None)"

definition fdb_held :: "nat \<Rightarrow> FdbKey \<Rightarrow> FdbAttr \<Rightarrow> nat \<Rightarrow> nat \<Rightarrow> nat \<Rightarrow> ('c, 't) world \<Rightarrow> bool" where
  "fdb_held z key attr q f c w \<longleftrightarrow> z < length (zones w) \<and> L2FdbFind z key w = Some f \<and> f < length (fdbs w) \<and> f_Key (fdb w f) = key \<and>
     f_Attr (fdb w f) = attr \<and> f_Port (fdb w f) = q \<and> hCnt (fdb w f) = int c \<and> PortFindByName z (Oif attr) w = Some q \<and>
     PortActive (SInfo (port w q)) \<and> PortType (SInfo (port w q)) \<noteq> PortVxlanBr"

lemma Fdb_DP_frame:
  "zones (snd (Fdb_DP work f w)) = zones w" "ports (snd (Fdb_DP work f w)) = ports w" "length (fdbs (snd (Fdb_DP work f w))) = length (fdbs w)"
  "f < length (fdbs w) \<Longrightarrow> f_Key (fdb (snd (Fdb_DP work f w)) f) = f_Key (fdb w f) \<and> f_Attr (fdb (snd (Fdb_DP work f w)) f) = f_Attr (fdb w f) \<and>
     f_Port (fdb (snd (Fdb_DP work f w)) f) = f_Port (fdb w f) \<and> hCnt (fdb (snd (Fdb_DP work f w)) f) = hCnt (fdb w f)"
  by (simp_all add: Fdb_DP_def Let_def set_fdb_def set_fsync_def to_dp_def split: option.split)

lemma fdb_first_add:
  assumes "z < length (zones w)" "L2FdbFind z key w = None" "PortFindByName z (Oif attr) w = Some q"
    "PortActive (SInfo (port w q))" "\<not> has (PortType (SInfo (port w q))) PortVxlanBr"
  shows "\<exists>w' f. L2FdbAdd env z key attr w = Some (Ok, w') \<and> fdb_held z key attr q f 0 w'"
proof -
  have "PortType (SInfo (port w q)) \<noteq> PortVxlanBr" using assms(5) by (auto simp: has_def)
  then show ?thesis using assms
    by (auto simp: L2FdbAdd_def fdb_port_def fdb_create_def Let_def fdb_held_def Fdb_DP_frame L2FdbFind_def PortFindByName_def set_zone_def)
qed

lemma fdb_next_add:
  assumes "fdb_held z key attr q f c w" "FdbType attr = FdbPhy"
  shows "\<exists>w'. L2FdbAdd env z key attr w = Some (Ok, w') \<and> fdb_held z key attr q f (Suc c) w'"
  using assms by (auto simp: fdb_held_def L2FdbAdd_def fdb_port_def l2FdbAttrEqual_def set_fdb_def L2FdbFind_def PortFindByName_def)

lemma fdb_next_del:
  assumes "fdb_held z key attr q f (Suc c) w" "FdbType attr = FdbPhy"
  shows "\<exists>w'. L2FdbDel z key w = (Ok, w') \<and> fdb_held z key attr q f c w'"
  using assms by (auto simp: fdb_held_def L2FdbDel_def set_fdb_def L2FdbFind_def PortFindByName_def)

lemma fdb_last_del:
  assumes "fdb_held z key attr q f 0 w"
  shows "\<exists>w'. L2FdbDel z key w = (Ok, w') \<and> L2FdbFind z key w' = None"
  using assms by (auto simp: fdb_held_def L2FdbDel_def set_fdb_def L2FdbFind_def Let_def Fdb_DP_frame set_zone_def)

lemma fdb_adds_held:
  assumes "fdb_held z key attr q f c w" "FdbType attr = FdbPhy"
  shows "\<exists>w'. fdb_adds env z key attr k w = Some w' \<and> fdb_held z key attr q f (c + k) w'"
  using assms(1)
proof (induction k arbitrary: c w)
  case (Suc k)
  from fdb_next_add [OF Suc.prems assms(2)] obtain w1
    where "L2FdbAdd env z key attr w = Some (Ok, w1)" "fdb_held z key attr q f (Suc c) w1" by blast
  then show ?case using Suc.IH [of "Suc c" w1] by simp
qed simp

lemma fdb_dels_held:
  assumes "fdb_held z key attr q f (c + j) w" "FdbType attr = FdbPhy"
  shows "\<exists>w'. fdb_dels z key j w = Some w' \<and> fdb_held z key attr q f c w'"
  using assms(1)
proof (induction j arbitrary: w)
  case (Suc j)
  from fdb_next_del [of z key attr q f "c + j" w] Suc.prems assms(2) obtain w1
    where "L2FdbDel z key w = (Ok, w1)" "fdb_held z key attr q f (c + j) w1" by auto
  then show ?case using Suc.IH [of w1] by simp
qed simp

lemma fdb_dels_more: "fdb_dels z key k w = Some w1 \<Longrightarrow> L2FdbDel z key w1 = (Ok, w') \<Longrightarrow> fdb_dels z key (Suc k) w = Some w'"
proof (induction k arbitrary: w)
  case (Suc k)
  then obtain w2 where w2: "L2FdbDel z key w = (Ok, w2)" "fdb_dels z key k w2 = Some w1" by (auto split: prod.splits go_ret.splits)
  show ?case using Suc.IH [OF w2(2) Suc.prems(2)] w2(1) by (simp only: fdb_dels.simps(2) [of z key "Suc k"] prod.case go_ret.case)
qed simp

text \<open>C36. Forwarding entries of physical ports are counted.  An entry that is learnt \<open>k + 1\<close> times stays in the
table through \<open>k\<close> deletions and leaves it with the next one, and every one of these calls succeeds.\<close>

theorem fdb_refcount:
  assumes "z < length (zones w)" "L2FdbFind z key w = None" "PortFindByName z (Oif attr) w = Some q"
    "PortActive (SInfo (port w q))" "\<not> has (PortType (SInfo (port w q))) PortVxlanBr" "FdbType attr = FdbPhy"
  shows "\<exists>wk. fdb_adds env z key attr (Suc k) w = Some wk \<and>
    (\<forall>j. j \<le> k \<longrightarrow> (\<exists>w'. fdb_dels z key j wk = Some w' \<and> L2FdbFind z key w' \<noteq> None)) \<and>
    (\<exists>w'. fdb_dels z key (Suc k) wk = Some w' \<and> L2FdbFind z key w' = None)"
proof -
  obtain w0 f where w0: "L2FdbAdd env z key attr w = Some (Ok, w0)" "fdb_held z key attr q f 0 w0" using fdb_first_add [OF assms(1-5)] by blast
  obtain wk where wk: "fdb_adds env z key attr k w0 = Some wk" "fdb_held z key attr q f k wk" using fdb_adds_held [OF w0(2) assms(6), of env k] by auto
  have j: "\<exists>w'. fdb_dels z key j wk = Some w' \<and> fdb_held z key attr q f (k - j) w'" if "j \<le> k" for j
    using fdb_dels_held [of z key attr q f "k - j" j wk] wk(2) assms(6) that by simp
  obtain wl where wl: "fdb_dels z key k wk = Some wl" "fdb_held z key attr q f 0 wl" using j [of k] by auto
  obtain w' where "L2FdbDel z key wl = (Ok, w')" "L2FdbFind z key w' = None" using fdb_last_del [OF wl(2)] by blast
  then have "fdb_dels z key (Suc k) wk = Some w'" "L2FdbFind z key w' = None" using fdb_dels_more [OF wl(1)] by simp_all
  moreover have "\<exists>w'. fdb_dels z key j wk = Some w' \<and> L2FdbFind z key w' \<noteq> None" if "j \<le> k" for j using j [OF that] by (auto simp: fdb_held_def)
  ultimately show ?thesis using w0(1) wk(1) by auto
qed

theorem fdb_refcount_witness:
  "\<exists>wk. fdb_adds sample_net 0 ([2, 0, 0, 0, 0, 9], 3801) \<lparr> Oif = ''eth0'', f_Dst = [], FdbType = FdbPhy \<rparr> 3 sample_world = Some wk \<and>
    (\<exists>w'. fdb_dels 0 ([2, 0, 0, 0, 0, 9], 3801) 2 wk = Some w' \<and> L2FdbFind 0 ([2, 0, 0, 0, 0, 9], 3801) w' \<noteq> None) \<and>
    (\<exists>w'. fdb_dels 0 ([2, 0, 0, 0, 0, 9], 3801) 3 wk = Some w' \<and> L2FdbFind 0 ([2, 0, 0, 0, 0, 9], 3801) w' = None)"
proof -
  let ?k = "([2, 0, 0, 0, 0, 9], 3801)" and ?a = "\<lparr> Oif = ''eth0'', f_Dst = [], FdbType = FdbPhy \<rparr>"
  have "0 < length (zones sample_world)" "L2FdbFind 0 ?k sample_world = None" "PortFindByName 0 (Oif ?a) sample_world = Some 0"
    "PortActive (SInfo (port sample_world 0))" "\<not> has (PortType (SInfo (port sample_world 0))) PortVxlanBr" "FdbType ?a = FdbPhy"
    by (simp_all add: sample_world_def root_zone_def L2FdbFind_def PortFindByName_def eth0_def has_def)
  from fdb_refcount [OF this, of sample_net 2] show ?thesis by (auto simp: numeral_3_eq_3 numeral_2_eq_2)
qed

end
