(* ===== verification/Spec2Isabelle.thy ===== *)
theory Spec2Isabelle
  imports IdMarker Bfd IPPool NetUtils RuleKey LbEndpoints DpBroker XSync Cluster RefTable EpHosts Layer3 Vips VipBurst
    RuleState FwRules LbDp LbRules RuleSync NumTable RuleInv RuleHistory FwProps LbProps ZoneOps NetHistory NetProps
begin

text \<open>
A verification library for the control plane of the load balancer \<open>loxilb\<close>: the Go packages
\<open>pkg/loxinet\<close>, \<open>pkg/proto\<close>, \<open>pkg/utils\<close>, \<open>api/ippool\<close> and the request types of \<open>common\<close>.

\<^bold>\<open>The program.\<close>
A user or an agent asks for load-balancer and firewall rules.  The rule subsystem (\<open>rules.go\<close>) stores
a rule under a string key and under a number of an allocator (\<open>marker.go\<close>), keeps the end-points of
a rule and the hosts it probes, claims the virtual addresses of the rules (\<open>vipadv.go\<close>), and hands
work to the data-path broker (\<open>dpbroker.go\<close>), which queues it for the kernel and copies connection
state to the cluster peers.  Which node owns the addresses is decided by the BFD protocol
(\<open>bfd.go\<close>), whose decisions reach the rules through the cluster component (\<open>cluster.go\<close>).
Below the rules lies the network state of the security zones (\<open>zones.go\<close>): ports, VLAN bridges,
forwarding entries, neighbours, routes, interface addresses, user sessions, policers and mirrors, which
point at each other and send their own work to the broker.

\<^bold>\<open>Conventions.\<close>
Machine integers are words of their width, with wrap-around; Go's \<open>int\<close> is \<open>int\<close> where it holds
table sizes and flags.  A Go map is an association list with distinct keys (\<open>gm_get\<close>, \<open>gm_put\<close>,
\<open>gm_del\<close> of \<open>Prelude\<close>), a \<open>range\<close> loop is a recursion over it, and theorems hold for every
order of the list.  An error return is \<open>Err code text\<close>; \<open>None\<close> of an operation's result means that
the Go code panics or does not return, so \<open>Some\<close> in a conclusion says that it returns.  Objects that are
shared through pointers live in stores (lists to which \<open>new\<close> appends) and a pointer is a position.
Sockets, netlink, the eBPF maps, wall-clock time, the counters and prefix tries of the external library
\<open>loxilib\<close>, and the RPC transport are arguments (\<open>net_env\<close>, \<open>l3_env\<close>, \<open>host_env\<close>, callbacks); what is
assumed of them is a hypothesis of the theorem that needs it and is discharged in its witness by a
concrete instance.  Mutexes are not modelled as such: an operation that holds its lock throughout is one
step, and goroutines that interleave (the BFD notifier, the cluster worker, the advertisement bursts, the
broker queue) are inductive step relations.

\<^bold>\<open>Theories and sources.\<close>
  \<^item> \<open>Prelude\<close>, \<open>GoNet\<close>: maps, results, and what the sources use of Go's \<open>net\<close>, \<open>strconv\<close>,
    \<open>fmt\<close>: addresses, prefixes, decimal numbers, big-endian integers.
  \<^item> \<open>IdMarker\<close> (\<open>pkg/utils/marker.go\<close>): the allocator as a free list inside an array.
    Identifiers handed out are unique and in range, and allocation fails only when all are held.  The
    locale of allocators is interpreted here and used by the rule tables.
  \<^item> \<open>Bfd\<close> (\<open>pkg/proto/bfd.go\<close>): packet codec, session state machine, election, time-outs, session
    table, notifier goroutine.  Codec round trip, handshake, stability of the master, no lost
    notification, and the exact condition for the panic on short datagrams.
  \<^item> \<open>IPPool\<close> (\<open>api/ippool/*.go\<close>): address set, generator, pool; assigned addresses are fresh
    hosts of the subnet and the search ends.
  \<^item> \<open>NetUtils\<close> (\<open>pkg/utils/net.go\<close>): advertisement frames and checksums (equal to the one's
    complement sum), choice of the egress address.
  \<^item> \<open>RuleKey\<close>, \<open>LbEndpoints\<close>, \<open>EpHosts\<close>, \<open>RuleState\<close>, \<open>FwRules\<close>, \<open>LbDp\<close>, \<open>LbRules\<close>,
    \<open>RuleSync\<close> (\<open>rules.go\<close>): keys of rules, end-point merging and weighted slots, probed hosts, the
    state \<open>RuleH\<close>, firewall rules, programming of the data path, load-balancer rules
    (\<open>AddLbRule\<close>, \<open>DeleteLbRule\<close>), listing and the periodic \<open>RulesSync\<close>.
  \<^item> \<open>RefTable\<close>, \<open>NumTable\<close>: the contract of reference-counted tables as the locale \<open>ref_table\<close>,
    interpreted on the tables of hosts (\<open>EpHosts\<close>) and of virtual addresses (\<open>Vips\<close>), and lemmas on
    tables whose entries carry allocated numbers.  The other interfaces are \<open>id_allocator\<close>
    (\<open>IdMarker\<close>) and \<open>addr_set\<close> (\<open>IPPool\<close>).
  \<^item> \<open>RuleInv\<close>, \<open>RuleHistory\<close>, \<open>FwProps\<close>, \<open>LbProps\<close>: the invariant of the rule tables, its
    preservation by every operation including the nested firewall rules of allowed sources, refinement
    of an abstract key-to-number table along arbitrary histories, round trips of addition and deletion,
    and three behaviours a user would not expect.
  \<^item> \<open>Vips\<close>, \<open>VipBurst\<close> (\<open>vipadv.go\<close>, \<open>rules.go\<close>): virtual addresses, their advertisement
    and the bursts after a fail-over.
  \<^item> \<open>DpBroker\<close>, \<open>XSync\<close> (\<open>dpbroker.go\<close>): work items, dispatch, barrier, connection keys and
    the calls to the peers.
  \<^item> \<open>Cluster\<close> (\<open>cluster.go\<close>): instances, state changes, the sync worker (it never loses an update
    and stops), BFD sessions and nodes of a cluster.
  \<^item> \<open>Layer3\<close> (\<open>layer3.go\<close>): interface addresses, source address selection, self-routes.
  \<^item> \<open>NetState\<close>: the records and stores of the network state; \<open>PortOps\<close> (\<open>port.go\<close>), \<open>VlanOps\<close>
    (\<open>vlan.go\<close>, additions of \<open>port.go\<close>), \<open>NeighOps\<close> (\<open>neighbor.go\<close>), \<open>L2Ops\<close>
    (\<open>layer2.go\<close>), \<open>RtOps\<close> (\<open>route.go\<close> and the part of \<open>neighbor.go\<close> that calls it),
    \<open>SessOps\<close> (\<open>session.go\<close>), \<open>PolMirr\<close> (\<open>qospol.go\<close>, \<open>mirror.go\<close>), \<open>ZoneOps\<close>
    (\<open>zones.go\<close>, deletions of \<open>port.go\<close> and \<open>vlan.go\<close>).
  \<^item> \<open>NetWf\<close>, \<open>NetAdd\<close>, \<open>NetPorts\<close>, \<open>NetHistory\<close>: a well-formed network state (pointers
    of objects, tables and tries refer to objects, tables hold objects under their own key), that the
    mutually recursive deletions and additions of routes and neighbours return and keep it, that
    operations on ports, VLANs, addresses, sessions, policers, mirrors and the tickers keep it, and type
    safety along arbitrary histories from the empty state.
  \<^item> \<open>NetProps\<close>: what the deletion of a port removes, a port that is taken out of a VLAN it is not
    in, and the reference counts of forwarding entries.

\<^bold>\<open>Bounds and fuel.\<close>
\<open>AssignNewIPv4\<close> searches at most as many addresses as the subnet has, which the proof of
freshness shows to be enough.  Deletion of routes and neighbours recurses through pairs of a neighbour and a
route and each level removes one, so \<open>rt_del\<close> takes one more than their number.  Adding a route
may delete a changed route first and may add a neighbour whose host route is added in turn, which is at most
three levels each; \<open>RtAdd\<close> takes depth six, and \<open>NetAdd\<close> proves that this returns on
every well-formed state.  Adding a port adds at most the VLAN bridge above it (\<open>port_add_to\<close>, two
levels), and deleting a VTI port deletes its VLAN, which deletes the port of the VLAN; \<open>PortDel\<close>
takes a depth of the number of VLANs plus two, and a chain that is longer visits a VLAN twice and does not end
in the code either.  The loops of the cluster worker and of the notifier are not bounded; they are step
relations, and that the worker stops is a theorem.

\<^bold>\<open>Not modelled.\<close>
The eBPF back end (\<open>dpebpf_linux.go\<close>, C and kernel calls), netlink and IPVS agents, the BGP client,
Prometheus, the generated REST server and its handlers, cloud SDK hooks, user and token storage, log
rotation, the RPC transports and process start-up are input and output around the modelled components:
they appear as arguments or not at all.  Of the modelled files the text and JSON dumps
(\<open>Ports2String\<close> and its like), logging, the set-up of the cluster VxLAN device, TLS probing and file
helpers are left out, and so is the debug output of the listings.  Fields that only the data path writes
(packet counters of routes and sessions) are not part of the state.
\<close>

end
